(* ===== verification/Prelude.thy ===== *)
theory Prelude
  imports
    Main
    "HOL-Library.Word"
    "HOL-Library.List_Lexorder"
    "HOL-Library.Char_ord"
    "HOL-Library.Product_Lexorder"
    "HOL-Library.Multiset"
    "HOL-Library.Sublist"
begin

text \<open>
  Vocabulary shared by every component: the Rust standard-library operations the crate uses on
  strings, integers and ordered collections, the result type, and the generic lemmas about them.

  A Rust \<open>str\<close> is its sequence of UTF-8 bytes, so it is modelled as \<^typ>\<open>string\<close> read as a byte
  list: \<open>len\<close> counts bytes, \<open>Ord\<close> is the bytewise lexicographic order of
  \<open>HOL-Library.List_Lexorder\<close>, and every operation on ASCII characters is exact. Only \<open>trim\<close>
  needs Unicode: it removes the byte encodings of the code points with the White\_Space property.
\<close>

named_theorems ok_iff \<comment> \<open>when a fallible operation returns \<open>Ok\<close>\<close>
named_theorems digit_simps \<comment> \<open>decimal digits and their characters\<close>

section \<open>Results\<close>

text \<open>\<open>Result<T, E>\<close> is \<^typ>\<open>'e + 'a\<close>: \<^const>\<open>Inl\<close> is \<open>Err\<close>, \<^const>\<open>Inr\<close> is \<open>Ok\<close>.\<close>

fun bind_ok :: "'e + 'a \<Rightarrow> ('a \<Rightarrow> 'e + 'b) \<Rightarrow> 'e + 'b" where
  "bind_ok (Inl e) f = Inl e"
| "bind_ok (Inr x) f = f x"

fun map_err :: "('e \<Rightarrow> 'f) \<Rightarrow> 'e + 'a \<Rightarrow> 'f + 'a" where
  "map_err f (Inl e) = Inl (f e)"
| "map_err f (Inr x) = Inr x"

fun ok_or :: "'e \<Rightarrow> 'a option \<Rightarrow> 'e + 'a" where
  "ok_or e None = Inl e"
| "ok_or e (Some x) = Inr x"

fun is_ok :: "'e + 'a \<Rightarrow> bool" where
  "is_ok (Inl e) = False"
| "is_ok (Inr x) = True"

fun err_opt :: "'e + 'a \<Rightarrow> 'e option" where
  "err_opt (Inl e) = Some e"
| "err_opt (Inr x) = None"

text \<open>\<open>iter.map(f).collect::<Result<Vec<_>>>()\<close>: the first error stops the collection.\<close>

fun map_ok :: "('a \<Rightarrow> 'e + 'b) \<Rightarrow> 'a list \<Rightarrow> 'e + 'b list" where
  "map_ok f [] = Inr []"
| "map_ok f (x # xs) = bind_ok (f x) (\<lambda>y. bind_ok (map_ok f xs) (\<lambda>ys. Inr (y # ys)))"

lemma bind_ok_iff [ok_iff]: "bind_ok m f = Inr y \<longleftrightarrow> (\<exists>x. m = Inr x \<and> f x = Inr y)"
  by (cases m) auto

lemma map_err_iff [ok_iff]: "map_err f m = Inr y \<longleftrightarrow> m = Inr y"
  by (cases m) auto

lemma map_err_Inl: "map_err f m = Inl y \<longleftrightarrow> (\<exists>x. m = Inl x \<and> y = f x)"
  by (cases m) auto

lemma bind_ok_Inl: "bind_ok m f = Inl e \<longleftrightarrow> m = Inl e \<or> (\<exists>x. m = Inr x \<and> f x = Inl e)"
  by (cases m) auto

lemma ok_or_iff [ok_iff]: "ok_or e m = Inr y \<longleftrightarrow> m = Some y"
  by (cases m) auto

lemma is_ok_iff: "is_ok m \<longleftrightarrow> (\<exists>y. m = Inr y)"
  by (cases m) auto

lemma map_ok_list_all2: "map_ok f xs = Inr ys \<longleftrightarrow> list_all2 (\<lambda>x y. f x = Inr y) xs ys"
proof (induction xs arbitrary: ys)
  case (Cons x xs)
  then show ?case by (cases ys) (auto simp: ok_iff)
qed (auto simp: eq_commute)

section \<open>Machine integers\<close>

type_synonym u8 = "8 word"
type_synonym u16 = "16 word"
type_synonym u32 = "32 word"
type_synonym u64 = "64 word"
type_synonym i32 = "32 word" \<comment> \<open>two's complement, read by \<^const>\<open>sint\<close>\<close>

definition checked_add :: "u64 \<Rightarrow> u64 \<Rightarrow> u64 option" where
  "checked_add a b = (if unat a + unat b < 2 ^ 64 then Some (a + b) else None)"

definition checked_mul :: "u64 \<Rightarrow> u64 \<Rightarrow> u64 option" where
  "checked_mul a b = (if unat a * unat b < 2 ^ 64 then Some (a * b) else None)"

definition saturating_mul :: "u64 \<Rightarrow> u64 \<Rightarrow> u64" where
  "saturating_mul a b = (if unat a * unat b < 2 ^ 64 then a * b else -1)"

lemma checked_add_Some: "checked_add a b = Some c \<Longrightarrow> unat c = unat a + unat b"
  by (auto simp: checked_add_def unat_word_ariths split: if_splits)

lemma checked_mul_Some: "checked_mul a b = Some c \<Longrightarrow> unat c = unat a * unat b"
  by (auto simp: checked_mul_def unat_word_ariths split: if_splits)

lemma unat_saturating_mul: "unat (saturating_mul a b) = min (unat a * unat b) (2 ^ 64 - 1)"
  by (auto simp: saturating_mul_def unat_word_ariths unsigned_minus_1_eq_mask mask_eq_exp_minus_1)

end
