(* ===== verification/Strings.thy ===== *)
theory Strings
  imports Prelude
begin

text \<open>
  The operations of Rust's \<open>str\<close> and \<open>char\<close> that the crate calls, on UTF-8 byte strings:
  prefixes and suffixes, \<open>split\<close>, \<open>split_once\<close>, \<open>find\<close>, \<open>rfind\<close>, \<open>replace\<close>, \<open>trim\<close>, the ASCII
  classes, decimal parsing and printing. The lemmas are the algebra that the path, time, schedule
  and manifest components rest on.
\<close>

section \<open>Characters\<close>

definition is_ascii_digit :: "char \<Rightarrow> bool" where
  "is_ascii_digit c \<longleftrightarrow> (48::nat) \<le> of_char c \<and> of_char c \<le> (57::nat)"

definition is_ascii_upper :: "char \<Rightarrow> bool" where
  "is_ascii_upper c \<longleftrightarrow> (65::nat) \<le> of_char c \<and> of_char c \<le> (90::nat)"

definition is_ascii_lower :: "char \<Rightarrow> bool" where
  "is_ascii_lower c \<longleftrightarrow> (97::nat) \<le> of_char c \<and> of_char c \<le> (122::nat)"

definition is_ascii_alphanumeric :: "char \<Rightarrow> bool" where
  "is_ascii_alphanumeric c \<longleftrightarrow> is_ascii_digit c \<or> is_ascii_upper c \<or> is_ascii_lower c"

text \<open>\<open>char::is_ascii_whitespace\<close>: space, tab, line feed, form feed, carriage return.\<close>

definition is_ascii_whitespace :: "char \<Rightarrow> bool" where
  "is_ascii_whitespace c \<longleftrightarrow> c \<in> {CHR 0x20, CHR 0x09, CHR 0x0A, CHR 0x0C, CHR 0x0D}"

definition to_ascii_lowercase :: "char \<Rightarrow> char" where
  "to_ascii_lowercase c = (if is_ascii_upper c then char_of (of_char c + 32 :: nat) else c)"

definition eq_ignore_ascii_case :: "string \<Rightarrow> string \<Rightarrow> bool" where
  "eq_ignore_ascii_case a b \<longleftrightarrow> map to_ascii_lowercase a = map to_ascii_lowercase b"

section \<open>Prefixes and suffixes\<close>

definition strip_prefix :: "string \<Rightarrow> string \<Rightarrow> string option" where
  "strip_prefix p s = (if take (length p) s = p then Some (drop (length p) s) else None)"

definition starts_with :: "string \<Rightarrow> string \<Rightarrow> bool" where
  "starts_with p s \<longleftrightarrow> take (length p) s = p"

definition strip_suffix :: "string \<Rightarrow> string \<Rightarrow> string option" where
  "strip_suffix p s = (if length p \<le> length s \<and> drop (length s - length p) s = p
     then Some (take (length s - length p) s) else None)"

definition ends_with :: "string \<Rightarrow> string \<Rightarrow> bool" where
  "ends_with p s \<longleftrightarrow> length p \<le> length s \<and> drop (length s - length p) s = p"

lemma strip_prefix_Some [ok_iff]: "strip_prefix p s = Some r \<longleftrightarrow> s = p @ r"
  by (auto simp: strip_prefix_def) (metis append_take_drop_id)

lemma starts_with_iff: "starts_with p s \<longleftrightarrow> (\<exists>r. s = p @ r)"
  by (auto simp: starts_with_def) (metis append_take_drop_id)

lemma starts_with_append [simp]: "starts_with p (p @ s)"
  by (simp add: starts_with_def)

lemma strip_suffix_Some [ok_iff]: "strip_suffix p s = Some r \<longleftrightarrow> s = r @ p"
  by (auto simp: strip_suffix_def) (metis append_take_drop_id)

lemma ends_with_iff: "ends_with p s \<longleftrightarrow> (\<exists>r. s = r @ p)"
  by (auto simp: ends_with_def) (metis append_take_drop_id)

lemma ends_with_char: "ends_with [c] s \<longleftrightarrow> s \<noteq> [] \<and> last s = c"
  by (auto simp: ends_with_iff) (metis append_butlast_last_id)

section \<open>Splitting\<close>

text \<open>\<open>str::split(c)\<close>: one piece more than there are separators.\<close>

fun split_on :: "char \<Rightarrow> string \<Rightarrow> string list" where
  "split_on c [] = [[]]"
| "split_on c (x # xs) =
     (if x = c then [] # split_on c xs
      else (case split_on c xs of [] \<Rightarrow> [[x]] | p # ps \<Rightarrow> (x # p) # ps))"

fun join_with :: "string \<Rightarrow> string list \<Rightarrow> string" where
  "join_with sep [] = []"
| "join_with sep [p] = p"
| "join_with sep (p # q # ps) = p @ sep @ join_with sep (q # ps)"

lemma split_on_not_Nil [simp]: "split_on c s \<noteq> []"
  by (induction s) (auto split: list.splits)

lemma join_split: "join_with [c] (split_on c s) = s"
proof (induction s)
  case (Cons x xs)
  obtain p ps where s: "split_on c xs = p # ps" by (meson neq_Nil_conv split_on_not_Nil)
  show ?case
    using Cons by (cases ps) (auto simp: s)
qed simp

lemma split_on_no_sep: "c \<notin> set s \<Longrightarrow> split_on c s = [s]"
  by (induction s) auto

lemma split_on_append_sep:
  "split_on c (s @ c # t) = split_on c s @ split_on c t"
proof (induction s)
  case (Cons x xs)
  obtain p ps where s: "split_on c xs = p # ps" by (meson neq_Nil_conv split_on_not_Nil)
  show ?case using Cons by (auto simp: s)
qed simp

lemma set_split_on: "p \<in> set (split_on c s) \<Longrightarrow> c \<notin> set p \<and> set p \<subseteq> set s"
proof (induction s arbitrary: p)
  case (Cons x xs)
  obtain q qs where s: "split_on c xs = q # qs" by (meson neq_Nil_conv split_on_not_Nil)
  have IH: "\<And>p. p = q \<or> p \<in> set qs \<Longrightarrow> c \<notin> set p \<and> set p \<subseteq> set xs"
    using Cons.IH by (simp add: s)
  show ?case
  proof (cases "x = c")
    case True
    then show ?thesis using Cons.prems IH[of p] by (auto simp: s)
  next
    case False
    then show ?thesis using Cons.prems IH[of p] IH[of q] by (auto simp: s)
  qed
qed simp

lemma split_join:
  "\<forall>p \<in> set ps. c \<notin> set p \<Longrightarrow> ps \<noteq> [] \<Longrightarrow> split_on c (join_with [c] ps) = ps"
  by (induction ps rule: induct_list012) (simp_all add: split_on_no_sep split_on_append_sep)

text \<open>\<open>str::split_once(c)\<close>: at the first separator.\<close>

fun split_once :: "char \<Rightarrow> string \<Rightarrow> (string \<times> string) option" where
  "split_once c [] = None"
| "split_once c (x # xs) =
     (if x = c then Some ([], xs) else map_option (\<lambda>(a, b). (x # a, b)) (split_once c xs))"

lemma split_once_None [simp]: "split_once c s = None \<longleftrightarrow> c \<notin> set s"
  by (induction s) auto

lemma split_once_hit: "c \<notin> set a \<Longrightarrow> split_once c (a @ c # b) = Some (a, b)"
  by (induction a) auto

lemma split_once_Some: "split_once c s = Some (a, b) \<longleftrightarrow> s = a @ c # b \<and> c \<notin> set a"
proof
  assume "split_once c s = Some (a, b)"
  then show "s = a @ c # b \<and> c \<notin> set a"
    by (induction s arbitrary: a) (auto split: if_splits)
qed (auto simp: split_once_hit)

text \<open>\<open>str::find(c)\<close> and \<open>str::rfind(c)\<close> for a character predicate: byte offsets.\<close>

fun find_index :: "(char \<Rightarrow> bool) \<Rightarrow> string \<Rightarrow> nat option" where
  "find_index P [] = None"
| "find_index P (x # xs) = (if P x then Some 0 else map_option Suc (find_index P xs))"

definition rfind_index :: "(char \<Rightarrow> bool) \<Rightarrow> string \<Rightarrow> nat option" where
  "rfind_index P s = map_option (\<lambda>i. length s - Suc i) (find_index P (rev s))"

lemma find_index_None [simp]: "find_index P s = None \<longleftrightarrow> (\<forall>c \<in> set s. \<not> P c)"
  by (induction s) auto

lemma find_index_Some:
  "find_index P s = Some i \<Longrightarrow>
     i < length s \<and> P (s ! i) \<and> (\<forall>c \<in> set (take i s). \<not> P c)"
proof (induction s arbitrary: i)
  case (Cons x xs)
  then show ?case by (cases i) (auto split: if_splits)
qed simp

lemma find_index_append_hit:
  "\<forall>c \<in> set a. \<not> P c \<Longrightarrow> P x \<Longrightarrow> find_index P (a @ x # b) = Some (length a)"
  by (induction a) auto

lemma rfind_index_hit:
  "\<forall>c \<in> set b. \<not> P c \<Longrightarrow> P x \<Longrightarrow> rfind_index P (a @ x # b) = Some (length a)"
  by (simp add: rfind_index_def find_index_append_hit)

lemma rfind_index_None [simp]: "rfind_index P s = None \<longleftrightarrow> (\<forall>c \<in> set s. \<not> P c)"
  by (simp add: rfind_index_def)

lemma rfind_index_Some:
  assumes "rfind_index P s = Some i"
  shows "i < length s \<and> P (s ! i) \<and> (\<forall>c \<in> set (drop (Suc i) s). \<not> P c)"
proof -
  from assms obtain j where j: "find_index P (rev s) = Some j" and i: "i = length s - Suc j"
    by (auto simp: rfind_index_def)
  from find_index_Some[OF j] have "j < length s" "P (rev s ! j)" "\<forall>c \<in> set (take j (rev s)). \<not> P c"
    by auto
  then show ?thesis by (auto simp: i rev_nth take_rev Suc_diff_Suc)
qed

text \<open>\<open>str::replace(from, to)\<close> for a single-character pattern.\<close>

definition replace_char :: "char \<Rightarrow> char \<Rightarrow> string \<Rightarrow> string" where
  "replace_char a b s = map (\<lambda>c. if c = a then b else c) s"

text \<open>\<open>str::replace(from, to)\<close> for a non-empty string pattern: leftmost, non-overlapping.\<close>

function replace_str :: "string \<Rightarrow> string \<Rightarrow> string \<Rightarrow> string" where
  "replace_str pat sub s =
     (if pat = [] \<or> s = [] then s
      else (case strip_prefix pat s of
              Some rest \<Rightarrow> sub @ replace_str pat sub rest
            | None \<Rightarrow> hd s # replace_str pat sub (tl s)))"
  by pat_completeness auto
termination
  by (relation "measure (\<lambda>(pat, sub, s). length s)") (auto simp: strip_prefix_Some)

declare replace_str.simps [simp del]

section \<open>Trimming\<close>

text \<open>
  The UTF-8 encodings of the code points with the Unicode White\_Space property, which
  \<open>str::trim\<close> removes at both ends. An encoding is a suffix of a well-formed string only at a
  character boundary, so stripping bytes is stripping characters.
\<close>

definition whitespace_encodings :: "string list" where
  "whitespace_encodings =
     [[CHR 0x09], [CHR 0x0A], [CHR 0x0B], [CHR 0x0C], [CHR 0x0D], [CHR 0x20],
      [CHR 0xC2, CHR 0x85], [CHR 0xC2, CHR 0xA0], [CHR 0xE1, CHR 0x9A, CHR 0x80]]
     @ map (\<lambda>b. [CHR 0xE2, CHR 0x80, char_of (b :: nat)])
         [0x80, 0x81, 0x82, 0x83, 0x84, 0x85, 0x86, 0x87, 0x88, 0x89, 0x8A, 0xA8, 0xA9, 0xAF]
     @ [[CHR 0xE2, CHR 0x81, CHR 0x9F], [CHR 0xE3, CHR 0x80, CHR 0x80]]"

lemma whitespace_encodings_not_Nil: "[] \<notin> set whitespace_encodings"
  by (simp add: whitespace_encodings_def)

definition leading_whitespace :: "string \<Rightarrow> string option" where
  "leading_whitespace s = find (\<lambda>w. starts_with w s) whitespace_encodings"

definition trailing_whitespace :: "string \<Rightarrow> string option" where
  "trailing_whitespace s = find (\<lambda>w. ends_with w s) whitespace_encodings"

lemma leading_whitespace_shorter:
  "leading_whitespace s = Some w \<Longrightarrow> length s - length w < length s"
  using whitespace_encodings_not_Nil
  by (auto simp: leading_whitespace_def find_Some_iff starts_with_iff) (metis nth_mem)

lemma trailing_whitespace_shorter:
  "trailing_whitespace s = Some w \<Longrightarrow> length s - length w < length s"
  using whitespace_encodings_not_Nil
  by (auto simp: trailing_whitespace_def find_Some_iff ends_with_iff) (metis nth_mem)

function trim_start :: "string \<Rightarrow> string" where
  "trim_start s = (case leading_whitespace s of None \<Rightarrow> s | Some w \<Rightarrow> trim_start (drop (length w) s))"
  by pat_completeness auto
termination
  by (relation "measure length") (auto dest: leading_whitespace_shorter)

function trim_end :: "string \<Rightarrow> string" where
  "trim_end s =
     (case trailing_whitespace s of
        None \<Rightarrow> s
      | Some w \<Rightarrow> trim_end (take (length s - length w) s))"
  by pat_completeness auto
termination
  by (relation "measure length") (auto dest: trailing_whitespace_shorter)

declare trim_start.simps [simp del] trim_end.simps [simp del]

definition trim :: "string \<Rightarrow> string" where
  "trim s = trim_end (trim_start s)"

lemma length_trim_start: "length (trim_start s) \<le> length s"
proof (induction s rule: trim_start.induct)
  case (1 s)
  show ?case
  proof (cases "leading_whitespace s")
    case None
    then show ?thesis by (simp add: trim_start.simps[of s])
  next
    case (Some w)
    from 1[OF Some] show ?thesis by (simp add: trim_start.simps[of s] Some)
  qed
qed

lemma length_trim_end: "length (trim_end s) \<le> length s"
proof (induction s rule: trim_end.induct)
  case (1 s)
  show ?case
  proof (cases "trailing_whitespace s")
    case None
    then show ?thesis by (simp add: trim_end.simps[of s])
  next
    case (Some w)
    from 1[OF Some] show ?thesis by (simp add: trim_end.simps[of s] Some)
  qed
qed

lemma trim_start_less: "leading_whitespace s = Some w \<Longrightarrow> length (trim_start s) < length s"
  using length_trim_start[of "drop (length w) s"] leading_whitespace_shorter[of s w]
  by (simp add: trim_start.simps[of s])

lemma trim_end_less: "trailing_whitespace s = Some w \<Longrightarrow> length (trim_end s) < length s"
  using length_trim_end[of "take (length s - length w) s"] trailing_whitespace_shorter[of s w]
  by (simp add: trim_end.simps[of s])

lemma trim_fixed: "trim s = s \<longleftrightarrow> leading_whitespace s = None \<and> trailing_whitespace s = None"
proof (cases "leading_whitespace s")
  case None
  then have "trim s = trim_end s" by (simp add: trim_def trim_start.simps[of s])
  with None trim_end_less[of s] show ?thesis
    by (cases "trailing_whitespace s") (auto simp: trim_end.simps[of s])
next
  case (Some w)
  have "length (trim s) < length s"
    using trim_start_less[OF Some] length_trim_end[of "trim_start s"] by (simp add: trim_def)
  with Some show ?thesis by auto
qed


section \<open>Decimal numbers\<close>

definition digit_char :: "nat \<Rightarrow> char" where
  "digit_char d = char_of (48 + d)"

definition digit_val :: "char \<Rightarrow> nat" where
  "digit_val c = of_char c - 48"

lemma digit_char_is_digit [simp]: "d < 10 \<Longrightarrow> is_ascii_digit (digit_char d)"
  by (simp add: is_ascii_digit_def digit_char_def)

lemma digit_val_char [simp]: "d < 10 \<Longrightarrow> digit_val (digit_char d) = d"
  by (simp add: digit_val_def digit_char_def)

lemma digit_char_val [simp]: "is_ascii_digit c \<Longrightarrow> digit_char (digit_val c) = c"
  by (simp add: digit_val_def digit_char_def is_ascii_digit_def)

lemma digit_val_less: "is_ascii_digit c \<Longrightarrow> digit_val c < 10"
  by (auto simp: digit_val_def is_ascii_digit_def)

lemma is_ascii_digit_literals [simp]:
  "is_ascii_digit (CHR ''0'')" "\<not> is_ascii_digit (CHR ''+'')" "\<not> is_ascii_digit (CHR ''-'')"
  "\<not> is_ascii_digit (CHR ''.'')" "\<not> is_ascii_digit (CHR '':'')" "\<not> is_ascii_digit (CHR ''D'')"
  "\<not> is_ascii_digit (CHR ''H'')" "\<not> is_ascii_digit (CHR ''M'')" "\<not> is_ascii_digit (CHR ''S'')"
  "\<not> is_ascii_digit (CHR ''T'')" "\<not> is_ascii_digit (CHR ''Z'')" "\<not> is_ascii_digit (CHR ''P'')"
  by (simp_all add: is_ascii_digit_def)

text \<open>\<open>Display\<close> of an unsigned integer: decimal, no leading zero.\<close>

fun show_nat :: "nat \<Rightarrow> string" where
  "show_nat n = (if n < 10 then [digit_char n] else show_nat (n div 10) @ [digit_char (n mod 10)])"

declare show_nat.simps [simp del]

lemmas show_nat_code [digit_simps] = show_nat.simps

text \<open>\<open>format!("{n:0w}")\<close>: zero padded on the left to the width.\<close>

definition show_pad :: "nat \<Rightarrow> nat \<Rightarrow> string" where
  "show_pad w n = replicate (w - length (show_nat n)) (CHR ''0'') @ show_nat n"

definition digits_val :: "string \<Rightarrow> nat" where
  "digits_val s = foldl (\<lambda>n c. 10 * n + digit_val c) 0 s"

text \<open>
  \<open>u8::from_str\<close>, \<open>u64::from_str\<close>, ...: an optional plus sign, at least one digit, no overflow of
  the width.
\<close>

definition parse_uint :: "nat \<Rightarrow> string \<Rightarrow> nat option" where
  "parse_uint w s =
     (let body = (case s of c # rest \<Rightarrow> if c = CHR ''+'' then rest else s | [] \<Rightarrow> s)
      in if body \<noteq> [] \<and> list_all is_ascii_digit body \<and> digits_val body < 2 ^ w
         then Some (digits_val body) else None)"

lemma show_nat_not_Nil [simp]: "show_nat n \<noteq> []"
  by (subst show_nat.simps) simp

lemma show_nat_digits [simp]: "list_all is_ascii_digit (show_nat n)"
proof (induction n rule: show_nat.induct)
  case (1 n)
  then show ?case by (subst show_nat.simps) auto
qed

lemma show_nat_set: "c \<in> set (show_nat n) \<Longrightarrow> is_ascii_digit c"
  using show_nat_digits[of n] by (auto simp: list_all_iff)

lemma digits_val_append [simp]: "digits_val (s @ [c]) = 10 * digits_val s + digit_val c"
  by (simp add: digits_val_def)

lemma digits_val_Nil [simp]: "digits_val [] = 0"
  by (simp add: digits_val_def)

lemma digits_val_show [simp]: "digits_val (show_nat n) = n"
proof (induction n rule: show_nat.induct)
  case (1 n)
  show ?case
  proof (cases "n < 10")
    case True
    then show ?thesis by (subst show_nat.simps) (simp add: digits_val_def)
  next
    case False
    then show ?thesis by (subst show_nat.simps) (simp add: 1)
  qed
qed

lemma digits_val_zeros: "digits_val (replicate k (CHR ''0'') @ s) = digits_val s"
  by (induction k) (simp_all add: digits_val_def digit_val_def)

lemma digits_val_show_pad [simp]: "digits_val (show_pad w n) = n"
  by (simp add: show_pad_def digits_val_zeros)

lemma show_pad_digits [simp]: "list_all is_ascii_digit (show_pad w n)"
  by (simp add: show_pad_def list_all_iff) (auto simp: show_nat_set)

lemma length_show_nat: "0 < k \<Longrightarrow> n < 10 ^ k \<Longrightarrow> length (show_nat n) \<le> k"
proof (induction n arbitrary: k rule: show_nat.induct)
  case (1 n)
  show ?case
  proof (cases "n < 10")
    case True
    with "1.prems" show ?thesis by (subst show_nat.simps) simp
  next
    case False
    with "1.prems" obtain j where k: "k = Suc j" "0 < j"
      by (cases k; cases "k - 1") auto
    with "1.prems" have "n div 10 < 10 ^ j" by (simp add: div_less_iff_less_mult mult.commute)
    with 1 False k have "length (show_nat (n div 10)) \<le> j" by blast
    with False k show ?thesis by (subst show_nat.simps) simp
  qed
qed

lemma length_show_pad: "0 < w \<Longrightarrow> n < 10 ^ w \<Longrightarrow> length (show_pad w n) = w"
  using length_show_nat[of w n] by (simp add: show_pad_def)

lemma parse_uint_digits:
  "s \<noteq> [] \<Longrightarrow> list_all is_ascii_digit s \<Longrightarrow>
     parse_uint w s = (if digits_val s < 2 ^ w then Some (digits_val s) else None)"
  by (auto simp: parse_uint_def Let_def split: list.splits)

lemma parse_uint_show [simp]: "parse_uint w (show_nat n) = (if n < 2 ^ w then Some n else None)"
  by (simp add: parse_uint_digits)

lemma parse_uint_bound: "parse_uint w s = Some n \<Longrightarrow> n < 2 ^ w"
  by (auto simp: parse_uint_def Let_def split: if_splits)

section \<open>The contract of a textual form\<close>

text \<open>
  Several types of the crate are stored as text (\<open>Display\<close> with \<open>FromStr\<close>, and the serde
  attribute \<open>try_from = "String", into = "String"\<close>): printing a well-formed value and parsing the
  text gives the value back. The locale is interpreted on the paths, the durations and the schema
  versions.
\<close>

locale text_codec =
  fixes print :: "'a \<Rightarrow> string"
    and parse :: "string \<Rightarrow> 'e + 'a"
    and wf :: "'a \<Rightarrow> bool"
  assumes parse_print: "wf x \<Longrightarrow> parse (print x) = Inr x"
    and parse_wf: "parse s = Inr x \<Longrightarrow> wf x"
begin

lemma print_inj: "wf x \<Longrightarrow> wf y \<Longrightarrow> print x = print y \<Longrightarrow> x = y"
  by (metis parse_print sum.inject(2))

lemma reprint_parses: "parse s = Inr x \<Longrightarrow> parse (print x) = Inr x"
  by (simp add: parse_print parse_wf)

lemma parse_image: "(\<exists>s. parse s = Inr x) \<longleftrightarrow> wf x"
  using parse_print parse_wf by blast

lemma print_list_inj:
  "list_all wf xs \<Longrightarrow> list_all wf ys \<Longrightarrow> map print xs = map print ys \<Longrightarrow> xs = ys"
proof (induction xs arbitrary: ys)
  case (Cons x xs)
  then show ?case by (cases ys) (auto dest: print_inj)
qed simp

end

end
