(* ===== verification/Ordered.thy ===== *)
theory Ordered
  imports Prelude
begin

text \<open>
  \<open>BTreeMap\<close> and \<open>BTreeSet\<close> as the crate observes them: iteration in key order, one entry per key,
  \<open>insert\<close> replaces. A map is its association list in ascending key order, a set its ascending
  list. The locale \<open>finite_map\<close> is the contract the components use; it is interpreted on the lists.
\<close>

type_synonym ('k, 'v) btree = "('k \<times> 'v) list"

fun btree_insert :: "'k::linorder \<Rightarrow> 'v \<Rightarrow> ('k, 'v) btree \<Rightarrow> ('k, 'v) btree" where
  "btree_insert k v [] = [(k, v)]"
| "btree_insert k v ((k', v') # m) =
     (if k < k' then (k, v) # (k', v') # m
      else if k = k' then (k, v) # m
      else (k', v') # btree_insert k v m)"

definition btree_get :: "('k, 'v) btree \<Rightarrow> 'k \<Rightarrow> 'v option" where
  "btree_get m k = map_of m k"

definition btree_remove :: "'k \<Rightarrow> ('k, 'v) btree \<Rightarrow> ('k, 'v) btree" where
  "btree_remove k m = filter (\<lambda>e. fst e \<noteq> k) m"

definition btree_contains :: "('k, 'v) btree \<Rightarrow> 'k \<Rightarrow> bool" where
  "btree_contains m k \<longleftrightarrow> btree_get m k \<noteq> None"

definition btree_wf :: "('k::linorder, 'v) btree \<Rightarrow> bool" where
  "btree_wf m \<longleftrightarrow> sorted_wrt (<) (map fst m)"

text \<open>\<open>collect::<BTreeMap<_, _>>()\<close>: later entries replace earlier ones.\<close>

definition btree_collect :: "('k::linorder \<times> 'v) list \<Rightarrow> ('k, 'v) btree" where
  "btree_collect es = foldl (\<lambda>m (k, v). btree_insert k v m) [] es"

definition bset_insert :: "'a::linorder \<Rightarrow> 'a list \<Rightarrow> 'a list" where
  "bset_insert x xs = map fst (btree_insert x () (map (\<lambda>y. (y, ())) xs))"

definition bset_collect :: "'a::linorder list \<Rightarrow> 'a list" where
  "bset_collect xs = foldl (\<lambda>s x. bset_insert x s) [] xs"

lemma btree_get_empty: "btree_get [] = (\<lambda>_. None)"
  by (rule ext) (simp add: btree_get_def)

lemma btree_get_insert: "btree_get (btree_insert k v m) = (btree_get m)(k \<mapsto> v)"
  by (rule ext, induction k v m rule: btree_insert.induct) (auto simp: btree_get_def)

lemma btree_get_remove: "btree_get (btree_remove k m) = (btree_get m)(k := None)"
  by (rule ext, induction m) (auto simp: btree_get_def btree_remove_def)

lemma fst_btree_insert: "fst ` set (btree_insert k v m) = insert k (fst ` set m)"
  by (induction k v m rule: btree_insert.induct) auto

lemma btree_wf_empty: "btree_wf []"
  by (simp add: btree_wf_def)

lemma btree_wf_Cons: "btree_wf ((k, v) # m) \<longleftrightarrow> (\<forall>k' \<in> fst ` set m. k < k') \<and> btree_wf m"
  by (simp add: btree_wf_def)

lemma btree_wf_insert: "btree_wf m \<Longrightarrow> btree_wf (btree_insert k v m)"
proof (induction k v m rule: btree_insert.induct)
  case (2 k v k' v' m)
  then have m: "btree_wf m" "\<forall>q \<in> fst ` set m. k' < q" by (simp_all add: btree_wf_Cons)
  consider "k < k'" | "k = k'" | "k' < k" by (rule linorder_cases)
  then show ?case
  proof cases
    case 1
    then show ?thesis using m by (auto simp: btree_wf_Cons)
  next
    case 2
    then show ?thesis using m by (simp add: btree_wf_Cons)
  next
    case 3
    then have "\<forall>q \<in> fst ` set (btree_insert k v m). k' < q"
      unfolding fst_btree_insert using m by simp
    moreover have "btree_wf (btree_insert k v m)" using "2.IH" 3 m by simp
    moreover have "\<not> k < k'" "k \<noteq> k'" using 3 by auto
    ultimately show ?thesis by (simp add: btree_wf_Cons)
  qed
qed (simp add: btree_wf_def)

lemma btree_wf_remove: "btree_wf m \<Longrightarrow> btree_wf (btree_remove k m)"
  by (induction m) (auto simp: btree_wf_def btree_remove_def)

section \<open>The contract of a finite map\<close>

locale finite_map =
  fixes empty :: 'm
    and insert_entry :: "'k \<Rightarrow> 'v \<Rightarrow> 'm \<Rightarrow> 'm"
    and remove :: "'k \<Rightarrow> 'm \<Rightarrow> 'm"
    and get :: "'m \<Rightarrow> 'k \<Rightarrow> 'v option"
    and wf :: "'m \<Rightarrow> bool"
  assumes get_empty: "get empty = (\<lambda>_. None)"
    and get_insert: "get (insert_entry k v m) = (get m)(k \<mapsto> v)"
    and get_remove: "get (remove k m) = (get m)(k := None)"
    and wf_empty: "wf empty"
    and wf_insert: "wf m \<Longrightarrow> wf (insert_entry k v m)"
    and wf_remove: "wf m \<Longrightarrow> wf (remove k m)"
begin

lemma insert_then_get: "get (insert_entry k v m) k = Some v"
  by (simp add: get_insert)

lemma insert_other: "k' \<noteq> k \<Longrightarrow> get (insert_entry k v m) k' = get m k'"
  by (simp add: get_insert)

lemma remove_then_get: "get (remove k m) k = None"
  by (simp add: get_remove)

lemma wf_fold_insert: "wf m \<Longrightarrow> wf (foldl (\<lambda>m (k, v). insert_entry k v m) m es)"
  by (induction es arbitrary: m) (auto simp: wf_insert)

lemma get_fold_insert: "get (foldl (\<lambda>m (k, v). insert_entry k v m) m es) = get m ++ map_of (rev es)"
  by (induction es arbitrary: m) (auto simp: get_insert map_of_append)

end

interpretation btree: finite_map "[]" btree_insert btree_remove btree_get btree_wf
  by unfold_locales
    (auto simp: btree_get_empty btree_get_insert btree_get_remove btree_wf_empty
      btree_wf_insert btree_wf_remove)

lemma btree_wf_collect: "btree_wf (btree_collect es)"
  unfolding btree_collect_def by (rule btree.wf_fold_insert) (rule btree.wf_empty)

lemma btree_get_collect: "btree_get (btree_collect es) = map_of (rev es)"
  unfolding btree_collect_def by (simp add: btree.get_fold_insert btree.get_empty)

lemma set_bset_insert [simp]: "set (bset_insert x xs) = insert x (set xs)"
  by (simp add: bset_insert_def fst_btree_insert image_image)

lemma sorted_bset_insert: "sorted_wrt (<) xs \<Longrightarrow> sorted_wrt (<) (bset_insert x xs)"
  using btree_wf_insert[of "map (\<lambda>y. (y, ())) xs" x "()"]
  by (simp add: bset_insert_def btree_wf_def comp_def)

lemma bset_fold:
  "sorted_wrt (<) s \<Longrightarrow> sorted_wrt (<) (foldl (\<lambda>s x. bset_insert x s) s xs)
     \<and> set (foldl (\<lambda>s x. bset_insert x s) s xs) = set s \<union> set xs"
  by (induction xs arbitrary: s) (auto simp: sorted_bset_insert)

lemma set_bset_collect [simp]: "set (bset_collect xs) = set xs"
  using bset_fold[of "[]" xs] by (simp add: bset_collect_def)

lemma sorted_bset_collect: "sorted_wrt (<) (bset_collect xs)"
  using bset_fold[of "[]" xs] by (simp add: bset_collect_def)

lemma distinct_bset_collect: "distinct (bset_collect xs)"
  using sorted_bset_collect strict_sorted_iff by blast

end
