(* ===== verification/Errors.thy ===== *)
theory Errors
  imports Strings Ordered
begin

text \<open>
  Diagnostics (\<open>validation.rs\<close>, first half) and errors (\<open>error.rs\<close>).

  Messages are the format string with its arguments left in place: \<open>Lit\<close> is literal text, \<open>Dsp\<close> a
  value formatted with \<open>{}\<close>, \<open>Dbg\<close> a string formatted with \<open>{:?}\<close>. Nothing in the crate inspects a
  message, so the rendering of \<open>Dbg\<close> (Unicode escapes) is not needed.
\<close>

datatype frag = Lit string | Dsp string | Dbg string

type_synonym message = "frag list"

section \<open>Diagnostics\<close>

datatype diagnostic_level = Info | Warning | LevelError

datatype diagnostic_code =
    MissingAction
  | DuplicateId
  | EmptyValue
  | OutOfRange
  | IncompleteTrigger
  | PrincipalLogonMismatch
  | PasswordRequired
  | DeprecatedAction
  | SchemaTooOld
  | RegistrationTriggerSideEffect
  | OpaqueExtension
  | UnsupportedCapability
  | HistoryUnavailableCode
  | RemoteConnectivity
  | InsufficientRights
  | OwnershipConflict
  | IrreversibleChange
  | OtherCode string

record diagnostic =
  d_level :: diagnostic_level
  d_code :: diagnostic_code
  d_path :: string
  d_message :: message
  d_remediation :: "message option"

fun level_as_str :: "diagnostic_level \<Rightarrow> string" where
  "level_as_str Info = ''info''"
| "level_as_str Warning = ''warning''"
| "level_as_str LevelError = ''error''"

fun code_as_str :: "diagnostic_code \<Rightarrow> string" where
  "code_as_str MissingAction = ''missing_action''"
| "code_as_str DuplicateId = ''duplicate_id''"
| "code_as_str EmptyValue = ''empty_value''"
| "code_as_str OutOfRange = ''out_of_range''"
| "code_as_str IncompleteTrigger = ''incomplete_trigger''"
| "code_as_str PrincipalLogonMismatch = ''principal_logon_mismatch''"
| "code_as_str PasswordRequired = ''password_required''"
| "code_as_str DeprecatedAction = ''deprecated_action''"
| "code_as_str SchemaTooOld = ''schema_too_old''"
| "code_as_str RegistrationTriggerSideEffect = ''registration_trigger_side_effect''"
| "code_as_str OpaqueExtension = ''opaque_extension''"
| "code_as_str UnsupportedCapability = ''unsupported_capability''"
| "code_as_str HistoryUnavailableCode = ''history_unavailable''"
| "code_as_str RemoteConnectivity = ''remote_connectivity''"
| "code_as_str InsufficientRights = ''insufficient_rights''"
| "code_as_str OwnershipConflict = ''ownership_conflict''"
| "code_as_str IrreversibleChange = ''irreversible_change''"
| "code_as_str (OtherCode v) = v"

fun code_remediation :: "diagnostic_code \<Rightarrow> string" where
  "code_remediation MissingAction = ''Add at least one Exec or COM handler action.''"
| "code_remediation DuplicateId = ''Assign a unique identifier to each sibling element.''"
| "code_remediation EmptyValue = ''Supply a non-empty value for the indicated field.''"
| "code_remediation OutOfRange = ''Set the field within the range stated in the diagnostic.''"
| "code_remediation IncompleteTrigger =
     ''Supply the missing boundary and schedule selections for this trigger.''"
| "code_remediation PrincipalLogonMismatch =
     ''Choose an identity and logon type that describe the same user, group or service account.''"
| "code_remediation PasswordRequired =
     ''Provide the registration password through a credential resolver, not through the definition.''"
| "code_remediation DeprecatedAction =
     ''Replace the legacy action with an Exec or COM handler action supported by the target.''"
| "code_remediation SchemaTooOld =
     ''Raise the schema version on a compatible target or remove the newer field.''"
| "code_remediation RegistrationTriggerSideEffect =
     ''Suppress registration triggers unless their execution is intended.''"
| "code_remediation OpaqueExtension =
     ''Preserve the raw XML and validate the extension against the target scheduler.''"
| "code_remediation _ =
     ''Inspect the indicated field and correct the condition described before retrying.''"

definition diagnostic_error :: "diagnostic_code \<Rightarrow> string \<Rightarrow> message \<Rightarrow> diagnostic" where
  "diagnostic_error code path msg =
     \<lparr>d_level = LevelError, d_code = code, d_path = path, d_message = msg,
      d_remediation = Some [Lit (code_remediation code)]\<rparr>"

definition diagnostic_warning :: "diagnostic_code \<Rightarrow> string \<Rightarrow> message \<Rightarrow> diagnostic" where
  "diagnostic_warning code path msg =
     \<lparr>d_level = Warning, d_code = code, d_path = path, d_message = msg,
      d_remediation = Some [Lit (code_remediation code)]\<rparr>"

definition with_remediation :: "message \<Rightarrow> diagnostic \<Rightarrow> diagnostic" where
  "with_remediation r d = d\<lparr>d_remediation := Some r\<rparr>"

text \<open>\<open>ValidationReport\<close> is its list of findings in model order.\<close>

record validation_report =
  diagnostics :: "diagnostic list"

definition report_is_valid :: "validation_report \<Rightarrow> bool" where
  "report_is_valid r \<longleftrightarrow> \<not> list_ex (\<lambda>d. d_level d = LevelError) (diagnostics r)"

definition report_errors :: "validation_report \<Rightarrow> diagnostic list" where
  "report_errors r = filter (\<lambda>d. d_level d = LevelError) (diagnostics r)"

definition report_warnings :: "validation_report \<Rightarrow> diagnostic list" where
  "report_warnings r = filter (\<lambda>d. d_level d = Warning) (diagnostics r)"

definition report_push :: "diagnostic \<Rightarrow> validation_report \<Rightarrow> validation_report" where
  "report_push d r = r\<lparr>diagnostics := diagnostics r @ [d]\<rparr>"

definition empty_report :: validation_report where
  "empty_report = \<lparr>diagnostics = []\<rparr>"

section \<open>Errors\<close>

datatype error_kind =
    UnsupportedPlatform
  | InvalidPath
  | InvalidDefinition
  | Xml
  | Serialization
  | SchedulerUnavailable
  | AccessDenied
  | Authentication
  | NotFound
  | AlreadyExists
  | Capability
  | Com
  | Win32
  | Cancelled
  | Timeout
  | HistoryUnavailable
  | HistoryGap
  | QueryLimit
  | Conflict
  | Irreversible
  | WorkerStopped
  | OtherKind

record error =
  e_kind :: error_kind
  e_message :: message
  e_operation :: "string option"
  e_target :: "string option"
  e_native_code :: "i32 option"
  e_diagnostics :: "diagnostic list"
  e_context :: "(string, string) btree"

type_synonym 'a result = "error + 'a"

definition new_error :: "error_kind \<Rightarrow> message \<Rightarrow> error" where
  "new_error kind msg =
     \<lparr>e_kind = kind, e_message = msg, e_operation = None, e_target = None,
      e_native_code = None, e_diagnostics = [], e_context = []\<rparr>"

definition with_operation :: "string \<Rightarrow> error \<Rightarrow> error" where
  "with_operation op e = e\<lparr>e_operation := Some op\<rparr>"

definition with_target :: "string \<Rightarrow> error \<Rightarrow> error" where
  "with_target t e = e\<lparr>e_target := Some t\<rparr>"

definition with_validation :: "validation_report \<Rightarrow> error \<Rightarrow> error" where
  "with_validation r e = e\<lparr>e_diagnostics := diagnostics r\<rparr>"

definition with_context :: "string \<Rightarrow> string \<Rightarrow> error \<Rightarrow> error" where
  "with_context k v e = e\<lparr>e_context := btree_insert k v (e_context e)\<rparr>"

definition with_native_code :: "i32 \<Rightarrow> error \<Rightarrow> error" where
  "with_native_code c e = e\<lparr>e_native_code := Some c\<rparr>"

fun hex_digit :: "nat \<Rightarrow> char" where
  "hex_digit d = (if d < 10 then digit_char d else char_of (55 + d))"

definition show_hex8 :: "u32 \<Rightarrow> string" where
  "show_hex8 w = map (\<lambda>i. hex_digit (unat w div 16 ^ (7 - i) mod 16)) [0..<8]"

text \<open>\<open>Display for Error\<close>: operation, message, target, native code as unsigned hexadecimal.\<close>

definition error_display :: "error \<Rightarrow> message" where
  "error_display e =
     (case e_operation e of None \<Rightarrow> [] | Some op \<Rightarrow> [Dsp op, Lit '': ''])
     @ e_message e
     @ (case e_target e of None \<Rightarrow> [] | Some t \<Rightarrow> [Lit '' (target: '', Dsp t, Lit '')''])
     @ (case e_native_code e of
          None \<Rightarrow> []
        | Some c \<Rightarrow> [Lit '' (native code: 0x'', Dsp (show_hex8 c), Lit '')''])"

lemmas error_defs = new_error_def with_operation_def with_target_def with_validation_def
  with_context_def with_native_code_def

lemma e_kind_builders [simp]:
  "e_kind (new_error k m) = k"
  "e_kind (with_operation op e) = e_kind e"
  "e_kind (with_target t e) = e_kind e"
  "e_kind (with_validation r e) = e_kind e"
  "e_kind (with_context key v e) = e_kind e"
  "e_kind (with_native_code c e) = e_kind e"
  by (simp_all add: error_defs)

lemma report_is_valid_iff: "report_is_valid r \<longleftrightarrow> report_errors r = []"
  by (auto simp: report_is_valid_def report_errors_def list_ex_iff filter_empty_conv)

lemma d_level_builders [simp]:
  "d_level (diagnostic_error c p m) = LevelError"
  "d_level (diagnostic_warning c p m) = Warning"
  "d_level (with_remediation r d) = d_level d"
  by (simp_all add: diagnostic_error_def diagnostic_warning_def with_remediation_def)

end
