(* ===== verification/Path.thy ===== *)
theory Path
  imports Errors
begin

text \<open>
  Scheduler paths (\<open>path.rs\<close>): canonical absolute folder and task paths, their parsing, joining and
  decomposition. The lemmas give the shape of every value the parser returns (a sequence of valid
  components, each behind one backslash), and that joining and taking apart are inverse.
\<close>

abbreviation bslash :: char where
  "bslash \<equiv> CHR 0x5C"

datatype parse_path_error = ParsePathError message

datatype folder_path = FolderPath string
datatype task_path = TaskPath string

fun folder_str :: "folder_path \<Rightarrow> string" where
  "folder_str (FolderPath s) = s"

fun task_str :: "task_path \<Rightarrow> string" where
  "task_str (TaskPath s) = s"

text \<open>The derived \<open>Ord\<close> of both newtypes is the order of the text.\<close>

instantiation folder_path :: linorder
begin
definition less_eq_folder_path :: "folder_path \<Rightarrow> folder_path \<Rightarrow> bool" where
  "less_eq_folder_path a b \<longleftrightarrow> folder_str a \<le> folder_str b"
definition less_folder_path :: "folder_path \<Rightarrow> folder_path \<Rightarrow> bool" where
  "less_folder_path a b \<longleftrightarrow> folder_str a < folder_str b"
instance
proof
  fix x y z :: folder_path
  show "x < y \<longleftrightarrow> x \<le> y \<and> \<not> y \<le> x"
    by (auto simp: less_eq_folder_path_def less_folder_path_def)
  show "x \<le> x" by (simp add: less_eq_folder_path_def)
  show "x \<le> y \<Longrightarrow> y \<le> z \<Longrightarrow> x \<le> z" by (simp add: less_eq_folder_path_def)
  show "x \<le> y \<Longrightarrow> y \<le> x \<Longrightarrow> x = y"
    by (cases x; cases y) (simp add: less_eq_folder_path_def)
  show "x \<le> y \<or> y \<le> x" by (auto simp: less_eq_folder_path_def)
qed
end

instantiation task_path :: linorder
begin
definition less_eq_task_path :: "task_path \<Rightarrow> task_path \<Rightarrow> bool" where
  "less_eq_task_path a b \<longleftrightarrow> task_str a \<le> task_str b"
definition less_task_path :: "task_path \<Rightarrow> task_path \<Rightarrow> bool" where
  "less_task_path a b \<longleftrightarrow> task_str a < task_str b"
instance
proof
  fix x y z :: task_path
  show "x < y \<longleftrightarrow> x \<le> y \<and> \<not> y \<le> x"
    by (auto simp: less_eq_task_path_def less_task_path_def)
  show "x \<le> x" by (simp add: less_eq_task_path_def)
  show "x \<le> y \<Longrightarrow> y \<le> z \<Longrightarrow> x \<le> z" by (simp add: less_eq_task_path_def)
  show "x \<le> y \<Longrightarrow> y \<le> x \<Longrightarrow> x = y"
    by (cases x; cases y) (simp add: less_eq_task_path_def)
  show "x \<le> y \<or> y \<le> x" by (auto simp: less_eq_task_path_def)
qed
end

section \<open>Parsing\<close>

definition validate_component :: "string \<Rightarrow> parse_path_error + unit" where
  "validate_component c =
     (if c = [] then Inl (ParsePathError [Lit ''scheduler paths cannot contain empty components''])
      else if c = ''.'' \<or> c = ''..'' then
        Inl (ParsePathError [Lit ''scheduler paths cannot contain . or ..''])
      else if trim c \<noteq> c then
        Inl (ParsePathError
          [Lit ''scheduler path components cannot begin or end with whitespace''])
      else if bslash \<in> set c \<or> CHR ''/'' \<in> set c \<or> CHR 0x00 \<in> set c then
        Inl (ParsePathError [Lit ''a scheduler path component contains a separator or NUL''])
      else Inr ())"

fun validate_components :: "string list \<Rightarrow> parse_path_error + unit" where
  "validate_components [] = Inr ()"
| "validate_components (c # cs) = bind_ok (validate_component c) (\<lambda>_. validate_components cs)"

definition canonicalize :: "string \<Rightarrow> bool \<Rightarrow> parse_path_error + string" where
  "canonicalize value folder =
     (if CHR 0x00 \<in> set value then
        Inl (ParsePathError [Lit ''scheduler paths cannot contain NUL''])
      else
        let normalized = replace_char (CHR ''/'') bslash value in
        if \<not> starts_with [bslash] normalized then
          Inl (ParsePathError
            [Lit ''scheduler paths must be absolute and start with a backslash''])
        else if normalized = [bslash] then
          (if folder then Inr normalized
           else Inl (ParsePathError [Lit ''a task path must include a task name'']))
        else if ends_with [bslash] normalized then
          Inl (ParsePathError [Lit ''scheduler paths cannot end with a backslash''])
        else bind_ok (validate_components (split_on bslash (tl normalized))) (\<lambda>_. Inr normalized))"

definition folder_from_str :: "string \<Rightarrow> parse_path_error + folder_path" where
  "folder_from_str value = bind_ok (canonicalize value True) (\<lambda>s. Inr (FolderPath s))"

definition task_from_str :: "string \<Rightarrow> parse_path_error + task_path" where
  "task_from_str value = bind_ok (canonicalize value False) (\<lambda>s. Inr (TaskPath s))"

section \<open>Operations\<close>

definition folder_root :: folder_path where
  "folder_root = FolderPath [bslash]"

definition is_root :: "folder_path \<Rightarrow> bool" where
  "is_root f \<longleftrightarrow> folder_str f = [bslash]"

definition folder_join :: "folder_path \<Rightarrow> string \<Rightarrow> parse_path_error + folder_path" where
  "folder_join f child =
     bind_ok (validate_component child) (\<lambda>_.
       if is_root f then folder_from_str (bslash # child)
       else folder_from_str (folder_str f @ bslash # child))"

definition folder_task :: "folder_path \<Rightarrow> string \<Rightarrow> parse_path_error + task_path" where
  "folder_task f name =
     bind_ok (validate_component name) (\<lambda>_.
       if is_root f then task_from_str (bslash # name)
       else task_from_str (folder_str f @ bslash # name))"

definition folder_parent :: "folder_path \<Rightarrow> folder_path option" where
  "folder_parent f =
     (if is_root f then None
      else
        let index = (case rfind_index (\<lambda>c. c = bslash) (folder_str f) of Some i \<Rightarrow> i | None \<Rightarrow> 0) in
        Some (if index = 0 then folder_root else FolderPath (take index (folder_str f))))"

definition folder_name :: "folder_path \<Rightarrow> string option" where
  "folder_name f = (if is_root f then None else Some (last (split_on bslash (folder_str f))))"

definition task_folder :: "task_path \<Rightarrow> folder_path" where
  "task_folder t =
     (let index = (case rfind_index (\<lambda>c. c = bslash) (task_str t) of Some i \<Rightarrow> i | None \<Rightarrow> 0) in
      if index = 0 then folder_root else FolderPath (take index (task_str t)))"

definition task_name :: "task_path \<Rightarrow> string" where
  "task_name t = last (split_on bslash (task_str t))"

text \<open>\<open>folder_depth\<close> of \<open>reconcile.rs\<close>: the number of non-empty components.\<close>

definition folder_depth :: "folder_path \<Rightarrow> nat" where
  "folder_depth f = length (filter (\<lambda>c. c \<noteq> []) (split_on bslash (folder_str f)))"

section \<open>The shape of canonical paths\<close>

definition valid_component :: "string \<Rightarrow> bool" where
  "valid_component c \<longleftrightarrow> c \<noteq> [] \<and> c \<noteq> ''.'' \<and> c \<noteq> ''..'' \<and> trim c = c
     \<and> bslash \<notin> set c \<and> CHR ''/'' \<notin> set c \<and> CHR 0x00 \<notin> set c"

definition render :: "string list \<Rightarrow> string" where
  "render cs = concat (map (\<lambda>c. bslash # c) cs)"

definition folder_ok :: "folder_path \<Rightarrow> bool" where
  "folder_ok f \<longleftrightarrow> folder_from_str (folder_str f) = Inr f"

definition task_ok :: "task_path \<Rightarrow> bool" where
  "task_ok t \<longleftrightarrow> task_from_str (task_str t) = Inr t"

lemma validate_component_ok [ok_iff]: "validate_component c = Inr u \<longleftrightarrow> valid_component c"
  by (auto simp: validate_component_def valid_component_def)

lemma validate_components_ok [ok_iff]:
  "validate_components cs = Inr u \<longleftrightarrow> (\<forall>c \<in> set cs. valid_component c)"
  by (induction cs) (auto simp: ok_iff)

lemma render_simps [simp]:
  "render [] = []" "render (c # cs) = bslash # c @ render cs" "render (cs @ ds) = render cs @ render ds"
  by (simp_all add: render_def)

lemma render_split: "render (split_on bslash t) = bslash # t"
proof (induction t)
  case (Cons x t)
  obtain p ps where s: "split_on bslash t = p # ps" by (meson neq_Nil_conv split_on_not_Nil)
  show ?case using Cons by (auto simp: s)
qed simp

lemma split_render:
  "\<forall>c \<in> set cs. bslash \<notin> set c \<Longrightarrow> bslash \<notin> set c \<Longrightarrow>
     split_on bslash (c @ render cs) = c # cs"
proof (induction cs arbitrary: c)
  case Nil
  then show ?case by (simp add: split_on_no_sep)
next
  case (Cons d cs)
  then show ?case by (simp add: split_on_append_sep split_on_no_sep)
qed

lemma split_full_render:
  "\<forall>c \<in> set cs. bslash \<notin> set c \<Longrightarrow> split_on bslash (render cs) = [] # cs"
  using split_render[of cs "[]"] by simp

lemma render_set: "x \<in> set (render cs) \<Longrightarrow> x = bslash \<or> (\<exists>c \<in> set cs. x \<in> set c)"
  by (induction cs) auto

lemma render_last:
  assumes "\<forall>c \<in> set cs. valid_component c" and "cs \<noteq> []"
  shows "render cs \<noteq> [bslash] \<and> last (render cs) \<noteq> bslash"
proof -
  obtain ds c where cs: "cs = ds @ [c]" using assms(2) by (metis rev_exhaust)
  with assms(1) have c: "c \<noteq> []" "bslash \<notin> set c" by (auto simp: valid_component_def)
  then have "last (render cs) = last c" by (simp add: cs)
  with c have "last (render cs) \<noteq> bslash" by (metis last_in_set)
  then show ?thesis by (metis last.simps)
qed

lemma replace_char_id: "a \<notin> set s \<Longrightarrow> replace_char a b s = s"
  by (induction s) (auto simp: replace_char_def)

lemma replace_char_absent: "a \<noteq> b \<Longrightarrow> a \<notin> set (replace_char a b s)"
  by (auto simp: replace_char_def)

lemma canonicalize_ok:
  "canonicalize v folder = Inr s \<longleftrightarrow>
     CHR 0x00 \<notin> set v \<and> s = replace_char (CHR ''/'') bslash v \<and>
     (folder \<and> s = [bslash] \<or> (\<exists>cs. cs \<noteq> [] \<and> s = render cs \<and> (\<forall>c \<in> set cs. valid_component c)))"
  (is "?L \<longleftrightarrow> ?nul \<and> s = ?n \<and> (?root \<or> ?comps)")
proof
  assume ?L
  then have nul: ?nul and s: "s = ?n" and start: "starts_with [bslash] ?n"
    and rest: "?root \<or> (s \<noteq> [bslash] \<and> (\<forall>c \<in> set (split_on bslash (tl ?n)). valid_component c))"
    by (auto simp: canonicalize_def Let_def ok_iff split: if_splits)
  from start s obtain t where t: "s = bslash # t" by (auto simp: starts_with_iff)
  have "render (split_on bslash t) = s" by (simp add: render_split t)
  moreover have "tl ?n = t" using s t by (metis list.sel(3))
  ultimately show "?nul \<and> s = ?n \<and> (?root \<or> ?comps)"
    using nul s rest by (metis split_on_not_Nil)
next
  assume R: "?nul \<and> s = ?n \<and> (?root \<or> ?comps)"
  show ?L
  proof (cases ?root)
    case True
    with R show ?thesis by (simp add: canonicalize_def Let_def starts_with_iff)
  next
    case False
    with R obtain c cs where cs: "s = render (c # cs)" "\<forall>d \<in> set (c # cs). valid_component d"
      by (metis neq_Nil_conv)
    from cs(2) have nb: "\<forall>d \<in> set cs. bslash \<notin> set d" "bslash \<notin> set c"
      by (auto simp: valid_component_def)
    from R have n: "?n = s" and nul: ?nul by auto
    from cs(1) have t: "s = bslash # c @ render cs" by (metis render_simps(2))
    have sp: "split_on bslash (tl s) = c # cs"
      using split_render[OF nb] t by (metis list.sel(3))
    from render_last[OF cs(2)] cs(1) have last: "s \<noteq> [bslash]" "last s \<noteq> bslash" by auto
    have 1: "starts_with [bslash] s" by (simp add: t starts_with_iff)
    have 2: "\<not> ends_with [bslash] s" using last by (auto simp: ends_with_char)
    have 3: "validate_components (split_on bslash (tl s)) = Inr ()"
      unfolding sp using cs(2) by (simp only: validate_components_ok)
    show ?thesis unfolding canonicalize_def Let_def n using nul last(1) 1 2 3 by simp
  qed
qed

lemma canonical_shape:
  "(\<forall>c \<in> set cs. valid_component c) \<Longrightarrow>
     CHR 0x00 \<notin> set (render cs) \<and> CHR ''/'' \<notin> set (render cs)"
  using render_set[of _ cs] by (fastforce simp: valid_component_def)

lemma folder_ok_iff:
  "folder_ok f \<longleftrightarrow> is_root f \<or>
     (\<exists>cs. cs \<noteq> [] \<and> folder_str f = render cs \<and> (\<forall>c \<in> set cs. valid_component c))"
proof (cases f)
  case (FolderPath s)
  have "canonicalize s True = Inr s \<longleftrightarrow>
      s = [bslash] \<or> (\<exists>cs. cs \<noteq> [] \<and> s = render cs \<and> (\<forall>c \<in> set cs. valid_component c))"
    unfolding canonicalize_ok using canonical_shape by (auto simp: replace_char_id)
  then show ?thesis by (auto simp: folder_ok_def folder_from_str_def is_root_def FolderPath ok_iff)
qed

lemma task_ok_iff:
  "task_ok t \<longleftrightarrow> (\<exists>cs. cs \<noteq> [] \<and> task_str t = render cs \<and> (\<forall>c \<in> set cs. valid_component c))"
proof (cases t)
  case (TaskPath s)
  have "canonicalize s False = Inr s \<longleftrightarrow>
      (\<exists>cs. cs \<noteq> [] \<and> s = render cs \<and> (\<forall>c \<in> set cs. valid_component c))"
    unfolding canonicalize_ok using canonical_shape by (auto simp: replace_char_id)
  then show ?thesis by (auto simp: task_ok_def task_from_str_def TaskPath ok_iff)
qed

lemma folder_from_str_ok: "folder_from_str v = Inr f \<Longrightarrow> folder_ok f"
  unfolding folder_ok_iff by (auto simp: folder_from_str_def ok_iff canonicalize_ok is_root_def)

lemma task_from_str_ok: "task_from_str v = Inr t \<Longrightarrow> task_ok t"
  unfolding task_ok_iff by (auto simp: task_from_str_def ok_iff canonicalize_ok)

lemma folder_ok_root [simp]: "folder_ok folder_root"
  by (simp add: folder_ok_iff folder_root_def is_root_def)

lemma is_root_iff [simp]: "is_root f \<longleftrightarrow> f = folder_root"
  by (cases f) (simp add: is_root_def folder_root_def)

text \<open>The components of a canonical folder, outermost first; the root has none.\<close>

definition components :: "folder_path \<Rightarrow> string list" where
  "components f = filter (\<lambda>c. c \<noteq> []) (split_on bslash (folder_str f))"

lemma folder_depth_components: "folder_depth f = length (components f)"
  by (simp add: folder_depth_def components_def)

lemma valid_no_sep: "list_all valid_component cs \<Longrightarrow> \<forall>c \<in> set cs. bslash \<notin> set c"
  by (auto simp: valid_component_def list_all_iff)

lemma components_render:
  assumes "list_all valid_component cs"
  shows "components (FolderPath (render cs)) = cs"
proof -
  have "filter (\<lambda>c. c \<noteq> []) cs = cs"
    using assms by (auto simp: valid_component_def list_all_iff filter_id_conv)
  then show ?thesis
    using split_full_render[OF valid_no_sep[OF assms]] by (simp add: components_def)
qed

lemma components_root [simp]: "components folder_root = []"
  by (simp add: components_def folder_root_def)

lemma folder_cases:
  assumes "folder_ok f"
  obtains (root) "f = folder_root"
    | (child) cs c where "f = FolderPath (render (cs @ [c]))" "list_all valid_component cs"
        "valid_component c"
proof -
  from assms consider "f = folder_root"
    | cs where "cs \<noteq> []" "folder_str f = render cs" "\<forall>c \<in> set cs. valid_component c"
    by (auto simp: folder_ok_iff)
  then show thesis
  proof cases
    case 2
    then obtain ds d where "cs = ds @ [d]" by (metis rev_exhaust)
    with 2 show thesis using child[of ds d] by (cases f) (auto simp: list_all_iff)
  qed (rule root)
qed

lemma rfind_render:
  assumes "valid_component c"
  shows "rfind_index (\<lambda>x. x = bslash) (render (cs @ [c])) = Some (length (render cs))"
  using rfind_index_hit[of c "\<lambda>x. x = bslash" bslash "render cs"] assms
  by (auto simp: valid_component_def)

text \<open>The folder a component list denotes, and the four operations on it.\<close>

definition folder_of :: "string list \<Rightarrow> folder_path" where
  "folder_of cs = (if cs = [] then folder_root else FolderPath (render cs))"

lemma folder_of_ok: "list_all valid_component cs \<Longrightarrow> folder_ok (folder_of cs)"
  by (auto simp: folder_of_def folder_ok_iff list_all_iff)

lemma folder_of_components: "folder_ok f \<Longrightarrow> folder_of (components f) = f"
  by (erule folder_cases) (simp_all add: folder_of_def components_render del: render_simps)

lemma components_valid: "folder_ok f \<Longrightarrow> list_all valid_component (components f)"
  by (erule folder_cases) (simp_all add: components_render del: render_simps)

lemma components_of: "list_all valid_component cs \<Longrightarrow> components (folder_of cs) = cs"
  by (simp add: folder_of_def components_render)

lemma folder_of_not_root:
  "list_all valid_component cs \<Longrightarrow> cs \<noteq> [] \<Longrightarrow> folder_of cs \<noteq> folder_root"
  using components_of[of cs] by auto

lemma canonicalize_render:
  "list_all valid_component cs \<Longrightarrow> cs \<noteq> [] \<Longrightarrow> canonicalize (render cs) b = Inr (render cs)"
  using canonical_shape[of cs] by (auto simp: canonicalize_ok replace_char_id list_all_iff)

lemma folder_join_of:
  assumes "list_all valid_component cs"
  shows "folder_join (folder_of cs) c = Inr g \<longleftrightarrow> valid_component c \<and> g = folder_of (cs @ [c])"
proof (cases "valid_component c")
  case True
  have "folder_from_str (render (cs @ [c])) = Inr (folder_of (cs @ [c]))"
    using canonicalize_render[of "cs @ [c]" True] assms True
    by (simp add: folder_from_str_def folder_of_def)
  then show ?thesis
    using True assms folder_of_not_root[of cs]
    by (auto simp: folder_join_def ok_iff folder_of_def)
qed (simp add: folder_join_def ok_iff)

lemma folder_task_of:
  assumes "list_all valid_component cs"
  shows "folder_task (folder_of cs) c = Inr t \<longleftrightarrow>
    valid_component c \<and> t = TaskPath (render (cs @ [c]))"
proof (cases "valid_component c")
  case True
  have "task_from_str (render (cs @ [c])) = Inr (TaskPath (render (cs @ [c])))"
    using canonicalize_render[of "cs @ [c]" False] assms True by (simp add: task_from_str_def)
  then show ?thesis
    using True assms folder_of_not_root[of cs]
    by (auto simp: folder_task_def ok_iff folder_of_def)
qed (simp add: folder_task_def ok_iff)

lemma render_length_0: "length (render cs) = 0 \<longleftrightarrow> cs = []"
  by (cases cs) auto

lemma folder_parent_of:
  assumes "list_all valid_component (cs @ [c])"
  shows "folder_parent (folder_of (cs @ [c])) = Some (folder_of cs)"
proof -
  have "\<not> is_root (folder_of (cs @ [c]))" using folder_of_not_root[OF assms] by simp
  then show ?thesis
    using rfind_render[of c cs] assms render_length_0[of cs]
    by (simp add: folder_parent_def folder_of_def)
qed

lemma folder_name_of:
  assumes "list_all valid_component (cs @ [c])"
  shows "folder_name (folder_of (cs @ [c])) = Some c"
  using folder_of_not_root[OF assms] split_full_render[OF valid_no_sep[OF assms]]
  by (simp add: folder_name_def folder_of_def)

lemma task_parts_of:
  assumes "list_all valid_component (cs @ [c])"
  shows "task_folder (TaskPath (render (cs @ [c]))) = folder_of cs"
    and "task_name (TaskPath (render (cs @ [c]))) = c"
  using rfind_render[of c cs] split_full_render[OF valid_no_sep[OF assms]] assms
    render_length_0[of cs]
  by (simp_all add: task_folder_def task_name_def folder_of_def)

lemma task_cases:
  assumes "task_ok t"
  obtains cs c where "t = TaskPath (render (cs @ [c]))" "list_all valid_component (cs @ [c])"
proof -
  from assms obtain cs where "cs \<noteq> []" "task_str t = render cs" "\<forall>c \<in> set cs. valid_component c"
    by (auto simp: task_ok_iff)
  then show thesis
    by (cases t, cases cs rule: rev_cases) (auto simp: list_all_iff intro!: that)
qed

interpretation folder_text: text_codec folder_str folder_from_str folder_ok
  by unfold_locales (auto simp: folder_ok_def folder_from_str_ok[unfolded folder_ok_def])

interpretation task_text: text_codec task_str task_from_str task_ok
  by unfold_locales (auto simp: task_ok_def task_from_str_ok[unfolded task_ok_def])

section \<open>Properties\<close>

text \<open>C12. What \<open>TaskPath::from_str\<close> accepts and returns: exactly the texts without NUL whose
  forward slashes, turned into backslashes, give a non-empty sequence of components, each behind
  one backslash, where no component is empty, \<open>.\<close>, \<open>..\<close>, padded with whitespace, or holds a
  separator. The returned path is that sequence, so it never leaves the folder tree.\<close>

theorem task_from_str_exact:
  "task_from_str v = Inr t \<longleftrightarrow>
     CHR 0x00 \<notin> set v \<and>
     (\<exists>cs. cs \<noteq> [] \<and> list_all valid_component cs \<and> t = TaskPath (render cs) \<and>
       replace_char (CHR ''/'') bslash v = render cs)"
  by (cases t) (auto simp: task_from_str_def ok_iff canonicalize_ok list_all_iff)

text \<open>\<open>FolderPath::join\<close> against \<open>parent\<close>, \<open>name\<close> and the folder depth: joining a child to a
  canonical folder yields a canonical folder one level deeper whose parent and name are the ones
  joined, and every canonical folder but the root is its parent joined with its name.\<close>

theorem folder_join_parent_name:
  assumes "folder_ok f"
  shows "folder_join f c = Inr g \<longleftrightarrow>
    folder_ok g \<and> folder_parent g = Some f \<and> folder_name g = Some c
      \<and> folder_depth g = Suc (folder_depth f)"
proof
  define cs where "cs = components f"
  have cs: "list_all valid_component cs" "f = folder_of cs"
    using components_valid[OF assms] folder_of_components[OF assms] by (auto simp: cs_def)
  {
    assume "folder_join f c = Inr g"
    then have "valid_component c" "g = folder_of (cs @ [c])"
      using folder_join_of[OF cs(1)] cs(2) by auto
    then show "folder_ok g \<and> folder_parent g = Some f \<and> folder_name g = Some c
        \<and> folder_depth g = Suc (folder_depth f)"
      using cs folder_of_ok[of "cs @ [c]"] folder_parent_of[of cs c] folder_name_of[of cs c]
      by (simp add: folder_depth_components components_of)
  next
    assume R: "folder_ok g \<and> folder_parent g = Some f \<and> folder_name g = Some c
        \<and> folder_depth g = Suc (folder_depth f)"
    define ds where "ds = components g"
    have ds: "list_all valid_component ds" "g = folder_of ds"
      using R components_valid folder_of_components by (auto simp: ds_def)
    from R have "ds \<noteq> []" by (auto simp: folder_depth_components ds_def)
    then obtain es e where es: "ds = es @ [e]" by (metis rev_exhaust)
    with ds R have "f = folder_of es" "c = e"
      using folder_parent_of[of es e] folder_name_of[of es e] by auto
    then show "folder_join f c = Inr g"
      using ds es folder_join_of[of es e g] by simp
  }
qed

lemma folder_join_parent_name_witness:
  "folder_ok (FolderPath [bslash, CHR ''a'']) \<and>
   (\<exists>g. folder_join (FolderPath [bslash, CHR ''a'']) ''b'' = Inr g \<and>
     folder_parent g = Some (FolderPath [bslash, CHR ''a'']) \<and> folder_depth g = 2)"
proof -
  have ok: "folder_ok (FolderPath [bslash, CHR ''a''])" by code_simp
  have "folder_join (FolderPath [bslash, CHR ''a'']) ''b''
      = Inr (FolderPath [bslash, CHR ''a'', bslash, CHR ''b''])" by code_simp
  moreover have "folder_depth (FolderPath [bslash, CHR ''a'']) = 1" by code_simp
  ultimately show ?thesis
    using ok folder_join_parent_name[OF ok, of "''b''"] by auto
qed

text \<open>\<open>FolderPath::task\<close> against \<open>TaskPath::folder\<close> and \<open>TaskPath::name\<close>: for a canonical
  folder, the tasks it makes are exactly the canonical task paths with that folder and that name.\<close>

theorem folder_task_folder_name:
  assumes "folder_ok f"
  shows "folder_task f n = Inr t \<longleftrightarrow> task_ok t \<and> task_folder t = f \<and> task_name t = n"
proof
  define cs where "cs = components f"
  have cs: "list_all valid_component cs" "f = folder_of cs"
    using components_valid[OF assms] folder_of_components[OF assms] by (auto simp: cs_def)
  {
    assume "folder_task f n = Inr t"
    then have "valid_component n" "t = TaskPath (render (cs @ [n]))"
      using folder_task_of[OF cs(1)] cs(2) by auto
    moreover have "task_ok (TaskPath (render (cs @ [n])))" if "valid_component n"
      using cs that by (auto simp: task_ok_iff list_all_iff intro!: exI[of _ "cs @ [n]"])
    ultimately show "task_ok t \<and> task_folder t = f \<and> task_name t = n"
      using cs task_parts_of[of cs n] by simp
  next
    assume R: "task_ok t \<and> task_folder t = f \<and> task_name t = n"
    then obtain ds d where ds: "t = TaskPath (render (ds @ [d]))" "list_all valid_component (ds @ [d])"
      by (auto elim: task_cases)
    with R have "f = folder_of ds" "n = d" using task_parts_of[OF ds(2)] by auto
    then show "folder_task f n = Inr t" using ds folder_task_of[of ds d t] by simp
  }
qed

lemma folder_task_folder_name_witness:
  "folder_ok folder_root \<and>
   (\<exists>t. folder_task folder_root ''job'' = Inr t \<and> task_folder t = folder_root \<and> task_name t = ''job'')"
proof -
  have "folder_task folder_root ''job'' = Inr (TaskPath (bslash # ''job''))" by code_simp
  then show ?thesis using folder_task_folder_name[OF folder_ok_root, of "''job''"] by auto
qed

end
