(* ===== verification/Time.thy ===== *)
theory Time
  imports Errors
begin

text \<open>
  Task Scheduler times (\<open>model/time.rs\<close>): boundary timestamps with their recurrence basis, and
  durations with their ISO-8601 text. A \<open>TaskDuration\<close> is its \<open>std::time::Duration\<close>: whole seconds
  on 64 bits and fewer than 10\<open>^\<close>9 nanoseconds on 32 bits. The civil date-time parser is the
  \<open>jiff\<close> crate's; it is the parameter \<open>civil\<close> of the functions that call it.
\<close>

section \<open>Durations\<close>

record duration =
  dur_secs :: u64
  dur_nanos :: u32

type_synonym task_duration = duration \<comment> \<open>the newtype \<open>TaskDuration(Duration)\<close>\<close>

definition duration_wf :: "duration \<Rightarrow> bool" where
  "duration_wf d \<longleftrightarrow> unat (dur_nanos d) < 10 ^ 9"

definition from_secs :: "u64 \<Rightarrow> task_duration" where
  "from_secs n = \<lparr>dur_secs = n, dur_nanos = 0\<rparr>"

definition from_mins :: "u64 \<Rightarrow> task_duration" where
  "from_mins n = from_secs (saturating_mul n 60)"

definition from_hours :: "u64 \<Rightarrow> task_duration" where
  "from_hours n = from_secs (saturating_mul n 3600)"

definition from_days :: "u64 \<Rightarrow> task_duration" where
  "from_days n = from_secs (saturating_mul n 86400)"

text \<open>The derived \<open>Ord\<close>: seconds first, then nanoseconds.\<close>

definition duration_less :: "duration \<Rightarrow> duration \<Rightarrow> bool" where
  "duration_less a b \<longleftrightarrow>
     dur_secs a < dur_secs b \<or> dur_secs a = dur_secs b \<and> dur_nanos a < dur_nanos b"

definition is_zero_duration :: "duration \<Rightarrow> bool" where
  "is_zero_duration d \<longleftrightarrow> dur_secs d = 0 \<and> dur_nanos d = 0"

datatype task_limit = Finite task_duration | Unlimited

definition default_limit :: task_limit where
  "default_limit = Finite (from_secs (72 * 60 * 60))"

subsection \<open>Printing\<close>

text \<open>\<open>while fraction.ends_with('0') { fraction.pop(); }\<close>\<close>

function strip_zeros :: "string \<Rightarrow> string" where
  "strip_zeros s = (if ends_with ''0'' s then strip_zeros (butlast s) else s)"
  by pat_completeness auto
termination
  by (relation "measure length") (auto simp: ends_with_char)

declare strip_zeros.simps [simp del]

definition duration_display :: "task_duration \<Rightarrow> string" where
  "duration_display d =
     (let total = dur_secs d;
          days = total div 86400;
          hours = total mod 86400 div 3600;
          minutes = total mod 3600 div 60;
          seconds = total mod 60;
          nanos = dur_nanos d;
          has_time = (hours \<noteq> 0 \<or> minutes \<noteq> 0 \<or> seconds \<noteq> 0 \<or> nanos \<noteq> 0 \<or> days = 0)
      in ''P''
         @ (if days \<noteq> 0 then show_nat (unat days) @ ''D'' else [])
         @ (if has_time then
              ''T''
              @ (if hours \<noteq> 0 then show_nat (unat hours) @ ''H'' else [])
              @ (if minutes \<noteq> 0 then show_nat (unat minutes) @ ''M'' else [])
              @ (if nanos = 0 then
                   (if seconds \<noteq> 0 \<or> (hours = 0 \<and> minutes = 0)
                    then show_nat (unat seconds) @ ''S'' else [])
                 else show_nat (unat seconds) @ ''.'' @ strip_zeros (show_pad 9 (unat nanos)) @ ''S'')
            else []))"

subsection \<open>Parsing\<close>

datatype parse_duration_error = ParseTaskDurationError message

definition duration_error :: "string \<Rightarrow> parse_duration_error" where
  "duration_error value =
     ParseTaskDurationError [Lit ''invalid fixed ISO-8601 task duration '', Dbg value]"

definition parse_unsigned :: "string \<Rightarrow> u64 option" where
  "parse_unsigned s =
     (if s = [] \<or> \<not> list_all is_ascii_digit s then None
      else map_option of_nat (parse_uint 64 s))"

text \<open>\<open>format!("{fraction:0<9}")\<close> pads with zeros on the right.\<close>

definition parse_seconds :: "string \<Rightarrow> (u64 \<times> u32) option" where
  "parse_seconds value =
     (let (whole, fraction) = (case split_once (CHR ''.'') value of Some p \<Rightarrow> p | None \<Rightarrow> (value, []))
      in Option.bind (parse_unsigned whole) (\<lambda>seconds.
           if CHR ''.'' \<in> set value
              \<and> (fraction = [] \<or> length fraction > 9 \<or> \<not> list_all is_ascii_digit fraction)
           then None
           else if fraction = [] then Some (seconds, 0)
           else Option.bind
                  (parse_uint 32 (fraction @ replicate (9 - length fraction) (CHR ''0'')))
                  (\<lambda>n. Some (seconds, of_nat n))))"

text \<open>The loop over the time part: its mutable variables are the fields.\<close>

record iso_state =
  is_hours :: u64
  is_minutes :: u64
  is_seconds :: u64
  is_nanos :: u32
  is_components :: nat
  is_start :: nat
  is_order :: nat

definition iso_start :: iso_state where
  "iso_start = \<lparr>is_hours = 0, is_minutes = 0, is_seconds = 0, is_nanos = 0, is_components = 0,
     is_start = 0, is_order = 0\<rparr>"

definition iso_component :: "char \<Rightarrow> string \<Rightarrow> iso_state \<Rightarrow> iso_state option" where
  "iso_component mark component st =
     (if mark = CHR ''H'' then
        map_option (\<lambda>n. st\<lparr>is_hours := n\<rparr>) (parse_unsigned component)
      else if mark = CHR ''M'' then
        map_option (\<lambda>n. st\<lparr>is_minutes := n\<rparr>) (parse_unsigned component)
      else map_option (\<lambda>(s, n). st\<lparr>is_seconds := s, is_nanos := n\<rparr>) (parse_seconds component))"

fun iso_loop :: "string \<Rightarrow> nat \<Rightarrow> string \<Rightarrow> iso_state \<Rightarrow> iso_state option" where
  "iso_loop time index [] st = Some st"
| "iso_loop time index (mark # rest) st =
     (let order = (if mark = CHR ''H'' then Some 1
                   else if mark = CHR ''M'' then Some 2
                   else if mark = CHR ''S'' then Some 3 else None)
      in case order of
           None \<Rightarrow>
             if is_ascii_digit mark \<or> mark = CHR ''.'' then iso_loop time (Suc index) rest st
             else None
         | Some k \<Rightarrow>
             if k \<le> is_order st then None
             else
               Option.bind
                 (iso_component mark (take (index - is_start st) (drop (is_start st) time)) st)
                 (\<lambda>st'. iso_loop time (Suc index) rest
                    (st'\<lparr>is_components := is_components st' + 1, is_order := k,
                         is_start := Suc index\<rparr>)))"

definition iso_total :: "u64 \<Rightarrow> iso_state \<Rightarrow> u64 option" where
  "iso_total days st =
     Option.bind (checked_mul days 86400) (\<lambda>sum.
     Option.bind (checked_mul (is_hours st) 3600) (\<lambda>h.
     Option.bind (checked_add sum h) (\<lambda>sum.
     Option.bind (checked_mul (is_minutes st) 60) (\<lambda>m.
     Option.bind (checked_add sum m) (\<lambda>sum.
     checked_add sum (is_seconds st))))))"

definition iso_parts :: "string \<Rightarrow> (string \<times> string option) option" where
  "iso_parts body =
     (case split_once (CHR ''T'') body of
        Some (date, time) \<Rightarrow>
          if time \<noteq> [] \<and> CHR ''T'' \<notin> set time then Some (date, Some time) else None
      | None \<Rightarrow> Some (body, None))"

definition iso_days :: "string \<Rightarrow> u64 option" where
  "iso_days date =
     (if date \<noteq> [] then Option.bind (strip_suffix ''D'' date) parse_unsigned else Some 0)"

definition iso_time :: "string \<Rightarrow> string option \<Rightarrow> iso_state option" where
  "iso_time date time =
     (case time of
        Some t \<Rightarrow>
          Option.bind (iso_loop t 0 t iso_start) (\<lambda>st.
            if is_components st = 0 \<or> is_start st \<noteq> length t then None else Some st)
      | None \<Rightarrow> if date = [] then None else Some iso_start)"

definition parse_iso_duration :: "string \<Rightarrow> parse_duration_error + duration" where
  "parse_iso_duration value =
     ok_or (duration_error value)
       (Option.bind (strip_prefix ''P'' value) (\<lambda>body.
        if body = [] then None
        else
          Option.bind (iso_parts body) (\<lambda>(date, time).
          Option.bind (iso_days date) (\<lambda>days.
          Option.bind (iso_time date time) (\<lambda>st.
          Option.bind (iso_total days st) (\<lambda>total.
            Some \<lparr>dur_secs = total, dur_nanos = is_nanos st\<rparr>))))))"

section \<open>Printing and parsing durations\<close>

lemma strip_zeros_fraction:
  "\<exists>k. f = strip_zeros f @ replicate k (CHR ''0'')"
proof (induction f rule: strip_zeros.induct)
  case (1 f)
  show ?case
  proof (cases "ends_with ''0'' f")
    case True
    then obtain g where g: "f = g @ ''0''" by (auto simp: ends_with_iff)
    with 1[OF True] obtain k where "g = strip_zeros g @ replicate k (CHR ''0'')" by auto
    then have "f = strip_zeros g @ replicate (Suc k) (CHR ''0'')"
      by (metis g append_assoc replicate_append_same replicate_Suc)
    moreover have "strip_zeros f = strip_zeros (butlast f)"
      using True by (simp add: strip_zeros.simps[of f])
    ultimately show ?thesis using g by (metis butlast_snoc)
  next
    case False
    then show ?thesis by (simp add: strip_zeros.simps[of f])
  qed
qed

lemma strip_zeros_last: "strip_zeros f = [] \<or> last (strip_zeros f) \<noteq> CHR ''0''"
proof (induction f rule: strip_zeros.induct)
  case (1 f)
  then show ?case
    by (cases "ends_with ''0'' f") (simp_all add: strip_zeros.simps[of f] ends_with_char)
qed

lemma digits_not_T:
  "list_all is_ascii_digit s \<Longrightarrow> \<not> is_ascii_digit c \<Longrightarrow> c \<notin> set s"
  by (auto simp: list_all_iff)

lemma parse_unsigned_show [simp]: "parse_unsigned (show_nat (unat n)) = Some n"
  using unsigned_less[of n] by (simp add: parse_unsigned_def)

lemma parse_seconds_whole: "parse_seconds (show_nat (unat n)) = Some (n, 0)"
  using digits_not_T[of "show_nat (unat n)" "CHR ''.''"]
  by (simp add: parse_seconds_def split_once_None[THEN iffD2])

lemma strip_zeros_pad:
  assumes "n < 10 ^ 9" and "n \<noteq> 0"
  defines "f \<equiv> strip_zeros (show_pad 9 n)"
  shows "f \<noteq> []" and "length f \<le> 9" and "list_all is_ascii_digit f"
    and "f @ replicate (9 - length f) (CHR ''0'') = show_pad 9 n"
proof -
  obtain k where k: "show_pad 9 n = f @ replicate k (CHR ''0'')"
    using strip_zeros_fraction[of "show_pad 9 n"] by (auto simp: f_def)
  have "length (show_pad 9 n) = 9" using assms(1) by (simp add: length_show_pad)
  with k have len: "length f + k = 9" by simp
  then show "length f \<le> 9" by simp
  from k len show "f @ replicate (9 - length f) (CHR ''0'') = show_pad 9 n"
    by (metis add_diff_cancel_left')
  show "list_all is_ascii_digit f" using show_pad_digits[of 9 n] k by simp
  show "f \<noteq> []"
  proof
    assume "f = []"
    with k have "digits_val (show_pad 9 n) = digits_val (replicate k (CHR ''0'') @ [])" by simp
    then have "n = 0" unfolding digits_val_zeros by simp
    with assms(2) show False by simp
  qed
qed

lemma parse_seconds_fraction:
  assumes "unat n < 10 ^ 9" and "n \<noteq> 0"
  shows "parse_seconds (show_nat (unat s) @ ''.'' @ strip_zeros (show_pad 9 (unat n))) = Some (s, n)"
proof -
  have n: "unat n \<noteq> 0" using assms(2) by (simp add: unat_eq_0)
  note f = strip_zeros_pad[OF assms(1) n]
  have "CHR ''.'' \<notin> set (show_nat (unat s))" by (rule digits_not_T) simp_all
  then have sp: "split_once (CHR ''.'') (show_nat (unat s) @ CHR ''.'' # strip_zeros (show_pad 9 (unat n)))
      = Some (show_nat (unat s), strip_zeros (show_pad 9 (unat n)))"
    by (simp add: split_once_hit)
  have "parse_uint 32 (show_pad 9 (unat n)) = Some (unat n)"
    using f(1,4) assms(1) by (subst parse_uint_digits) auto
  then show ?thesis
    using f by (simp add: parse_seconds_def sp linorder_not_less)
qed

lemma iso_loop_digits:
  "list_all (\<lambda>c. is_ascii_digit c \<or> c = CHR ''.'') ds \<Longrightarrow>
     iso_loop time i (ds @ rest) st = iso_loop time (i + length ds) rest st"
proof (induction ds arbitrary: i)
  case (Cons d ds)
  then have "d \<noteq> CHR ''H''" "d \<noteq> CHR ''M''" "d \<noteq> CHR ''S''" by auto
  with Cons show ?case by (simp add: Let_def)
qed simp

lemma iso_loop_component:
  assumes "list_all (\<lambda>c. is_ascii_digit c \<or> c = CHR ''.'') ds"
    and "(c, k) \<in> {(CHR ''H'', 1), (CHR ''M'', 2), (CHR ''S'', 3)}"
    and "is_order st < k" and "is_start st = length pre"
    and "iso_component c ds st = Some st'"
  shows "iso_loop (pre @ ds @ c # rest) (length pre) (ds @ c # rest) st =
    iso_loop (pre @ ds @ c # rest) (length (pre @ ds @ [c])) rest
      (st'\<lparr>is_components := is_components st' + 1, is_order := k,
           is_start := length (pre @ ds @ [c])\<rparr>)"
  using assms(2-5) by (subst iso_loop_digits[OF assms(1)]) auto

abbreviation printed :: "bool \<Rightarrow> string \<Rightarrow> char \<Rightarrow> string" where
  "printed b ds c \<equiv> (if b then ds @ [c] else [])"

definition iso_values :: "iso_state \<Rightarrow> u64 \<times> u64 \<times> u64 \<times> u32" where
  "iso_values st = (is_hours st, is_minutes st, is_seconds st, is_nanos st)"

lemma iso_loop_printed:
  assumes "list_all (\<lambda>c. is_ascii_digit c \<or> c = CHR ''.'') ds"
    and "(c, k) \<in> {(CHR ''H'', 1), (CHR ''M'', 2), (CHR ''S'', 3)}"
    and "is_order st < k" and "is_start st = length pre"
    and "iso_component c ds st = Some st'"
    and "seg = printed b ds c" and "time = pre @ seg @ rest"
  obtains st2 where
    "iso_loop time (length pre) (seg @ rest) st = iso_loop time (length (pre @ seg)) rest st2"
    and "is_start st2 = length (pre @ seg)" and "is_order st2 \<le> k"
    and "iso_values st2 = iso_values (if b then st' else st)"
    and "is_components st2 = (if b then is_components st' + 1 else is_components st)"
proof (cases b)
  case True
  define st2 where "st2 = st'\<lparr>is_components := is_components st' + 1, is_order := k,
           is_start := length (pre @ ds @ [c])\<rparr>"
  show ?thesis
    by (rule that[of st2])
      (use iso_loop_component[OF assms(1-5), of rest] True assms(6,7)
        in \<open>auto simp: st2_def iso_values_def\<close>)
next
  case False
  show ?thesis by (rule that[of st]) (use assms False in auto)
qed

lemma iso_time_printed:
  fixes h m s :: u64 and n :: u32
  assumes n: "unat n < 10 ^ 9"
  defines "fraction \<equiv> (if n = 0 then [] else CHR ''.'' # strip_zeros (show_pad 9 (unat n)))"
  assumes H: "H = printed (h \<noteq> 0) (show_nat (unat h)) (CHR ''H'')"
    and M: "M = printed (m \<noteq> 0) (show_nat (unat m)) (CHR ''M'')"
    and S: "S = printed (n \<noteq> 0 \<or> s \<noteq> 0 \<or> h = 0 \<and> m = 0) (show_nat (unat s) @ fraction) (CHR ''S'')"
    and t: "t = H @ M @ S"
  obtains st where "iso_loop t 0 t iso_start = Some st" and "iso_values st = (h, m, s, n)"
    and "is_components st \<noteq> 0" and "is_start st = length t"
proof -
  have nat_digits: "list_all (\<lambda>c. is_ascii_digit c \<or> c = CHR ''.'') (show_nat k)" for k
    using show_nat_set[of _ k] by (auto simp: list_all_iff)
  have frac_digits: "list_all (\<lambda>c. is_ascii_digit c \<or> c = CHR ''.'') (show_nat (unat s) @ fraction)"
    using nat_digits strip_zeros_pad[OF n] by (auto simp: fraction_def list_all_iff unat_eq_0)
  have sec: "parse_seconds (show_nat (unat s) @ fraction) = Some (s, n)"
    using parse_seconds_whole[of s] parse_seconds_fraction[OF n, of s] by (auto simp: fraction_def)
  let ?B = "n \<noteq> 0 \<or> s \<noteq> 0 \<or> h = 0 \<and> m = 0"
  have t0: "t = [] @ H @ (M @ S)" and t1: "t = H @ M @ S" and t2: "t = (H @ M) @ S @ []"
    by (simp_all add: t)
  have mk: "(CHR ''H'', 1 :: nat) \<in> {(CHR ''H'', 1), (CHR ''M'', 2), (CHR ''S'', 3)}"
    "(CHR ''M'', 2 :: nat) \<in> {(CHR ''H'', 1), (CHR ''M'', 2), (CHR ''S'', 3)}"
    "(CHR ''S'', 3 :: nat) \<in> {(CHR ''H'', 1), (CHR ''M'', 2), (CHR ''S'', 3)}"
    by simp_all
  have o0: "is_order iso_start < 1" and p0: "is_start iso_start = length ([] :: string)"
    by (simp_all add: iso_start_def)
  have c0: "iso_component (CHR ''H'') (show_nat (unat h)) iso_start = Some (iso_start\<lparr>is_hours := h\<rparr>)"
    by (simp add: iso_component_def)
  obtain s1 where s1: "iso_loop t (length ([] :: string)) (H @ M @ S) iso_start = iso_loop t (length ([] @ H)) (M @ S) s1"
      "is_start s1 = length (([] :: string) @ H)" "is_order s1 \<le> 1"
      "iso_values s1 = iso_values (if h \<noteq> 0 then iso_start\<lparr>is_hours := h\<rparr> else iso_start)"
      "is_components s1 = (if h \<noteq> 0 then is_components (iso_start\<lparr>is_hours := h\<rparr>) + 1
         else is_components iso_start)"
    by (rule iso_loop_printed[OF nat_digits mk(1) o0 p0 c0 H t0], rule that)
  then have v1: "iso_values s1 = (h, 0, 0, 0)" and k1: "h \<noteq> 0 \<Longrightarrow> is_components s1 > 0"
    by (auto simp: iso_values_def iso_start_def)
  have o1: "is_order s1 < 2" and p1: "is_start s1 = length H" using s1 by simp_all
  have c1: "iso_component (CHR ''M'') (show_nat (unat m)) s1 = Some (s1\<lparr>is_minutes := m\<rparr>)"
    by (simp add: iso_component_def)
  obtain s2 where s2: "iso_loop t (length H) (M @ S) s1 = iso_loop t (length (H @ M)) S s2"
      "is_start s2 = length (H @ M)" "is_order s2 \<le> 2"
      "iso_values s2 = iso_values (if m \<noteq> 0 then s1\<lparr>is_minutes := m\<rparr> else s1)"
      "is_components s2 = (if m \<noteq> 0 then is_components (s1\<lparr>is_minutes := m\<rparr>) + 1
         else is_components s1)"
    by (rule iso_loop_printed[OF nat_digits mk(2) o1 p1 c1 M t1], rule that)
  then have v2: "iso_values s2 = (h, m, 0, 0)" and k2: "h \<noteq> 0 \<or> m \<noteq> 0 \<Longrightarrow> is_components s2 > 0"
    using v1 k1 by (auto simp: iso_values_def)
  have o2: "is_order s2 < 3" and p2: "is_start s2 = length (H @ M)" using s2 by simp_all
  have c2: "iso_component (CHR ''S'') (show_nat (unat s) @ fraction) s2
      = Some (s2\<lparr>is_seconds := s, is_nanos := n\<rparr>)"
    by (simp add: iso_component_def sec)
  obtain s3 where s3: "iso_loop t (length (H @ M)) (S @ []) s2 = iso_loop t (length ((H @ M) @ S)) [] s3"
      "is_start s3 = length ((H @ M) @ S)" "is_order s3 \<le> 3"
      "iso_values s3 = iso_values (if ?B then s2\<lparr>is_seconds := s, is_nanos := n\<rparr> else s2)"
      "is_components s3 = (if ?B then is_components (s2\<lparr>is_seconds := s, is_nanos := n\<rparr>) + 1
         else is_components s2)"
    by (rule iso_loop_printed[OF frac_digits mk(3) o2 p2 c2 S t2], rule that)
  show ?thesis
  proof (rule that)
    show "iso_loop t 0 t iso_start = Some s3"
      using s1(1) s2(1) s3(1) by (simp add: t1[symmetric])
    show "iso_values s3 = (h, m, s, n)" using s3(4) v2 by (auto simp: iso_values_def)
    show "is_components s3 \<noteq> 0" using s3(5) k2 by auto
    show "is_start s3 = length t" using s3(2) by (simp add: t)
  qed
qed

lemma checked_add_iff:
  "checked_add a b = Some c \<longleftrightarrow> unat a + unat b < 2 ^ 64 \<and> unat c = unat a + unat b"
  by (auto simp: checked_add_def unat_word_ariths word_unat_eq_iff)

lemma checked_mul_iff:
  "checked_mul a b = Some c \<longleftrightarrow> unat a * unat b < 2 ^ 64 \<and> unat c = unat a * unat b"
  by (auto simp: checked_mul_def unat_word_ariths word_unat_eq_iff)

lemma checked_add_ok:
  assumes "unat a + unat b < 2 ^ 64"
  obtains c where "checked_add a b = Some c" "unat c = unat a + unat b"
  using assms checked_add_iff[of a b] by (metis checked_add_def)

lemma checked_mul_ok:
  assumes "unat a * unat b < 2 ^ 64"
  obtains c where "checked_mul a b = Some c" "unat c = unat a * unat b"
  using assms checked_mul_iff[of a b] by (metis checked_mul_def)

text \<open>The checked sum is exact: it fails precisely when the number of seconds needs more than
  64 bits.\<close>

lemma iso_total_exact:
  "iso_total days st = Some tot \<longleftrightarrow>
     unat tot = unat days * 86400 + unat (is_hours st) * 3600 + unat (is_minutes st) * 60
       + unat (is_seconds st)" (is "?L \<longleftrightarrow> ?R")
proof
  assume ?L
  then show ?R by (auto simp: iso_total_def bind_eq_Some_conv checked_add_iff checked_mul_iff)
next
  assume R: ?R
  have "unat tot < 2 ^ LENGTH(64)" by (rule unsigned_less)
  with R have bound: "unat days * 86400 + unat (is_hours st) * 3600 + unat (is_minutes st) * 60
       + unat (is_seconds st) < 2 ^ 64"
    by simp
  obtain a where a: "checked_mul days 86400 = Some a" "unat a = unat days * 86400"
    by (rule checked_mul_ok[of days 86400]) (use bound in auto)
  obtain b where b: "checked_mul (is_hours st) 3600 = Some b" "unat b = unat (is_hours st) * 3600"
    by (rule checked_mul_ok[of "is_hours st" 3600]) (use bound in auto)
  obtain c where c: "checked_add a b = Some c" "unat c = unat a + unat b"
    by (rule checked_add_ok[of a b]) (use bound a b in auto)
  obtain m where m: "checked_mul (is_minutes st) 60 = Some m" "unat m = unat (is_minutes st) * 60"
    by (rule checked_mul_ok[of "is_minutes st" 60]) (use bound in auto)
  obtain e where e: "checked_add c m = Some e" "unat e = unat c + unat m"
    by (rule checked_add_ok[of c m]) (use bound a b c m in auto)
  have "checked_add e (is_seconds st) = Some tot"
    using R bound a b c m e by (simp add: checked_add_iff)
  then show ?L by (simp add: iso_total_def a b c m e)
qed

lemma split_units:
  fixes t :: nat
  shows "t div 86400 * 86400 + t mod 86400 div 3600 * 3600 + t mod 3600 div 60 * 60 + t mod 60 = t"
proof -
  have a: "t mod 86400 mod 3600 = t mod 3600" by (rule mod_mod_cancel) simp
  have b: "t mod 3600 mod 60 = t mod 60" by (rule mod_mod_cancel) simp
  show ?thesis
    using div_mult_mod_eq[of t 86400] div_mult_mod_eq[of "t mod 86400" 3600]
      div_mult_mod_eq[of "t mod 3600" 60] by (simp only: a b)
qed

lemma parse_display_parts:
  fixes days :: u64
  assumes date: "date = (if days \<noteq> 0 then show_nat (unat days) @ ''D'' else [])"
    and time: "CHR ''T'' \<notin> set t" "iso_loop t 0 t iso_start = Some st"
      "is_components st \<noteq> 0" "is_start st = length t"
    and tt: "iso_total days st = Some tot"
  shows "parse_iso_duration (''P'' @ date @ ''T'' @ t) =
    Inr \<lparr>dur_secs = tot, dur_nanos = is_nanos st\<rparr>"
proof -
  have no: "CHR ''T'' \<notin> set date" using digits_not_T[of "show_nat (unat days)"] by (auto simp: date)
  have "t \<noteq> []" using time(2,3) by (auto simp: iso_start_def)
  then have "iso_parts (date @ ''T'' @ t) = Some (date, Some t)"
    using no time(1) by (simp add: iso_parts_def split_once_hit)
  moreover have "iso_days date = Some days"
  proof -
    have "strip_suffix ''D'' (show_nat (unat days) @ ''D'') = Some (show_nat (unat days))"
      by (simp only: strip_suffix_Some)
    then show ?thesis by (simp add: iso_days_def date)
  qed
  moreover have "iso_time date (Some t) = Some st" using time by (simp add: iso_time_def)
  moreover have "strip_prefix ''P'' (''P'' @ date @ ''T'' @ t) = Some (date @ ''T'' @ t)"
    by (simp only: strip_prefix_Some)
  ultimately show ?thesis using tt by (simp add: parse_iso_duration_def)
qed

lemma parse_display_days:
  fixes days :: u64
  assumes "days \<noteq> 0" and "iso_total days iso_start = Some tot"
  shows "parse_iso_duration (''P'' @ show_nat (unat days) @ ''D'') = Inr \<lparr>dur_secs = tot, dur_nanos = 0\<rparr>"
proof -
  let ?d = "show_nat (unat days) @ ''D''"
  have no: "CHR ''T'' \<notin> set ?d" using digits_not_T[of "show_nat (unat days)"] by auto
  then have "split_once (CHR ''T'') ?d = None" by (rule split_once_None[THEN iffD2])
  then have "iso_parts ?d = Some (?d, None)" by (simp only: iso_parts_def option.case)
  moreover have "iso_days ?d = Some days"
  proof -
    have "strip_suffix ''D'' ?d = Some (show_nat (unat days))" by (simp only: strip_suffix_Some)
    then show ?thesis by (simp add: iso_days_def)
  qed
  moreover have "iso_time ?d None = Some iso_start" by (simp add: iso_time_def)
  moreover have "strip_prefix ''P'' (''P'' @ ?d) = Some ?d" by (simp only: strip_prefix_Some)
  ultimately show ?thesis using assms(2) by (simp add: parse_iso_duration_def iso_start_def)
qed

lemma parse_display:
  assumes "duration_wf d"
  shows "parse_iso_duration (duration_display d) = Inr d"
proof -
  let ?T = "dur_secs d" and ?n = "dur_nanos d"
  define D h m s where "D = ?T div 86400" "h = ?T mod 86400 div 3600" "m = ?T mod 3600 div 60" "s = ?T mod 60"
  have units: "unat ?T = unat D * 86400 + unat h * 3600 + unat m * 60 + unat s"
    using split_units[of "unat ?T"] by (simp add: D_h_m_s_def unat_div unat_mod)
  have n: "unat ?n < 10 ^ 9" using assms by (simp add: duration_wf_def)
  define fraction where
    "fraction = (if ?n = 0 then [] else CHR ''.'' # strip_zeros (show_pad 9 (unat ?n)))"
  define H where "H = printed (h \<noteq> 0) (show_nat (unat h)) (CHR ''H'')"
  define M where "M = printed (m \<noteq> 0) (show_nat (unat m)) (CHR ''M'')"
  define S where "S = printed (?n \<noteq> 0 \<or> s \<noteq> 0 \<or> h = 0 \<and> m = 0) (show_nat (unat s) @ fraction) (CHR ''S'')"
  define date where "date = (if D \<noteq> 0 then show_nat (unat D) @ ''D'' else [])"
  obtain st where st: "iso_loop (H @ M @ S) 0 (H @ M @ S) iso_start = Some st"
      "iso_values st = (h, m, s, ?n)" "is_components st \<noteq> 0" "is_start st = length (H @ M @ S)"
    by (rule iso_time_printed[OF n H_def M_def S_def[unfolded fraction_def] refl])
  have "CHR ''T'' \<notin> set (strip_zeros (show_pad 9 (unat ?n)))" if "?n \<noteq> 0"
    using strip_zeros_pad(3)[OF n] that digits_not_T by (simp add: unat_eq_0)
  then have noT: "CHR ''T'' \<notin> set (H @ M @ S)"
    using digits_not_T[of "show_nat _"] by (auto simp: H_def M_def S_def fraction_def)
  have tot: "iso_total D st = Some ?T"
    using units st(2) by (simp add: iso_total_exact iso_values_def)
  show ?thesis
  proof (cases "h \<noteq> 0 \<or> m \<noteq> 0 \<or> s \<noteq> 0 \<or> ?n \<noteq> 0 \<or> D = 0")
    case True
    then have "duration_display d = ''P'' @ date @ ''T'' @ (H @ M @ S)"
      unfolding duration_display_def Let_def D_h_m_s_def[symmetric] date_def H_def M_def S_def fraction_def
      by simp
    moreover have "is_nanos st = ?n" using st(2) by (simp add: iso_values_def)
    ultimately show ?thesis
      using parse_display_parts[OF date_def noT st(1,3,4) tot] by simp
  next
    case False
    then have "duration_display d = ''P'' @ show_nat (unat D) @ ''D''"
      unfolding duration_display_def Let_def D_h_m_s_def[symmetric] by simp
    moreover have "iso_total D iso_start = Some ?T"
      using units False by (simp add: iso_total_exact iso_start_def)
    ultimately show ?thesis using parse_display_days[of D ?T] False by simp
  qed
qed

lemma digits_val_less: "list_all is_ascii_digit s \<Longrightarrow> digits_val s < 10 ^ length s"
proof (induction s rule: rev_induct)
  case (snoc c s)
  then have "digits_val s + 1 \<le> 10 ^ length s" "digit_val c < 10" by (auto simp: digit_val_less)
  then show ?case by simp
qed simp

lemma parse_seconds_wf:
  assumes "parse_seconds v = Some (s, n)"
  shows "unat n < 10 ^ 9"
proof -
  obtain w f where wf: "(case split_once (CHR ''.'') v of Some p \<Rightarrow> p | None \<Rightarrow> (v, [])) = (w, f)"
    by (meson surj_pair)
  have lit: "f = []" if "CHR ''.'' \<notin> set v"
    using that wf by (cases "split_once (CHR ''.'') v") (auto simp: split_once_None[THEN iffD2])
  show ?thesis
  proof (cases "f = []")
    case True
    with assms show ?thesis by (auto simp: parse_seconds_def wf bind_eq_Some_conv split: if_splits)
  next
    case False
    let ?p = "f @ replicate (9 - length f) (CHR ''0'')"
    from assms False lit have f: "length f \<le> 9" "list_all is_ascii_digit f"
      and "parse_uint 32 ?p \<noteq> None" and n: "n = of_nat (the (parse_uint 32 ?p))"
      by (auto simp: parse_seconds_def wf bind_eq_Some_conv split: if_splits)
    then have p: "list_all is_ascii_digit ?p" "length ?p = 9" "?p \<noteq> []"
      by (auto simp: list_all_iff False)
    then have "digits_val ?p < 10 ^ 9" using digits_val_less[of ?p] by (simp only: p)
    moreover from this have "parse_uint 32 ?p = Some (digits_val ?p)"
      using p by (subst parse_uint_digits) auto
    ultimately show ?thesis by (simp add: n unat_of_nat)
  qed
qed

lemma iso_component_wf:
  "iso_component c s st = Some st' \<Longrightarrow> unat (is_nanos st) < 10 ^ 9 \<Longrightarrow> unat (is_nanos st') < 10 ^ 9"
  by (auto simp: iso_component_def dest: parse_seconds_wf split: if_splits)

lemma iso_loop_wf:
  "iso_loop time i rest st = Some st' \<Longrightarrow> unat (is_nanos st) < 10 ^ 9 \<Longrightarrow> unat (is_nanos st') < 10 ^ 9"
proof (induction time i rest st arbitrary: st' rule: iso_loop.induct)
  case (2 time index c rest st)
  then show ?case
    using iso_component_wf[of c _ st]
    by (auto simp: Let_def bind_eq_Some_conv split: if_splits)
qed simp

lemma parse_duration_wf: "parse_iso_duration v = Inr d \<Longrightarrow> duration_wf d"
  by (auto simp: parse_iso_duration_def ok_iff bind_eq_Some_conv iso_time_def duration_wf_def iso_start_def
      dest!: iso_loop_wf split: if_splits option.splits)

interpretation duration_text: text_codec duration_display parse_iso_duration duration_wf
  by unfold_locales (auto simp: parse_display parse_duration_wf)

section \<open>Boundary timestamps\<close>

datatype time_basis = LocalWallClock | FixedOffset

record task_datetime =
  dt_text :: string
  dt_basis :: time_basis

datatype parse_datetime_error = ParseTaskDateTimeError message

abbreviation is_sign :: "char \<Rightarrow> bool" where
  "is_sign c \<equiv> c = CHR ''+'' \<or> c = CHR ''-''"

definition numeric_offset_start :: "string \<Rightarrow> nat option" where
  "numeric_offset_start value =
     Option.bind (find_index (\<lambda>c. c = CHR ''T'') value) (\<lambda>time.
       map_option (\<lambda>relative. time + 1 + relative) (rfind_index is_sign (drop (time + 1) value)))"

text \<open>\<open>str::get(a..b)\<close>. Where the range would cut a code point Rust returns \<open>None\<close>; the bytes it
  would return there are not digits, so the parse that follows fails in the same way.\<close>

definition str_get :: "nat \<Rightarrow> nat \<Rightarrow> string \<Rightarrow> string option" where
  "str_get a b s = (if a \<le> b \<and> b \<le> length s then Some (take (b - a) (drop a s)) else None)"

definition validate_offset :: "string \<Rightarrow> parse_datetime_error + unit" where
  "validate_offset offset =
     (let hours = Option.bind (str_get 1 3 offset) (parse_uint 8);
          minutes = Option.bind (str_get 4 6 offset) (parse_uint 8);
          valid = length offset = 6
            \<and> is_sign (offset ! 0)
            \<and> offset ! 3 = CHR '':''
            \<and> (case hours of Some h \<Rightarrow> h \<le> 14 | None \<Rightarrow> False)
            \<and> (case minutes of Some m \<Rightarrow> m \<le> 59 | None \<Rightarrow> False)
            \<and> \<not> (hours = Some 14 \<and> minutes \<noteq> Some 0)
      in if valid then Inr ()
         else Inl (ParseTaskDateTimeError [Lit ''invalid numeric UTC offset '', Dbg offset]))"

definition datetime_parse :: "(string \<Rightarrow> string + unit) \<Rightarrow> string \<Rightarrow> parse_datetime_error + task_datetime" where
  "datetime_parse civil value =
     (let offset_start = numeric_offset_start value in
      bind_ok
        (if ends_with ''Z'' value then Inr (take (length value - 1) value)
         else (case offset_start of
             Some index \<Rightarrow>
               bind_ok (validate_offset (drop index value)) (\<lambda>_. Inr (take index value))
           | None \<Rightarrow> Inr value))
        (\<lambda>civil_text.
          bind_ok
            (map_err (\<lambda>e. ParseTaskDateTimeError
               [Lit ''invalid task boundary '', Dbg value, Lit '': '', Dsp e]) (civil civil_text))
            (\<lambda>_. Inr
              \<lparr>dt_text = value,
               dt_basis = (if ends_with ''Z'' value \<or> offset_start \<noteq> None then FixedOffset
                           else LocalWallClock)\<rparr>)))"

text \<open>\<open>format!("{year:04}")\<close> of an \<open>i16\<close>: the sign counts towards the width.\<close>

definition show_i16_4 :: "int \<Rightarrow> string" where
  "show_i16_4 year = (if year < 0 then ''-'' @ show_pad 3 (nat (- year)) else show_pad 4 (nat year))"

definition civil_text :: "16 word \<Rightarrow> u8 \<Rightarrow> u8 \<Rightarrow> u8 \<Rightarrow> u8 \<Rightarrow> u8 \<Rightarrow> string" where
  "civil_text year month day hour minute second =
     show_i16_4 (sint year) @ ''-'' @ show_pad 2 (unat month) @ ''-'' @ show_pad 2 (unat day) @ ''T''
     @ show_pad 2 (unat hour) @ '':'' @ show_pad 2 (unat minute) @ '':'' @ show_pad 2 (unat second)"

definition wall_clock :: "(string \<Rightarrow> string + unit) \<Rightarrow>
    16 word \<Rightarrow> u8 \<Rightarrow> u8 \<Rightarrow> u8 \<Rightarrow> u8 \<Rightarrow> u8 \<Rightarrow> parse_datetime_error + task_datetime" where
  "wall_clock civil y mo d h mi s = datetime_parse civil (civil_text y mo d h mi s)"

definition utc :: "(string \<Rightarrow> string + unit) \<Rightarrow>
    16 word \<Rightarrow> u8 \<Rightarrow> u8 \<Rightarrow> u8 \<Rightarrow> u8 \<Rightarrow> u8 \<Rightarrow> parse_datetime_error + task_datetime" where
  "utc civil y mo d h mi s = datetime_parse civil (civil_text y mo d h mi s @ ''Z'')"

lemma two_digits:
  assumes "is_ascii_digit a" "is_ascii_digit b"
  shows "show_pad 2 (digits_val [a, b]) = [a, b]"
proof -
  have v: "digits_val [a, b] = 10 * digit_val a + digit_val b" by (simp add: digits_val_def)
  have l: "digit_val a < 10" "digit_val b < 10" using assms by (simp_all add: digit_val_less)
  show ?thesis
  proof (cases "digit_val a = 0")
    case True
    moreover have "digit_char 0 = CHR ''0''" by code_simp
    ultimately have a: "a = CHR ''0''" using True digit_char_val[OF assms(1)] by simp
    have "show_nat (digit_val b) = [b]" using l assms by (subst show_nat.simps) simp
    then have "show_pad 2 (digit_val b) = [CHR ''0'', b]" by (simp add: show_pad_def)
    moreover have "digits_val [a, b] = digit_val b" using v True by simp
    ultimately show ?thesis using a by (metis)
  next
    case False
    have "show_nat (10 * digit_val a + digit_val b) = [a, b]"
      using False l assms by (subst show_nat.simps, subst show_nat.simps) auto
    then show ?thesis by (simp add: show_pad_def v)
  qed
qed

lemma parse_uint_unsigned:
  "\<forall>c \<in> set s. \<not> is_sign c \<Longrightarrow> parse_uint w s = Some n \<longleftrightarrow>
     s \<noteq> [] \<and> list_all is_ascii_digit s \<and> digits_val s = n \<and> n < 2 ^ w"
  by (auto simp: parse_uint_def Let_def split: list.splits)

lemma two_digit_field:
  assumes "\<not> is_sign a" "\<not> is_sign b"
  shows "parse_uint 8 [a, b] = Some n \<longleftrightarrow> n < 100 \<and> [a, b] = show_pad 2 n"
proof
  assume "parse_uint 8 [a, b] = Some n"
  then have d: "is_ascii_digit a" "is_ascii_digit b" and n: "digits_val [a, b] = n"
    using assms by (auto simp: parse_uint_unsigned)
  have "digit_val a < 10" "digit_val b < 10" using d by (simp_all add: digit_val_less)
  then have "n < 100" using n by (simp add: digits_val_def)
  then show "n < 100 \<and> [a, b] = show_pad 2 n" using two_digits[OF d] n by simp
next
  assume R: "n < 100 \<and> [a, b] = show_pad 2 n"
  then have "show_pad 2 n \<noteq> []" by (metis list.distinct(1))
  then show "parse_uint 8 [a, b] = Some n"
    using R by (simp add: parse_uint_digits)
qed

definition offset_text :: "char \<Rightarrow> nat \<Rightarrow> nat \<Rightarrow> string" where
  "offset_text sign hours minutes = sign # show_pad 2 hours @ '':'' @ show_pad 2 minutes"

lemma length_two: "n < 100 \<Longrightarrow> length (show_pad 2 n) = 2"
  by (rule length_show_pad) simp_all

lemma validate_offset_exact:
  assumes "\<forall>c \<in> set r. \<not> is_sign c"
  shows "validate_offset (sign # r) = Inr () \<longleftrightarrow>
    (\<exists>h m. is_sign sign \<and> m \<le> 59 \<and> 60 * h + m \<le> 14 * 60 \<and> sign # r = offset_text sign h m)"
proof
  assume L: "validate_offset (sign # r) = Inr ()"
  then have len: "length r = 5" by (auto simp: validate_offset_def Let_def split: if_splits)
  then obtain a b c d e where r: "r = [a, b, c, d, e]"
    by (auto simp: numeral_eq_Suc length_Suc_conv)
  from L r obtain h m where "is_sign sign" "c = CHR '':''"
      and p: "parse_uint 8 [a, b] = Some h" "parse_uint 8 [d, e] = Some m"
      and hm: "h \<le> 14" "m \<le> 59" "\<not> (h = 14 \<and> m \<noteq> 0)"
    by (auto simp: validate_offset_def Let_def str_get_def split: if_splits option.splits)
  moreover from p assms have "[a, b] = show_pad 2 h" "[d, e] = show_pad 2 m"
    by (auto simp: r two_digit_field)
  then have "r = show_pad 2 h @ '':'' @ show_pad 2 m"
    using \<open>c = _\<close> by (metis r append_Cons append_Nil)
  moreover have "60 * h + m \<le> 14 * 60" using hm by (cases "h = 14") auto
  ultimately show "\<exists>h m. is_sign sign \<and> m \<le> 59 \<and> 60 * h + m \<le> 14 * 60 \<and> sign # r = offset_text sign h m"
    unfolding offset_text_def by blast
next
  assume "\<exists>h m. is_sign sign \<and> m \<le> 59 \<and> 60 * h + m \<le> 14 * 60 \<and> sign # r = offset_text sign h m"
  then obtain h m where hm: "is_sign sign" "m \<le> 59" "60 * h + m \<le> 14 * 60"
    and r: "r = show_pad 2 h @ '':'' @ show_pad 2 m"
    by (auto simp: offset_text_def)
  then have h: "h < 100" "m < 100" "h \<le> 14" "\<not> (h = 14 \<and> m \<noteq> 0)" by auto
  obtain a b d e where ab: "show_pad 2 h = [a, b]" "show_pad 2 m = [d, e]"
    using length_two[OF h(1)] length_two[OF h(2)] by (auto simp: numeral_eq_Suc length_Suc_conv)
  have "parse_uint 8 [a, b] = Some h" "parse_uint 8 [d, e] = Some m"
    using assms h ab by (auto simp: two_digit_field r)
  then show "validate_offset (sign # r) = Inr ()"
    using hm h by (simp add: validate_offset_def Let_def str_get_def r ab)
qed

lemma datetime_offset_split:
  assumes "numeric_offset_start v = Some i"
  obtains c sign r where "v = c @ sign # r" "length c = i" "is_sign sign"
    "\<forall>x \<in> set r. \<not> is_sign x" "CHR ''T'' \<in> set c"
proof -
  from assms obtain t j where t: "find_index (\<lambda>c. c = CHR ''T'') v = Some t"
    and j: "rfind_index is_sign (drop (t + 1) v) = Some j" and i: "i = t + 1 + j"
    by (auto simp: numeric_offset_start_def bind_eq_Some_conv)
  have r: "j < length (drop (t + 1) v)" "is_sign (drop (t + 1) v ! j)"
    "\<forall>x \<in> set (drop (Suc j) (drop (t + 1) v)). \<not> is_sign x"
    using rfind_index_Some[OF j] by blast+
  have f: "t < length v" "v ! t = CHR ''T''" using find_index_Some[OF t] by blast+
  have i': "i < length v" using r(1) by (simp add: i)
  moreover have "drop (t + 1) v ! j = v ! i" using i' by (simp add: i)
  moreover have "drop (Suc j) (drop (t + 1) v) = drop (Suc i) v" by (simp add: i add.commute)
  ultimately have i': "i < length v" "is_sign (v ! i)" "\<forall>x \<in> set (drop (Suc i) v). \<not> is_sign x"
    using r by metis+
  have t': "t < i" "v ! t = CHR ''T''" using f by (simp_all add: i)
  show thesis
  proof (rule that)
    show "v = take i v @ v ! i # drop (Suc i) v" using i'(1) by (rule id_take_nth_drop)
    show "length (take i v) = i" using i'(1) by simp
    have "take i v ! t \<in> set (take i v)" using t'(1) i'(1) by (intro nth_mem) simp
    then show "CHR ''T'' \<in> set (take i v)" using t' by simp
  qed (rule i'(2,3))+
qed

section \<open>Properties\<close>

text \<open>C14. Durations survive their textual form: for every duration (any 64-bit number of seconds,
  fewer than 10\<open>^\<close>9 nanoseconds), parsing the ISO-8601 text the formatter prints, with its omitted
  zero units and trimmed fraction, gives the same duration back.\<close>

theorem duration_round_trip:
  assumes "duration_wf d"
  shows "parse_iso_duration (duration_display d) = Inr d"
  using assms by (rule duration_text.parse_print)

lemma duration_round_trip_witness:
  "parse_iso_duration (duration_display \<lparr>dur_secs = 90061, dur_nanos = 500000000\<rparr>)
     = Inr \<lparr>dur_secs = 90061, dur_nanos = 500000000\<rparr>"
  by (rule duration_round_trip) (simp add: duration_wf_def)

text \<open>What a boundary timestamp with an offset may look like. A text that does not end in
  \<open>Z\<close> and has a sign after its \<open>T\<close> parses exactly when it is a civil time the date library
  accepts followed by \<open>+hh:mm\<close> or \<open>-hh:mm\<close> with two digits each, minutes below 60 and at most
  14:00 in total; the value keeps the text and has a fixed basis.\<close>

theorem datetime_parse_offset:
  assumes "\<not> ends_with ''Z'' v" and "numeric_offset_start v = Some i"
  shows "datetime_parse civil v = Inr d \<longleftrightarrow>
    (\<exists>sign h m. v = take i v @ offset_text sign h m \<and> is_sign sign \<and> m \<le> 59 \<and> 60 * h + m \<le> 14 * 60)
      \<and> is_ok (civil (take i v)) \<and> d = \<lparr>dt_text = v, dt_basis = FixedOffset\<rparr>"
proof -
  obtain c sign r where v: "v = c @ sign # r" "length c = i" "is_sign sign" "\<forall>x \<in> set r. \<not> is_sign x"
    by (rule datetime_offset_split[OF assms(2)])
  have drop: "drop i v = sign # r" "take i v = c" using v by auto
  have "datetime_parse civil v = Inr d \<longleftrightarrow>
      validate_offset (sign # r) = Inr () \<and> is_ok (civil c) \<and> d = \<lparr>dt_text = v, dt_basis = FixedOffset\<rparr>"
    using assms by (auto simp: datetime_parse_def Let_def ok_iff drop is_ok_iff)
  moreover have "(\<exists>sign h m. v = take i v @ offset_text sign h m \<and> is_sign sign \<and> m \<le> 59 \<and> 60 * h + m \<le> 14 * 60)
      \<longleftrightarrow> (\<exists>h m. is_sign sign \<and> m \<le> 59 \<and> 60 * h + m \<le> 14 * 60 \<and> sign # r = offset_text sign h m)"
    (is "?A \<longleftrightarrow> ?B")
  proof -
    have eq: "v = take i v @ x \<longleftrightarrow> sign # r = x" for x
      using drop(1) by (metis append_take_drop_id same_append_eq)
    show ?thesis unfolding eq by (auto simp: offset_text_def)
  qed
  ultimately show ?thesis unfolding validate_offset_exact[OF v(4)] drop(2) by blast
qed

lemma datetime_parse_offset_witness:
  "datetime_parse (\<lambda>_. Inr ()) ''2025-01-01T00:00:00+09:30''
     = Inr \<lparr>dt_text = ''2025-01-01T00:00:00+09:30'', dt_basis = FixedOffset\<rparr>"
proof -
  let ?v = "''2025-01-01T00:00:00+09:30''"
  have "\<not> ends_with ''Z'' ?v" "numeric_offset_start ?v = Some 19" by code_simp+
  moreover have "?v = take 19 ?v @ offset_text (CHR ''+'') 9 30" by code_simp
  ultimately show ?thesis
    using datetime_parse_offset[of ?v 19 "\<lambda>_. Inr ()"] by fastforce
qed

end
