(* ===== verification/Ordering.thy ===== *)
theory Ordering
  imports Errors
begin

text \<open>
  Recombining known and preserved XML children (\<open>xml/ordering.rs\<close>, and \<open>merge_extensions\<close> of
  \<open>xml.rs\<close>): extensions carry the absolute position they had among their siblings, known children
  their relative order. The lemmas show that inserting in ascending position rebuilds the list.
\<close>

record 'a positioned =
  p_ordinal :: nat
  p_child :: 'a

definition ordinal_index :: "nat \<Rightarrow> nat \<Rightarrow> nat" where
  "ordinal_index ordinal child_count = min ordinal child_count"

text \<open>\<open>Vec::insert\<close>; it panics past the end, which \<open>ordinal_index\<close> excludes.\<close>

definition insert_at :: "nat \<Rightarrow> 'a \<Rightarrow> 'a list \<Rightarrow> 'a list" where
  "insert_at i x xs = take i xs @ x # drop i xs"

definition insert_extension :: "'a list \<Rightarrow> 'a positioned \<Rightarrow> 'a list" where
  "insert_extension output extension =
     insert_at (ordinal_index (p_ordinal extension) (length output)) (p_child extension) output"

text \<open>\<open>known.into_iter().flatten()\<close>\<close>

definition flatten_options :: "'a option list \<Rightarrow> 'a list" where
  "flatten_options xs = List.map_filter id xs"

definition merge :: "'a option list \<Rightarrow> 'a positioned list \<Rightarrow> 'a list" where
  "merge known extensions =
     foldl insert_extension (flatten_options known) (sort_key p_ordinal extensions)"

section \<open>Insertions in range\<close>

fun in_range :: "nat \<Rightarrow> 'a positioned list \<Rightarrow> bool" where
  "in_range n [] = True"
| "in_range n (e # es) = (p_ordinal e \<le> n \<and> in_range (Suc n) es)"

lemma length_insert_extension [simp]: "length (insert_extension xs e) = Suc (length xs)"
  by (auto simp: insert_extension_def insert_at_def)

lemma length_foldl_insert [simp]:
  "length (foldl insert_extension xs es) = length xs + length es"
  by (induction es arbitrary: xs) auto

lemma mset_foldl_insert:
  "mset (foldl insert_extension xs es) = mset xs + mset (map p_child es)"
proof (induction es arbitrary: xs)
  case (Cons e es)
  have "mset (insert_extension xs e) = add_mset (p_child e) (mset xs)"
    unfolding insert_extension_def insert_at_def
    by (metis append_take_drop_id mset.simps(2) mset_append union_mset_add_mset_right)
  with Cons show ?case by simp
qed simp

lemma subseq_insert: "subseq xs (insert_extension xs e)"
  unfolding insert_extension_def insert_at_def
  by (metis append_take_drop_id list_emb_append_mono subseq_Cons' subseq_order.refl subseq_Cons2_iff
      list_emb_Cons)

lemma subseq_foldl_insert: "subseq xs (foldl insert_extension xs es)"
proof (induction es arbitrary: xs)
  case (Cons e es)
  then show ?case using subseq_insert[of xs e] subseq_order.trans by fastforce
qed simp

lemma foldl_insert_append:
  "in_range (length xs) es \<Longrightarrow>
     foldl insert_extension (xs @ zs) es = foldl insert_extension xs es @ zs"
proof (induction es arbitrary: xs)
  case (Cons e es)
  then have "insert_extension (xs @ zs) e = insert_extension xs e @ zs"
    by (auto simp: insert_extension_def insert_at_def ordinal_index_def)
  with Cons show ?case by simp
qed simp

text \<open>The children of an element, split the way the XML reader splits them: the ones it knows in
  order, the others with their position.\<close>

definition known_children :: "('a \<Rightarrow> bool) \<Rightarrow> 'a list \<Rightarrow> 'a list" where
  "known_children known xs = filter known xs"

definition extension_children :: "('a \<Rightarrow> bool) \<Rightarrow> 'a list \<Rightarrow> 'a positioned list" where
  "extension_children known xs =
     map (\<lambda>i. \<lparr>p_ordinal = i, p_child = xs ! i\<rparr>) (filter (\<lambda>i. \<not> known (xs ! i)) [0..<length xs])"

lemma extension_children_Nil [simp]: "extension_children known [] = []"
  by (simp add: extension_children_def)

lemma extension_children_snoc:
  "extension_children known (xs @ [x]) = extension_children known xs
     @ (if known x then [] else [\<lparr>p_ordinal = length xs, p_child = x\<rparr>])"
proof -
  have "filter (\<lambda>i. \<not> known ((xs @ [x]) ! i)) [0..<length xs] = filter (\<lambda>i. \<not> known (xs ! i)) [0..<length xs]"
    by (rule filter_cong) (auto simp: nth_append)
  then show ?thesis by (auto simp: extension_children_def nth_append)
qed

lemma in_range_snoc: "in_range n (es @ [e]) \<longleftrightarrow> in_range n es \<and> p_ordinal e \<le> n + length es"
  by (induction es arbitrary: n) auto

lemma children_split_length:
  "length (known_children known xs) + length (extension_children known xs) = length xs"
  by (induction xs rule: rev_induct) (auto simp: known_children_def extension_children_snoc)

lemma children_in_range: "in_range (length (known_children known xs)) (extension_children known xs)"
proof (induction xs rule: rev_induct)
  case (snoc x xs)
  have mono: "in_range n es \<Longrightarrow> in_range (Suc n) es" for n and es :: "'a positioned list"
    by (induction es arbitrary: n) auto
  show ?case
    using snoc mono children_split_length[of known xs]
    by (auto simp: extension_children_snoc in_range_snoc known_children_def)
qed simp

lemma rebuild_children:
  "foldl insert_extension (known_children known xs) (extension_children known xs) = xs"
proof (induction xs rule: rev_induct)
  case (snoc x xs)
  show ?case
  proof (cases "known x")
    case True
    then have "known_children known (xs @ [x]) = known_children known xs @ [x]"
      by (simp add: known_children_def)
    then show ?thesis
      using foldl_insert_append[OF children_in_range[of known xs], of "[x]"] snoc True
      by (simp add: extension_children_snoc)
  next
    case False
    then have "known_children known (xs @ [x]) = known_children known xs"
      by (simp add: known_children_def)
    moreover have "insert_extension xs \<lparr>p_ordinal = length xs, p_child = x\<rparr> = xs @ [x]"
      by (simp add: insert_extension_def insert_at_def ordinal_index_def)
    ultimately show ?thesis using False by (simp add: extension_children_snoc snoc)
  qed
qed (simp add: known_children_def)

lemma extension_children_sorted:
  "sorted (map p_ordinal (extension_children known xs))"
  "distinct (map p_ordinal (extension_children known xs))"
  by (simp_all add: extension_children_def comp_def sorted_filter[of id, simplified])

lemma flatten_options_Some: "[x \<leftarrow> ks. x \<noteq> None] = map Some xs \<Longrightarrow> flatten_options ks = xs"
proof (induction ks arbitrary: xs)
  case (Cons k ks)
  then show ?case by (cases k; cases xs) (auto simp: flatten_options_def)
qed (simp add: flatten_options_def)

section \<open>Properties\<close>

text \<open>C16. Writing back the children of an element is lossless: take any list of siblings, keep the
  known ones in order (with any number of absent optional ones between them) and the unknown ones,
  in any order, with the index they had; \<open>merge\<close> rebuilds exactly the original list.\<close>

theorem merge_restores_children:
  assumes "[x \<leftarrow> optional. x \<noteq> None] = map Some (known_children known xs)"
    and "mset extensions = mset (extension_children known xs)"
  shows "merge optional extensions = xs"
proof -
  have "set (extension_children known xs) = set extensions" using assms(2) by (metis set_mset_mset)
  moreover have "inj_on p_ordinal (set (extension_children known xs))"
    using extension_children_sorted(2)[of known xs] by (simp add: distinct_map)
  ultimately have "sort_key p_ordinal extensions = extension_children known xs"
    using assms(2) extension_children_sorted(1)[of known xs] sort_key_inj_key_eq by metis
  then show ?thesis
    using flatten_options_Some[OF assms(1)] by (simp add: merge_def rebuild_children)
qed

lemma merge_restores_children_witness:
  "merge [Some 2, None, Some 4] [\<lparr>p_ordinal = 2, p_child = 3\<rparr>, \<lparr>p_ordinal = 0, p_child = 1 :: nat\<rparr>] = [1, 2, 3, 4]"
  by (rule merge_restores_children[where known = even])
    (simp_all add: known_children_def extension_children_def upt_rec)

text \<open>No child is lost or duplicated, and the known children keep their order, whatever
  positions the extensions claim (repeated or past the end).\<close>

theorem merge_keeps_children:
  "mset (merge known extensions) = mset (flatten_options known) + mset (map p_child extensions)
   \<and> subseq (flatten_options known) (merge known extensions)"
  by (simp only: merge_def mset_foldl_insert subseq_foldl_insert mset_map mset_sort)

end
