(* ===== verification/Actions.thy ===== *)
theory Actions
  imports Errors
begin

text \<open>
  Task actions (\<open>model/action.rs\<close>): the five kinds of action, the expansion of \<open>$(ArgN)\<close>
  templates and the quoting of Windows command-line arguments. The quoting is verified against
  \<open>argv\<close>, the documented rules by which Windows programs split a command line.
\<close>

abbreviation quot :: char where
  "quot \<equiv> CHR 0x22"

abbreviation backslash :: char where
  "backslash \<equiv> CHR 0x5C"

definition MAX_ACTIONS :: nat where "MAX_ACTIONS = 32"
definition MAX_TRIGGERS :: nat where "MAX_TRIGGERS = 48"
definition MAX_RUN_ARGUMENTS :: nat where "MAX_RUN_ARGUMENTS = 32"

type_synonym uuid = "128 word" \<comment> \<open>\<open>uuid::Uuid\<close>, compared only for equality\<close>

record exec_action =
  ex_id :: "string option"
  ex_command :: string
  ex_arguments :: "string option"
  ex_working_directory :: "string option"
  ex_hide_window :: bool

record com_handler_action =
  com_id :: "string option"
  com_class_id :: uuid
  com_data :: "string option"

record email_header =
  eh_name :: string
  eh_value :: string

record email_action =
  em_id :: "string option"
  em_server :: string
  em_subject :: "string option"
  em_from :: "string option"
  em_to :: "string option"
  em_cc :: "string option"
  em_bcc :: "string option"
  em_reply_to :: "string option"
  em_body :: "string option"
  em_attachments :: "string list"
  em_headers :: "email_header list"

record show_message_action =
  sm_id :: "string option"
  sm_title :: "string option"
  sm_body :: string

record unknown_action =
  ua_kind :: string
  ua_xml :: string

datatype action =
    Exec exec_action
  | ComHandler com_handler_action
  | Email email_action
  | ShowMessage show_message_action
  | UnknownAction unknown_action

fun action_id :: "action \<Rightarrow> string option" where
  "action_id (Exec a) = ex_id a"
| "action_id (ComHandler a) = com_id a"
| "action_id (Email a) = em_id a"
| "action_id (ShowMessage a) = sm_id a"
| "action_id (UnknownAction a) = None"

definition exec_new :: "string \<Rightarrow> exec_action" where
  "exec_new command =
     \<lparr>ex_id = None, ex_command = command, ex_arguments = None, ex_working_directory = None,
      ex_hide_window = False\<rparr>"

definition raw_arguments :: "string \<Rightarrow> exec_action \<Rightarrow> exec_action" where
  "raw_arguments arguments a = a\<lparr>ex_arguments := Some arguments\<rparr>"

section \<open>Quoting\<close>

text \<open>The loop over the characters, with its accumulator \<open>quoted\<close> and its counter.\<close>

fun quote_loop :: "string \<Rightarrow> string \<Rightarrow> nat \<Rightarrow> string" where
  "quote_loop [] quoted backslashes = quoted @ replicate (backslashes * 2) backslash @ [quot]"
| "quote_loop (c # cs) quoted backslashes =
     (if c = backslash then quote_loop cs quoted (backslashes + 1)
      else if c = quot then
        quote_loop cs (quoted @ replicate (backslashes * 2 + 1) backslash @ [quot]) 0
      else quote_loop cs (quoted @ replicate backslashes backslash @ [c]) 0)"

definition quote_windows_argument :: "string \<Rightarrow> string" where
  "quote_windows_argument argument =
     (if argument \<noteq> [] \<and> \<not> list_ex (\<lambda>c. is_ascii_whitespace c \<or> c = quot) argument then argument
      else quote_loop argument [quot] 0)"

definition exec_args :: "string list \<Rightarrow> exec_action \<Rightarrow> exec_action" where
  "exec_args arguments a =
     a\<lparr>ex_arguments := Some (join_with '' '' (map quote_windows_argument arguments))\<rparr>"

section \<open>Template expansion\<close>

definition template_needle :: "nat \<Rightarrow> string" where
  "template_needle index = ''$(Arg'' @ show_nat index @ '')''"

definition expand_action_templates :: "string \<Rightarrow> string list \<Rightarrow> string" where
  "expand_action_templates input arguments =
     (let replacements = btree_collect
        (map (\<lambda>(index, value). (template_needle index, value))
           (enumerate 0 (take MAX_RUN_ARGUMENTS arguments)))
      in foldl (\<lambda>expanded (needle, replacement). replace_str needle replacement expanded)
           input replacements)"

section \<open>How Windows splits a command line\<close>

text \<open>
  The documented rules of the C runtime for the arguments after the program name, independent of
  the code above: space and tab separate arguments outside quotes; a run of backslashes is literal
  unless a quotation mark follows, then every pair stands for one backslash and an odd one makes
  the mark literal. \<open>arg\<close> is the argument read so far, \<^const>\<open>None\<close> between arguments.
\<close>

definition pending :: "string option \<Rightarrow> nat \<Rightarrow> string option" where
  "pending arg n =
     (if n = 0 then arg
      else Some ((case arg of None \<Rightarrow> [] | Some a \<Rightarrow> a) @ replicate n backslash))"

definition extend :: "string option \<Rightarrow> string \<Rightarrow> string option" where
  "extend arg s = Some ((case arg of None \<Rightarrow> [] | Some a \<Rightarrow> a) @ s)"

fun argv :: "string \<Rightarrow> bool \<Rightarrow> nat \<Rightarrow> string option \<Rightarrow> string list" where
  "argv [] quoted n arg = (case pending arg n of None \<Rightarrow> [] | Some a \<Rightarrow> [a])"
| "argv (c # cs) quoted n arg =
     (if c = backslash then argv cs quoted (Suc n) arg
      else if c = quot then
        (if even n then argv cs (\<not> quoted) 0 (extend arg (replicate (n div 2) backslash))
         else argv cs quoted 0 (extend arg (replicate (n div 2) backslash @ [quot])))
      else if \<not> quoted \<and> (c = CHR '' '' \<or> c = CHR 0x09) then
        (case pending arg n of None \<Rightarrow> argv cs False 0 None | Some a \<Rightarrow> a # argv cs False 0 None)
      else argv cs quoted 0 (extend arg (replicate n backslash @ [c])))"

definition command_line_to_argv :: "string \<Rightarrow> string list" where
  "command_line_to_argv line = argv line False 0 None"

lemma argv_backslashes:
  "argv (replicate k backslash @ s) quoted n arg = argv s quoted (n + k) arg"
  by (induction k arbitrary: n) auto

lemma quote_loop_append: "quote_loop cs (a @ b) n = a @ quote_loop cs b n"
  by (induction cs arbitrary: b n) auto

lemma argv_quoted:
  "argv (quote_loop cs [] n @ rest) True 0 (Some a) =
     argv rest False 0 (Some (a @ replicate n backslash @ cs))"
proof (induction cs arbitrary: n a)
  case Nil
  show ?case by (simp add: argv_backslashes extend_def)
next
  case (Cons c cs)
  show ?case
  proof (cases "c = backslash")
    case True
    then show ?thesis using Cons[of "Suc n" a]
      by (simp add: replicate_app_Cons_same)
  next
    case False
    have "quote_loop (c # cs) [] n =
        replicate (if c = quot then n * 2 + 1 else n) backslash @ c # quote_loop cs [] 0"
      using False quote_loop_append[of cs "replicate (n * 2 + 1) backslash @ [quot]" "[]" 0]
        quote_loop_append[of cs "replicate n backslash @ [c]" "[]" 0] by auto
    then show ?thesis
      using False Cons[of 0 "a @ replicate n backslash @ [c]"]
      by (auto simp: argv_backslashes extend_def)
  qed
qed

lemma argv_plain:
  assumes "\<forall>c \<in> set s. c \<noteq> quot \<and> c \<noteq> CHR '' '' \<and> c \<noteq> CHR 0x09" and "s \<noteq> [] \<or> arg \<noteq> None \<or> n \<noteq> 0"
  shows "\<exists>m arg'. argv (s @ rest) False n arg = argv rest False m arg' \<and>
    pending arg' m = Some ((case arg of None \<Rightarrow> [] | Some a \<Rightarrow> a) @ replicate n backslash @ s)"
  using assms
proof (induction s arbitrary: n arg)
  case Nil
  then show ?case by (intro exI[of _ n] exI[of _ arg]) (auto simp: pending_def split: option.splits)
next
  case (Cons c s)
  show ?case
  proof (cases "c = backslash")
    case True
    then show ?thesis
      using Cons.IH[of arg "Suc n"] Cons.prems by (simp add: replicate_app_Cons_same)
  next
    case False
    then show ?thesis
      using Cons.IH[of "extend arg (replicate n backslash @ [c])" 0] Cons.prems
      by (simp add: extend_def)
  qed
qed

lemma argv_quote_windows_argument:
  "\<exists>m arg. argv (quote_windows_argument a @ rest) False 0 None = argv rest False m arg
     \<and> pending arg m = Some a"
proof (cases "a \<noteq> [] \<and> \<not> list_ex (\<lambda>c. is_ascii_whitespace c \<or> c = quot) a")
  case True
  then have "\<forall>c \<in> set a. c \<noteq> quot \<and> c \<noteq> CHR '' '' \<and> c \<noteq> CHR 0x09"
    by (auto simp: list_ex_iff is_ascii_whitespace_def)
  then show ?thesis
    using argv_plain[of a None 0 rest] True by (simp add: quote_windows_argument_def)
next
  case False
  have "quote_windows_argument a = quot # quote_loop a [] 0"
    using False quote_loop_append[of a "[quot]" "[]" 0] by (auto simp: quote_windows_argument_def)
  then show ?thesis
    using argv_quoted[of a 0 rest "[]"]
    by (intro exI[of _ 0] exI[of _ "Some a"]) (simp add: extend_def pending_def)
qed

section \<open>Properties\<close>

text \<open>C13. \<open>ExecAction::args\<close> is faithful: whatever the arguments contain (spaces, quotation marks,
  runs of backslashes, nothing at all), a Windows program that splits the stored argument string by
  the documented rules receives exactly the given list.\<close>

theorem exec_args_round_trip:
  "map_option command_line_to_argv (ex_arguments (exec_args arguments a)) = Some arguments"
proof -
  have "argv (join_with '' '' (map quote_windows_argument arguments)) False 0 None = arguments"
  proof (induction arguments rule: induct_list012)
    case (2 x)
    show ?case using argv_quote_windows_argument[of x "[]"] by auto
  next
    case (3 x y zs)
    let ?r = "join_with '' '' (map quote_windows_argument (y # zs))"
    obtain m arg where "argv (quote_windows_argument x @ '' '' @ ?r) False 0 None = argv ('' '' @ ?r) False m arg"
        "pending arg m = Some x"
      using argv_quote_windows_argument[of x "'' '' @ ?r"] by blast
    then show ?case using 3(2) by simp
  qed (simp add: pending_def)
  then show ?thesis by (simp add: exec_args_def command_line_to_argv_def)
qed

text \<open>Replacement is sequential, in the order of the needles: a placeholder inside an argument value
  is expanded again by a later needle.\<close>

lemma template_reexpansion:
  "expand_action_templates ''$(Arg0)'' [''$(Arg1)'', ''x''] = ''x''"
  by code_simp

lemma template_limit:
  "expand_action_templates input arguments = expand_action_templates input (take MAX_RUN_ARGUMENTS arguments)"
  by (simp add: expand_action_templates_def)

end
