(* ===== verification/Settings.thy ===== *)
theory Settings
  imports Time
begin

text \<open>
  Principals and settings (\<open>model/principal.rs\<close>, \<open>model/settings.rs\<close>): the security context of a
  task, with its constructors, and the scheduler behaviour settings with their defaults.
\<close>

section \<open>Principals\<close>

datatype service_account = LocalSystem | LocalService | NetworkService

datatype principal_identity =
    NoIdentity
  | User string
  | Group string
  | ServiceAccount service_account

datatype logon_type =
    LogonNone
  | Password
  | InteractiveToken
  | S4u
  | LogonGroup
  | LogonServiceAccount
  | InteractiveTokenOrPassword

datatype run_level = LeastPrivilege | HighestAvailable

datatype process_token_sid_type = SidDefault | SidNone | SidUnrestricted

datatype required_privilege = RequiredPrivilege string

datatype invalid_privilege = InvalidPrivilege string

fun privilege_str :: "required_privilege \<Rightarrow> string" where
  "privilege_str (RequiredPrivilege s) = s"

definition privilege_new :: "string \<Rightarrow> invalid_privilege + required_privilege" where
  "privilege_new value =
     (if starts_with ''Se'' value \<and> ends_with ''Privilege'' value \<and> length value > 11
      then Inr (RequiredPrivilege value) else Inl (InvalidPrivilege value))"

record principal =
  pr_id :: string
  pr_display_name :: "string option"
  pr_identity :: principal_identity
  pr_logon_type :: logon_type
  pr_run_level :: run_level
  pr_process_token_sid_type :: process_token_sid_type
  pr_required_privileges :: "required_privilege list"

definition principal_default :: principal where
  "principal_default =
     \<lparr>pr_id = ''Author'', pr_display_name = None, pr_identity = NoIdentity,
      pr_logon_type = LogonNone, pr_run_level = LeastPrivilege,
      pr_process_token_sid_type = SidDefault, pr_required_privileges = []\<rparr>"

definition principal_service_account :: "service_account \<Rightarrow> principal" where
  "principal_service_account account =
     principal_default\<lparr>pr_identity := ServiceAccount account, pr_logon_type := LogonServiceAccount\<rparr>"

definition principal_user :: "string \<Rightarrow> principal" where
  "principal_user name =
     principal_default\<lparr>pr_identity := User name, pr_logon_type := InteractiveToken\<rparr>"

definition principal_user_with_password :: "string \<Rightarrow> principal" where
  "principal_user_with_password name =
     principal_default\<lparr>pr_identity := User name, pr_logon_type := Password\<rparr>"

definition principal_s4u :: "string \<Rightarrow> principal" where
  "principal_s4u name = principal_default\<lparr>pr_identity := User name, pr_logon_type := S4u\<rparr>"

definition principal_group :: "string \<Rightarrow> principal" where
  "principal_group name = principal_default\<lparr>pr_identity := Group name, pr_logon_type := LogonGroup\<rparr>"

section \<open>Settings\<close>

datatype multiple_instances_policy = Parallel | Queue | IgnoreNew | StopExisting

record restart_policy =
  rp_interval :: task_duration
  rp_count :: u8

record idle_settings =
  idle_duration :: task_duration
  idle_wait_timeout :: task_duration
  idle_stop_on_idle_end :: bool
  idle_restart_on_idle :: bool

definition idle_settings_default :: idle_settings where
  "idle_settings_default =
     \<lparr>idle_duration = from_secs (10 * 60), idle_wait_timeout = from_secs (60 * 60),
      idle_stop_on_idle_end = True, idle_restart_on_idle = False\<rparr>"

record network_settings =
  net_id :: "string option"
  net_name :: "string option"

record maintenance_settings =
  mt_period :: task_duration
  mt_deadline :: task_duration
  mt_exclusive :: bool

record task_settings =
  ts_allow_demand_start :: bool
  ts_restart_on_failure :: "restart_policy option"
  ts_multiple_instances :: multiple_instances_policy
  ts_disallow_start_if_on_batteries :: bool
  ts_stop_if_going_on_batteries :: bool
  ts_allow_hard_terminate :: bool
  ts_start_when_available :: bool
  ts_network :: "network_settings option"
  ts_execution_time_limit :: task_limit
  ts_enabled :: bool
  ts_delete_expired_after :: "task_duration option"
  ts_priority :: u8
  ts_idle :: "idle_settings option"
  ts_wake_to_run :: bool
  ts_hidden :: bool
  ts_use_unified_scheduling_engine :: bool
  ts_disallow_start_on_remote_app_session :: bool
  ts_maintenance :: "maintenance_settings option"
  ts_volatile :: bool

definition task_settings_default :: task_settings where
  "task_settings_default =
     \<lparr>ts_allow_demand_start = True, ts_restart_on_failure = None,
      ts_multiple_instances = IgnoreNew, ts_disallow_start_if_on_batteries = True,
      ts_stop_if_going_on_batteries = True, ts_allow_hard_terminate = True,
      ts_start_when_available = False, ts_network = None,
      ts_execution_time_limit = default_limit, ts_enabled = True,
      ts_delete_expired_after = None, ts_priority = 7, ts_idle = None, ts_wake_to_run = False,
      ts_hidden = False, ts_use_unified_scheduling_engine = True,
      ts_disallow_start_on_remote_app_session = False, ts_maintenance = None,
      ts_volatile = False\<rparr>"

lemma privilege_new_ok [ok_iff]:
  "privilege_new v = Inr p \<longleftrightarrow>
     p = RequiredPrivilege v \<and> starts_with ''Se'' v \<and> ends_with ''Privilege'' v \<and> length v > 11"
  by (auto simp: privilege_new_def)

end
