(* ===== verification/Triggers.thy ===== *)
theory Triggers
  imports Time
begin

text \<open>
  Triggers (\<open>model/trigger.rs\<close>): the eleven native kinds and the preserved unknown one, their
  constructors, and the ordered enumerations of weekdays, months and week ordinals. A \<open>BTreeSet\<close>
  is its ascending list.
\<close>

section \<open>Ordered enumerations\<close>

datatype weekday = Sunday | Monday | Tuesday | Wednesday | Thursday | Friday | Saturday

datatype month =
    January | February | March | April | May | June
  | July | August | September | October | November | December

datatype week_of_month = First | Second | Third | Fourth

datatype session_state_change =
    ConsoleConnect | ConsoleDisconnect | RemoteConnect | RemoteDisconnect | SessionLock
  | SessionUnlock

fun weekday_index :: "weekday \<Rightarrow> nat" where
  "weekday_index Sunday = 0"
| "weekday_index Monday = 1"
| "weekday_index Tuesday = 2"
| "weekday_index Wednesday = 3"
| "weekday_index Thursday = 4"
| "weekday_index Friday = 5"
| "weekday_index Saturday = 6"

fun month_index :: "month \<Rightarrow> nat" where
  "month_index January = 1"
| "month_index February = 2"
| "month_index March = 3"
| "month_index April = 4"
| "month_index May = 5"
| "month_index June = 6"
| "month_index July = 7"
| "month_index August = 8"
| "month_index September = 9"
| "month_index October = 10"
| "month_index November = 11"
| "month_index December = 12"

fun week_index :: "week_of_month \<Rightarrow> nat" where
  "week_index First = 1"
| "week_index Second = 2"
| "week_index Third = 3"
| "week_index Fourth = 4"

lemma weekday_index_inj [simp]: "weekday_index a = weekday_index b \<longleftrightarrow> a = b"
  by (cases a; cases b) simp_all

lemma month_index_inj [simp]: "month_index a = month_index b \<longleftrightarrow> a = b"
  by (cases a; cases b) simp_all

lemma week_index_inj [simp]: "week_index a = week_index b \<longleftrightarrow> a = b"
  by (cases a; cases b) simp_all

instantiation weekday :: linorder
begin
definition less_eq_weekday :: "weekday \<Rightarrow> weekday \<Rightarrow> bool" where
  "less_eq_weekday a b \<longleftrightarrow> weekday_index a \<le> weekday_index b"
definition less_weekday :: "weekday \<Rightarrow> weekday \<Rightarrow> bool" where
  "less_weekday a b \<longleftrightarrow> weekday_index a < weekday_index b"
instance
  by standard (auto simp: less_eq_weekday_def less_weekday_def dest: le_antisym)
end

instantiation month :: linorder
begin
definition less_eq_month :: "month \<Rightarrow> month \<Rightarrow> bool" where
  "less_eq_month a b \<longleftrightarrow> month_index a \<le> month_index b"
definition less_month :: "month \<Rightarrow> month \<Rightarrow> bool" where
  "less_month a b \<longleftrightarrow> month_index a < month_index b"
instance
  by standard (auto simp: less_eq_month_def less_month_def dest: le_antisym)
end

instantiation week_of_month :: linorder
begin
definition less_eq_week_of_month :: "week_of_month \<Rightarrow> week_of_month \<Rightarrow> bool" where
  "less_eq_week_of_month a b \<longleftrightarrow> week_index a \<le> week_index b"
definition less_week_of_month :: "week_of_month \<Rightarrow> week_of_month \<Rightarrow> bool" where
  "less_week_of_month a b \<longleftrightarrow> week_index a < week_index b"
instance
  by standard (auto simp: less_eq_week_of_month_def less_week_of_month_def dest: le_antisym)
end

section \<open>Trigger data\<close>

record repetition =
  rep_interval :: task_duration
  rep_duration :: "task_duration option"
  rep_stop_at_duration_end :: bool

record trigger_common =
  tc_id :: "string option"
  tc_start_boundary :: "task_datetime option"
  tc_end_boundary :: "task_datetime option"
  tc_enabled :: bool
  tc_execution_time_limit :: "task_limit option"
  tc_repetition :: "repetition option"

definition common_default :: trigger_common where
  "common_default =
     \<lparr>tc_id = None, tc_start_boundary = None, tc_end_boundary = None, tc_enabled = True,
      tc_execution_time_limit = None, tc_repetition = None\<rparr>"

definition starting_at :: "task_datetime \<Rightarrow> trigger_common" where
  "starting_at at = common_default\<lparr>tc_start_boundary := Some at\<rparr>"

record boot_trigger =
  bt_common :: trigger_common
  bt_delay :: "task_duration option"

record registration_trigger =
  rt_common :: trigger_common
  rt_delay :: "task_duration option"

record idle_trigger =
  it_common :: trigger_common

record time_trigger =
  tt_common :: trigger_common
  tt_random_delay :: "task_duration option"

record event_trigger =
  et_common :: trigger_common
  et_subscription :: string
  et_value_queries :: "(string, string) btree"
  et_delay :: "task_duration option"
  et_period_of_occurrence :: "task_duration option"
  et_number_of_occurrences :: "u32 option"
  et_matching_element :: "string option"

record logon_trigger =
  lt_common :: trigger_common
  lt_user_id :: "string option"
  lt_delay :: "task_duration option"

record session_state_change_trigger =
  st_common :: trigger_common
  st_state_change :: session_state_change
  st_user_id :: "string option"
  st_delay :: "task_duration option"

record daily_trigger =
  dly_common :: trigger_common
  dly_days_interval :: u16
  dly_random_delay :: "task_duration option"

record weekly_trigger =
  wt_common :: trigger_common
  wt_weeks_interval :: u16
  wt_days_of_week :: "weekday list"
  wt_random_delay :: "task_duration option"

record monthly_trigger =
  mo_common :: trigger_common
  mo_days_of_month :: "u8 list"
  mo_months :: "month list"
  mo_run_on_last_day :: bool
  mo_random_delay :: "task_duration option"

record monthly_dow_trigger =
  md_common :: trigger_common
  md_weeks_of_month :: "week_of_month list"
  md_days_of_week :: "weekday list"
  md_months :: "month list"
  md_run_on_last_week :: bool
  md_random_delay :: "task_duration option"

record unknown_trigger =
  ut_kind :: string
  ut_xml :: string

datatype trigger =
    Boot boot_trigger
  | Registration registration_trigger
  | Idle idle_trigger
  | Time time_trigger
  | Event event_trigger
  | Logon logon_trigger
  | SessionStateChange session_state_change_trigger
  | Daily daily_trigger
  | Weekly weekly_trigger
  | Monthly monthly_trigger
  | MonthlyDow monthly_dow_trigger
  | UnknownTrigger unknown_trigger

fun trigger_common_of :: "trigger \<Rightarrow> trigger_common option" where
  "trigger_common_of (Boot t) = Some (bt_common t)"
| "trigger_common_of (Registration t) = Some (rt_common t)"
| "trigger_common_of (Idle t) = Some (it_common t)"
| "trigger_common_of (Time t) = Some (tt_common t)"
| "trigger_common_of (Event t) = Some (et_common t)"
| "trigger_common_of (Logon t) = Some (lt_common t)"
| "trigger_common_of (SessionStateChange t) = Some (st_common t)"
| "trigger_common_of (Daily t) = Some (dly_common t)"
| "trigger_common_of (Weekly t) = Some (wt_common t)"
| "trigger_common_of (Monthly t) = Some (mo_common t)"
| "trigger_common_of (MonthlyDow t) = Some (md_common t)"
| "trigger_common_of (UnknownTrigger t) = None"

section \<open>Constructors\<close>

definition boot_new :: boot_trigger where
  "boot_new = \<lparr>bt_common = common_default, bt_delay = None\<rparr>"

definition registration_new :: registration_trigger where
  "registration_new = \<lparr>rt_common = common_default, rt_delay = None\<rparr>"

definition idle_new :: idle_trigger where
  "idle_new = \<lparr>it_common = common_default\<rparr>"

definition time_new :: "task_datetime \<Rightarrow> time_trigger" where
  "time_new at = \<lparr>tt_common = starting_at at, tt_random_delay = None\<rparr>"

definition event_new :: "string \<Rightarrow> event_trigger" where
  "event_new subscription =
     \<lparr>et_common = common_default, et_subscription = subscription, et_value_queries = [],
      et_delay = None, et_period_of_occurrence = None, et_number_of_occurrences = None,
      et_matching_element = None\<rparr>"

definition logon_new :: logon_trigger where
  "logon_new = \<lparr>lt_common = common_default, lt_user_id = None, lt_delay = None\<rparr>"

definition session_new :: "session_state_change \<Rightarrow> session_state_change_trigger" where
  "session_new state_change =
     \<lparr>st_common = common_default, st_state_change = state_change, st_user_id = None,
      st_delay = None\<rparr>"

definition daily_new :: "task_datetime \<Rightarrow> daily_trigger" where
  "daily_new first =
     \<lparr>dly_common = starting_at first, dly_days_interval = 1, dly_random_delay = None\<rparr>"

definition weekly_new :: "task_datetime \<Rightarrow> weekday list \<Rightarrow> weekly_trigger" where
  "weekly_new first days_of_week =
     \<lparr>wt_common = starting_at first, wt_weeks_interval = 1,
      wt_days_of_week = bset_collect days_of_week, wt_random_delay = None\<rparr>"

definition monthly_new :: "task_datetime \<Rightarrow> u8 list \<Rightarrow> month list \<Rightarrow> monthly_trigger" where
  "monthly_new first days_of_month months =
     \<lparr>mo_common = starting_at first, mo_days_of_month = bset_collect days_of_month,
      mo_months = bset_collect months, mo_run_on_last_day = False, mo_random_delay = None\<rparr>"

definition monthly_dow_new ::
  "task_datetime \<Rightarrow> week_of_month list \<Rightarrow> weekday list \<Rightarrow> month list \<Rightarrow> monthly_dow_trigger" where
  "monthly_dow_new first weeks_of_month days_of_week months =
     \<lparr>md_common = starting_at first, md_weeks_of_month = bset_collect weeks_of_month,
      md_days_of_week = bset_collect days_of_week, md_months = bset_collect months,
      md_run_on_last_week = False, md_random_delay = None\<rparr>"

lemmas trigger_new_defs = boot_new_def registration_new_def idle_new_def time_new_def event_new_def
  logon_new_def session_new_def daily_new_def weekly_new_def monthly_new_def monthly_dow_new_def

end
