(* ===== verification/Definition.thy ===== *)
theory Definition
  imports Actions Settings Triggers
begin

text \<open>
  Task definitions (\<open>model/mod.rs\<close>): schema versions, registration metadata, security descriptors
  and their comparison, the bounded collections of actions and triggers, and the definition itself.
\<close>

section \<open>Schema versions\<close>

datatype task_schema_version = V1_2 | V1_3 | V1_4 | V1_5 | V1_6 | UnknownVersion string

definition schema_parse :: "string \<Rightarrow> task_schema_version" where
  "schema_parse value =
     (if value = ''1.2'' then V1_2
      else if value = ''1.3'' then V1_3
      else if value = ''1.4'' then V1_4
      else if value = ''1.5'' then V1_5
      else if value = ''1.6'' then V1_6
      else UnknownVersion value)"

fun schema_as_str :: "task_schema_version \<Rightarrow> string" where
  "schema_as_str V1_2 = ''1.2''"
| "schema_as_str V1_3 = ''1.3''"
| "schema_as_str V1_4 = ''1.4''"
| "schema_as_str V1_5 = ''1.5''"
| "schema_as_str V1_6 = ''1.6''"
| "schema_as_str (UnknownVersion value) = value"

section \<open>Security descriptors\<close>

datatype security_descriptor = SecurityDescriptor string

datatype invalid_security_descriptor = InvalidSecurityDescriptor

fun as_sddl :: "security_descriptor \<Rightarrow> string" where
  "as_sddl (SecurityDescriptor s) = s"

definition from_sddl :: "string \<Rightarrow> invalid_security_descriptor + security_descriptor" where
  "from_sddl value =
     (if value = [] \<or> CHR 0x00 \<in> set value then Inl InvalidSecurityDescriptor
      else Inr (SecurityDescriptor value))"

text \<open>The inner loop over the control flags of a section: what is left, and the output.\<close>

function flags_loop :: "string \<Rightarrow> string \<Rightarrow> string \<times> string" where
  "flags_loop remaining output =
     (case strip_prefix ''AI'' remaining of
        Some rest \<Rightarrow> flags_loop rest output
      | None \<Rightarrow>
          (case strip_prefix ''AR'' remaining of
             Some rest \<Rightarrow> flags_loop rest (output @ ''AR'')
           | None \<Rightarrow>
               (case strip_prefix ''P'' remaining of
                  Some rest \<Rightarrow> flags_loop rest (output @ ''P'')
                | None \<Rightarrow> (remaining, output))))"
  by pat_completeness auto
termination
  by (relation "measure (\<lambda>(remaining, output). length remaining)") (auto simp: strip_prefix_Some)

declare flags_loop.simps [simp del]

lemma length_flags_loop: "length (fst (flags_loop r out)) \<le> length r"
proof (induction r out rule: flags_loop.induct)
  case (1 r out)
  show ?case
    by (subst flags_loop.simps)
      (use 1 in \<open>fastforce simp: strip_prefix_Some split: option.splits\<close>)
qed

definition at_section :: "string \<Rightarrow> bool" where
  "at_section remaining \<longleftrightarrow> starts_with ''D:'' remaining \<or> starts_with ''S:'' remaining"

text \<open>The outer loop: a section header at depth 0 has its flags normalized, everything else is
  copied while the parenthesis depth is tracked (\<open>saturating_sub\<close> is subtraction on \<^typ>\<open>nat\<close>).\<close>

function key_loop :: "string \<Rightarrow> nat \<Rightarrow> string \<Rightarrow> string" where
  "key_loop [] depth output = output"
| "key_loop (c # cs) depth output =
     (if depth = 0 \<and> at_section (c # cs) then
        (let (remaining, output') = flags_loop (drop 2 (c # cs)) (output @ take 2 (c # cs))
         in key_loop remaining depth output')
      else
        key_loop cs
          (if c = CHR ''('' then depth + 1 else if c = CHR '')'' then depth - 1 else depth)
          (output @ [c]))"
  by pat_completeness auto
termination
proof (relation "measure (\<lambda>(remaining, depth, output). length remaining)", goal_cases)
  case (2 c cs depth o2 p r out)
  then have "length r \<le> length (drop 2 (c # cs))"
    using length_flags_loop[of "drop 2 (c # cs)" "o2 @ take 2 (c # cs)"] by (metis fst_conv)
  then show ?case by simp
qed auto

definition access_key :: "string \<Rightarrow> string" where
  "access_key value =
     (if list_ex (\<lambda>c. c = CHR 0x27 \<or> c = CHR 0x22) value then value else key_loop value 0 [])"

definition access_equivalent :: "security_descriptor \<Rightarrow> security_descriptor \<Rightarrow> bool" where
  "access_equivalent a b \<longleftrightarrow> access_key (as_sddl a) = access_key (as_sddl b)"

section \<open>The definition\<close>

record registration_info =
  ri_author :: "string option"
  ri_date :: "task_datetime option"
  ri_description :: "string option"
  ri_documentation :: "string option"
  ri_source :: "string option"
  ri_version :: "string option"
  ri_uri :: "string option"
  ri_security_descriptor :: "security_descriptor option"

definition registration_default :: registration_info where
  "registration_default =
     \<lparr>ri_author = None, ri_date = None, ri_description = None, ri_documentation = None,
      ri_source = None, ri_version = None, ri_uri = None, ri_security_descriptor = None\<rparr>"

record xml_extension =
  xe_parent :: string
  xe_ordinal :: nat
  xe_xml :: string

record collection_limit_error =
  cl_kind :: string
  cl_actual :: nat
  cl_maximum :: nat

datatype actions = Actions "action list"
datatype triggers = Triggers "trigger list"

fun actions_slice :: "actions \<Rightarrow> action list" where
  "actions_slice (Actions xs) = xs"

fun triggers_slice :: "triggers \<Rightarrow> trigger list" where
  "triggers_slice (Triggers xs) = xs"

definition limit_actions :: "nat \<Rightarrow> collection_limit_error" where
  "limit_actions actual = \<lparr>cl_kind = ''actions'', cl_actual = actual, cl_maximum = MAX_ACTIONS\<rparr>"

definition limit_triggers :: "nat \<Rightarrow> collection_limit_error" where
  "limit_triggers actual = \<lparr>cl_kind = ''triggers'', cl_actual = actual, cl_maximum = MAX_TRIGGERS\<rparr>"

definition actions_try_from :: "action list \<Rightarrow> collection_limit_error + actions" where
  "actions_try_from values =
     (if length values > MAX_ACTIONS then Inl (limit_actions (length values)) else Inr (Actions values))"

definition triggers_try_from :: "trigger list \<Rightarrow> collection_limit_error + triggers" where
  "triggers_try_from values =
     (if length values > MAX_TRIGGERS then Inl (limit_triggers (length values))
      else Inr (Triggers values))"

definition actions_push :: "action \<Rightarrow> actions \<Rightarrow> collection_limit_error + actions" where
  "actions_push a xs =
     (if length (actions_slice xs) = MAX_ACTIONS
      then Inl (limit_actions (length (actions_slice xs) + 1))
      else Inr (Actions (actions_slice xs @ [a])))"

definition triggers_push :: "trigger \<Rightarrow> triggers \<Rightarrow> collection_limit_error + triggers" where
  "triggers_push t xs =
     (if length (triggers_slice xs) = MAX_TRIGGERS
      then Inl (limit_triggers (length (triggers_slice xs) + 1))
      else Inr (Triggers (triggers_slice xs @ [t])))"

record task_definition =
  td_schema_version :: task_schema_version
  td_registration :: registration_info
  td_triggers :: triggers
  td_principal :: principal
  td_settings :: task_settings
  td_data :: "string option"
  td_actions :: actions
  td_extensions :: "xml_extension list"

definition definition_default :: task_definition where
  "definition_default =
     \<lparr>td_schema_version = V1_6, td_registration = registration_default, td_triggers = Triggers [],
      td_principal = principal_default, td_settings = task_settings_default, td_data = None,
      td_actions = Actions [], td_extensions = []\<rparr>"

definition definition_new :: "action \<Rightarrow> task_definition" where
  "definition_new a = definition_default\<lparr>td_actions := Actions [a]\<rparr>"

text \<open>\<open>duplicate_ids\<close>: the loop state is the pair of sets \<open>seen\<close> and \<open>duplicates\<close>.\<close>

fun duplicate_loop :: "string list \<Rightarrow> string list \<Rightarrow> string list \<Rightarrow> string list" where
  "duplicate_loop [] seen duplicates = duplicates"
| "duplicate_loop (x # xs) seen duplicates =
     (if x \<in> set seen then duplicate_loop xs seen (bset_insert x duplicates)
      else duplicate_loop xs (bset_insert x seen) duplicates)"

definition duplicate_ids :: "string list \<Rightarrow> string list" where
  "duplicate_ids xs = duplicate_loop xs [] []"

text \<open>\<open>from_model_error!\<close>: a model error becomes a classified error with its text as the message.\<close>

definition limit_error :: "collection_limit_error \<Rightarrow> error" where
  "limit_error e = new_error InvalidDefinition
     [Dsp (cl_kind e), Lit '' contains '', Dsp (show_nat (cl_actual e)),
      Lit '' entries; the maximum is '', Dsp (show_nat (cl_maximum e))]"

lemma count_list_two: "2 \<le> count_list (x # xs) y \<longleftrightarrow> 2 \<le> count_list xs y \<or> x = y \<and> y \<in> set xs"
  using count_list_0_iff[of xs y] by (cases "count_list xs y") auto

lemma count_list_member: "2 \<le> count_list xs x \<Longrightarrow> x \<in> set xs"
  using count_list_0_iff[of xs x] by (cases "count_list xs x") auto

lemma duplicate_loop_set:
  "set (duplicate_loop xs seen dups) =
     set dups \<union> {x. x \<in> set xs \<and> (x \<in> set seen \<or> 2 \<le> count_list xs x)}"
proof (induction xs arbitrary: seen dups)
  case (Cons x xs)
  have "y \<in> set (duplicate_loop (x # xs) seen dups) \<longleftrightarrow>
      y \<in> set dups \<or> y \<in> set (x # xs) \<and> (y \<in> set seen \<or> 2 \<le> count_list (x # xs) y)" for y
    unfolding count_list_two duplicate_loop.simps if_distrib[of set] Cons.IH
    using count_list_member[of xs x] by (cases "x \<in> set seen"; cases "y = x") auto
  then show ?case by blast
qed simp

lemma set_duplicate_ids: "set (duplicate_ids xs) = {x. 2 \<le> count_list xs x}"
  using count_list_member[of xs] by (auto simp: duplicate_ids_def duplicate_loop_set)

lemma count_list_distinct: "(\<forall>x. \<not> 2 \<le> count_list xs x) \<longleftrightarrow> distinct xs"
proof (induction xs)
  case (Cons y xs)
  then show ?case unfolding count_list_two by auto
qed simp

lemma duplicate_ids_Nil: "duplicate_ids xs = [] \<longleftrightarrow> distinct xs"
proof -
  have "set (duplicate_ids xs) = {} \<longleftrightarrow> (\<forall>x. \<not> 2 \<le> count_list xs x)"
    by (auto simp: set_duplicate_ids)
  then show ?thesis by (simp add: count_list_distinct)
qed

section \<open>The comparison of security descriptors\<close>

text \<open>A descriptor's access lists: for each of them its kind (\<open>D\<close> or \<open>S\<close>), its control flags and
  its access control entries, parenthesized texts without inner parentheses.\<close>

record acl_section =
  as_kind :: char
  as_flags :: "string list"
  as_entries :: "string list"

definition section_ok :: "acl_section \<Rightarrow> bool" where
  "section_ok s \<longleftrightarrow> as_kind s \<in> {CHR ''D'', CHR ''S''} \<and> set (as_flags s) \<subseteq> {''AI'', ''AR'', ''P''}
     \<and> list_all (\<lambda>e. CHR ''('' \<notin> set e \<and> CHR '')'' \<notin> set e) (as_entries s)"

definition show_entries :: "string list \<Rightarrow> string" where
  "show_entries es = concat (map (\<lambda>e. CHR ''('' # e @ '')'') es)"

definition show_section :: "acl_section \<Rightarrow> string" where
  "show_section s = as_kind s # CHR '':'' # concat (as_flags s) @ show_entries (as_entries s)"

definition show_sections :: "acl_section list \<Rightarrow> string" where
  "show_sections ss = concat (map show_section ss)"

definition without_auto_inherit :: "acl_section \<Rightarrow> acl_section" where
  "without_auto_inherit s = s\<lparr>as_flags := filter (\<lambda>f. f \<noteq> ''AI'') (as_flags s)\<rparr>"

definition no_flag :: "string \<Rightarrow> bool" where
  "no_flag r \<longleftrightarrow> r = [] \<or> hd r \<in> {CHR ''('', CHR ''D'', CHR ''S''}"

lemma flags_loop_flags:
  assumes "set fs \<subseteq> {''AI'', ''AR'', ''P''}" "no_flag r"
  shows "flags_loop (concat fs @ r) out = (r, out @ concat (filter (\<lambda>f. f \<noteq> ''AI'') fs))"
  using assms(1)
proof (induction fs arbitrary: out)
  case Nil
  have "strip_prefix ''AI'' r = None" "strip_prefix ''AR'' r = None" "strip_prefix ''P'' r = None"
    using assms(2) by (cases r; auto simp: no_flag_def strip_prefix_def)+
  then show ?case by (simp add: flags_loop.simps[of r])
next
  case (Cons f fs)
  have "f \<in> {''AI'', ''AR'', ''P''}" and IH: "\<And>out. flags_loop (concat fs @ r) out =
      (r, out @ concat (filter (\<lambda>f. f \<noteq> ''AI'') fs))" using Cons by auto
  then show ?case
    by (subst flags_loop.simps) (auto simp: strip_prefix_def)
qed

lemma key_loop_entry:
  "CHR ''('' \<notin> set e \<Longrightarrow> CHR '')'' \<notin> set e \<Longrightarrow> key_loop (e @ r) (Suc d) out = key_loop r (Suc d) (out @ e)"
  by (induction e arbitrary: out) auto

lemma key_loop_entries:
  "list_all (\<lambda>e. CHR ''('' \<notin> set e \<and> CHR '')'' \<notin> set e) es \<Longrightarrow>
     key_loop (show_entries es @ r) 0 out = key_loop r 0 (out @ show_entries es)"
proof (induction es arbitrary: out)
  case (Cons e es)
  have "\<not> at_section (CHR ''('' # s)" "\<not> at_section (CHR '')'' # s)" for s
    by (simp_all add: at_section_def starts_with_def)
  with Cons show ?case by (simp add: show_entries_def key_loop_entry)
qed (simp add: show_entries_def)

lemma no_flag_rest:
  "list_all section_ok ss \<Longrightarrow> no_flag (show_entries es @ show_sections ss)"
  by (cases es; cases ss) (auto simp: no_flag_def show_entries_def show_sections_def show_section_def section_ok_def)

lemma key_loop_sections:
  "list_all section_ok ss \<Longrightarrow>
     key_loop (show_sections ss) 0 out = out @ show_sections (map without_auto_inherit ss)"
proof (induction ss arbitrary: out)
  case (Cons s ss)
  then have ok: "section_ok s" "list_all section_ok ss" by simp_all
  have "at_section (show_sections (s # ss))"
    using ok(1) by (auto simp: section_ok_def at_section_def starts_with_def show_sections_def show_section_def)
  moreover have "show_sections (s # ss) =
      as_kind s # CHR '':'' # concat (as_flags s) @ (show_entries (as_entries s) @ show_sections ss)"
    by (simp add: show_sections_def show_section_def)
  ultimately have "key_loop (show_sections (s # ss)) 0 out =
      key_loop (show_entries (as_entries s) @ show_sections ss) 0
        (out @ [as_kind s, CHR '':''] @ concat (filter (\<lambda>f. f \<noteq> ''AI'') (as_flags s)))"
    using flags_loop_flags[OF _ no_flag_rest[OF ok(2)], of "as_flags s"] ok(1)
    by (simp add: section_ok_def)
  also have "\<dots> = out @ show_sections (map without_auto_inherit (s # ss))"
    using key_loop_entries[of "as_entries s"] ok(1) Cons.IH[OF ok(2)]
    by (simp add: section_ok_def show_sections_def show_section_def without_auto_inherit_def comp_def)
  finally show ?case .
qed (simp add: show_sections_def)

lemma show_entries_inj:
  "list_all (\<lambda>e. CHR ''('' \<notin> set e \<and> CHR '')'' \<notin> set e) es \<Longrightarrow>
   list_all (\<lambda>e. CHR ''('' \<notin> set e \<and> CHR '')'' \<notin> set e) fs \<Longrightarrow>
   r = [] \<or> hd r \<noteq> CHR ''('' \<Longrightarrow> q = [] \<or> hd q \<noteq> CHR ''('' \<Longrightarrow>
     show_entries es @ r = show_entries fs @ q \<Longrightarrow> es = fs \<and> r = q"
proof (induction es arbitrary: fs)
  case Nil
  then show ?case by (cases fs) (auto simp: show_entries_def)
next
  case (Cons e es)
  show ?case
  proof (cases fs)
    case Nil
    with Cons.prems show ?thesis by (auto simp: show_entries_def)
  next
    case fs: (Cons f fs')
    have p: "CHR '')'' \<notin> set e" "CHR '')'' \<notin> set f"
      using Cons.prems(1,2) by (simp_all add: fs)
    from Cons.prems(5) fs have eq: "e @ CHR '')'' # (show_entries es @ r) = f @ CHR '')'' # (show_entries fs' @ q)"
      by (simp add: show_entries_def)
    have "split_once (CHR '')'') (e @ CHR '')'' # (show_entries es @ r)) = Some (e, show_entries es @ r)"
      "split_once (CHR '')'') (f @ CHR '')'' # (show_entries fs' @ q)) = Some (f, show_entries fs' @ q)"
      by (rule split_once_hit[OF p(1)], rule split_once_hit[OF p(2)])
    then have "Some (e, show_entries es @ r) = Some (f, show_entries fs' @ q)"
      unfolding eq by (rule trans[OF sym])
    then have "e = f" "show_entries es @ r = show_entries fs' @ q" by auto
    then show ?thesis using Cons.IH[of fs'] Cons.prems(1-4) fs by simp
  qed
qed

lemma show_flags_inj:
  "set fs \<subseteq> {''AR'', ''P''} \<Longrightarrow> set gs \<subseteq> {''AR'', ''P''} \<Longrightarrow> no_flag r \<Longrightarrow> no_flag q \<Longrightarrow>
     concat fs @ r = concat gs @ q \<Longrightarrow> fs = gs \<and> r = q"
proof (induction fs arbitrary: gs)
  case Nil
  then show ?case by (cases gs) (auto simp: no_flag_def)
next
  case (Cons f fs)
  show ?case
  proof (cases gs)
    case Nil
    with Cons.prems show ?thesis by (auto simp: no_flag_def)
  next
    case (Cons g gs')
    with Cons.prems have "f = g" "concat fs @ r = concat gs' @ q" by auto
    then show ?thesis using Cons.IH[of gs'] Cons.prems Cons by simp
  qed
qed

lemma show_sections_inj:
  "list_all section_ok ss \<Longrightarrow> list_all section_ok ts \<Longrightarrow>
   list_all (\<lambda>s. ''AI'' \<notin> set (as_flags s)) ss \<Longrightarrow> list_all (\<lambda>s. ''AI'' \<notin> set (as_flags s)) ts \<Longrightarrow>
     show_sections ss = show_sections ts \<Longrightarrow> ss = ts"
proof (induction ss arbitrary: ts)
  case Nil
  then show ?case by (cases ts) (auto simp: show_sections_def show_section_def)
next
  case (Cons s ss)
  show ?case
  proof (cases ts)
    case Nil
    with Cons.prems show ?thesis by (auto simp: show_sections_def show_section_def)
  next
    case ts: (Cons t ts')
    let ?r = "show_entries (as_entries s) @ show_sections ss"
    let ?q = "show_entries (as_entries t) @ show_sections ts'"
    have kind: "as_kind s = as_kind t" and eq: "concat (as_flags s) @ ?r = concat (as_flags t) @ ?q"
      using Cons.prems ts by (simp_all add: show_sections_def show_section_def)
    have "set (as_flags s) \<subseteq> {''AR'', ''P''}" "set (as_flags t) \<subseteq> {''AR'', ''P''}"
      using Cons.prems ts by (auto simp: section_ok_def)
    from show_flags_inj[OF this _ _ eq] Cons.prems ts
    have f: "as_flags s = as_flags t" "?r = ?q" by (auto intro: no_flag_rest)
    have "show_sections us = [] \<or> hd (show_sections us) \<noteq> CHR ''(''" if "list_all section_ok us" for us
      using that by (cases us) (auto simp: show_sections_def show_section_def section_ok_def)
    from show_entries_inj[OF _ _ this this f(2)] Cons.prems ts
    have "as_entries s = as_entries t \<and> show_sections ss = show_sections ts'"
      by (simp add: section_ok_def[of s] section_ok_def[of t])
    then show ?thesis using Cons.IH[of ts'] Cons.prems ts kind f(1) by (simp add: acl_section.equality)
  qed
qed

section \<open>Properties\<close>

text \<open>Two security descriptors made of DACL and SACL sections (no quoted conditional
  expressions) are access-equivalent exactly when they differ in nothing but auto-inheritance
  (\<open>AI\<close>) flags: protection, requested inheritance, every entry and the order of entries count.\<close>

theorem access_equivalent_sections:
  assumes "list_all section_ok ss" and "list_all section_ok ts"
    and "list_all (\<lambda>s. CHR 0x27 \<notin> set (show_section s) \<and> CHR 0x22 \<notin> set (show_section s)) (ss @ ts)"
  shows "access_equivalent (SecurityDescriptor (show_sections ss)) (SecurityDescriptor (show_sections ts))
    \<longleftrightarrow> map without_auto_inherit ss = map without_auto_inherit ts"
proof -
  have key: "access_key (show_sections us) = show_sections (map without_auto_inherit us)"
    if "list_all section_ok us"
      "list_all (\<lambda>s. CHR 0x27 \<notin> set (show_section s) \<and> CHR 0x22 \<notin> set (show_section s)) us" for us
  proof -
    have "\<not> list_ex (\<lambda>c. c = CHR 0x27 \<or> c = CHR 0x22) (show_sections us)"
      using that(2) by (auto simp: list_ex_iff list_all_iff show_sections_def)
    then show ?thesis using key_loop_sections[OF that(1), of "[]"] by (simp add: access_key_def)
  qed
  have norm: "list_all section_ok (map without_auto_inherit us)"
    "list_all (\<lambda>s. ''AI'' \<notin> set (as_flags s)) (map without_auto_inherit us)"
    if "list_all section_ok us" for us
    using that by (auto simp: list_all_iff section_ok_def without_auto_inherit_def)
  have k: "access_key (show_sections ss) = show_sections (map without_auto_inherit ss)"
    "access_key (show_sections ts) = show_sections (map without_auto_inherit ts)"
    using key assms by simp_all
  show ?thesis
    unfolding access_equivalent_def as_sddl.simps k
    using show_sections_inj[OF norm(1)[OF assms(1)] norm(1)[OF assms(2)] norm(2)[OF assms(1)] norm(2)[OF assms(2)]]
    by metis
qed

lemma access_equivalent_sections_witness:
  "access_equivalent (SecurityDescriptor ''D:PAI(A;;FA;;;SY)'') (SecurityDescriptor ''D:P(A;;FA;;;SY)'')"
proof -
  define s t where "s = \<lparr>as_kind = CHR ''D'', as_flags = [''P'', ''AI''], as_entries = [''A;;FA;;;SY'']\<rparr>"
    and "t = \<lparr>as_kind = CHR ''D'', as_flags = [''P''], as_entries = [''A;;FA;;;SY'']\<rparr>"
  have "access_equivalent (SecurityDescriptor (show_sections [s])) (SecurityDescriptor (show_sections [t]))
      \<longleftrightarrow> map without_auto_inherit [s] = map without_auto_inherit [t]"
    by (rule access_equivalent_sections)
      (simp_all add: section_ok_def s_def t_def show_section_def show_entries_def)
  then show ?thesis
    by (simp add: s_def t_def without_auto_inherit_def show_sections_def show_section_def show_entries_def)
qed

end
