(* ===== verification/Validation.thy ===== *)
theory Validation
  imports Definition
begin

text \<open>
  Portable validation (\<open>validation.rs\<close>, second half) and the fluent builder (\<open>model/builder.rs\<close>).
  Each check appends to the report in model order. The lemmas reduce \<open>is_valid\<close> of the whole
  report to the conditions on the definition.
\<close>

section \<open>Rendering reports\<close>

definition diagnostic_display :: "diagnostic \<Rightarrow> message" where
  "diagnostic_display d =
     [Dsp (level_as_str (d_level d)), Lit ''['', Dsp (code_as_str (d_code d)), Lit ''] '',
      Dsp (d_path d), Lit '': ''] @ d_message d
     @ (case d_remediation d of
          Some r \<Rightarrow> Lit (CHR 0x0A # ''  remediation: '') # r
        | None \<Rightarrow> [])"

fun findings_from :: "nat \<Rightarrow> diagnostic list \<Rightarrow> message" where
  "findings_from index [] = []"
| "findings_from index (d # ds) =
     (if index > 0 then [Lit [CHR 0x0A]] else []) @ diagnostic_display d
     @ findings_from (Suc index) ds"

definition write_findings :: "diagnostic list \<Rightarrow> message" where
  "write_findings findings =
     (if findings = [] then [Lit ''no findings''] else findings_from 0 findings)"

section \<open>Checks\<close>

definition push_if :: "bool \<Rightarrow> diagnostic \<Rightarrow> validation_report \<Rightarrow> validation_report" where
  "push_if cond d r = (if cond then report_push d r else r)"

definition bracketed :: "string \<Rightarrow> nat \<Rightarrow> string" where
  "bracketed name index = name @ ''['' @ show_nat index @ '']''"

fun privilege_loop ::
  "nat \<Rightarrow> required_privilege list \<Rightarrow> required_privilege list \<Rightarrow> validation_report \<Rightarrow> validation_report" where
  "privilege_loop index seen [] r = r"
| "privilege_loop index seen (p # ps) r =
     privilege_loop (Suc index) (p # seen) ps
       (push_if (p \<in> set seen)
          (diagnostic_error DuplicateId (bracketed ''principal.required_privileges'' index)
             [Lit ''duplicate privilege '', Dbg (privilege_str p)]) r)"

definition identity_matches :: "logon_type \<Rightarrow> principal_identity \<Rightarrow> bool" where
  "identity_matches logon identity =
     (case logon of
        LogonNone \<Rightarrow> True
      | LogonGroup \<Rightarrow> (case identity of Group _ \<Rightarrow> True | _ \<Rightarrow> False)
      | LogonServiceAccount \<Rightarrow> (case identity of ServiceAccount _ \<Rightarrow> True | _ \<Rightarrow> False)
      | _ \<Rightarrow> (case identity of User _ \<Rightarrow> True | _ \<Rightarrow> False))"

definition validate_principal :: "task_definition \<Rightarrow> validation_report \<Rightarrow> validation_report" where
  "validate_principal d r =
     (let p = td_principal d;
          r = push_if (pr_id p = [])
                (diagnostic_error EmptyValue ''principal.id'' [Lit ''principal id cannot be empty'']) r;
          r = push_if (\<not> identity_matches (pr_logon_type p) (pr_identity p))
                (diagnostic_error PrincipalLogonMismatch ''principal''
                   [Lit ''principal identity does not match its logon type'']) r
      in privilege_loop 0 [] (pr_required_privileges p) r)"

definition validate_action :: "nat \<Rightarrow> action \<Rightarrow> validation_report \<Rightarrow> validation_report" where
  "validate_action index a r =
     (case a of
        Exec x \<Rightarrow>
          push_if (ex_command x = [])
            (diagnostic_error EmptyValue (bracketed ''actions'' index @ ''.command'')
               [Lit ''an exec command cannot be empty'']) r
      | ComHandler x \<Rightarrow> r
      | UnknownAction x \<Rightarrow>
          report_push
            (diagnostic_warning OpaqueExtension (bracketed ''actions'' index)
               [Lit ''an unknown action cannot be validated semantically'']) r
      | _ \<Rightarrow>
          report_push
            (with_remediation [Lit ''replace the legacy action with Exec or ComHandler'']
               (diagnostic_warning DeprecatedAction (bracketed ''actions'' index)
                  [Lit ''Email and ShowMessage actions are retained for round trips but unsupported by modern Windows''])) r)"

fun validate_actions_from :: "nat \<Rightarrow> action list \<Rightarrow> validation_report \<Rightarrow> validation_report" where
  "validate_actions_from index [] r = r"
| "validate_actions_from index (a # as) r =
     validate_actions_from (Suc index) as (validate_action index a r)"

definition incomplete :: "string \<Rightarrow> string \<Rightarrow> diagnostic" where
  "incomplete path msg = diagnostic_error IncompleteTrigger path [Lit msg]"

definition validate_repetition :: "string \<Rightarrow> trigger \<Rightarrow> validation_report \<Rightarrow> validation_report" where
  "validate_repetition path t r =
     push_if
       (case trigger_common_of t of
          Some common \<Rightarrow>
            (case tc_repetition common of
               Some rep \<Rightarrow> is_zero_duration (rep_interval rep)
             | None \<Rightarrow> False)
        | None \<Rightarrow> False)
       (diagnostic_error OutOfRange (path @ ''.repetition.interval'')
          [Lit ''a repetition interval must be greater than zero'']) r"

definition validate_trigger :: "nat \<Rightarrow> trigger \<Rightarrow> validation_report \<Rightarrow> validation_report" where
  "validate_trigger index t r =
     (let path = bracketed ''triggers'' index;
          r = validate_repetition path t r
      in case t of
           Time v \<Rightarrow>
             push_if (tc_start_boundary (tt_common v) = None)
               (incomplete (path @ ''.start_boundary'') ''a time trigger requires a start boundary'') r
         | Daily v \<Rightarrow>
             push_if (dly_days_interval v = 0)
               (diagnostic_error OutOfRange (path @ ''.days_interval'')
                  [Lit ''daily interval must be at least one'']) r
         | Weekly v \<Rightarrow>
             push_if (wt_weeks_interval v = 0 \<or> wt_days_of_week v = [])
               (incomplete path
                  ''a weekly trigger requires a non-zero interval and at least one weekday'') r
         | Monthly v \<Rightarrow>
             push_if
               (mo_months v = [] \<or> (mo_days_of_month v = [] \<and> \<not> mo_run_on_last_day v)
                \<or> list_ex (\<lambda>day. \<not> (1 \<le> day \<and> day \<le> 31)) (mo_days_of_month v))
               (incomplete path ''a monthly trigger needs valid days and at least one month'') r
         | MonthlyDow v \<Rightarrow>
             push_if
               (md_months v = [] \<or> md_days_of_week v = []
                \<or> (md_weeks_of_month v = [] \<and> \<not> md_run_on_last_week v))
               (incomplete path
                  ''a monthly day-of-week trigger needs months, weekdays, and week ordinals'') r
         | Event v \<Rightarrow>
             push_if (et_subscription v = [])
               (diagnostic_error EmptyValue (path @ ''.subscription'')
                  [Lit ''an event trigger requires an XPath subscription'']) r
         | Registration v \<Rightarrow>
             report_push
               (with_remediation
                  [Lit ''keep ignore_registration_triggers enabled during reconciliation'']
                  (diagnostic_warning RegistrationTriggerSideEffect path
                     [Lit ''registering or updating this task can execute it''])) r
         | UnknownTrigger v \<Rightarrow>
             report_push
               (diagnostic_warning OpaqueExtension path
                  [Lit ''an unknown trigger cannot be validated semantically'']) r
         | _ \<Rightarrow> r)"

fun validate_triggers_from :: "nat \<Rightarrow> trigger list \<Rightarrow> validation_report \<Rightarrow> validation_report" where
  "validate_triggers_from index [] r = r"
| "validate_triggers_from index (t # ts) r =
     validate_triggers_from (Suc index) ts (validate_trigger index t r)"

fun schema_generation :: "task_schema_version \<Rightarrow> nat" where
  "schema_generation V1_2 = 2"
| "schema_generation V1_3 = 3"
| "schema_generation V1_4 = 4"
| "schema_generation V1_5 = 5"
| "schema_generation V1_6 = 6"
| "schema_generation (UnknownVersion _) = 6"

definition validate_schema :: "task_definition \<Rightarrow> validation_report \<Rightarrow> validation_report" where
  "validate_schema d r =
     (let generation = schema_generation (td_schema_version d);
          s = td_settings d;
          r = push_if (ts_use_unified_scheduling_engine s \<and> generation < 3)
                (diagnostic_error SchemaTooOld ''settings.use_unified_scheduling_engine''
                   [Lit ''unified scheduling requires schema 1.3 or later'']) r;
          r = push_if (ts_maintenance s \<noteq> None \<and> generation < 4)
                (diagnostic_error SchemaTooOld ''settings.maintenance''
                   [Lit ''maintenance settings require task schema 1.4 or later'']) r
      in push_if (ts_volatile s \<and> generation < 6)
           (diagnostic_error SchemaTooOld ''settings.volatile''
              [Lit ''volatile tasks require task schema 1.6 or later'']) r)"

definition action_ids :: "task_definition \<Rightarrow> string list" where
  "action_ids d = List.map_filter action_id (actions_slice (td_actions d))"

definition trigger_ids :: "task_definition \<Rightarrow> string list" where
  "trigger_ids d =
     List.map_filter (\<lambda>t. Option.bind (trigger_common_of t) tc_id) (triggers_slice (td_triggers d))"

definition validate_definition :: "task_definition \<Rightarrow> validation_report" where
  "validate_definition d =
     (let r = push_if (actions_slice (td_actions d) = [])
                (diagnostic_error MissingAction ''actions''
                   [Lit ''a task must contain at least one action'']) empty_report;
          r = foldl (\<lambda>r dup. report_push (diagnostic_error DuplicateId ''actions''
                [Lit ''duplicate action id '', Dbg dup]) r) r (duplicate_ids (action_ids d));
          r = foldl (\<lambda>r dup. report_push (diagnostic_error DuplicateId ''triggers''
                [Lit ''duplicate trigger id '', Dbg dup]) r) r (duplicate_ids (trigger_ids d));
          r = push_if (ts_priority (td_settings d) > 10)
                (diagnostic_error OutOfRange ''settings.priority''
                   [Lit ''scheduler priority must be between 0 and 10'']) r;
          r = validate_principal d r;
          r = validate_actions_from 0 (actions_slice (td_actions d)) r;
          r = validate_triggers_from 0 (triggers_slice (td_triggers d)) r;
          r = validate_schema d r
      in push_if (td_extensions d \<noteq> [])
           (diagnostic_warning OpaqueExtension ''extensions''
              [Lit ''opaque XML extensions are preserved but cannot be validated semantically'']) r)"

section \<open>The builder\<close>

record task_builder =
  tb_definition :: task_definition
  tb_actions :: "action list"
  tb_triggers :: "trigger list"

definition builder_new :: "action \<Rightarrow> task_builder" where
  "builder_new a = \<lparr>tb_definition = definition_default, tb_actions = [a], tb_triggers = []\<rparr>"

definition builder_action :: "action \<Rightarrow> task_builder \<Rightarrow> task_builder" where
  "builder_action a b = b\<lparr>tb_actions := tb_actions b @ [a]\<rparr>"

definition builder_trigger :: "trigger \<Rightarrow> task_builder \<Rightarrow> task_builder" where
  "builder_trigger t b = b\<lparr>tb_triggers := tb_triggers b @ [t]\<rparr>"

definition builder_run_as :: "principal \<Rightarrow> task_builder \<Rightarrow> task_builder" where
  "builder_run_as p b = b\<lparr>tb_definition := (tb_definition b)\<lparr>td_principal := p\<rparr>\<rparr>"

definition builder_settings :: "task_settings \<Rightarrow> task_builder \<Rightarrow> task_builder" where
  "builder_settings s b = b\<lparr>tb_definition := (tb_definition b)\<lparr>td_settings := s\<rparr>\<rparr>"

definition builder_description :: "string \<Rightarrow> task_builder \<Rightarrow> task_builder" where
  "builder_description text b =
     (let d = tb_definition b in
      b\<lparr>tb_definition := d\<lparr>td_registration := (td_registration d)\<lparr>ri_description := Some text\<rparr>\<rparr>\<rparr>)"

definition builder_author :: "string \<Rightarrow> task_builder \<Rightarrow> task_builder" where
  "builder_author text b =
     (let d = tb_definition b in
      b\<lparr>tb_definition := d\<lparr>td_registration := (td_registration d)\<lparr>ri_author := Some text\<rparr>\<rparr>\<rparr>)"

definition builder_build :: "task_builder \<Rightarrow> task_definition result" where
  "builder_build b =
     bind_ok (map_err limit_error (actions_try_from (tb_actions b))) (\<lambda>as.
     bind_ok (map_err limit_error (triggers_try_from (tb_triggers b))) (\<lambda>ts.
       let d = (tb_definition b)\<lparr>td_actions := as, td_triggers := ts\<rparr>;
           report = validate_definition d
       in if report_is_valid report then Inr d
          else
            let msg = (case report_errors report of
                         [] \<Rightarrow> [Lit ''the task definition is not valid'']
                       | first # _ \<Rightarrow> [Dsp (d_path first), Lit '': ''] @ d_message first)
            in Inl (with_validation report
                 (with_operation ''TaskBuilder::build'' (new_error InvalidDefinition msg)))))"

section \<open>When a report is valid\<close>

definition trigger_ok :: "trigger \<Rightarrow> bool" where
  "trigger_ok t \<longleftrightarrow>
     (case trigger_common_of t of
        Some c \<Rightarrow> (case tc_repetition c of Some rep \<Rightarrow> \<not> is_zero_duration (rep_interval rep) | None \<Rightarrow> True)
      | None \<Rightarrow> True) \<and>
     (case t of
        Time v \<Rightarrow> tc_start_boundary (tt_common v) \<noteq> None
      | Daily v \<Rightarrow> dly_days_interval v > 0
      | Weekly v \<Rightarrow> wt_weeks_interval v > 0 \<and> wt_days_of_week v \<noteq> []
      | Monthly v \<Rightarrow> mo_months v \<noteq> [] \<and> (mo_days_of_month v \<noteq> [] \<or> mo_run_on_last_day v)
          \<and> list_all (\<lambda>day. 1 \<le> day \<and> day \<le> 31) (mo_days_of_month v)
      | MonthlyDow v \<Rightarrow> md_months v \<noteq> [] \<and> md_days_of_week v \<noteq> []
          \<and> (md_weeks_of_month v \<noteq> [] \<or> md_run_on_last_week v)
      | Event v \<Rightarrow> et_subscription v \<noteq> []
      | _ \<Rightarrow> True)"

definition action_ok :: "action \<Rightarrow> bool" where
  "action_ok a \<longleftrightarrow> (case a of Exec x \<Rightarrow> ex_command x \<noteq> [] | _ \<Rightarrow> True)"

definition principal_ok :: "principal \<Rightarrow> bool" where
  "principal_ok p \<longleftrightarrow> pr_id p \<noteq> [] \<and> identity_matches (pr_logon_type p) (pr_identity p)
     \<and> distinct (pr_required_privileges p)"

definition schema_ok :: "task_schema_version \<Rightarrow> task_settings \<Rightarrow> bool" where
  "schema_ok v s \<longleftrightarrow>
     (v = V1_2 \<longrightarrow> \<not> ts_use_unified_scheduling_engine s)
     \<and> (v \<in> {V1_2, V1_3} \<longrightarrow> ts_maintenance s = None)
     \<and> (v \<in> {V1_2, V1_3, V1_4, V1_5} \<longrightarrow> \<not> ts_volatile s)"

definition definition_ok :: "task_definition \<Rightarrow> bool" where
  "definition_ok d \<longleftrightarrow>
     actions_slice (td_actions d) \<noteq> [] \<and> distinct (action_ids d) \<and> distinct (trigger_ids d)
     \<and> ts_priority (td_settings d) \<le> 10 \<and> principal_ok (td_principal d)
     \<and> list_all action_ok (actions_slice (td_actions d))
     \<and> list_all trigger_ok (triggers_slice (td_triggers d))
     \<and> schema_ok (td_schema_version d) (td_settings d)"

lemma valid_push [simp]:
  "report_is_valid (report_push d r) \<longleftrightarrow> report_is_valid r \<and> d_level d \<noteq> LevelError"
  by (auto simp: report_is_valid_def report_push_def)

lemma valid_push_if [simp]:
  "report_is_valid (push_if b d r) \<longleftrightarrow> report_is_valid r \<and> (b \<longrightarrow> d_level d \<noteq> LevelError)"
  by (simp add: push_if_def)

lemma valid_empty [simp]: "report_is_valid empty_report"
  by (simp add: report_is_valid_def empty_report_def)

lemma valid_fold_push:
  "(\<And>x. d_level (f x) = LevelError) \<Longrightarrow>
     report_is_valid (foldl (\<lambda>r x. report_push (f x) r) r xs) \<longleftrightarrow> report_is_valid r \<and> xs = []"
  by (induction xs arbitrary: r) auto

lemma valid_privilege_loop:
  "report_is_valid (privilege_loop i seen ps r) \<longleftrightarrow>
     report_is_valid r \<and> distinct ps \<and> set seen \<inter> set ps = {}"
  by (induction i seen ps r rule: privilege_loop.induct) auto

lemma valid_principal:
  "report_is_valid (validate_principal d r) \<longleftrightarrow> report_is_valid r \<and> principal_ok (td_principal d)"
  by (auto simp: validate_principal_def Let_def valid_privilege_loop principal_ok_def)

lemma valid_actions:
  "report_is_valid (validate_actions_from i as r) \<longleftrightarrow> report_is_valid r \<and> list_all action_ok as"
  by (induction i as r rule: validate_actions_from.induct)
    (auto simp: validate_action_def action_ok_def split: action.splits)

lemma valid_trigger: "report_is_valid (validate_trigger i t r) \<longleftrightarrow> report_is_valid r \<and> trigger_ok t"
proof -
  have "report_is_valid (validate_repetition path t r) \<longleftrightarrow> report_is_valid r \<and>
      (case trigger_common_of t of
        Some c \<Rightarrow> (case tc_repetition c of Some rep \<Rightarrow> \<not> is_zero_duration (rep_interval rep) | None \<Rightarrow> True)
      | None \<Rightarrow> True)" for path
    by (auto simp: validate_repetition_def split: option.splits)
  then show ?thesis
    by (cases t) (auto simp: validate_trigger_def Let_def trigger_ok_def incomplete_def
        list_ex_iff list_all_iff word_gt_0)
qed

lemma valid_triggers:
  "report_is_valid (validate_triggers_from i ts r) \<longleftrightarrow> report_is_valid r \<and> list_all trigger_ok ts"
  by (induction i ts r rule: validate_triggers_from.induct) (auto simp: valid_trigger)

lemma valid_schema:
  "report_is_valid (validate_schema d r) \<longleftrightarrow>
     report_is_valid r \<and> schema_ok (td_schema_version d) (td_settings d)"
  by (cases "td_schema_version d") (auto simp: validate_schema_def Let_def schema_ok_def)

lemma validate_definition_valid:
  "report_is_valid (validate_definition d) \<longleftrightarrow> definition_ok d"
  unfolding validate_definition_def Let_def definition_ok_def
  by (auto simp: valid_schema valid_triggers valid_actions valid_principal valid_fold_push
      duplicate_ids_Nil not_less)

section \<open>Properties\<close>

text \<open>C15. What validation accepts: a definition's report has no error exactly when it has an
  action, action ids and trigger ids are unique, the priority is at most 10, the principal has an
  id, an identity that fits its logon type and no repeated privilege, every exec command is
  non-empty, every trigger is complete and repeats with a positive interval, and the schema version
  is recent enough for the settings used.\<close>

theorem validation_exact: "report_is_valid (validate_definition d) \<longleftrightarrow> definition_ok d"
  by (rule validate_definition_valid)

definition built :: "task_builder \<Rightarrow> task_definition" where
  "built b = (tb_definition b)\<lparr>td_actions := Actions (tb_actions b), td_triggers := Triggers (tb_triggers b)\<rparr>"

text \<open>\<open>TaskBuilder::build\<close> returns the assembled definition exactly when it keeps both native
  collection limits (32 actions, 48 triggers) and passes validation; every failure is classified
  as an invalid definition.\<close>

theorem builder_build_exact:
  "(case builder_build b of
      Inr d \<Rightarrow> d = built b \<and> length (tb_actions b) \<le> 32 \<and> length (tb_triggers b) \<le> 48 \<and> definition_ok d
    | Inl e \<Rightarrow> e_kind e = InvalidDefinition
        \<and> \<not> (length (tb_actions b) \<le> 32 \<and> length (tb_triggers b) \<le> 48 \<and> definition_ok (built b)))"
  by (auto simp: builder_build_def Let_def built_def actions_try_from_def triggers_try_from_def
      limit_error_def MAX_ACTIONS_def MAX_TRIGGERS_def validate_definition_valid split: sum.splits)

end
