(* ===== verification/Schedule.thy ===== *)
theory Schedule
  imports Definition
begin

text \<open>
  Schedule recipes and cron (\<open>schedule.rs\<close>): one-line trigger recipes, the five-field cron parser
  and its compilation to calendar triggers. The civil date-time parser of \<open>jiff\<close> is the parameter
  \<open>civil\<close>, as in the time component. A cron field is its ascending list of values.
\<close>

section \<open>Recipes\<close>

datatype schedule_error =
    ScheduleInvalid message
  | NotRepresentable message "nat option"

definition once :: "task_datetime \<Rightarrow> trigger" where
  "once at = Time (time_new at)"

definition daily :: "task_datetime \<Rightarrow> trigger" where
  "daily first = Daily (daily_new first)"

definition weekly :: "task_datetime \<Rightarrow> weekday list \<Rightarrow> trigger" where
  "weekly first days = Weekly (weekly_new first days)"

definition at_logon :: "string option \<Rightarrow> trigger" where
  "at_logon user_id = Logon (logon_new\<lparr>lt_user_id := user_id\<rparr>)"

definition at_startup :: trigger where
  "at_startup = Boot boot_new"

definition on_event :: "string \<Rightarrow> trigger" where
  "on_event subscription = Event (event_new subscription)"

definition every :: "task_datetime \<Rightarrow> task_duration \<Rightarrow> schedule_error + trigger" where
  "every first interval =
     (if is_zero_duration interval then
        Inl (ScheduleInvalid [Lit ''repeat interval must be greater than zero''])
      else
        let t = time_new first in
        Inr (Time (t\<lparr>tt_common := (tt_common t)
          \<lparr>tc_repetition := Some \<lparr>rep_interval = interval, rep_duration = None,
             rep_stop_at_duration_end = False\<rparr>\<rparr>\<rparr>)))"

section \<open>Cron fields\<close>

record field =
  f_values :: "nat list"
  f_wildcard :: bool

definition MONTH_NAMES :: "(string \<times> nat) list" where
  "MONTH_NAMES =
     [(''jan'', 1), (''feb'', 2), (''mar'', 3), (''apr'', 4), (''may'', 5), (''jun'', 6),
      (''jul'', 7), (''aug'', 8), (''sep'', 9), (''oct'', 10), (''nov'', 11), (''dec'', 12)]"

definition WEEKDAY_NAMES :: "(string \<times> nat) list" where
  "WEEKDAY_NAMES =
     [(''sun'', 0), (''mon'', 1), (''tue'', 2), (''wed'', 3), (''thu'', 4), (''fri'', 5), (''sat'', 6)]"

definition field_value :: "string \<Rightarrow> (string \<times> nat) list \<Rightarrow> bool \<Rightarrow> schedule_error + nat" where
  "field_value text names sunday_alias =
     (case find (\<lambda>(name, _). eq_ignore_ascii_case name text) names of
        Some (_, value) \<Rightarrow> Inr value
      | None \<Rightarrow>
          bind_ok
            (ok_or (ScheduleInvalid [Lit ''invalid cron value '', Dbg text]) (parse_uint 8 text))
            (\<lambda>value. Inr (if sunday_alias \<and> value = 7 then 7 else value)))"

text \<open>\<open>(start..=end).step_by(step)\<close> for a positive step.\<close>

definition step_range :: "nat \<Rightarrow> nat \<Rightarrow> nat \<Rightarrow> nat list" where
  "step_range start stop step = map (\<lambda>k. start + k * step) [0..<(stop - start) div step + 1]"

definition part_step :: "string \<Rightarrow> string option \<Rightarrow> schedule_error + nat" where
  "part_step text step_text =
     bind_ok
       (case step_text of
          None \<Rightarrow> Inr 1
        | Some s \<Rightarrow>
            ok_or (ScheduleInvalid [Lit ''invalid step '', Dbg s, Lit '' in '', Dbg text]) (parse_uint 8 s))
       (\<lambda>step. if step = 0 then Inl (ScheduleInvalid [Lit ''invalid zero step in '', Dbg text])
               else Inr step)"

definition part_bounds ::
  "string \<Rightarrow> bool \<Rightarrow> nat \<Rightarrow> nat \<Rightarrow> (string \<times> nat) list \<Rightarrow> bool \<Rightarrow> schedule_error + nat \<times> nat" where
  "part_bounds rng has_step minimum maximum names sunday_alias =
     (if rng = ''*'' then Inr (minimum, maximum)
      else (case split_once (CHR ''-'') rng of
          Some (start, stop) \<Rightarrow>
            bind_ok (field_value start names sunday_alias) (\<lambda>s.
            bind_ok (field_value stop names sunday_alias) (\<lambda>e. Inr (s, e)))
        | None \<Rightarrow>
            bind_ok (field_value rng names sunday_alias) (\<lambda>value.
              Inr (value, if has_step then maximum else value))))"

definition field_part ::
  "string \<Rightarrow> nat \<Rightarrow> nat \<Rightarrow> (string \<times> nat) list \<Rightarrow> bool \<Rightarrow> string \<Rightarrow> schedule_error + nat list" where
  "field_part text minimum maximum names sunday_alias part =
     (let (rng, step_text) = (case split_once (CHR ''/'') part of
            None \<Rightarrow> (part, None) | Some (rng, step) \<Rightarrow> (rng, Some step))
      in bind_ok (part_step text step_text) (\<lambda>step.
         bind_ok (part_bounds rng (step_text \<noteq> None) minimum maximum names sunday_alias) (\<lambda>(start, stop).
           if start < minimum \<or> stop > maximum \<or> start > stop then
             Inl (ScheduleInvalid [Lit ''field '', Dbg part, Lit '' is outside '',
               Dsp (show_nat minimum), Lit ''..='', Dsp (show_nat maximum)])
           else
             Inr (map (\<lambda>value. if sunday_alias \<and> value = 7 then 0 else value)
                   (step_range start stop step)))))"

fun field_loop ::
  "string \<Rightarrow> nat \<Rightarrow> nat \<Rightarrow> (string \<times> nat) list \<Rightarrow> bool \<Rightarrow> string list \<Rightarrow> nat list \<Rightarrow> schedule_error + nat list" where
  "field_loop text minimum maximum names sunday_alias [] values = Inr values"
| "field_loop text minimum maximum names sunday_alias (part # parts) values =
     bind_ok (field_part text minimum maximum names sunday_alias part) (\<lambda>vs.
       field_loop text minimum maximum names sunday_alias parts
         (foldl (\<lambda>s v. bset_insert v s) values vs))"

definition field_parse ::
  "string \<Rightarrow> nat \<Rightarrow> nat \<Rightarrow> (string \<times> nat) list \<Rightarrow> bool \<Rightarrow> schedule_error + field" where
  "field_parse text minimum maximum names sunday_alias =
     bind_ok (field_loop text minimum maximum names sunday_alias (split_on (CHR '','') text) []) (\<lambda>values.
       if values = [] then Inl (ScheduleInvalid [Lit ''empty cron field '', Dbg text])
       else Inr \<lparr>f_values = values, f_wildcard = (text = ''*'')\<rparr>)"

section \<open>Cron expressions\<close>

record cron_schedule =
  cron_original :: string
  cron_minutes :: field
  cron_hours :: field
  cron_days_of_month :: field
  cron_months :: field
  cron_days_of_week :: field

text \<open>\<open>str::split_ascii_whitespace\<close>: the maximal runs of non-whitespace.\<close>

fun words_loop :: "string \<Rightarrow> string \<Rightarrow> string list" where
  "words_loop word [] = (if word = [] then [] else [word])"
| "words_loop word (c # cs) =
     (if is_ascii_whitespace c then (if word = [] then [] else [word]) @ words_loop [] cs
      else words_loop (word @ [c]) cs)"

definition split_ascii_whitespace :: "string \<Rightarrow> string list" where
  "split_ascii_whitespace s = words_loop [] s"

definition cron_parse :: "string \<Rightarrow> schedule_error + cron_schedule" where
  "cron_parse original =
     (let fields = split_ascii_whitespace original in
      if length fields \<noteq> 5 then
        Inl (ScheduleInvalid
          [Lit ''cron requires exactly five fields: minute hour day-of-month month day-of-week''])
      else
        bind_ok (field_parse (fields ! 0) 0 59 [] False) (\<lambda>minutes.
        bind_ok (field_parse (fields ! 1) 0 23 [] False) (\<lambda>hours.
        bind_ok (field_parse (fields ! 2) 1 31 [] False) (\<lambda>days_of_month.
        bind_ok (field_parse (fields ! 3) 1 12 MONTH_NAMES False) (\<lambda>months.
        bind_ok (field_parse (fields ! 4) 0 7 WEEKDAY_NAMES True) (\<lambda>days_of_week.
          Inr \<lparr>cron_original = original, cron_minutes = minutes, cron_hours = hours,
               cron_days_of_month = days_of_month, cron_months = months,
               cron_days_of_week = days_of_week\<rparr>))))))"

fun error_text :: "parse_datetime_error \<Rightarrow> message" where
  "error_text (ParseTaskDateTimeError m) = m"

definition boundary_at ::
  "(string \<Rightarrow> string + unit) \<Rightarrow> task_datetime \<Rightarrow> nat \<Rightarrow> nat \<Rightarrow> schedule_error + task_datetime" where
  "boundary_at civil first hour minute =
     (let text = dt_text first in
      case find_index (\<lambda>c. c = CHR ''T'') text of
        None \<Rightarrow> Inl (ScheduleInvalid [Lit ''cron anchor has no time separator''])
      | Some time_index \<Rightarrow>
          let suffix_index =
                (case find_index (\<lambda>c. c = CHR ''+'' \<or> c = CHR ''-'' \<or> c = CHR ''Z'')
                        (drop (time_index + 1) text) of
                   None \<Rightarrow> length text
                 | Some index \<Rightarrow> time_index + 1 + index);
              offset = drop suffix_index text
          in map_err (\<lambda>e. ScheduleInvalid (error_text e))
               (datetime_parse civil
                 (take time_index text @ ''T'' @ show_pad 2 hour @ '':'' @ show_pad 2 minute @ '':00'' @ offset)))"

fun weekday_of :: "nat \<Rightarrow> weekday option" where
  "weekday_of value =
     (if value = 0 then Some Sunday
      else if value = 1 then Some Monday
      else if value = 2 then Some Tuesday
      else if value = 3 then Some Wednesday
      else if value = 4 then Some Thursday
      else if value = 5 then Some Friday
      else if value = 6 then Some Saturday
      else None)" \<comment> \<open>\<^const>\<open>None\<close> is the \<open>unreachable!\<close> arm\<close>

fun month_of :: "nat \<Rightarrow> month option" where
  "month_of value =
     (if value = 1 then Some January
      else if value = 2 then Some February
      else if value = 3 then Some March
      else if value = 4 then Some April
      else if value = 5 then Some May
      else if value = 6 then Some June
      else if value = 7 then Some July
      else if value = 8 then Some August
      else if value = 9 then Some September
      else if value = 10 then Some October
      else if value = 11 then Some November
      else if value = 12 then Some December
      else None)"

text \<open>The two conversions are total on the values a parsed field holds; \<open>the\<close> marks the arm that
  panics, which the ranges of a parsed expression exclude.\<close>

definition calendar_trigger :: "cron_schedule \<Rightarrow> task_datetime \<Rightarrow> trigger" where
  "calendar_trigger c boundary =
     (let weekdays = map (\<lambda>v. the (weekday_of v)) (f_values (cron_days_of_week c));
          months = map (\<lambda>v. the (month_of v)) (f_values (cron_months c))
      in if f_wildcard (cron_days_of_month c) \<and> f_wildcard (cron_days_of_week c)
              \<and> f_wildcard (cron_months c) then
           Daily (daily_new boundary)
         else if \<not> f_wildcard (cron_days_of_week c) \<and> f_wildcard (cron_months c) then
           Weekly (weekly_new boundary weekdays)
         else if \<not> f_wildcard (cron_days_of_week c) then
           MonthlyDow ((monthly_dow_new boundary [First, Second, Third, Fourth] weekdays months)
             \<lparr>md_run_on_last_week := True\<rparr>)
         else Monthly (monthly_new boundary (map of_nat (f_values (cron_days_of_month c))) months))"

fun compile_loop ::
  "(string \<Rightarrow> string + unit) \<Rightarrow> cron_schedule \<Rightarrow> task_datetime \<Rightarrow> (nat \<times> nat) list \<Rightarrow> trigger list
     \<Rightarrow> schedule_error + trigger list" where
  "compile_loop civil c first [] triggers = Inr triggers"
| "compile_loop civil c first ((hour, minute) # slots) triggers =
     bind_ok (boundary_at civil first hour minute) (\<lambda>boundary.
       let triggers = triggers @ [calendar_trigger c boundary] in
       if length triggers > MAX_TRIGGERS then
         Inl (NotRepresentable
           [Lit ''expanded time selections exceed Task Scheduler's trigger limit''] (Some (length triggers)))
       else compile_loop civil c first slots triggers)"

definition cron_times :: "cron_schedule \<Rightarrow> (nat \<times> nat) list" where
  "cron_times c =
     concat (map (\<lambda>hour. map (\<lambda>minute. (hour, minute)) (f_values (cron_minutes c)))
       (f_values (cron_hours c)))"

definition compile ::
  "(string \<Rightarrow> string + unit) \<Rightarrow> cron_schedule \<Rightarrow> task_datetime \<Rightarrow> schedule_error + trigger list" where
  "compile civil c first =
     (if \<not> f_wildcard (cron_days_of_month c) \<and> \<not> f_wildcard (cron_days_of_week c) then
        Inl (NotRepresentable
          [Lit ''POSIX OR semantics for simultaneous day-of-month and day-of-week restrictions would duplicate overlapping runs'']
          None)
      else compile_loop civil c first (cron_times c) [])"

section \<open>Parsed fields\<close>

lemma step_range_iff: "0 < step \<Longrightarrow> start \<le> stop \<Longrightarrow>
    x \<in> set (step_range start stop step) \<longleftrightarrow> start \<le> x \<and> x \<le> stop \<and> (x - start) mod step = 0"
proof
  assume s: "0 < step" "start \<le> stop" and x: "x \<in> set (step_range start stop step)"
  then obtain k where k: "k \<le> (stop - start) div step" "x = start + k * step"
    by (auto simp: step_range_def less_Suc_eq_le)
  then have "k * step \<le> stop - start"
    using div_times_less_eq_dividend[of "stop - start" step] mult_le_mono1 order_trans by blast
  then show "start \<le> x \<and> x \<le> stop \<and> (x - start) mod step = 0" using k s by auto
next
  assume s: "0 < step" "start \<le> stop" and x: "start \<le> x \<and> x \<le> stop \<and> (x - start) mod step = 0"
  then have "x = start + (x - start) div step * step" by (simp add: mod_0_imp_dvd)
  moreover have "(x - start) div step \<le> (stop - start) div step" using x by (intro div_le_mono) auto
  ultimately show "x \<in> set (step_range start stop step)"
    unfolding step_range_def set_map set_upt by (intro image_eqI[of _ _ "(x - start) div step"]) auto
qed

lemma step_range_not_Nil: "step_range start stop step \<noteq> []"
  by (simp add: step_range_def)

lemma part_step_ok: "part_step text st = Inr step \<Longrightarrow> 0 < step"
  by (auto simp: part_step_def ok_iff split: if_splits)

lemma field_part_ok:
  assumes "field_part text lo hi names alias part = Inr vs" and "hi < 256"
  shows "vs \<noteq> [] \<and> (\<forall>v \<in> set vs. (lo \<le> v \<or> alias \<and> v = 0) \<and> v \<le> hi \<and> \<not> (alias \<and> v = 7))"
proof -
  define rs where "rs = (case split_once (CHR ''/'') part of
    None \<Rightarrow> (part, None) | Some (r, step) \<Rightarrow> (r, Some step))"
  obtain rng st where rs: "rs = (rng, st)" by fastforce
  from assms(1) obtain step start stop where step: "part_step text st = Inr step"
    and b: "lo \<le> start" "stop \<le> hi" "start \<le> stop"
    and vs: "vs = map (\<lambda>value. if alias \<and> value = 7 then 0 else value) (step_range start stop step)"
    unfolding field_part_def rs_def[symmetric] rs
    by (auto simp: ok_iff not_less split: if_splits)
  from step_range_iff[OF part_step_ok[OF step] b(3)] b show ?thesis
    by (auto simp: vs step_range_not_Nil)
qed

lemma fold_bset_insert:
  "sorted_wrt (<) s \<Longrightarrow> sorted_wrt (<) (foldl (\<lambda>s v. bset_insert v s) s vs)
     \<and> set (foldl (\<lambda>s v. bset_insert v s) s vs) = set s \<union> set vs"
  using bset_fold by auto

lemma field_loop_ok:
  "field_loop text lo hi names alias parts acc = Inr vs \<Longrightarrow> sorted_wrt (<) acc \<Longrightarrow>
     sorted_wrt (<) vs \<and> set vs = set acc \<union>
       (\<Union>part \<in> set parts. case field_part text lo hi names alias part of Inr ws \<Rightarrow> set ws | Inl _ \<Rightarrow> {})
     \<and> (\<forall>part \<in> set parts. is_ok (field_part text lo hi names alias part))"
proof (induction parts arbitrary: acc)
  case (Cons part parts)
  then obtain ws where ws: "field_part text lo hi names alias part = Inr ws"
    "field_loop text lo hi names alias parts (foldl (\<lambda>s v. bset_insert v s) acc ws) = Inr vs"
    by (auto simp: ok_iff)
  show ?case using Cons.IH[OF ws(2)] fold_bset_insert[OF Cons.prems(2), of ws] ws(1) by auto
qed simp

definition field_in :: "nat \<Rightarrow> nat \<Rightarrow> field \<Rightarrow> bool" where
  "field_in lo hi f \<longleftrightarrow> f_values f \<noteq> [] \<and> sorted_wrt (<) (f_values f) \<and> set (f_values f) \<subseteq> {lo..hi}"

lemma field_parse_ok:
  assumes "field_parse text lo hi names alias = Inr f" "hi < 256"
  shows "f_values f \<noteq> [] \<and> sorted_wrt (<) (f_values f) \<and>
    (\<forall>v \<in> set (f_values f). (lo \<le> v \<or> alias \<and> v = 0) \<and> v \<le> hi \<and> \<not> (alias \<and> v = 7))"
proof -
  from assms obtain vs where vs: "field_loop text lo hi names alias (split_on (CHR '','') text) [] = Inr vs"
    "vs \<noteq> []" "f_values f = vs"
    by (auto simp: field_parse_def ok_iff split: if_splits)
  from field_loop_ok[OF vs(1)] have "sorted_wrt (<) vs" and
    set: "set vs = (\<Union>part \<in> set (split_on (CHR '','') text).
        case field_part text lo hi names alias part of Inr ws \<Rightarrow> set ws | Inl _ \<Rightarrow> {})" by simp_all
  moreover have "(lo \<le> v \<or> alias \<and> v = 0) \<and> v \<le> hi \<and> \<not> (alias \<and> v = 7)" if v: "v \<in> set vs" for v
  proof -
    from v set obtain part where "v \<in> (case field_part text lo hi names alias part of Inr ws \<Rightarrow> set ws | Inl _ \<Rightarrow> {})"
      by auto
    then obtain ws where "field_part text lo hi names alias part = Inr ws" "v \<in> set ws"
      by (cases "field_part text lo hi names alias part") auto
    then show ?thesis using field_part_ok[OF _ assms(2)] by blast
  qed
  ultimately show ?thesis using vs by simp
qed

lemma field_parse_in:
  "field_parse text lo hi names False = Inr f \<Longrightarrow> hi < 256 \<Longrightarrow> field_in lo hi f"
  using field_parse_ok[of _ lo hi names False f] by (auto simp: field_in_def)

lemma field_parse_weekday:
  assumes "field_parse text 0 7 names True = Inr f"
  shows "field_in 0 6 f"
proof -
  have p: "f_values f \<noteq> []" "sorted_wrt (<) (f_values f)" "\<forall>v \<in> set (f_values f). v \<le> 7 \<and> v \<noteq> 7"
    using field_parse_ok[OF assms] by auto
  have "v \<le> 6" if "v \<in> set (f_values f)" for v
    using p(3) that by fastforce
  then show ?thesis using p by (auto simp: field_in_def)
qed

definition cron_wf :: "cron_schedule \<Rightarrow> bool" where
  "cron_wf c \<longleftrightarrow> field_in 0 59 (cron_minutes c) \<and> field_in 0 23 (cron_hours c)
     \<and> field_in 1 31 (cron_days_of_month c) \<and> field_in 1 12 (cron_months c)
     \<and> field_in 0 6 (cron_days_of_week c)"

lemma cron_parse_wf: "cron_parse s = Inr c \<Longrightarrow> cron_wf c"
proof -
  define fs where "fs = split_ascii_whitespace s"
  assume "cron_parse s = Inr c"
  then have "field_parse (fs ! 0) 0 59 [] False = Inr (cron_minutes c)
    \<and> field_parse (fs ! 1) 0 23 [] False = Inr (cron_hours c)
    \<and> field_parse (fs ! 2) 1 31 [] False = Inr (cron_days_of_month c)
    \<and> field_parse (fs ! 3) 1 12 MONTH_NAMES False = Inr (cron_months c)
    \<and> field_parse (fs ! 4) 0 7 WEEKDAY_NAMES True = Inr (cron_days_of_week c)"
    unfolding cron_parse_def Let_def fs_def[symmetric]
    by (simp only: ok_iff split: if_split_asm) auto
  then show ?thesis
    unfolding cron_wf_def by (intro conjI field_parse_in field_parse_weekday) auto
qed

lemma length_cron_times: "length (cron_times c) = length (f_values (cron_hours c)) * length (f_values (cron_minutes c))"
  by (simp add: cron_times_def length_concat comp_def sum_list_triv)

lemma set_cron_times: "set (cron_times c) = set (f_values (cron_hours c)) \<times> set (f_values (cron_minutes c))"
  by (auto simp: cron_times_def)

lemma distinct_cron_times:
  assumes "cron_wf c"
  shows "distinct (cron_times c)"
proof -
  have "distinct (f_values (cron_hours c))" "distinct (f_values (cron_minutes c))"
    using assms by (auto simp: cron_wf_def field_in_def strict_sorted_iff)
  then have "distinct (List.product (f_values (cron_hours c)) (f_values (cron_minutes c)))"
    by (simp add: distinct_product)
  moreover have "cron_times c = List.product (f_values (cron_hours c)) (f_values (cron_minutes c))"
    by (simp add: cron_times_def product_concat_map)
  ultimately show ?thesis by simp
qed

lemma compile_loop_ok:
  "compile_loop civil c first slots acc = Inr ts \<longleftrightarrow>
     (slots = [] \<or> length acc + length slots \<le> 48) \<and>
     (\<exists>us. ts = acc @ us \<and>
       list_all2 (\<lambda>(h, m) t. \<exists>b. boundary_at civil first h m = Inr b \<and> t = calendar_trigger c b) slots us)"
proof (induction slots arbitrary: acc)
  case (Cons hm slots)
  obtain h m where hm: "hm = (h, m)" by fastforce
  show ?case
    by (auto simp: hm ok_iff Let_def MAX_TRIGGERS_def Cons list_all2_Cons1)
qed auto

section \<open>Numeric ranges\<close>

definition range_text :: "nat \<times> nat \<times> nat \<Rightarrow> string" where
  "range_text r = (case r of (a, b, step) \<Rightarrow> show_nat a @ ''-'' @ show_nat b @ ''/'' @ show_nat step)"

lemma digit_lower: "list_all is_ascii_digit t \<Longrightarrow> map to_ascii_lowercase t = t"
  by (induction t) (auto simp: to_ascii_lowercase_def is_ascii_upper_def is_ascii_digit_def)

lemma digit_not_name:
  assumes "list_all is_ascii_digit t" "names \<in> {[], MONTH_NAMES, WEEKDAY_NAMES}"
  shows "find (\<lambda>(name, _). eq_ignore_ascii_case name t) names = None"
proof -
  have no: "\<not> eq_ignore_ascii_case n t" if n: "list_ex (\<lambda>c. \<not> is_ascii_digit (to_ascii_lowercase c)) n" for n
  proof
    assume "eq_ignore_ascii_case n t"
    then have "t = map to_ascii_lowercase n" by (simp add: eq_ignore_ascii_case_def digit_lower assms(1))
    with assms(1) n show False by (auto simp: list_all_iff list_ex_iff)
  qed
  let ?P = "\<lambda>p :: string \<times> nat. list_ex (\<lambda>c. \<not> is_ascii_digit (to_ascii_lowercase c)) (fst p)"
  have "list_all ?P MONTH_NAMES" "list_all ?P WEEKDAY_NAMES"
    by (simp_all add: MONTH_NAMES_def WEEKDAY_NAMES_def is_ascii_digit_def to_ascii_lowercase_def
        is_ascii_upper_def)
  with assms(2) have "\<forall>p \<in> set names. ?P p" by (auto simp: list_all_iff)
  then have "\<forall>p \<in> set names. \<not> eq_ignore_ascii_case (fst p) t" using no by blast
  then show ?thesis unfolding find_None_iff case_prod_beta by blast
qed

lemma field_value_number:
  "names \<in> {[], MONTH_NAMES, WEEKDAY_NAMES} \<Longrightarrow> n < 256 \<Longrightarrow> field_value (show_nat n) names alias = Inr n"
  using digit_not_name[of "show_nat n" names] by (auto simp: field_value_def)

lemma field_part_range:
  assumes "names \<in> {[], MONTH_NAMES, WEEKDAY_NAMES}" "lo \<le> a" "a \<le> b" "b \<le> hi" "hi < 256" "0 < st" "st < 256"
  shows "field_part t lo hi names False (range_text (a, b, st)) = Inr (step_range a b st)"
proof -
  have nd: "CHR ''/'' \<notin> set (show_nat a @ ''-'' @ show_nat b)" "CHR ''-'' \<notin> set (show_nat a)"
    using show_nat_set[of "CHR ''/''"] show_nat_set[of "CHR ''-''"] by (auto simp: is_ascii_digit_def)
  have "split_once (CHR ''/'') (range_text (a, b, st)) = Some (show_nat a @ ''-'' @ show_nat b, show_nat st)"
    using split_once_hit[OF nd(1), of "show_nat st"] by (simp add: range_text_def)
  moreover have "show_nat a @ ''-'' @ show_nat b \<noteq> ''*''"
    by (cases "show_nat a") auto
  moreover have "split_once (CHR ''-'') (show_nat a @ ''-'' @ show_nat b) = Some (show_nat a, show_nat b)"
    using split_once_hit[OF nd(2), of "show_nat b"] by simp
  ultimately show ?thesis
    using assms by (simp add: field_part_def part_step_def part_bounds_def field_value_number not_less)
qed

definition range_ok :: "nat \<Rightarrow> nat \<Rightarrow> nat \<times> nat \<times> nat \<Rightarrow> bool" where
  "range_ok lo hi r = (case r of (a, b, step) \<Rightarrow> lo \<le> a \<and> a \<le> b \<and> b \<le> hi \<and> 0 < step \<and> step < 256)"

definition range_values :: "nat \<times> nat \<times> nat \<Rightarrow> nat set" where
  "range_values r = (case r of (a, b, step) \<Rightarrow> {x. a \<le> x \<and> x \<le> b \<and> (x - a) mod step = 0})"

lemma field_loop_ranges:
  "names \<in> {[], MONTH_NAMES, WEEKDAY_NAMES} \<Longrightarrow> hi < 256 \<Longrightarrow> list_all (range_ok lo hi) rs \<Longrightarrow>
     sorted_wrt (<) acc \<Longrightarrow>
     \<exists>vs. field_loop t lo hi names False (map range_text rs) acc = Inr vs \<and> sorted_wrt (<) vs
       \<and> set vs = set acc \<union> (\<Union>r \<in> set rs. range_values r)"
proof (induction rs arbitrary: acc)
  case (Cons r rs)
  obtain a b st where r: "r = (a, b, st)" by (cases r) auto
  with Cons.prems have ok: "lo \<le> a" "a \<le> b" "b \<le> hi" "0 < st" "st < 256" by (simp_all add: range_ok_def)
  have p: "field_part t lo hi names False (range_text r) = Inr (step_range a b st)"
    unfolding r by (rule field_part_range) (use Cons.prems ok in simp_all)
  have v: "set (step_range a b st) = range_values r"
    by (intro set_eqI) (simp add: step_range_iff[OF ok(4,2)] r range_values_def)
  let ?acc = "foldl (\<lambda>s v. bset_insert v s) acc (step_range a b st)"
  have acc: "sorted_wrt (<) ?acc" "set ?acc = set acc \<union> range_values r"
    using fold_bset_insert[OF Cons.prems(4), of "step_range a b st"] v by auto
  have "list_all (range_ok lo hi) rs" using Cons.prems(3) by simp
  from Cons.IH[OF Cons.prems(1,2) this acc(1)] obtain vs where
    "field_loop t lo hi names False (map range_text rs) ?acc = Inr vs" "sorted_wrt (<) vs"
    "set vs = set ?acc \<union> (\<Union>r \<in> set rs. range_values r)" by blast
  then show ?case by (intro exI[of _ vs]) (simp add: p acc(2) Un_assoc)
qed simp

section \<open>Properties\<close>

text \<open>Every parsed cron expression has usable fields: minutes within 0..59, hours 0..23, days of
  month 1..31, months 1..12 and weekdays 0..6 (7 has become Sunday), each non-empty and strictly
  ascending. So the weekday and month conversions never reach their panicking arm, and the times of
  day the expression selects are all different.\<close>

theorem cron_fields_in_range:
  assumes "cron_parse s = Inr c"
  shows "cron_wf c
    \<and> list_all (\<lambda>v. weekday_of v \<noteq> None) (f_values (cron_days_of_week c))
    \<and> list_all (\<lambda>v. month_of v \<noteq> None) (f_values (cron_months c))
    \<and> distinct (cron_times c)"
proof -
  have wf: "cron_wf c" using assms by (rule cron_parse_wf)
  have "weekday_of v \<noteq> None" if "v \<in> set (f_values (cron_days_of_week c))" for v
  proof -
    have "v \<in> {0..6}" using wf that by (auto simp: cron_wf_def field_in_def)
    then have "v = 0 \<or> v = 1 \<or> v = 2 \<or> v = 3 \<or> v = 4 \<or> v = 5 \<or> v = 6" by auto
    then show ?thesis by auto
  qed
  moreover have "month_of v \<noteq> None" if "v \<in> set (f_values (cron_months c))" for v
  proof -
    have "v \<in> {1..12}" using wf that by (auto simp: cron_wf_def field_in_def)
    then have "v = 1 \<or> v = 2 \<or> v = 3 \<or> v = 4 \<or> v = 5 \<or> v = 6 \<or> v = 7 \<or> v = 8 \<or> v = 9 \<or> v = 10
        \<or> v = 11 \<or> v = 12" unfolding atLeastAtMost_iff by arith
    then show ?thesis by auto
  qed
  ultimately show ?thesis using wf distinct_cron_times[OF wf] by (simp add: list_all_iff)
qed

lemma cron_fields_in_range_witness: "\<exists>c. cron_parse ''* * * * *'' = Inr c \<and> cron_wf c"
proof -
  have "is_ok (cron_parse ''* * * * *'')" by code_simp
  then obtain c where c: "cron_parse ''* * * * *'' = Inr c" by (auto simp: is_ok_iff)
  then show ?thesis using cron_fields_in_range[OF c] by blast
qed

text \<open>Lists, ranges and steps mean what POSIX says: a comma-separated list of items
  \<open>a-b/step\<close> whose bounds lie in the field's range parses, for each of the five fields' name tables,
  to exactly the values \<open>a\<close>, \<open>a + step\<close>, ... up to \<open>b\<close> of all items, and is not a wildcard.\<close>

theorem cron_field_ranges:
  assumes "names \<in> {[], MONTH_NAMES, WEEKDAY_NAMES}" and "hi < 256" and "rs \<noteq> []"
    and "list_all (range_ok lo hi) rs"
  shows "\<exists>f. field_parse (join_with '','' (map range_text rs)) lo hi names False = Inr f \<and>
    set (f_values f) = (\<Union>r \<in> set rs. range_values r) \<and> sorted_wrt (<) (f_values f) \<and> \<not> f_wildcard f"
proof -
  let ?t = "join_with '','' (map range_text rs)"
  have no: "CHR '','' \<notin> set (range_text r)" for r
    using show_nat_set[of "CHR '',''"] by (auto simp: range_text_def is_ascii_digit_def split: prod.splits)
  have sp: "split_on (CHR '','') ?t = map range_text rs"
    using split_join[of "map range_text rs" "CHR '',''"] no assms(3) by simp
  obtain vs where vs: "field_loop ?t lo hi names False (map range_text rs) [] = Inr vs"
      "sorted_wrt (<) vs" "set vs = (\<Union>r \<in> set rs. range_values r)"
    using field_loop_ranges[OF assms(1,2,4), of "[]" ?t] by auto
  obtain a b st qs where rs: "rs = (a, b, st) # qs" using assms(3) by (cases rs) auto
  have "a \<in> set vs" using vs(3) assms(4) by (auto simp: rs range_values_def range_ok_def)
  moreover have "?t \<noteq> ''*''"
  proof
    assume "?t = ''*''"
    then have "map range_text rs = [''*'']" using sp by simp
    then have "show_nat a @ ''-'' @ show_nat b @ ''/'' @ show_nat st = ''*''" by (simp add: rs range_text_def)
    then show False by (cases "show_nat a") auto
  qed
  ultimately show ?thesis using vs by (auto simp: field_parse_def sp)
qed

lemma cron_field_ranges_witness:
  "\<exists>f. field_parse ''0-6/2,9-9/1'' 0 23 [] False = Inr f \<and> set (f_values f) = {0, 2, 4, 6, 9}"
proof -
  have t: "join_with '','' (map range_text [(0, 6, 2), (9, 9, 1)]) = ''0-6/2,9-9/1''" by code_simp
  have "range_values (0, 6, 2) = {0, 2, 4, 6}" "range_values (9, 9, 1) = {9}"
    by (auto simp: range_values_def)
  then show ?thesis
    using cron_field_ranges[of "[]" 23 "[(0, 6, 2), (9, 9, 1)]" 0] unfolding t
    by (auto simp: range_ok_def)
qed


text \<open>The count an over-limit error reports is always one past the limit, because the loop stops at
  the first excess trigger; it is not the expanded count.\<close>

lemma compile_required_triggers:
  "compile_loop civil c first slots acc = Inl (NotRepresentable m (Some n)) \<Longrightarrow> length acc \<le> 48 \<Longrightarrow> n = 49"
proof (induction slots arbitrary: acc)
  case (Cons s slots)
  obtain h mi where s: "s = (h, mi)" by fastforce
  have err: "boundary_at civil first h mi \<noteq> Inl (NotRepresentable m' k)" for m' k
    by (auto simp: boundary_at_def Let_def map_err_Inl split: option.splits)
  show ?case
    using Cons err by (cases "boundary_at civil first h mi") (auto simp: s Let_def MAX_TRIGGERS_def split: if_splits)
qed simp

end
