(* ===== verification/Manifest.thy ===== *)
theory Manifest
  imports Validation Path
begin

text \<open>
  Desired-state documents (\<open>manifest.rs\<close>): the manifest data, its validation, the namespace test
  and the ownership marker. The TOML, JSON and YAML parsers, the UTF-8 check and the text of a UUID
  are library code and appear as parameters.
\<close>

section \<open>Data\<close>

datatype document_format = Toml | Json | Yaml

definition FORMAT_VERSION :: u32 where "FORMAT_VERSION = 1"

definition MAX_MANIFEST_BYTES :: nat where "MAX_MANIFEST_BYTES = 8 * 1024 * 1024"

text \<open>The argument is the extension \<open>Path::extension\<close> finds, when it is text.\<close>

definition format_from_extension :: "string option \<Rightarrow> document_format result" where
  "format_from_extension ext =
     (let lower = map_option (map to_ascii_lowercase) ext in
      if lower = Some ''toml'' then Inr Toml
      else if lower = Some ''json'' then Inr Json
      else if lower = Some ''yaml'' \<or> lower = Some ''yml'' then Inr Yaml
      else Inl (new_error Serialization
        [Lit ''cannot detect manifest format; use .toml, .json, .yaml, or .yml'']))"

record credential_references =
  cr_connection :: "string option"
  cr_registration :: "string option"

record managed_folder =
  mf_path :: folder_path
  mf_security_descriptor :: "security_descriptor option"

record managed_task =
  mg_path :: task_path
  mg_definition :: task_definition
  mg_credentials :: credential_references

record task_manifest =
  tm_format_version :: u32
  tm_owner :: uuid
  tm_owner_name :: string
  tm_namespace :: folder_path
  tm_target :: "string option"
  tm_folders :: "managed_folder list"
  tm_tasks :: "managed_task list"

definition manifest_new :: "uuid \<Rightarrow> string \<Rightarrow> folder_path \<Rightarrow> task_manifest" where
  "manifest_new owner owner_name namespace =
     \<lparr>tm_format_version = FORMAT_VERSION, tm_owner = owner, tm_owner_name = owner_name,
      tm_namespace = namespace, tm_target = None, tm_folders = [], tm_tasks = []\<rparr>"

definition serialization_error :: "message \<Rightarrow> error" where
  "serialization_error msg =
     with_validation
       \<lparr>diagnostics = [\<lparr>d_level = LevelError, d_code = OtherCode ''manifest_syntax'', d_path = ''$'',
          d_message = msg,
          d_remediation = Some [Lit ''Check the format, reported location, field types and the 8 MiB input limit.'']\<rparr>]\<rparr>
       (new_error Serialization msg)"

text \<open>\<open>from_slice\<close>: \<open>decode\<close> is the library parser of the format; on failure it gives the message
  and the location entries the error is annotated with.\<close>

definition manifest_from_slice ::
  "(string \<Rightarrow> string + unit) \<Rightarrow> (document_format \<Rightarrow> string \<Rightarrow> (message \<times> (string \<times> string) list) + task_manifest)
     \<Rightarrow> string \<Rightarrow> document_format \<Rightarrow> task_manifest result" where
  "manifest_from_slice utf8 decode bytes format =
     (if length bytes > MAX_MANIFEST_BYTES then
        Inl (serialization_error [Lit ''manifest exceeds the 8 MiB limit''])
      else
        bind_ok
          (map_err (\<lambda>e. serialization_error [Lit ''manifest is not UTF-8: '', Dsp e]) (utf8 bytes))
          (\<lambda>_. map_err
             (\<lambda>(msg, entries). foldl (\<lambda>e (k, v). with_context k v e) (serialization_error msg) entries)
             (decode format bytes)))"

section \<open>Namespace and ownership\<close>

definition within_namespace :: "string \<Rightarrow> string \<Rightarrow> bool" where
  "within_namespace path namespace \<longleftrightarrow>
     path = namespace \<or>
     (case strip_prefix namespace path of Some rest \<Rightarrow> starts_with [bslash] rest | None \<Rightarrow> False)"

definition percent_hex :: "nat \<Rightarrow> char" where
  "percent_hex d = ''0123456789ABCDEF'' ! d"

definition percent_byte :: "char \<Rightarrow> string" where
  "percent_byte c =
     (if is_ascii_alphanumeric c \<or> c \<in> {CHR ''-'', CHR ''_'', CHR ''.'', CHR 0x7E} then [c]
      else [CHR 0x25, percent_hex (of_char c div 16), percent_hex (of_char c mod 16)])"

definition percent_encode :: "string \<Rightarrow> string" where
  "percent_encode value = concat (map percent_byte value)"

definition ownership_uri :: "(uuid \<Rightarrow> string) \<Rightarrow> task_manifest \<Rightarrow> task_path \<Rightarrow> string" where
  "ownership_uri uuid_text m path =
     ''urn:windows-task:owner:'' @ uuid_text (tm_owner m) @ '':task:'' @ percent_encode (task_str path)"

section \<open>Validation\<close>

definition outside_namespace :: "string \<Rightarrow> diagnostic" where
  "outside_namespace path =
     \<lparr>d_level = LevelError, d_code = OwnershipConflict, d_path = path,
      d_message = [Lit ''path is outside the managed namespace''],
      d_remediation = Some [Lit ''Move the path under this manifest's namespace.'']\<rparr>"

definition duplicate_path :: "string \<Rightarrow> diagnostic" where
  "duplicate_path path =
     \<lparr>d_level = LevelError, d_code = DuplicateId, d_path = path,
      d_message = [Lit ''path appears more than once''],
      d_remediation = Some [Lit ''Remove the duplicate entry or use a distinct path.'']\<rparr>"

definition extend_report :: "diagnostic list \<Rightarrow> validation_report \<Rightarrow> validation_report" where
  "extend_report ds r = r\<lparr>diagnostics := diagnostics r @ ds\<rparr>"

fun validate_folders ::
  "folder_path \<Rightarrow> nat \<Rightarrow> folder_path list \<Rightarrow> managed_folder list \<Rightarrow> validation_report \<Rightarrow> validation_report" where
  "validate_folders namespace index seen [] r = r"
| "validate_folders namespace index seen (f # fs) r =
     (let path = bracketed ''folders'' index @ ''.path'';
          r = push_if (\<not> within_namespace (folder_str (mf_path f)) (folder_str namespace))
                (outside_namespace path) r;
          r = push_if (mf_path f \<in> set seen) (duplicate_path path) r
      in validate_folders namespace (Suc index) (mf_path f # seen) fs r)"

fun validate_tasks ::
  "folder_path \<Rightarrow> nat \<Rightarrow> task_path list \<Rightarrow> managed_task list \<Rightarrow> validation_report \<Rightarrow> validation_report" where
  "validate_tasks namespace index seen [] r = r"
| "validate_tasks namespace index seen (t # ts) r =
     (let path = bracketed ''tasks'' index @ ''.path'';
          r = push_if (\<not> within_namespace (task_str (mg_path t)) (folder_str namespace))
                (outside_namespace path) r;
          r = push_if (mg_path t \<in> set seen) (duplicate_path path) r;
          r = extend_report
                (map (\<lambda>d. d\<lparr>d_path := bracketed ''tasks'' index @ ''.definition.'' @ d_path d\<rparr>)
                   (diagnostics (validate_definition (mg_definition t)))) r
      in validate_tasks namespace (Suc index) (mg_path t # seen) ts r)"

definition manifest_validate :: "task_manifest \<Rightarrow> validation_report" where
  "manifest_validate m =
     (let r = push_if (tm_format_version m \<noteq> FORMAT_VERSION)
                \<lparr>d_level = LevelError, d_code = UnsupportedCapability, d_path = ''format_version'',
                 d_message = [Lit ''manifest version '', Dsp (show_nat (unat (tm_format_version m))),
                   Lit '' is unsupported; expected '', Dsp (show_nat (unat FORMAT_VERSION))],
                 d_remediation = Some [Lit ''Use format_version = '', Dsp (show_nat (unat FORMAT_VERSION)),
                   Lit '' and migrate unsupported fields.'']\<rparr> empty_report;
          r = push_if (is_root (tm_namespace m))
                \<lparr>d_level = LevelError, d_code = OwnershipConflict, d_path = ''namespace'',
                 d_message = [Lit ''the scheduler root cannot be a managed namespace''],
                 d_remediation = Some [Lit ''choose a dedicated child folder'']\<rparr> r;
          r = validate_folders (tm_namespace m) 0 [] (tm_folders m) r
      in validate_tasks (tm_namespace m) 0 [] (tm_tasks m) r)"

section \<open>When a manifest is valid\<close>

definition in_namespace :: "task_manifest \<Rightarrow> string \<Rightarrow> bool" where
  "in_namespace m path \<longleftrightarrow> within_namespace path (folder_str (tm_namespace m))"

definition manifest_ok :: "task_manifest \<Rightarrow> bool" where
  "manifest_ok m \<longleftrightarrow> tm_format_version m = 1 \<and> tm_namespace m \<noteq> folder_root
     \<and> list_all (\<lambda>f. in_namespace m (folder_str (mf_path f))) (tm_folders m)
     \<and> distinct (map mf_path (tm_folders m))
     \<and> list_all (\<lambda>t. in_namespace m (task_str (mg_path t))) (tm_tasks m)
     \<and> distinct (map mg_path (tm_tasks m))
     \<and> list_all (\<lambda>t. definition_ok (mg_definition t)) (tm_tasks m)"

lemma valid_extend_definition:
  "report_is_valid (extend_report (map (\<lambda>d. d\<lparr>d_path := p d\<rparr>) (diagnostics r0)) r) \<longleftrightarrow>
     report_is_valid r \<and> report_is_valid r0"
  by (simp add: report_is_valid_def extend_report_def list_ex_iff ball_Un bex_Un)

lemma valid_folders:
  "report_is_valid (validate_folders ns i seen fs r) \<longleftrightarrow>
     report_is_valid r \<and> list_all (\<lambda>f. within_namespace (folder_str (mf_path f)) (folder_str ns)) fs
     \<and> distinct (map mf_path fs) \<and> set seen \<inter> set (map mf_path fs) = {}"
  by (induction ns i seen fs r rule: validate_folders.induct)
    (auto simp: Let_def outside_namespace_def duplicate_path_def)

lemma valid_tasks:
  "report_is_valid (validate_tasks ns i seen ts r) \<longleftrightarrow>
     report_is_valid r \<and> list_all (\<lambda>t. within_namespace (task_str (mg_path t)) (folder_str ns)) ts
     \<and> distinct (map mg_path ts) \<and> set seen \<inter> set (map mg_path ts) = {}
     \<and> list_all (\<lambda>t. definition_ok (mg_definition t)) ts"
  by (induction ns i seen ts r rule: validate_tasks.induct)
    (auto simp: Let_def outside_namespace_def duplicate_path_def valid_extend_definition
      validate_definition_valid)

lemma manifest_valid_iff: "report_is_valid (manifest_validate m) \<longleftrightarrow> manifest_ok m"
  unfolding manifest_validate_def Let_def manifest_ok_def in_namespace_def
  by (auto simp: valid_folders valid_tasks FORMAT_VERSION_def)

section \<open>The namespace test on canonical paths\<close>

lemma within_namespace_render:
  assumes "list_all valid_component ns" "ns \<noteq> []" "list_all valid_component cs"
  shows "within_namespace (render cs) (render ns) \<longleftrightarrow> prefix ns cs"
proof
  assume "prefix ns cs"
  then obtain ds where ds: "cs = ns @ ds" by (auto simp: prefix_def)
  show "within_namespace (render cs) (render ns)"
  proof (cases ds)
    case (Cons d ds')
    then have "strip_prefix (render ns) (render cs) = Some (bslash # d @ render ds')"
      unfolding strip_prefix_Some by (simp add: ds)
    then show ?thesis by (simp add: within_namespace_def starts_with_def)
  qed (simp add: within_namespace_def ds)
next
  assume "within_namespace (render cs) (render ns)"
  then have "render cs = render ns \<or> (\<exists>s. render cs = render ns @ bslash # s)"
    by (auto simp: within_namespace_def strip_prefix_Some starts_with_iff split: option.splits)
  moreover have "split_on bslash (render ns) = [] # ns" "split_on bslash (render cs) = [] # cs"
    using split_full_render[OF valid_no_sep] assms by auto
  ultimately show "prefix ns cs"
    by (auto simp: prefix_def split_on_append_sep)
qed

section \<open>Percent encoding\<close>

definition unhex :: "char \<Rightarrow> nat" where
  "unhex c = (let n = of_char c in if n \<le> 57 then n - 48 else n - 55)"

fun percent_decode :: "string \<Rightarrow> string" where
  "percent_decode [] = []"
| "percent_decode (c # cs) =
     (if c = CHR 0x25 then
        (case cs of a # b # rest \<Rightarrow> char_of (16 * unhex a + unhex b) # percent_decode rest | _ \<Rightarrow> [c])
      else c # percent_decode cs)"

lemma unhex_percent_hex: "d < 16 \<Longrightarrow> unhex (percent_hex d) = d"
proof -
  assume "d < 16"
  then have "d \<in> set [0..<16]" by simp
  moreover have "list_all (\<lambda>d. unhex (percent_hex d) = d) [0..<16]" by code_simp
  ultimately show ?thesis by (simp only: list_all_iff)
qed

lemma high_nibble: "of_char c div 16 < (16 :: nat)"
  by (rule less_mult_imp_div_less) simp

lemma percent_decode_byte: "percent_decode (percent_byte c @ s) = c # percent_decode s"
proof -
  have "of_char c div 16 < (16 :: nat)" by (rule high_nibble)
  then have "char_of (16 * unhex (percent_hex (of_char c div 16)) + unhex (percent_hex (of_char c mod 16))) = c"
    by (simp add: unhex_percent_hex)
  moreover have "\<not> is_ascii_alphanumeric (CHR 0x25)"
    by (simp add: is_ascii_alphanumeric_def is_ascii_digit_def is_ascii_upper_def is_ascii_lower_def)
  ultimately show ?thesis by (auto simp: percent_byte_def)
qed

lemma percent_decode_encode: "percent_decode (percent_encode s) = s"
  by (induction s) (simp_all add: percent_encode_def percent_decode_byte)

lemma percent_encode_inj: "percent_encode a = percent_encode b \<longleftrightarrow> a = b"
  by (metis percent_decode_encode)

lemma percent_encode_safe:
  "c \<in> set (percent_encode s) \<Longrightarrow> is_ascii_alphanumeric c \<or> c \<in> {CHR ''-'', CHR ''_'', CHR ''.'', CHR 0x7E, CHR 0x25}"
proof -
  have hex: "is_ascii_alphanumeric (percent_hex d)" if "d < 16" for d
  proof -
    have "d \<in> set [0..<16]" using that by simp
    moreover have "list_all (\<lambda>d. is_ascii_alphanumeric (percent_hex d)) [0..<16]" by code_simp
    ultimately show ?thesis by (simp only: list_all_iff)
  qed
  show "c \<in> set (percent_encode s) \<Longrightarrow> ?thesis"
    using hex high_nibble by (auto simp: percent_encode_def percent_byte_def split: if_splits)
qed

section \<open>Properties\<close>

text \<open>What manifest validation accepts: the supported format version, a namespace that is not
  the scheduler root, folders and tasks that all lie in the namespace with no path listed twice, and
  task definitions that are all valid.\<close>

theorem manifest_valid_exact: "report_is_valid (manifest_validate m) \<longleftrightarrow> manifest_ok m"
  by (rule manifest_valid_iff)

text \<open>The namespace test is a test on components, not on text: for canonical paths it holds
  exactly when the components of the namespace are an initial segment of the path's, so a sibling
  folder whose name only starts like the namespace is outside.\<close>

theorem within_namespace_components:
  assumes "folder_ok ns" and "ns \<noteq> folder_root" and "folder_ok f" and "f \<noteq> folder_root"
  shows "within_namespace (folder_str f) (folder_str ns) \<longleftrightarrow> prefix (components ns) (components f)"
proof -
  have str: "folder_str g = render (components g)" "components g \<noteq> []" if "folder_ok g" "g \<noteq> folder_root" for g
    using folder_of_components[OF that(1)] that(2) by (auto simp: folder_of_def split: if_splits) (metis folder_str.simps)
  show ?thesis
    using within_namespace_render components_valid str assms by metis
qed

lemma within_namespace_components_witness:
  "\<not> within_namespace (folder_str (FolderPath (bslash # ''Apps2''))) (folder_str (FolderPath (bslash # ''Apps'')))"
proof -
  have "folder_ok (FolderPath (bslash # ''Apps''))" "folder_ok (FolderPath (bslash # ''Apps2''))" by code_simp+
  moreover have "FolderPath (bslash # ''Apps'') \<noteq> folder_root" "FolderPath (bslash # ''Apps2'') \<noteq> folder_root"
    by (simp_all add: folder_root_def)
  moreover have "\<not> prefix (components (FolderPath (bslash # ''Apps''))) (components (FolderPath (bslash # ''Apps2'')))"
    by (simp add: components_def)
  ultimately show ?thesis using within_namespace_components by blast
qed

text \<open>Ownership markers identify tasks: for one owner, two task paths have the same ownership URI
  only when they are equal, and the encoded path is made of unreserved URI characters and
  percent escapes only.\<close>

theorem ownership_uri_injective:
  "(ownership_uri uuid_text m p = ownership_uri uuid_text m q \<longleftrightarrow> p = q) \<and>
   list_all (\<lambda>c. is_ascii_alphanumeric c \<or> c \<in> {CHR ''-'', CHR ''_'', CHR ''.'', CHR 0x7E, CHR 0x25})
     (percent_encode (task_str p))"
proof -
  have "ownership_uri uuid_text m p = ownership_uri uuid_text m q \<longleftrightarrow> task_str p = task_str q"
    by (simp add: ownership_uri_def percent_encode_inj)
  then show ?thesis
    using percent_encode_safe by (cases p; cases q) (auto simp: list_all_iff)
qed

end
