(* ===== verification/Changes.thy ===== *)
theory Changes
  imports Manifest
begin

unbundle bit_operations_syntax

text \<open>
  The data of reconciliation (first part of \<open>reconcile.rs\<close>, types of \<open>client/mod.rs\<close>): semantic
  changes and plans, the scheduler snapshot, apply reports with their journal, and the small
  functions on them that planning, applying and recovery share.
\<close>

section \<open>Client data\<close>

type_synonym security_information = u32 \<comment> \<open>bit flags\<close>

definition SI_OWNER :: security_information where "SI_OWNER = 1"
definition SI_GROUP :: security_information where "SI_GROUP = 2"
definition SI_DACL :: security_information where "SI_DACL = 4"
definition SI_SACL :: security_information where "SI_SACL = 8"

datatype xml_encoding = Utf8 | Utf16LittleEndian | Utf16BigEndian

record raw_task_xml =
  raw_bytes :: string
  raw_encoding :: xml_encoding

record task_snapshot =
  snap_raw :: raw_task_xml
  snap_typed :: "task_definition result"

datatype task_state = StateUnknown | Disabled | Queued | Ready | Running

record registered_task =
  rg_path :: task_path
  rg_state :: task_state
  rg_enabled :: bool
  rg_last_result :: i32
  rg_missed_runs :: u32
  rg_last_run :: "task_datetime option"
  rg_next_run :: "task_datetime option"
  rg_snapshot :: task_snapshot

record task_folder_info =
  fo_path :: folder_path
  fo_security_descriptor :: "security_descriptor option"

datatype registration_mode = Create | Update | CreateOrUpdate | ValidateOnly

datatype password = Utf16Password "16 word list"

record registration_options =
  ro_mode :: registration_mode
  ro_ignore_registration_triggers :: bool
  ro_disabled :: bool
  ro_dont_add_principal_ace :: bool
  ro_password :: "password option"

definition registration_options_default :: registration_options where
  "registration_options_default =
     \<lparr>ro_mode = CreateOrUpdate, ro_ignore_registration_triggers = True, ro_disabled = False,
      ro_dont_add_principal_ace = False, ro_password = None\<rparr>"

record list_options =
  lo_recursive :: bool
  lo_include_hidden :: bool

section \<open>Changes and plans\<close>

datatype change =
    CreateFolder folder_path
  | CreateTask task_path
  | UpdateTask task_path
  | AdoptTask task_path
  | DeleteTask task_path
  | SetEnabled task_path bool
  | SetTaskSecurity task_path
  | SetFolderSecurity folder_path

datatype rollback_safety = Reversible | RequiresCredential | IrreversibleRollback

record planned_change =
  pc_change :: change
  pc_rollback :: rollback_safety

record plan =
  pl_changes :: "planned_change list"
  pl_irreversible_effects :: "task_path list"

definition plan_default :: plan where
  "plan_default = \<lparr>pl_changes = [], pl_irreversible_effects = []\<rparr>"

fun stopped_task :: "change \<Rightarrow> task_path option" where
  "stopped_task (UpdateTask p) = Some p"
| "stopped_task (AdoptTask p) = Some p"
| "stopped_task (DeleteTask p) = Some p"
| "stopped_task _ = None"

definition with_stop_running :: "plan \<Rightarrow> plan" where
  "with_stop_running p =
     p\<lparr>pl_irreversible_effects := List.map_filter (\<lambda>c. stopped_task (pc_change c)) (pl_changes p)\<rparr>"

definition plan_is_empty :: "plan \<Rightarrow> bool" where
  "plan_is_empty p \<longleftrightarrow> pl_changes p = []"

definition contains_irreversible_changes :: "plan \<Rightarrow> bool" where
  "contains_irreversible_changes p \<longleftrightarrow>
     pl_irreversible_effects p \<noteq> [] \<or> list_ex (\<lambda>c. pc_rollback c \<noteq> Reversible) (pl_changes p)"

record current_task =
  ct_path :: task_path
  ct_definition :: task_definition
  ct_enabled :: bool
  ct_owned :: bool
  ct_password_backed :: bool

record current_state =
  cs_tasks :: "current_task list"
  cs_folders :: "(folder_path, security_descriptor option) btree"

definition current_state_default :: current_state where
  "current_state_default = \<lparr>cs_tasks = [], cs_folders = []\<rparr>"

record plan_options =
  po_prune :: bool
  po_adopt :: bool

record apply_options =
  ao_prune :: bool
  ao_adopt :: bool
  ao_allow_irreversible :: bool
  ao_stop_running :: bool
  ao_ignore_registration_triggers :: bool

definition apply_options_default :: apply_options where
  "apply_options_default =
     \<lparr>ao_prune = False, ao_adopt = False, ao_allow_irreversible = False, ao_stop_running = False,
      ao_ignore_registration_triggers = True\<rparr>"

section \<open>Reports\<close>

datatype apply_status = ApplyFailed | ApplySucceeded

datatype apply_phase = Precondition | Stop | Mutation | Verify | Rollback

datatype step_outcome = Attempted | Succeeded | Failed | Unknown

record journal_entry =
  je_operation :: string
  je_change :: change
  je_phase :: apply_phase
  je_outcome :: step_outcome
  je_error :: "error option"

record rollback_failure =
  rf_change :: change
  rf_phase :: apply_phase
  rf_error :: error

record apply_report =
  ar_status :: apply_status
  ar_plan :: plan
  ar_applied :: "change list"
  ar_rolled_back :: "change list"
  ar_rollback_failures :: "rollback_failure list"
  ar_journal :: "journal_entry list"
  ar_unresolved :: "change list"
  ar_irreversible_effects :: "task_path list"

record apply_failure =
  af_cause :: error
  af_report :: apply_report

definition empty_apply_report :: "plan \<Rightarrow> apply_report" where
  "empty_apply_report p =
     \<lparr>ar_status = ApplyFailed, ar_plan = p, ar_applied = [], ar_rolled_back = [],
      ar_rollback_failures = [], ar_journal = [], ar_unresolved = [], ar_irreversible_effects = []\<rparr>"

definition empty_apply_failure :: "error \<Rightarrow> apply_failure" where
  "empty_apply_failure cause = \<lparr>af_cause = cause, af_report = empty_apply_report plan_default\<rparr>"

definition report_succeeded :: "apply_report \<Rightarrow> bool" where
  "report_succeeded r \<longleftrightarrow> ar_status r = ApplySucceeded
     \<and> length (ar_applied r) = length (pl_changes (ar_plan r)) \<and> ar_rolled_back r = []
     \<and> ar_rollback_failures r = [] \<and> ar_unresolved r = []"

definition rollback_complete :: "apply_report \<Rightarrow> bool" where
  "rollback_complete r \<longleftrightarrow> ar_applied r \<noteq> [] \<and> length (ar_rolled_back r) = length (ar_applied r)
     \<and> ar_rollback_failures r = [] \<and> ar_unresolved r = [] \<and> ar_irreversible_effects r = []"

definition failure_display :: "apply_failure \<Rightarrow> message" where
  "failure_display f =
     error_display (af_cause f)
     @ (if ar_rollback_failures (af_report f) \<noteq> [] then
          [Lit ''; '', Dsp (show_nat (length (ar_rollback_failures (af_report f)))),
           Lit '' rollback step(s) also failed'']
        else [])"

fun phase_name :: "apply_phase \<Rightarrow> string" where
  "phase_name Precondition = ''Precondition''"
| "phase_name Stop = ''Stop''"
| "phase_name Mutation = ''Mutation''"
| "phase_name Verify = ''Verify''"
| "phase_name Rollback = ''Rollback''"

text \<open>\<open>recovery::record\<close>: the operation is the debug text of the phase.\<close>

definition record_entry ::
  "change \<Rightarrow> apply_phase \<Rightarrow> step_outcome \<Rightarrow> error option \<Rightarrow> apply_report \<Rightarrow> apply_report" where
  "record_entry c phase outcome err r =
     r\<lparr>ar_journal := ar_journal r @
       [\<lparr>je_operation = phase_name phase, je_change = c, je_phase = phase, je_outcome = outcome,
         je_error = err\<rparr>]\<rparr>"

section \<open>Shared helpers\<close>

definition password_backed :: "logon_type \<Rightarrow> bool" where
  "password_backed l \<longleftrightarrow> l = Password \<or> l = InteractiveTokenOrPassword"

definition target_error :: "error_kind \<Rightarrow> string \<Rightarrow> string \<Rightarrow> error" where
  "target_error kind msg target = with_target target (new_error kind [Lit msg])"

definition ensure_valid_manifest :: "task_manifest \<Rightarrow> unit result" where
  "ensure_valid_manifest m =
     (let report = manifest_validate m in
      if report_is_valid report then Inr ()
      else Inl (with_validation report
        (new_error InvalidDefinition [Lit ''desired-state manifest is invalid''])))"

definition find_task :: "task_manifest \<Rightarrow> task_path \<Rightarrow> managed_task option" where
  "find_task m path = find (\<lambda>t. mg_path t = path) (tm_tasks m)"

definition find_folder :: "task_manifest \<Rightarrow> folder_path \<Rightarrow> managed_folder option" where
  "find_folder m path = find (\<lambda>f. mf_path f = path) (tm_folders m)"

definition find_managed_task :: "task_manifest \<Rightarrow> task_path \<Rightarrow> managed_task result" where
  "find_managed_task m path =
     ok_or (target_error InvalidDefinition ''planned task is absent from the manifest'' (task_str path))
       (find_task m path)"

definition desired_security :: "managed_task \<Rightarrow> security_descriptor option" where
  "desired_security t = ri_security_descriptor (td_registration (mg_definition t))"

definition owned_source :: "string \<Rightarrow> string option \<Rightarrow> string" where
  "owned_source marker src =
     (case src of
        None \<Rightarrow> marker
      | Some s \<Rightarrow> if s = marker \<or> starts_with (marker @ [CHR 0x0A]) s then s
                  else marker @ CHR 0x0A # s)"

definition owned_definition :: "(uuid \<Rightarrow> string) \<Rightarrow> task_manifest \<Rightarrow> managed_task \<Rightarrow> task_definition" where
  "owned_definition ut m t =
     (let d = mg_definition t; reg = td_registration d in
      d\<lparr>td_registration := reg
        \<lparr>ri_source := Some (owned_source (ownership_uri ut m (mg_path t)) (ri_source reg)),
         ri_uri := Some (task_str (mg_path t))\<rparr>\<rparr>)"

text \<open>\<open>definitions_semantically_equal\<close> blanks the fields that do not count on both sides.\<close>

definition semantic_part :: "task_definition \<Rightarrow> task_definition" where
  "semantic_part d =
     d\<lparr>td_registration := (td_registration d)\<lparr>ri_date := None, ri_security_descriptor := None\<rparr>,
       td_settings := (td_settings d)\<lparr>ts_enabled := True\<rparr>\<rparr>"

definition definitions_semantically_equal :: "task_definition \<Rightarrow> task_definition \<Rightarrow> bool" where
  "definitions_semantically_equal l r \<longleftrightarrow> semantic_part l = semantic_part r"

definition rollback_safety_of :: "current_task \<Rightarrow> rollback_safety" where
  "rollback_safety_of t = (if ct_password_backed t then RequiresCredential else Reversible)"

text \<open>The character loop of \<open>security_information_for_sddl\<close>: its four mutable variables, the step
  for one character (\<open>colon\<close>: the next byte is a colon) and the loop.\<close>

record sddl_state =
  ss_information :: security_information
  ss_depth :: nat
  ss_quoted :: bool
  ss_escaped :: bool

definition section_flag :: "char \<Rightarrow> security_information" where
  "section_flag c =
     (if c = CHR ''O'' then SI_OWNER else if c = CHR ''G'' then SI_GROUP
      else if c = CHR ''D'' then SI_DACL else if c = CHR ''S'' then SI_SACL else 0)"

definition sddl_step :: "char \<Rightarrow> bool \<Rightarrow> sddl_state \<Rightarrow> sddl_state" where
  "sddl_step c colon st =
     (if ss_quoted st then
        (if ss_escaped st then st\<lparr>ss_escaped := False\<rparr>
         else if c = bslash then st\<lparr>ss_escaped := True\<rparr>
         else if c = quot then st\<lparr>ss_quoted := False\<rparr>
         else st)
      else if c = quot then st\<lparr>ss_quoted := True\<rparr>
      else if c = CHR ''('' then st\<lparr>ss_depth := ss_depth st + 1\<rparr>
      else if c = CHR '')'' then st\<lparr>ss_depth := ss_depth st - 1\<rparr>
      else if ss_depth st = 0 \<and> colon then
        st\<lparr>ss_information := ss_information st OR section_flag c\<rparr>
      else st)"

fun sddl_loop :: "string \<Rightarrow> sddl_state \<Rightarrow> sddl_state" where
  "sddl_loop [] st = st"
| "sddl_loop (c # cs) st = sddl_loop cs (sddl_step c (take 1 cs = '':'') st)"

definition security_information_for_sddl :: "security_descriptor \<Rightarrow> security_information" where
  "security_information_for_sddl d =
     (let info = ss_information (sddl_loop (as_sddl d)
        \<lparr>ss_information = 0, ss_depth = 0, ss_quoted = False, ss_escaped = False\<rparr>)
      in if info = 0 then SI_DACL else info)"

end
