(* ===== verification/Plan.thy ===== *)
theory Plan
  imports Changes
begin

text \<open>
  Planning (\<open>plan_state\<close> of \<open>reconcile.rs\<close>): the folders a manifest needs, the change each desired
  task needs, folder security, pruning, and the order of application. The lemmas say which changes
  a plan contains, when planning refuses, and how the changes are ordered.
\<close>

section \<open>Required folders\<close>

lemma folder_parent_smaller:
  assumes "folder_parent f = Some g" and "g \<noteq> folder_root"
  shows "length (folder_str g) < length (folder_str f)"
proof -
  from assms obtain i where "rfind_index (\<lambda>c. c = bslash) (folder_str f) = Some i" "g = FolderPath (take i (folder_str f))"
    by (auto simp: folder_parent_def Let_def split: if_splits option.splits)
  with rfind_index_Some show ?thesis by fastforce
qed

text \<open>\<open>while let Some(folder) = cursor\<close>: up the parents until the namespace or the root.\<close>

function climb :: "folder_path \<Rightarrow> folder_path option \<Rightarrow> folder_path list \<Rightarrow> folder_path list" where
  "climb namespace None folders = folders"
| "climb namespace (Some folder) folders =
     (if folder = namespace then bset_insert folder folders
      else climb namespace (folder_parent folder) (bset_insert folder folders))"
  by pat_completeness auto

termination
proof (relation "measure (\<lambda>(n, cursor, s). case cursor of None \<Rightarrow> 0
    | Some f \<Rightarrow> if f = folder_root then 1 else length (folder_str f) + 2)", goal_cases)
  case (2 n f s)
  then show ?case
  proof (cases "folder_parent f")
    case (Some g)
    have "f \<noteq> folder_root" using Some by (auto simp: folder_parent_def)
    then show ?thesis using Some folder_parent_smaller[OF Some] by auto
  qed auto
qed simp

definition declared_folders :: "task_manifest \<Rightarrow> folder_path list" where
  "declared_folders m = map mf_path (tm_folders m) @ map (\<lambda>t. task_folder (mg_path t)) (tm_tasks m)"

definition required_folders :: "task_manifest \<Rightarrow> folder_path list" where
  "required_folders m =
     sort_key (\<lambda>f. (folder_depth f, f))
       (foldl (\<lambda>s path. climb (tm_namespace m) (Some path) s)
         (bset_insert (tm_namespace m) []) (declared_folders m))"

section \<open>The order of changes\<close>

fun change_order :: "change \<Rightarrow> nat \<times> nat \<times> string" where
  "change_order (CreateFolder p) = (0, folder_depth p, folder_str p)"
| "change_order (CreateTask p) = (1, 0, task_str p)"
| "change_order (AdoptTask p) = (2, 0, task_str p)"
| "change_order (UpdateTask p) = (3, 0, task_str p)"
| "change_order (SetEnabled p _) = (4, 0, task_str p)"
| "change_order (SetTaskSecurity p) = (5, 0, task_str p)"
| "change_order (SetFolderSecurity p) = (5, folder_depth p, folder_str p)"
| "change_order (DeleteTask p) = (6, 0, task_str p)" \<comment> \<open>\<open>Reverse(..).0\<close> is the text itself\<close>

section \<open>Planning\<close>

definition planned :: "change \<Rightarrow> rollback_safety \<Rightarrow> planned_change" where
  "planned c r = \<lparr>pc_change = c, pc_rollback = r\<rparr>"

definition security_differs :: "security_descriptor option \<Rightarrow> security_descriptor \<Rightarrow> bool" where
  "security_differs actual desired =
     (case actual of None \<Rightarrow> True | Some a \<Rightarrow> \<not> access_equivalent a desired)"

definition plan_task ::
  "(uuid \<Rightarrow> string) \<Rightarrow> task_manifest \<Rightarrow> plan_options \<Rightarrow> (task_path, current_task) btree \<Rightarrow> managed_task
     \<Rightarrow> planned_change list result" where
  "plan_task ut m opts by_path desired =
     (let d = owned_definition ut m desired; path = mg_path desired in
      case btree_get by_path path of
        None \<Rightarrow> Inr [planned (CreateTask path) Reversible]
      | Some existing \<Rightarrow>
          if \<not> ct_owned existing \<and> \<not> po_adopt opts then
            Inl (target_error Conflict ''an existing task is not owned by this manifest'' (task_str path))
          else if \<not> ct_owned existing then
            Inr [planned (AdoptTask path) (rollback_safety_of existing)]
          else if \<not> definitions_semantically_equal (ct_definition existing) d then
            Inr [planned (UpdateTask path) (rollback_safety_of existing)]
          else
            Inr ((if ct_enabled existing \<noteq> ts_enabled (td_settings d)
                  then [planned (SetEnabled path (ts_enabled (td_settings d))) Reversible] else [])
               @ (case ri_security_descriptor (td_registration d) of
                    Some s \<Rightarrow>
                      if security_differs (ri_security_descriptor (td_registration (ct_definition existing))) s
                      then [planned (SetTaskSecurity path) Reversible] else []
                  | None \<Rightarrow> [])))"

definition plan_folder_security :: "current_state \<Rightarrow> managed_folder \<Rightarrow> planned_change list" where
  "plan_folder_security cur f =
     (case mf_security_descriptor f of
        None \<Rightarrow> []
      | Some s \<Rightarrow>
          if security_differs (Option.bind (btree_get (cs_folders cur) (mf_path f)) (\<lambda>s. s)) s
          then [planned (SetFolderSecurity (mf_path f)) Reversible] else [])"

definition missing_folders :: "task_manifest \<Rightarrow> current_state \<Rightarrow> folder_path list" where
  "missing_folders m cur = filter (\<lambda>f. \<not> btree_contains (cs_folders cur) f) (required_folders m)"

definition stale_tasks :: "task_manifest \<Rightarrow> current_state \<Rightarrow> current_task list" where
  "stale_tasks m cur =
     filter (\<lambda>t. ct_owned t \<and> ct_path t \<notin> set (bset_collect (map mg_path (tm_tasks m)))) (cs_tasks cur)"

definition tasks_by_path :: "current_state \<Rightarrow> (task_path, current_task) btree" where
  "tasks_by_path cur = btree_collect (map (\<lambda>t. (ct_path t, t)) (cs_tasks cur))"

definition plan_state ::
  "(uuid \<Rightarrow> string) \<Rightarrow> task_manifest \<Rightarrow> current_state \<Rightarrow> plan_options \<Rightarrow> plan result" where
  "plan_state ut m cur opts =
     bind_ok (ensure_valid_manifest m) (\<lambda>_.
     bind_ok (map_ok (plan_task ut m opts (tasks_by_path cur)) (tm_tasks m)) (\<lambda>task_changes.
       let changes =
             map (\<lambda>f. planned (CreateFolder f) Reversible) (missing_folders m cur)
             @ concat task_changes
             @ concat (map (plan_folder_security cur) (tm_folders m))
             @ (if po_prune opts
                then map (\<lambda>t. planned (DeleteTask (ct_path t)) (rollback_safety_of t)) (stale_tasks m cur)
                else [])
       in Inr \<lparr>pl_changes = sort_key (\<lambda>c. change_order (pc_change c)) changes,
               pl_irreversible_effects = []\<rparr>))"

definition plan_snapshot ::
  "(uuid \<Rightarrow> string) \<Rightarrow> task_manifest \<Rightarrow> current_task list \<Rightarrow> bool \<Rightarrow> plan result" where
  "plan_snapshot ut m cur prune =
     plan_state ut m \<lparr>cs_tasks = cur, cs_folders = []\<rparr> \<lparr>po_prune = prune, po_adopt = False\<rparr>"

section \<open>The folder tree\<close>

definition manifest_canonical :: "task_manifest \<Rightarrow> bool" where
  "manifest_canonical m \<longleftrightarrow> folder_ok (tm_namespace m) \<and> list_all (\<lambda>f. folder_ok (mf_path f)) (tm_folders m)
     \<and> list_all (\<lambda>t. task_ok (mg_path t)) (tm_tasks m)"

lemma folder_of_inj:
  "list_all valid_component cs \<Longrightarrow> list_all valid_component ds \<Longrightarrow> folder_of cs = folder_of ds \<longleftrightarrow> cs = ds"
  by (metis components_of)

lemma list_all_prefix: "list_all P cs \<Longrightarrow> prefix ns cs \<Longrightarrow> list_all P ns"
  by (auto elim!: prefixE)

lemma set_climb:
  "list_all valid_component cs \<Longrightarrow> prefix ns cs \<Longrightarrow>
     set (climb (folder_of ns) (Some (folder_of cs)) s)
       = set s \<union> folder_of ` {ds. prefix ns ds \<and> prefix ds cs}"
proof (induction cs arbitrary: s rule: rev_induct)
  case Nil
  then show ?case by auto
next
  case (snoc c cs)
  have ns: "list_all valid_component ns" by (rule list_all_prefix[OF snoc.prems])
  show ?case
  proof (cases "cs @ [c] = ns")
    case True
    have "{ds. prefix ns ds \<and> prefix ds ns} = {ns}" by (auto intro: prefix_order.antisym)
    then show ?thesis by (simp add: True)
  next
    case False
    then have p: "prefix ns cs" using snoc.prems by (simp add: prefix_snoc)
    have "folder_of (cs @ [c]) \<noteq> folder_of ns" using False folder_of_inj[OF snoc.prems(1) ns] by simp
    moreover have "{ds. prefix ns ds \<and> prefix ds (cs @ [c])} = insert (cs @ [c]) {ds. prefix ns ds \<and> prefix ds cs}"
      using p snoc.prems(2) by (auto simp: prefix_snoc)
    ultimately show ?thesis
      using snoc.IH[of "bset_insert (folder_of (cs @ [c])) s"] snoc.prems(1) p
        folder_parent_of[OF snoc.prems(1)] by auto
  qed
qed

declare climb.simps [simp del]

lemma set_climb_fold:
  "\<forall>cs \<in> set css. list_all valid_component cs \<and> prefix ns cs \<Longrightarrow>
     set (foldl (\<lambda>s path. climb (folder_of ns) (Some path) s) s (map folder_of css))
       = set s \<union> (\<Union>cs \<in> set css. folder_of ` {ds. prefix ns ds \<and> prefix ds cs})"
  by (induction css arbitrary: s) (auto simp: set_climb)

text \<open>A task whose path is the namespace itself passes validation but has its folder outside the
  namespace; the folder properties are about the manifests without one.\<close>

definition tasks_below :: "task_manifest \<Rightarrow> bool" where
  "tasks_below m \<longleftrightarrow> list_all (\<lambda>t. task_str (mg_path t) \<noteq> folder_str (tm_namespace m)) (tm_tasks m)"

lemma folder_str_render: "folder_ok f \<Longrightarrow> f \<noteq> folder_root \<Longrightarrow> folder_str f = render (components f) \<and> components f \<noteq> []"
  using folder_of_components[of f] by (cases "components f = []") (auto simp: folder_of_def, metis folder_str.simps)

lemma task_folder_components:
  assumes "task_ok t" "folder_ok ns" "ns \<noteq> folder_root" "within_namespace (task_str t) (folder_str ns)"
    "task_str t \<noteq> folder_str ns"
  shows "folder_ok (task_folder t) \<and> prefix (components ns) (components (task_folder t))"
proof -
  obtain cs c where t: "t = TaskPath (render (cs @ [c]))" "list_all valid_component (cs @ [c])"
    using assms(1) by (auto elim: task_cases)
  note ns = folder_str_render[OF assms(2,3)]
  have p: "prefix (components ns) (cs @ [c])"
    using within_namespace_render[OF components_valid[OF assms(2)] _ t(2)] assms(4) ns t(1) by simp
  have "components ns \<noteq> cs @ [c]" using assms(5) ns t(1) by auto
  with p have "prefix (components ns) cs" by (simp add: prefix_snoc)
  then show ?thesis using task_parts_of(1)[OF t(2)] t by (simp add: folder_of_ok components_of)
qed

lemma within_namespace_iff: "within_namespace p ns \<longleftrightarrow> p = ns \<or> (\<exists>s. p = ns @ bslash # s)"
  by (auto simp: within_namespace_def strip_prefix_Some starts_with_iff split: option.splits)
    (metis strip_prefix_Some option.distinct(1))

lemma declared_in_namespace:
  assumes "manifest_ok m" "manifest_canonical m" "tasks_below m" "p \<in> set (declared_folders m)"
  shows "folder_ok p \<and> prefix (components (tm_namespace m)) (components p)"
proof -
  have ns: "folder_ok (tm_namespace m)" "tm_namespace m \<noteq> folder_root"
    using assms by (auto simp: manifest_ok_def manifest_canonical_def)
  from assms(4) consider f where "f \<in> set (tm_folders m)" "p = mf_path f"
    | t where "t \<in> set (tm_tasks m)" "p = task_folder (mg_path t)"
    by (auto simp: declared_folders_def)
  then show ?thesis
  proof cases
    case (1 f)
    then have f: "folder_ok p" "within_namespace (folder_str p) (folder_str (tm_namespace m))"
      using assms by (auto simp: manifest_ok_def manifest_canonical_def in_namespace_def list_all_iff)
    have "p \<noteq> folder_root"
    proof
      assume "p = folder_root"
      then have "[bslash] = folder_str (tm_namespace m) \<or> (\<exists>s. [bslash] = folder_str (tm_namespace m) @ bslash # s)"
        using f(2) by (simp add: within_namespace_iff folder_root_def)
      then have "folder_str (tm_namespace m) = [bslash] \<or> folder_str (tm_namespace m) = []"
        by (auto simp: Cons_eq_append_conv)
      moreover have "folder_str (tm_namespace m) \<noteq> [bslash]"
        using ns(2) by (cases "tm_namespace m") (simp add: folder_root_def)
      moreover have "folder_str (tm_namespace m) \<noteq> []"
        using folder_str_render[OF ns] by (cases "components (tm_namespace m)") auto
      ultimately show False by blast
    qed
    with f show ?thesis
      using within_namespace_render[OF components_valid[OF ns(1)] _ components_valid[OF f(1)]]
        folder_str_render[OF ns] folder_str_render[OF f(1)] by simp
  next
    case (2 t)
    then show ?thesis
      using assms ns task_folder_components[of "mg_path t" "tm_namespace m"]
      by (auto simp: manifest_ok_def manifest_canonical_def in_namespace_def list_all_iff tasks_below_def)
  qed
qed

lemma set_required_folders:
  assumes "manifest_ok m" "manifest_canonical m" "tasks_below m"
  shows "f \<in> set (required_folders m) \<longleftrightarrow>
    folder_ok f \<and> prefix (components (tm_namespace m)) (components f)
      \<and> (f = tm_namespace m \<or> (\<exists>p \<in> set (declared_folders m). prefix (components f) (components p)))"
proof -
  let ?ns = "components (tm_namespace m)"
  define css where "css = map components (declared_folders m)"
  have ns: "folder_ok (tm_namespace m)" using assms by (simp add: manifest_canonical_def)
  have decl: "folder_ok p" "prefix ?ns (components p)" if "p \<in> set (declared_folders m)" for p
    using declared_in_namespace[OF assms that] by auto
  have map: "map folder_of css = declared_folders m"
    using decl by (auto simp: css_def comp_def folder_of_components intro: map_idI)
  have "\<forall>cs \<in> set css. list_all valid_component cs \<and> prefix ?ns cs"
    using decl components_valid by (auto simp: css_def)
  from set_climb_fold[OF this, of "bset_insert (tm_namespace m) []"]
  have "set (required_folders m) = insert (tm_namespace m)
      (\<Union>p \<in> set (declared_folders m). folder_of ` {ds. prefix ?ns ds \<and> prefix ds (components p)})"
    unfolding required_folders_def set_sort map folder_of_components[OF ns] by (simp add: css_def bset_insert_def)
  moreover have "f \<in> folder_of ` {ds. prefix ?ns ds \<and> prefix ds (components p)} \<longleftrightarrow>
      folder_ok f \<and> prefix ?ns (components f) \<and> prefix (components f) (components p)"
    if "p \<in> set (declared_folders m)" for p
  proof
    assume "f \<in> folder_of ` {ds. prefix ?ns ds \<and> prefix ds (components p)}"
    then obtain ds where ds: "f = folder_of ds" "prefix ?ns ds" "prefix ds (components p)" by auto
    then have "list_all valid_component ds"
      using list_all_prefix[OF components_valid[OF decl(1)[OF that]]] by blast
    with ds show "folder_ok f \<and> prefix ?ns (components f) \<and> prefix (components f) (components p)"
      by (simp add: folder_of_ok components_of)
  next
    assume "folder_ok f \<and> prefix ?ns (components f) \<and> prefix (components f) (components p)"
    then show "f \<in> folder_of ` {ds. prefix ?ns ds \<and> prefix ds (components p)}"
      using folder_of_components[of f] by (metis (mono_tags, lifting) image_eqI mem_Collect_eq)
  qed
  ultimately show ?thesis using ns by auto
qed

lemma sorted_required_folders: "sorted (map folder_depth (required_folders m))"
proof -
  have "sorted (map (\<lambda>f. (folder_depth f, f)) (required_folders m))"
    unfolding required_folders_def by (rule sorted_sort_key)
  then show ?thesis
    by (simp add: sorted_map) (erule sorted_wrt_mono_rel[rotated], auto simp: less_eq_prod_def)
qed

section \<open>Membership in a plan\<close>

lemma ensure_valid_iff [ok_iff]: "ensure_valid_manifest m = Inr u \<longleftrightarrow> manifest_ok m"
  by (simp add: ensure_valid_manifest_def Let_def manifest_valid_iff)

definition plan_candidates ::
  "task_manifest \<Rightarrow> current_state \<Rightarrow> plan_options \<Rightarrow> planned_change list list \<Rightarrow> planned_change list" where
  "plan_candidates m cur opts tcs =
     map (\<lambda>f. planned (CreateFolder f) Reversible) (missing_folders m cur)
     @ concat tcs @ concat (map (plan_folder_security cur) (tm_folders m))
     @ (if po_prune opts
        then map (\<lambda>t. planned (DeleteTask (ct_path t)) (rollback_safety_of t)) (stale_tasks m cur) else [])"

lemma plan_state_ok:
  "plan_state ut m cur opts = Inr p \<longleftrightarrow> manifest_ok m \<and>
     (\<exists>tcs. list_all2 (\<lambda>t cs. plan_task ut m opts (tasks_by_path cur) t = Inr cs) (tm_tasks m) tcs \<and>
       p = \<lparr>pl_changes = sort_key (\<lambda>c. change_order (pc_change c)) (plan_candidates m cur opts tcs),
            pl_irreversible_effects = []\<rparr>)"
  by (auto simp: plan_state_def ok_iff Let_def map_ok_list_all2 plan_candidates_def)

text \<open>The change a planned task asks for, as a condition on the snapshot.\<close>

definition task_change :: "(uuid \<Rightarrow> string) \<Rightarrow> task_manifest \<Rightarrow> current_state \<Rightarrow> plan_options \<Rightarrow> managed_task \<Rightarrow> planned_change \<Rightarrow> bool" where
  "task_change ut m cur opts t c \<longleftrightarrow>
     (let d = owned_definition ut m t; p = mg_path t in
      case btree_get (tasks_by_path cur) p of
        None \<Rightarrow> c = planned (CreateTask p) Reversible
      | Some e \<Rightarrow>
          (\<not> ct_owned e \<and> po_adopt opts \<and> c = planned (AdoptTask p) (rollback_safety_of e)) \<or>
          (ct_owned e \<and> \<not> definitions_semantically_equal (ct_definition e) d
             \<and> c = planned (UpdateTask p) (rollback_safety_of e)) \<or>
          (ct_owned e \<and> definitions_semantically_equal (ct_definition e) d \<and>
             (ct_enabled e \<noteq> ts_enabled (td_settings d)
                \<and> c = planned (SetEnabled p (ts_enabled (td_settings d))) Reversible \<or>
              (\<exists>s. ri_security_descriptor (td_registration d) = Some s
                \<and> security_differs (ri_security_descriptor (td_registration (ct_definition e))) s
                \<and> c = planned (SetTaskSecurity p) Reversible))))"

definition conflicting :: "current_state \<Rightarrow> managed_task \<Rightarrow> bool" where
  "conflicting cur t \<longleftrightarrow>
     (case btree_get (tasks_by_path cur) (mg_path t) of None \<Rightarrow> False | Some e \<Rightarrow> \<not> ct_owned e)"

lemma plan_task_ok:
  "plan_task ut m opts (tasks_by_path cur) t = Inr cs \<Longrightarrow>
     \<not> (conflicting cur t \<and> \<not> po_adopt opts) \<and> (\<forall>c. c \<in> set cs \<longleftrightarrow> task_change ut m cur opts t c)"
  by (auto simp: plan_task_def conflicting_def task_change_def Let_def split: option.splits if_splits)

lemma plan_task_err:
  "plan_task ut m opts (tasks_by_path cur) t = Inl e \<longleftrightarrow> conflicting cur t \<and> \<not> po_adopt opts \<and>
     e = target_error Conflict ''an existing task is not owned by this manifest'' (task_str (mg_path t))"
  by (auto simp: plan_task_def conflicting_def Let_def split: option.splits if_splits)

lemma plan_changes_set:
  assumes "plan_state ut m cur opts = Inr p"
  shows "c \<in> set (pl_changes p) \<longleftrightarrow>
    (\<exists>f \<in> set (missing_folders m cur). c = planned (CreateFolder f) Reversible) \<or>
    (\<exists>t \<in> set (tm_tasks m). task_change ut m cur opts t c) \<or>
    (\<exists>f \<in> set (tm_folders m). c \<in> set (plan_folder_security cur f)) \<or>
    (po_prune opts \<and> (\<exists>t \<in> set (stale_tasks m cur). c = planned (DeleteTask (ct_path t)) (rollback_safety_of t)))"
proof -
  from assms obtain tcs where tcs: "list_all2 (\<lambda>t cs. plan_task ut m opts (tasks_by_path cur) t = Inr cs) (tm_tasks m) tcs"
    and p: "set (pl_changes p) = set (plan_candidates m cur opts tcs)"
    by (auto simp: plan_state_ok)
  have "c \<in> set (concat tcs) \<longleftrightarrow> (\<exists>t \<in> set (tm_tasks m). task_change ut m cur opts t c)"
    using tcs by (induction rule: list_all2_induct) (use plan_task_ok in auto)
  then show ?thesis by (auto simp: p plan_candidates_def)
qed

lemma btree_get_collect_in: "btree_get (btree_collect es) k = Some v \<Longrightarrow> (k, v) \<in> set es"
  by (auto simp: btree_get_collect dest: map_of_SomeD)

lemma btree_get_collect_None: "btree_get (btree_collect es) k = None \<longleftrightarrow> k \<notin> fst ` set es"
  by (simp add: btree_get_collect map_of_eq_None_iff)

lemma tasks_by_path_None: "btree_get (tasks_by_path cur) p = None \<longleftrightarrow> p \<notin> ct_path ` set (cs_tasks cur)"
  by (simp add: tasks_by_path_def btree_get_collect_None image_image)

lemma tasks_by_path_Some: "btree_get (tasks_by_path cur) p = Some e \<Longrightarrow> e \<in> set (cs_tasks cur) \<and> ct_path e = p"
  unfolding tasks_by_path_def by (drule btree_get_collect_in) auto

lemma pc_planned [simp]: "pc_change (planned c r) = c" "pc_rollback (planned c r) = r"
  by (simp_all add: planned_def)

lemma mem_missing [simp]:
  "f \<in> set (missing_folders m cur) \<longleftrightarrow> f \<in> set (required_folders m) \<and> \<not> btree_contains (cs_folders cur) f"
  by (auto simp: missing_folders_def)

lemma mem_stale [simp]:
  "t \<in> set (stale_tasks m cur) \<longleftrightarrow> t \<in> set (cs_tasks cur) \<and> ct_owned t \<and> ct_path t \<notin> mg_path ` set (tm_tasks m)"
  by (auto simp: stale_tasks_def)

lemma mem_folder_security [simp]:
  "c \<in> set (plan_folder_security cur f) \<longleftrightarrow>
     (\<exists>s. mf_security_descriptor f = Some s
        \<and> security_differs (Option.bind (btree_get (cs_folders cur) (mf_path f)) (\<lambda>s. s)) s
        \<and> c = planned (SetFolderSecurity (mf_path f)) Reversible)"
  by (cases "mf_security_descriptor f") (auto simp: plan_folder_security_def)

lemma plan_no_conflict:
  assumes "plan_state ut m cur opts = Inr p" "t \<in> set (tm_tasks m)"
  shows "\<not> (conflicting cur t \<and> \<not> po_adopt opts)"
proof -
  from assms obtain cs where "plan_task ut m opts (tasks_by_path cur) t = Inr cs"
    by (auto simp: plan_state_ok list_all2_conv_all_nth in_set_conv_nth)
  from plan_task_ok[OF this] show ?thesis by blast
qed

text \<open>Which task a planned change may touch, by kind.\<close>

definition change_permitted :: "task_manifest \<Rightarrow> current_state \<Rightarrow> plan_options \<Rightarrow> change \<Rightarrow> bool" where
  "change_permitted m cur opts c \<longleftrightarrow>
     (let desired = mg_path ` set (tm_tasks m);
          owned = (\<lambda>q. \<exists>e \<in> set (cs_tasks cur). ct_path e = q \<and> ct_owned e);
          foreign = (\<lambda>q. \<exists>e \<in> set (cs_tasks cur). ct_path e = q \<and> \<not> ct_owned e)
      in case c of
           CreateFolder f \<Rightarrow> f \<in> set (required_folders m) \<and> btree_get (cs_folders cur) f = None
         | CreateTask q \<Rightarrow> q \<in> desired \<and> q \<notin> ct_path ` set (cs_tasks cur)
         | UpdateTask q \<Rightarrow> q \<in> desired \<and> owned q
         | AdoptTask q \<Rightarrow> q \<in> desired \<and> foreign q \<and> po_adopt opts
         | DeleteTask q \<Rightarrow> q \<notin> desired \<and> owned q \<and> po_prune opts
         | SetEnabled q _ \<Rightarrow> q \<in> desired \<and> owned q
         | SetTaskSecurity q \<Rightarrow> q \<in> desired \<and> owned q
         | SetFolderSecurity f \<Rightarrow> \<exists>d \<in> set (tm_folders m). mf_path d = f \<and> mf_security_descriptor d \<noteq> None)"

lemma task_change_permitted:
  assumes "task_change ut m cur opts t c" "t \<in> set (tm_tasks m)"
  shows "change_permitted m cur opts (pc_change c)"
proof (cases "btree_get (tasks_by_path cur) (mg_path t)")
  case None
  then have "c = planned (CreateTask (mg_path t)) Reversible" "mg_path t \<notin> ct_path ` set (cs_tasks cur)"
    using assms(1) by (simp_all add: task_change_def Let_def flip: tasks_by_path_None)
  then show ?thesis using assms(2) by (simp add: change_permitted_def Let_def)
next
  case (Some e)
  then have "e \<in> set (cs_tasks cur)" "ct_path e = mg_path t" using tasks_by_path_Some by auto
  then show ?thesis
    using assms Some unfolding change_permitted_def Let_def task_change_def by fastforce
qed

lemma change_permitted_member:
  assumes "plan_state ut m cur opts = Inr p" and "c \<in> set (pl_changes p)"
  shows "change_permitted m cur opts (pc_change c)"
  using assms(2) unfolding plan_changes_set[OF assms(1)]
  by (auto simp: task_change_permitted)
    (auto simp: change_permitted_def Let_def btree_contains_def image_iff)

lemma required_parent:
  assumes "manifest_ok m" "manifest_canonical m" "tasks_below m" "f \<in> set (required_folders m)"
    "f \<noteq> tm_namespace m"
  shows "\<exists>g. folder_parent f = Some g \<and> g \<in> set (required_folders m) \<and> folder_depth f = Suc (folder_depth g)"
proof -
  let ?ns = "components (tm_namespace m)"
  from assms(4) have f: "folder_ok f" "prefix ?ns (components f)"
    "f = tm_namespace m \<or> (\<exists>p \<in> set (declared_folders m). prefix (components f) (components p))"
    unfolding set_required_folders[OF assms(1-3)] by blast+
  then obtain p where p: "p \<in> set (declared_folders m)" "prefix (components f) (components p)"
    using assms(5) by blast
  have "folder_ok (tm_namespace m)" using assms(2) by (simp add: manifest_canonical_def)
  then have "components f \<noteq> ?ns" using f(1) assms(5) folder_of_components by metis
  then obtain ds c where cs: "components f = ds @ [c]" "prefix ?ns ds"
    using f(2) by (cases "components f" rule: rev_cases) (auto simp: prefix_snoc)
  have ok: "list_all valid_component (ds @ [c])" using components_valid[OF f(1)] cs by simp
  have "prefix ds (ds @ [c])" by simp
  then have dsp: "prefix ds (components p)" using p(2) cs(1) prefix_order.trans by metis
  from ok have "folder_parent f = Some (folder_of ds)"
    using folder_parent_of[OF ok] folder_of_components[OF f(1)] cs by simp
  moreover have "folder_of ds \<in> set (required_folders m)"
    unfolding set_required_folders[OF assms(1-3)]
    using ok cs p(1) dsp by (auto simp: folder_of_ok components_of)
  moreover have "folder_depth f = Suc (folder_depth (folder_of ds))"
    using ok cs by (simp add: folder_depth_components components_of)
  ultimately show ?thesis by blast
qed

section \<open>Positions in a plan\<close>

lemma plan_sorted:
  "plan_state ut m cur opts = Inr p \<Longrightarrow> sorted (map (\<lambda>c. change_order (pc_change c)) (pl_changes p))"
  by (auto simp: plan_state_ok)

lemma earlier_position:
  assumes "sorted (map f xs)" "y \<in> set xs" "j < length xs" "f y < f (xs ! j)"
  obtains i where "i < j" "xs ! i = y"
proof -
  from assms(2) obtain i where i: "i < length xs" "xs ! i = y" by (auto simp: in_set_conv_nth)
  have "\<not> j \<le> i"
  proof
    assume "j \<le> i"
    then have "map f xs ! j \<le> map f xs ! i" using assms(1) i by (intro sorted_nth_mono) auto
    then show False using assms(3,4) i by simp
  qed
  then show thesis using that[of i] i by (simp add: not_le)
qed

section \<open>A sample manifest\<close>

definition sample_namespace :: folder_path where
  "sample_namespace = FolderPath (bslash # ''A'')"

definition sample_path :: task_path where
  "sample_path = TaskPath (bslash # ''A'' @ bslash # ''T'')"

definition sample_task :: managed_task where
  "sample_task =
     \<lparr>mg_path = sample_path, mg_definition = definition_new (Exec (exec_new ''x'')),
      mg_credentials = \<lparr>cr_connection = None, cr_registration = None\<rparr>\<rparr>"

definition sample_manifest :: task_manifest where
  "sample_manifest = (manifest_new 0 ''o'' sample_namespace)\<lparr>tm_tasks := [sample_task]\<rparr>"

definition sample_plan :: plan where
  "sample_plan =
     \<lparr>pl_changes = [planned (CreateFolder sample_namespace) Reversible, planned (CreateTask sample_path) Reversible],
      pl_irreversible_effects = []\<rparr>"

abbreviation no_uuid :: "uuid \<Rightarrow> string" where
  "no_uuid \<equiv> \<lambda>_. ''0''"

lemma sample_plan_state:
  "plan_state no_uuid sample_manifest current_state_default \<lparr>po_prune = False, po_adopt = False\<rparr> = Inr sample_plan"
  by code_simp

lemma sample_canonical: "manifest_canonical sample_manifest" "tasks_below sample_manifest"
  by code_simp+

definition sample_converged :: current_state where
  "sample_converged =
     \<lparr>cs_tasks = [\<lparr>ct_path = sample_path, ct_definition = owned_definition no_uuid sample_manifest sample_task,
        ct_enabled = True, ct_owned = True, ct_password_backed = False\<rparr>],
      cs_folders = [(sample_namespace, None)]\<rparr>"

lemma sample_converged_plan:
  "plan_state no_uuid sample_manifest sample_converged \<lparr>po_prune = True, po_adopt = False\<rparr> = Inr plan_default"
  by code_simp

text \<open>A task at the namespace's own path is accepted by validation and makes the plan create the
  namespace's parent, here the scheduler root.\<close>

lemma namespace_task_plans_parent:
  "plan_state no_uuid
     (sample_manifest\<lparr>tm_tasks := [sample_task\<lparr>mg_path := TaskPath (bslash # ''A'')\<rparr>]\<rparr>)
     \<lparr>cs_tasks = [], cs_folders = [(sample_namespace, None)]\<rparr> \<lparr>po_prune = False, po_adopt = False\<rparr>
   = Inr \<lparr>pl_changes = [planned (CreateFolder folder_root) Reversible,
        planned (CreateTask (TaskPath (bslash # ''A''))) Reversible], pl_irreversible_effects = []\<rparr>"
  by code_simp

text \<open>Deletions come in ascending path order: \<open>Reverse(path).0\<close> unwraps the reversal again.\<close>

lemma deletions_ascend:
  assumes "plan_state ut m cur opts = Inr p" "i < k" "k < length (pl_changes p)"
    "pc_change (pl_changes p ! i) = DeleteTask q" "pc_change (pl_changes p ! k) = DeleteTask r"
  shows "q \<le> r"
  using sorted_nth_mono[OF plan_sorted[OF assms(1)], of i k] assms(2-)
  by (simp add: less_eq_task_path_def)

section \<open>Properties\<close>

text \<open>C3. Ownership safety of planning: a plan only updates, enables, re-secures or deletes tasks the
  manifest owns; it creates a task only where none exists, takes over a foreign task only when
  adoption is allowed, and deletes only when pruning is allowed and the task is not desired. Folder
  changes concern required missing folders and declared folders only.\<close>

theorem plan_ownership_safe:
  assumes "plan_state ut m cur opts = Inr p" and "c \<in> set (pl_changes p)"
  shows "change_permitted m cur opts (pc_change c)"
  using assms by (rule change_permitted_member)

lemma plan_ownership_safe_witness:
  "change_permitted sample_manifest current_state_default \<lparr>po_prune = False, po_adopt = False\<rparr> (CreateTask sample_path)"
  using plan_ownership_safe[OF sample_plan_state, of "planned (CreateTask sample_path) Reversible"]
  by (simp add: sample_plan_def)

text \<open>When planning refuses: an invalid manifest is an invalid definition; otherwise planning
  fails exactly when some desired path holds a task this manifest does not own and adoption is not
  allowed, and then with a conflict.\<close>

theorem plan_refusal_exact:
  "(case plan_state ut m cur opts of
      Inr p \<Rightarrow> manifest_ok m \<and> \<not> (list_ex (conflicting cur) (tm_tasks m) \<and> \<not> po_adopt opts)
    | Inl e \<Rightarrow>
        if manifest_ok m then e_kind e = Conflict \<and> list_ex (conflicting cur) (tm_tasks m) \<and> \<not> po_adopt opts
        else e_kind e = InvalidDefinition)"
proof -
  have tasks: "(case map_ok (plan_task ut m opts (tasks_by_path cur)) ts of
      Inr tcs \<Rightarrow> \<not> (list_ex (conflicting cur) ts \<and> \<not> po_adopt opts)
    | Inl e \<Rightarrow> e_kind e = Conflict \<and> list_ex (conflicting cur) ts \<and> \<not> po_adopt opts)" for ts
  proof (induction ts)
    case (Cons t ts)
    show ?case
    proof (cases "plan_task ut m opts (tasks_by_path cur) t")
      case (Inl e)
      then have "e_kind e = Conflict" "conflicting cur t" "\<not> po_adopt opts"
        using plan_task_err[of ut m opts cur t e] by (simp_all add: target_error_def)
      then show ?thesis by (simp add: Inl)
    next
      case (Inr cs)
      then have "\<not> (conflicting cur t \<and> \<not> po_adopt opts)" using plan_task_ok[OF Inr] by blast
      then show ?thesis
        using Cons by (cases "map_ok (plan_task ut m opts (tasks_by_path cur)) ts") (auto simp: Inr)
    qed
  qed simp
  have valid: "ensure_valid_manifest m = (if manifest_ok m then Inr ()
      else Inl (with_validation (manifest_validate m)
        (new_error InvalidDefinition [Lit ''desired-state manifest is invalid''])))"
    by (simp add: ensure_valid_manifest_def Let_def manifest_valid_iff)
  show ?thesis
    using tasks[of "tm_tasks m"]
    by (cases "map_ok (plan_task ut m opts (tasks_by_path cur)) (tm_tasks m)")
      (auto simp: plan_state_def valid Let_def)
qed

definition task_converged :: "(uuid \<Rightarrow> string) \<Rightarrow> task_manifest \<Rightarrow> current_state \<Rightarrow> managed_task \<Rightarrow> bool" where
  "task_converged ut m cur t \<longleftrightarrow>
     (let d = owned_definition ut m t in
      case btree_get (tasks_by_path cur) (mg_path t) of
        None \<Rightarrow> False
      | Some e \<Rightarrow> ct_owned e \<and> definitions_semantically_equal (ct_definition e) d
          \<and> ct_enabled e = ts_enabled (td_settings d)
          \<and> (case ri_security_descriptor (td_registration d) of None \<Rightarrow> True
             | Some s \<Rightarrow> \<not> security_differs (ri_security_descriptor (td_registration (ct_definition e))) s))"

definition folder_converged :: "current_state \<Rightarrow> managed_folder \<Rightarrow> bool" where
  "folder_converged cur f \<longleftrightarrow>
     (case mf_security_descriptor f of None \<Rightarrow> True
      | Some s \<Rightarrow> \<not> security_differs (Option.bind (btree_get (cs_folders cur) (mf_path f)) (\<lambda>s. s)) s)"

text \<open>C11. An empty plan means convergence, and convergence gives an empty plan: a successful plan has
  no changes exactly when every required folder exists, every desired task exists, is owned, is
  semantically equal to its marked definition, is enabled as desired and has an equivalent access
  list, declared folder security is in place, and, when pruning, no owned task is left over.\<close>

theorem plan_empty_iff_converged:
  assumes "plan_state ut m cur opts = Inr p"
  shows "plan_is_empty p \<longleftrightarrow>
    list_all (btree_contains (cs_folders cur)) (required_folders m)
    \<and> list_all (task_converged ut m cur) (tm_tasks m)
    \<and> list_all (folder_converged cur) (tm_folders m)
    \<and> \<not> (po_prune opts \<and> stale_tasks m cur \<noteq> [])"
proof -
  have no_conflict: "\<not> (conflicting cur t \<and> \<not> po_adopt opts)" if "t \<in> set (tm_tasks m)" for t
    using plan_no_conflict[OF assms that] .
  have task: "(\<forall>c. \<not> task_change ut m cur opts t c) \<longleftrightarrow> task_converged ut m cur t"
    if "t \<in> set (tm_tasks m)" for t
    using no_conflict[OF that]
    by (cases "btree_get (tasks_by_path cur) (mg_path t)")
      (auto simp: task_change_def task_converged_def Let_def conflicting_def split: option.splits)
  have folder: "plan_folder_security cur f = [] \<longleftrightarrow> folder_converged cur f" for f
    by (auto simp: plan_folder_security_def folder_converged_def split: option.splits)
  have nil: "xs = [] \<longleftrightarrow> \<not> (\<exists>x. x \<in> set xs)" for xs :: "'a list"
    by (cases xs) auto
  have "plan_is_empty p \<longleftrightarrow> (\<forall>c. c \<notin> set (pl_changes p))"
    by (auto simp: plan_is_empty_def)
  also have "\<dots> \<longleftrightarrow> (missing_folders m cur = []) \<and> (\<forall>t \<in> set (tm_tasks m). \<forall>c. \<not> task_change ut m cur opts t c)
      \<and> (\<forall>f \<in> set (tm_folders m). plan_folder_security cur f = []) \<and> \<not> (po_prune opts \<and> stale_tasks m cur \<noteq> [])"
    unfolding plan_changes_set[OF assms] nil by blast
  finally show ?thesis
    using task folder by (auto simp: list_all_iff missing_folders_def filter_empty_conv)
qed

lemma plan_empty_iff_converged_witness:
  "list_all (task_converged no_uuid sample_manifest sample_converged) (tm_tasks sample_manifest)"
  using plan_empty_iff_converged[OF sample_converged_plan]
  by (simp add: plan_is_empty_def plan_default_def)

lemma folder_made_before:
  assumes "plan_state ut m cur opts = Inr p" and "j < length (pl_changes p)"
    and "f \<in> set (required_folders m)"
    and "change_order (CreateFolder f) < change_order (pc_change (pl_changes p ! j))"
  shows "btree_contains (cs_folders cur) f \<or> (\<exists>i < j. pc_change (pl_changes p ! i) = CreateFolder f)"
proof (cases "btree_contains (cs_folders cur) f")
  case False
  then have "planned (CreateFolder f) Reversible \<in> set (pl_changes p)"
    using assms(3) unfolding plan_changes_set[OF assms(1)] by auto
  then obtain i where "i < j" "pl_changes p ! i = planned (CreateFolder f) Reversible"
    using earlier_position[OF plan_sorted[OF assms(1)] _ assms(2), of "planned (CreateFolder f) Reversible"] assms(4)
    by auto
  then show ?thesis by auto
qed simp

lemma deletions_last:
  assumes "plan_state ut m cur opts = Inr p" and "pc_change (pl_changes p ! j) = DeleteTask q"
    and "k < length (pl_changes p)" and "j < k"
  shows "\<exists>r. pc_change (pl_changes p ! k) = DeleteTask r"
proof -
  have "change_order (pc_change (pl_changes p ! j)) \<le> change_order (pc_change (pl_changes p ! k))"
    using sorted_nth_mono[OF plan_sorted[OF assms(1)], of j k] assms(3,4) by simp
  then show ?thesis by (cases "pc_change (pl_changes p ! k)") (auto simp: assms(2) less_eq_prod_def)
qed



fun change_target :: "change \<Rightarrow> string" where
  "change_target (CreateFolder f) = folder_str f"
| "change_target (CreateTask q) = task_str q"
| "change_target (UpdateTask q) = task_str q"
| "change_target (AdoptTask q) = task_str q"
| "change_target (DeleteTask q) = task_str q"
| "change_target (SetEnabled q _) = task_str q"
| "change_target (SetTaskSecurity q) = task_str q"
| "change_target (SetFolderSecurity f) = folder_str f"

text \<open>Where a plan may leave the namespace: a task whose path is the namespace itself has its folder above it,
  and \<open>climb\<close> then goes up to the root.\<close>

lemma climb_prefixes:
  "list_all valid_component cs \<Longrightarrow>
     set (climb ns (Some (folder_of cs)) s) \<subseteq> set s \<union> folder_of ` {ds. prefix ds cs}"
proof (induction cs arbitrary: s rule: rev_induct)
  case Nil
  have "folder_parent (folder_of []) = None" by (simp add: folder_of_def folder_parent_def)
  then show ?case by (auto simp: climb.simps)
next
  case (snoc c cs)
  then have "set (climb ns (Some (folder_of cs)) (bset_insert (folder_of (cs @ [c])) s))
      \<subseteq> set (bset_insert (folder_of (cs @ [c])) s) \<union> folder_of ` {ds. prefix ds cs}"
    using snoc.IH[of "bset_insert (folder_of (cs @ [c])) s"] by (simp only: list_all_append)
  then show ?case using folder_parent_of[OF snoc.prems]
    by (auto simp: climb.simps prefix_snoc)
qed

lemma declared_beside_namespace:
  assumes "manifest_ok m" "manifest_canonical m" "p \<in> set (declared_folders m)"
  shows "folder_ok p \<and> (prefix (components (tm_namespace m)) (components p)
     \<or> strict_prefix (components p) (components (tm_namespace m)))"
proof (cases "\<exists>t \<in> set (tm_tasks m). p = task_folder (mg_path t) \<and> task_str (mg_path t) = folder_str (tm_namespace m)")
  case True
  then obtain t where t: "t \<in> set (tm_tasks m)" "p = task_folder (mg_path t)"
    "task_str (mg_path t) = folder_str (tm_namespace m)" by blast
  have ns: "folder_ok (tm_namespace m)" using assms(2) by (simp add: manifest_canonical_def)
  obtain cs c where c: "mg_path t = TaskPath (render (cs @ [c]))" "list_all valid_component (cs @ [c])"
    using assms(2) t(1) task_cases[of "mg_path t"] by (auto simp only: manifest_canonical_def list_all_iff)
  have "tm_namespace m = folder_of (cs @ [c])"
    using t(3) c(1) by (cases "tm_namespace m") (simp add: folder_of_def)
  then show ?thesis using c task_parts_of(1)[OF c(2)] t(2)
    by (simp add: folder_of_ok components_of strict_prefix_def)
next
  case False
  let ?m = "m\<lparr>tm_tasks := filter (\<lambda>t. task_str (mg_path t) \<noteq> folder_str (tm_namespace m)) (tm_tasks m)\<rparr>"
  have "p \<in> set (declared_folders ?m)" using assms(3) False by (auto simp: declared_folders_def)
  moreover have "manifest_ok ?m" "manifest_canonical ?m" "tasks_below ?m"
    using assms(1,2)
    by (auto simp: manifest_ok_def manifest_canonical_def tasks_below_def in_namespace_def list_all_iff distinct_map_filter)
  ultimately show ?thesis using declared_in_namespace[of ?m p] by simp
qed

lemma required_beside_namespace:
  assumes "manifest_ok m" "manifest_canonical m" "f \<in> set (required_folders m)"
  shows "folder_ok f \<and> (prefix (components (tm_namespace m)) (components f)
     \<or> strict_prefix (components f) (components (tm_namespace m)))"
proof -
  let ?ns = "components (tm_namespace m)"
  let ?near = "{ds. list_all valid_component ds \<and> (prefix ?ns ds \<or> strict_prefix ds ?ns)}"
  have ns: "folder_ok (tm_namespace m)" using assms(2) by (simp add: manifest_canonical_def)
  have one: "set (climb (tm_namespace m) (Some p) s) \<subseteq> set s \<union> folder_of ` ?near"
    if "p \<in> set (declared_folders m)" for p s
  proof -
    have p: "folder_ok p" "prefix ?ns (components p) \<or> strict_prefix (components p) ?ns"
      using declared_beside_namespace[OF assms(1,2) that] by auto
    note valid = components_valid[OF p(1)]
    show ?thesis
    proof (cases "prefix ?ns (components p)")
      case True
      then show ?thesis using set_climb[OF valid True, of s] list_all_prefix[OF valid]
        by (auto simp: folder_of_components ns p(1))
    next
      case False
      then have "strict_prefix ds ?ns" if "prefix ds (components p)" for ds
        using p(2) that prefix_order.le_less_trans by blast
      then show ?thesis using climb_prefixes[OF valid, of "tm_namespace m" s] list_all_prefix[OF valid]
        by (auto simp: folder_of_components p(1))
    qed
  qed
  have "set (foldl (\<lambda>s path. climb (tm_namespace m) (Some path) s) s ps) \<subseteq> set s \<union> folder_of ` ?near"
    if "set ps \<subseteq> set (declared_folders m)" for ps s
    using that by (induction ps arbitrary: s) (use one in fastforce)+
  from this[of "declared_folders m" "bset_insert (tm_namespace m) []"]
  have "f = tm_namespace m \<or> f \<in> folder_of ` ?near"
    using assms(3) by (auto simp: required_folders_def bset_insert_def)
  then show ?thesis using ns by (auto simp: folder_of_ok components_of)
qed

definition above_namespace :: "task_manifest \<Rightarrow> folder_path \<Rightarrow> bool" where
  "above_namespace m f \<longleftrightarrow> folder_ok f \<and> strict_prefix (components f) (components (tm_namespace m))"

text \<open>C5. Plans stay inside the namespace: for a canonical manifest and a snapshot of the namespace, every
  folder or task a plan touches, in any way, lies in the manifest's namespace. There is one exception: a
  manifest may hold a task whose path is the namespace itself, and its plan may then create folders above the
  namespace, but touch nothing else outside it.\<close>

theorem plan_stays_in_namespace:
  assumes "plan_state ut m cur opts = Inr p" and "manifest_canonical m"
    and "list_all (\<lambda>t. in_namespace m (task_str (ct_path t))) (cs_tasks cur)"
    and "c \<in> set (pl_changes p)"
  shows "in_namespace m (change_target (pc_change c))
    \<or> list_ex (\<lambda>t. task_str (mg_path t) = folder_str (tm_namespace m)) (tm_tasks m)
      \<and> (\<exists>f. pc_change c = CreateFolder f \<and> above_namespace m f)"
proof -
  have ok: "manifest_ok m" using assms(1) by (simp add: plan_state_ok)
  have perm: "change_permitted m cur opts (pc_change c)" by (rule change_permitted_member[OF assms(1,4)])
  have desired: "in_namespace m (task_str q)" if "q \<in> mg_path ` set (tm_tasks m)" for q
    using ok that by (auto simp: manifest_ok_def list_all_iff)
  have current: "in_namespace m (task_str q)" if "\<exists>e \<in> set (cs_tasks cur). ct_path e = q \<and> ct_owned e" for q
    using assms(3) that by (auto simp: list_all_iff)
  have ns: "folder_ok (tm_namespace m)" "tm_namespace m \<noteq> folder_root"
    using ok assms(2) by (auto simp: manifest_ok_def manifest_canonical_def)
  have within: "in_namespace m (folder_str f)" if "folder_ok f" "prefix (components (tm_namespace m)) (components f)" for f
  proof -
    have "f \<noteq> folder_root" using that folder_str_render[OF ns] by auto
    then show ?thesis
      using within_namespace_render[OF components_valid[OF ns(1)] _ components_valid[OF that(1)]] that(2)
        folder_str_render[OF ns] folder_str_render[OF that(1)] by (simp add: in_namespace_def)
  qed
  have folder: "in_namespace m (folder_str f) \<or> \<not> tasks_below m \<and> above_namespace m f"
    if "f \<in> set (required_folders m)" for f
  proof (cases "tasks_below m")
    case True
    then show ?thesis using that within unfolding set_required_folders[OF ok assms(2) True] by blast
  next
    case False
    then show ?thesis using required_beside_namespace[OF ok assms(2) that] within
      by (auto simp: above_namespace_def)
  qed
  have declared: "in_namespace m (folder_str (mf_path d))" if "d \<in> set (tm_folders m)" for d
    using ok that by (auto simp: manifest_ok_def list_all_iff)
  show ?thesis
    using perm desired current folder declared
    by (cases "pc_change c")
      (auto simp: change_permitted_def Let_def tasks_below_def list_all_iff list_ex_iff)
qed

lemma plan_stays_in_namespace_witness: "in_namespace sample_manifest (task_str sample_path)"
  using plan_stays_in_namespace[OF sample_plan_state sample_canonical(1), of "planned (CreateTask sample_path) Reversible"]
  by (simp add: sample_plan_def current_state_default_def)

end
