(* ===== verification/Backend.thy ===== *)
theory Backend
  imports Changes
begin

text \<open>
  The scheduler backend (\<open>reconcile/backend.rs\<close>) and the credential resolver, as records of
  state-passing operations over one world \<open>'w\<close>: the production backend (the COM client) is a
  parameter, the recording wrapper is defined here. The locales \<open>quiet_reads\<close> and \<open>simulation\<close> state
  what the components above rely on: that read operations leave what can be observed of the world
  alone, and that a wrapper only adds to its own part of the state.
\<close>

section \<open>Effects\<close>

text \<open>A fallible operation on the world. On an error the world it has reached is kept.\<close>

type_synonym ('w, 'a) effect = "'w \<Rightarrow> 'a result \<times> 'w"

definition done_with :: "'a \<Rightarrow> ('w, 'a) effect" where
  "done_with x = (\<lambda>w. (Inr x, w))"

definition fail_with :: "error \<Rightarrow> ('w, 'a) effect" where
  "fail_with e = (\<lambda>w. (Inl e, w))"

definition lift_result :: "'a result \<Rightarrow> ('w, 'a) effect" where
  "lift_result r = (\<lambda>w. (r, w))"

definition and_then :: "('w, 'a) effect \<Rightarrow> ('a \<Rightarrow> ('w, 'b) effect) \<Rightarrow> ('w, 'b) effect" where
  "and_then m f = (\<lambda>w. case m w of (Inl e, w') \<Rightarrow> (Inl e, w') | (Inr x, w') \<Rightarrow> f x w')"

text \<open>\<open>match\<close> on the result of an operation: both arms go on with effects.\<close>

definition on_result :: "('w, 'a) effect \<Rightarrow> (error \<Rightarrow> ('w, 'b) effect) \<Rightarrow> ('a \<Rightarrow> ('w, 'b) effect) \<Rightarrow> ('w, 'b) effect" where
  "on_result m h f = (\<lambda>w. case m w of (Inl e, w') \<Rightarrow> h e w' | (Inr x, w') \<Rightarrow> f x w')"

text \<open>\<open>items.iter().map(f).collect::<Result<Vec<_>>>()\<close> with effects.\<close>

fun collect_effects :: "('a \<Rightarrow> ('w, 'b) effect) \<Rightarrow> 'a list \<Rightarrow> ('w, 'b list) effect" where
  "collect_effects f [] = done_with []"
| "collect_effects f (x # xs) =
     and_then (f x) (\<lambda>y. and_then (collect_effects f xs) (\<lambda>ys. done_with (y # ys)))"

lemma length_collect_effects: "collect_effects f xs w = (Inr ys, w') \<Longrightarrow> length ys = length xs"
  by (induction xs arbitrary: w ys) (auto simp: and_then_def done_with_def split: prod.splits sum.splits)

named_theorems effect_defs

lemmas [effect_defs] = done_with_def fail_with_def lift_result_def and_then_def on_result_def

section \<open>Backends\<close>

record 'w backend =
  b_get_task :: "task_path \<Rightarrow> ('w, registered_task) effect"
  b_list_tasks :: "folder_path \<Rightarrow> list_options \<Rightarrow> ('w, registered_task list) effect"
  b_list_folders :: "folder_path \<Rightarrow> bool \<Rightarrow> ('w, task_folder_info list) effect"
  b_task_security :: "task_path \<Rightarrow> security_information \<Rightarrow> ('w, security_descriptor) effect"
  b_folder_security :: "folder_path \<Rightarrow> security_information \<Rightarrow> ('w, security_descriptor) effect"
  b_register :: "task_path \<Rightarrow> task_definition \<Rightarrow> registration_options \<Rightarrow> ('w, unit) effect"
  b_register_raw :: "task_path \<Rightarrow> raw_task_xml \<Rightarrow> logon_type \<Rightarrow> registration_options \<Rightarrow> ('w, unit) effect"
  b_create_folder :: "folder_path \<Rightarrow> security_descriptor option \<Rightarrow> ('w, task_folder_info) effect"
  b_delete_folder :: "folder_path \<Rightarrow> ('w, unit) effect"
  b_delete_task :: "task_path \<Rightarrow> ('w, unit) effect"
  b_set_enabled :: "task_path \<Rightarrow> bool \<Rightarrow> ('w, unit) effect"
  b_set_task_security :: "task_path \<Rightarrow> security_descriptor \<Rightarrow> security_information \<Rightarrow> ('w, unit) effect"
  b_set_folder_security :: "folder_path \<Rightarrow> security_descriptor \<Rightarrow> security_information \<Rightarrow> ('w, unit) effect"
  b_stop_all :: "task_path \<Rightarrow> ('w, unit) effect"

datatype credential_purpose = DesiredRegistration | RollbackRegistration

type_synonym 'w resolver = "task_path \<Rightarrow> string option \<Rightarrow> credential_purpose \<Rightarrow> ('w, password) effect"

text \<open>\<open>NoCredentials\<close>\<close>

definition no_credentials :: "'w resolver" where
  "no_credentials path reference purpose =
     fail_with (target_error
       (case purpose of DesiredRegistration \<Rightarrow> Authentication | RollbackRegistration \<Rightarrow> Irreversible)
       ''a registration password resolver is required'' (task_str path))"

section \<open>The recording wrapper\<close>

text \<open>\<open>Recorded\<close> runs each operation on the inner backend between two journal entries. Its world
  carries the journal (the \<open>RefCell\<close>) beside the inner world.\<close>

type_synonym 'w recorded = "'w \<times> journal_entry list"

definition recorded_op :: "change \<Rightarrow> apply_phase \<Rightarrow> string \<Rightarrow> ('w, 'a) effect \<Rightarrow> ('w recorded, 'a) effect" where
  "recorded_op c phase name op = (\<lambda>(w, journal).
     let entry = \<lparr>je_operation = name, je_change = c, je_phase = phase, je_outcome = Attempted,
                  je_error = None\<rparr>;
         journal = journal @ [entry];
         (r, w') = op w;
         entry = entry\<lparr>je_outcome := (if is_ok r then Succeeded else Unknown), je_error := err_opt r\<rparr>
     in (r, (w', journal @ [entry])))"

definition recorded_backend :: "change \<Rightarrow> apply_phase \<Rightarrow> 'w backend \<Rightarrow> 'w recorded backend" where
  "recorded_backend c phase b =
     \<lparr>b_get_task = \<lambda>p. recorded_op c phase ''get_task'' (b_get_task b p),
      b_list_tasks = \<lambda>p o1. recorded_op c phase ''list_tasks'' (b_list_tasks b p o1),
      b_list_folders = \<lambda>p r. recorded_op c phase ''list_folders'' (b_list_folders b p r),
      b_task_security = \<lambda>p i. recorded_op c phase ''task_security'' (b_task_security b p i),
      b_folder_security = \<lambda>p i. recorded_op c phase ''folder_security'' (b_folder_security b p i),
      b_register = \<lambda>p d o1. recorded_op c phase ''register'' (b_register b p d o1),
      b_register_raw = \<lambda>p x l o1. recorded_op c phase ''register_raw'' (b_register_raw b p x l o1),
      b_create_folder = \<lambda>p s. recorded_op c phase ''create_folder'' (b_create_folder b p s),
      b_delete_folder = \<lambda>p. recorded_op c phase ''delete_folder'' (b_delete_folder b p),
      b_delete_task = \<lambda>p. recorded_op c phase ''delete_task'' (b_delete_task b p),
      b_set_enabled = \<lambda>p e. recorded_op c phase ''set_enabled'' (b_set_enabled b p e),
      b_set_task_security = \<lambda>p d i. recorded_op c phase ''set_task_security'' (b_set_task_security b p d i),
      b_set_folder_security = \<lambda>p d i. recorded_op c phase ''set_folder_security'' (b_set_folder_security b p d i),
      b_stop_all = \<lambda>p. recorded_op c phase ''stop_all'' (b_stop_all b p)\<rparr>"

text \<open>Running with an empty journal and handing its entries over afterwards.\<close>

definition with_journal ::
  "('w recorded \<Rightarrow> 'a \<times> 'w recorded) \<Rightarrow> 'w \<Rightarrow> 'a \<times> journal_entry list \<times> 'w" where
  "with_journal run w = (case run (w, []) of (r, (w', journal)) \<Rightarrow> (r, journal, w'))"

section \<open>What can be relied on\<close>

text \<open>An effect is quiet for a view of the world when it never changes the view.\<close>

definition quiet :: "('w \<Rightarrow> 's) \<Rightarrow> ('w, 'a) effect \<Rightarrow> bool" where
  "quiet view m \<longleftrightarrow> (\<forall>w. view (snd (m w)) = view w)"

lemma quiet_done [intro, simp]: "quiet view (done_with x)"
  by (simp add: quiet_def done_with_def)

lemma quiet_fail [intro, simp]: "quiet view (fail_with e)"
  by (simp add: quiet_def fail_with_def)

lemma quiet_lift [intro, simp]: "quiet view (lift_result r)"
  by (simp add: quiet_def lift_result_def)

lemma quiet_and_then [intro]: "quiet view m \<Longrightarrow> (\<And>x. quiet view (f x)) \<Longrightarrow> quiet view (and_then m f)"
  by (auto simp: quiet_def and_then_def split: prod.splits sum.splits) (metis snd_conv)+

lemma quiet_on_result [intro]:
  "quiet view m \<Longrightarrow> (\<And>e. quiet view (h e)) \<Longrightarrow> (\<And>x. quiet view (f x)) \<Longrightarrow> quiet view (on_result m h f)"
  by (auto simp: quiet_def on_result_def split: prod.splits sum.splits) (metis snd_conv)+

lemma quiet_collect [intro]: "(\<And>x. quiet view (f x)) \<Longrightarrow> quiet view (collect_effects f xs)"
  by (induction xs) auto

lemma quietD: "quiet view m \<Longrightarrow> m w = (r, w') \<Longrightarrow> view w' = view w"
  unfolding quiet_def by (metis snd_conv)

locale quiet_reads =
  fixes b :: "'w backend" and view :: "'w \<Rightarrow> 's"
  assumes quiet_get_task: "quiet view (b_get_task b p)"
    and quiet_list_tasks: "quiet view (b_list_tasks b f opts)"
    and quiet_list_folders: "quiet view (b_list_folders b f r)"
    and quiet_task_security: "quiet view (b_task_security b p i)"
    and quiet_folder_security: "quiet view (b_folder_security b f i)"

lemma quiet_recorded_op:
  "quiet view op \<Longrightarrow> quiet (\<lambda>s. view (fst s)) (recorded_op c phase name op)"
  by (auto simp: quiet_def recorded_op_def Let_def split: prod.splits) (metis snd_conv)

text \<open>Recording keeps reads quiet.\<close>

context quiet_reads
begin

lemma quiet_reads_recorded: "quiet_reads (recorded_backend c phase b) (\<lambda>s. view (fst s))"
  by unfold_locales
    (auto simp: recorded_backend_def intro!: quiet_recorded_op quiet_get_task quiet_list_tasks
      quiet_list_folders quiet_task_security quiet_folder_security)

end

section \<open>Recording is transparent\<close>

text \<open>An effect on the recorded world is transparent for an effect on the inner world when it gives
  the same result and inner world and only appends to the journal.\<close>

definition transparent :: "('w recorded, 'a) effect \<Rightarrow> ('w, 'a) effect \<Rightarrow> bool" where
  "transparent m n \<longleftrightarrow> (\<forall>w j. fst (m (w, j)) = fst (n w) \<and> fst (snd (m (w, j))) = snd (n w)
     \<and> (\<exists>js. snd (snd (m (w, j))) = j @ js \<and> (\<forall>j'. snd (snd (m (w, j'))) = j' @ js)))"

lemma transparent_recorded_op [intro, simp]: "transparent (recorded_op c phase name op) op"
  by (auto simp: transparent_def recorded_op_def Let_def split: prod.splits)

lemma transparent_done [intro, simp]: "transparent (done_with x) (done_with x)"
  by (simp add: transparent_def done_with_def)

lemma transparent_fail [intro, simp]: "transparent (fail_with e) (fail_with e)"
  by (simp add: transparent_def fail_with_def)

lemma transparent_lift [intro, simp]: "transparent (lift_result r) (lift_result r)"
  by (simp add: transparent_def lift_result_def)

lemma transparentE:
  assumes "transparent m n" "n w = (r, w')"
  obtains js where "\<And>j. m (w, j) = (r, (w', j @ js))"
proof -
  from assms obtain js where "\<forall>j'. snd (snd (m (w, j'))) = j' @ js"
    unfolding transparent_def by blast
  moreover have "fst (m (w, j)) = r \<and> fst (snd (m (w, j))) = w'" for j
    using assms by (auto simp: transparent_def)
  ultimately show thesis using that by (metis prod.collapse)
qed

lemma transparentI:
  assumes "\<And>w r w'. n w = (r, w') \<Longrightarrow> \<exists>js. \<forall>j. m (w, j) = (r, (w', j @ js))"
  shows "transparent m n"
  unfolding transparent_def
proof (intro allI)
  fix w j
  obtain r w' where "n w = (r, w')" by fastforce
  then obtain js where "\<forall>j. m (w, j) = (r, (w', j @ js))" using assms by blast
  then show "fst (m (w, j)) = fst (n w) \<and> fst (snd (m (w, j))) = snd (n w)
     \<and> (\<exists>js. snd (snd (m (w, j))) = j @ js \<and> (\<forall>j'. snd (snd (m (w, j'))) = j' @ js))"
    using \<open>n w = (r, w')\<close> by auto
qed

lemma transparent_and_then [intro]:
  assumes "transparent m n" "\<And>x. transparent (f x) (g x)"
  shows "transparent (and_then m f) (and_then n g)"
proof (rule transparentI)
  fix w r w'
  assume r: "and_then n g w = (r, w')"
  obtain q v where n: "n w = (q, v)" by fastforce
  then obtain js where m: "\<And>j. m (w, j) = (q, (v, j @ js))" using transparentE[OF assms(1)] by blast
  show "\<exists>js. \<forall>j. and_then m f (w, j) = (r, (w', j @ js))"
  proof (cases q)
    case (Inl e)
    then show ?thesis using r n m by (auto simp: and_then_def)
  next
    case (Inr x)
    then have "g x v = (r, w')" using r n by (simp add: and_then_def)
    then obtain ks where "\<And>j. f x (v, j) = (r, (w', j @ ks))" using transparentE[OF assms(2)] by blast
    then show ?thesis using m Inr by (auto simp: and_then_def)
  qed
qed

text \<open>The contract of a wrapper: each of its operations simulates the inner one.\<close>

locale simulation =
  fixes outer :: "'w recorded backend" and inner :: "'w backend"
  assumes sim_get_task: "transparent (b_get_task outer p) (b_get_task inner p)"
    and sim_list_tasks: "transparent (b_list_tasks outer f lo) (b_list_tasks inner f lo)"
    and sim_list_folders: "transparent (b_list_folders outer f rec) (b_list_folders inner f rec)"
    and sim_task_security: "transparent (b_task_security outer p i) (b_task_security inner p i)"
    and sim_folder_security: "transparent (b_folder_security outer f i) (b_folder_security inner f i)"
    and sim_register: "transparent (b_register outer p d ro) (b_register inner p d ro)"
    and sim_register_raw: "transparent (b_register_raw outer p x l ro) (b_register_raw inner p x l ro)"
    and sim_create_folder: "transparent (b_create_folder outer f s) (b_create_folder inner f s)"
    and sim_delete_folder: "transparent (b_delete_folder outer f) (b_delete_folder inner f)"
    and sim_delete_task: "transparent (b_delete_task outer p) (b_delete_task inner p)"
    and sim_set_enabled: "transparent (b_set_enabled outer p en) (b_set_enabled inner p en)"
    and sim_set_task_security: "transparent (b_set_task_security outer p sd i) (b_set_task_security inner p sd i)"
    and sim_set_folder_security: "transparent (b_set_folder_security outer f sd i) (b_set_folder_security inner f sd i)"
    and sim_stop_all: "transparent (b_stop_all outer p) (b_stop_all inner p)"

interpretation recorded: simulation "recorded_backend c phase b" b for c phase b
  by unfold_locales (simp_all add: recorded_backend_def)

end
