(* ===== verification/Observe.thy ===== *)
theory Observe
  imports Plan Backend
begin

text \<open>
  Looking at the live scheduler: the inspection of the managed namespace (\<open>inspect_backend\<close> of
  \<open>reconcile.rs\<close>) and the observation of one change's target with the tests on it
  (\<open>reconcile/recovery.rs\<close>, first part).
\<close>

section \<open>Inspection\<close>

definition owned_by :: "string \<Rightarrow> registration_info \<Rightarrow> bool" where
  "owned_by expected_uri reg \<longleftrightarrow>
     ri_uri reg = Some expected_uri \<or>
     (case ri_source reg of
        None \<Rightarrow> False
      | Some src \<Rightarrow> src = expected_uri \<or>
          (case strip_prefix expected_uri src of Some rest \<Rightarrow> starts_with [CHR 0x0A] rest | None \<Rightarrow> False))"

fun inspect_folder_security ::
  "'w backend \<Rightarrow> managed_folder list \<Rightarrow> (folder_path, security_descriptor option) btree
     \<Rightarrow> ('w, (folder_path, security_descriptor option) btree) effect" where
  "inspect_folder_security b [] folders = done_with folders"
| "inspect_folder_security b (desired # ds) folders =
     (if btree_contains folders (mf_path desired) then
        (case mf_security_descriptor desired of
           Some expected \<Rightarrow>
             and_then (b_folder_security b (mf_path desired) (security_information_for_sddl expected)) (\<lambda>d.
               inspect_folder_security b ds (btree_insert (mf_path desired) (Some d) folders))
         | None \<Rightarrow> inspect_folder_security b ds folders)
      else inspect_folder_security b ds folders)"

definition inspect_task ::
  "(uuid \<Rightarrow> string) \<Rightarrow> 'w backend \<Rightarrow> task_manifest \<Rightarrow> registered_task \<Rightarrow> ('w, current_task) effect" where
  "inspect_task ut b m task =
     and_then (lift_result (snap_typed (rg_snapshot task))) (\<lambda>d.
     and_then
       (case Option.bind (find_task m (rg_path task)) desired_security of
          Some expected \<Rightarrow>
            and_then (b_task_security b (rg_path task) (security_information_for_sddl expected)) (\<lambda>s.
              done_with (d\<lparr>td_registration := (td_registration d)\<lparr>ri_security_descriptor := Some s\<rparr>\<rparr>))
        | None \<Rightarrow> done_with d)
       (\<lambda>d. done_with
          \<lparr>ct_path = rg_path task, ct_definition = d, ct_enabled = rg_enabled task,
           ct_owned = owned_by (ownership_uri ut m (rg_path task)) (td_registration d),
           ct_password_backed = password_backed (pr_logon_type (td_principal d))\<rparr>))"

definition inspect_backend ::
  "(uuid \<Rightarrow> string) \<Rightarrow> 'w backend \<Rightarrow> task_manifest \<Rightarrow> ('w, current_state) effect" where
  "inspect_backend ut b m =
     and_then (lift_result (ensure_valid_manifest m)) (\<lambda>_.
     on_result (b_list_tasks b (tm_namespace m) \<lparr>lo_recursive = True, lo_include_hidden = True\<rparr>)
       (\<lambda>e. if e_kind e = NotFound then done_with current_state_default else fail_with e)
       (\<lambda>registered.
          and_then (b_list_folders b (tm_namespace m) True) (\<lambda>listed.
          and_then
            (inspect_folder_security b (tm_folders m)
              (foldl (\<lambda>folders f. btree_insert (fo_path f) (fo_security_descriptor f) folders)
                (btree_insert (tm_namespace m) None []) listed))
            (\<lambda>folders.
          and_then (collect_effects (inspect_task ut b m) registered) (\<lambda>tasks.
            done_with \<lparr>cs_tasks = sort_key ct_path tasks, cs_folders = folders\<rparr>)))))"

section \<open>Observations\<close>

datatype observed =
    Missing
  | ObservedTask task_definition bool "security_descriptor option"
  | ObservedFolder "security_descriptor option"

fun security_equal :: "security_descriptor option \<Rightarrow> security_descriptor option \<Rightarrow> bool" where
  "security_equal (Some l) (Some r) = access_equivalent l r"
| "security_equal None None = True"
| "security_equal _ _ = False"

fun observed_eq :: "observed \<Rightarrow> observed \<Rightarrow> bool" where
  "observed_eq Missing Missing = True"
| "observed_eq (ObservedFolder l) (ObservedFolder r) = security_equal l r"
| "observed_eq (ObservedTask l le ls) (ObservedTask r re rs) = (l = r \<and> le = re \<and> security_equal ls rs)"
| "observed_eq _ _ = False"

fun task_path_of :: "change \<Rightarrow> task_path option" where
  "task_path_of (CreateTask p) = Some p"
| "task_path_of (UpdateTask p) = Some p"
| "task_path_of (AdoptTask p) = Some p"
| "task_path_of (DeleteTask p) = Some p"
| "task_path_of (SetEnabled p _) = Some p"
| "task_path_of (SetTaskSecurity p) = Some p"
| "task_path_of (CreateFolder _) = None"
| "task_path_of (SetFolderSecurity _) = None"

fun folder_path_of :: "change \<Rightarrow> folder_path option" where
  "folder_path_of (CreateFolder f) = Some f"
| "folder_path_of (SetFolderSecurity f) = Some f"
| "folder_path_of _ = None"

definition same_target :: "change \<Rightarrow> change \<Rightarrow> bool" where
  "same_target l r =
     (case (task_path_of l, task_path_of r) of
        (Some p, Some q) \<Rightarrow> p = q
      | (None, None) \<Rightarrow> folder_path_of l = folder_path_of r
      | _ \<Rightarrow> False)"

text \<open>\<open>recovery::information\<close>; every change has exactly one of the two kinds of target, so the
  \<open>unreachable!\<close> arm is \<^const>\<open>None\<close> in the second \<open>case\<close>.\<close>

definition information :: "task_manifest \<Rightarrow> change \<Rightarrow> security_information" where
  "information m c =
     (let descriptor =
            (case task_path_of c of
               Some p \<Rightarrow> Option.bind (find_task m p) desired_security
             | None \<Rightarrow>
                 (case folder_path_of c of
                    Some f \<Rightarrow> Option.bind (find_folder m f) mf_security_descriptor
                  | None \<Rightarrow> None));
          base = SI_OWNER OR SI_GROUP OR SI_DACL
      in case descriptor of None \<Rightarrow> base | Some d \<Rightarrow> base OR security_information_for_sddl d)"

definition observe_task ::
  "'w backend \<Rightarrow> task_path \<Rightarrow> security_information \<Rightarrow> bool \<Rightarrow> ('w, observed) effect" where
  "observe_task b path info allow_irreversible =
     on_result (b_get_task b path)
       (\<lambda>e. if e_kind e = NotFound then done_with Missing else fail_with e)
       (\<lambda>task.
          and_then (lift_result (snap_typed (rg_snapshot task))) (\<lambda>d.
            let d' = d\<lparr>td_registration := (td_registration d)\<lparr>ri_date := None, ri_security_descriptor := None\<rparr>\<rparr>
            in on_result (b_task_security b path info)
                 (\<lambda>e. if allow_irreversible then done_with (ObservedTask d' (rg_enabled task) None)
                      else fail_with e)
                 (\<lambda>s. done_with (ObservedTask d' (rg_enabled task) (Some s)))))"

definition observe_folder ::
  "'w backend \<Rightarrow> folder_path \<Rightarrow> security_information \<Rightarrow> bool \<Rightarrow> ('w, observed) effect" where
  "observe_folder b path info allow_irreversible =
     on_result (b_folder_security b path info)
       (\<lambda>e. if e_kind e = NotFound then done_with Missing
            else if allow_irreversible then
              and_then (b_list_folders b path False) (\<lambda>_. done_with (ObservedFolder None))
            else fail_with e)
       (\<lambda>s. done_with (ObservedFolder (Some s)))"

definition observe :: "'w backend \<Rightarrow> task_manifest \<Rightarrow> change \<Rightarrow> bool \<Rightarrow> ('w, observed) effect" where
  "observe b m c allow_irreversible =
     (case task_path_of c of
        Some path \<Rightarrow> observe_task b path (information m c) allow_irreversible
      | None \<Rightarrow>
          (case folder_path_of c of
             Some path \<Rightarrow> observe_folder b path (information m c) allow_irreversible
           | None \<Rightarrow> done_with Missing))"

definition show_bool :: "bool \<Rightarrow> string" where
  "show_bool b = (if b then ''true'' else ''false'')"

fun registered_target :: "change \<Rightarrow> task_path option" where
  "registered_target (CreateTask p) = Some p"
| "registered_target (UpdateTask p) = Some p"
| "registered_target (AdoptTask p) = Some p"
| "registered_target _ = None"

definition verification_conflict :: "task_manifest \<Rightarrow> change \<Rightarrow> observed \<Rightarrow> error" where
  "verification_conflict m c after =
     (let e = new_error Conflict
                [Lit ''post-mutation state cannot safely be attributed to this apply'']
      in case (registered_target c, after) of
           (Some path, ObservedTask d _ _) \<Rightarrow>
             (case find_managed_task m path of
                Inr t \<Rightarrow>
                  let expected = ts_use_unified_scheduling_engine (td_settings (mg_definition t));
                      actual = ts_use_unified_scheduling_engine (td_settings d)
                  in if expected \<noteq> actual then
                       with_context ''observed'' (show_bool actual)
                         (with_context ''expected'' (show_bool expected)
                           (with_context ''field'' ''settings.use_unified_scheduling_engine'' e))
                     else e
              | Inl _ \<Rightarrow> e)
         | _ \<Rightarrow> e)"

text \<open>A test on the live state: a boolean result, and the world after the reads it needs. \<open>&&\<close> and
  \<open>is_none_or\<close> read only when they must.\<close>

type_synonym 'w check = "'w \<Rightarrow> bool \<times> 'w"

definition answer :: "bool \<Rightarrow> 'w check" where
  "answer v = (\<lambda>w. (v, w))"

definition and_check :: "bool \<Rightarrow> 'w check \<Rightarrow> 'w check" where
  "and_check v k = (\<lambda>w. if v then k w else (False, w))"

definition reads_equivalent :: "('w, security_descriptor) effect \<Rightarrow> security_descriptor \<Rightarrow> 'w check" where
  "reads_equivalent read desired = (\<lambda>w.
     case read w of (Inr actual, w') \<Rightarrow> (access_equivalent actual desired, w') | (Inl _, w') \<Rightarrow> (False, w'))"

definition task_security_matches :: "'w backend \<Rightarrow> task_path \<Rightarrow> security_descriptor \<Rightarrow> 'w check" where
  "task_security_matches b path desired =
     reads_equivalent (b_task_security b path (security_information_for_sddl desired)) desired"

definition expected_after ::
  "(uuid \<Rightarrow> string) \<Rightarrow> 'w backend \<Rightarrow> observed \<Rightarrow> observed \<Rightarrow> task_manifest \<Rightarrow> change \<Rightarrow> 'w check" where
  "expected_after ut b before after m c =
     (case after of
        ObservedTask d enabled security \<Rightarrow>
          (case c of
             SetEnabled _ target \<Rightarrow>
               (case before of
                  ObservedTask old _ old_security \<Rightarrow>
                    answer (definitions_semantically_equal old d \<and> security = old_security \<and> target = enabled)
                | _ \<Rightarrow> answer False)
           | SetTaskSecurity path \<Rightarrow>
               (case before of
                  ObservedTask old old_enabled _ \<Rightarrow>
                    and_check (definitions_semantically_equal old d \<and> enabled = old_enabled)
                      (case find_managed_task m path of
                         Inr t \<Rightarrow> (case desired_security t of
                             Some desired \<Rightarrow> task_security_matches b path desired
                           | None \<Rightarrow> answer False)
                       | Inl _ \<Rightarrow> answer False)
                | _ \<Rightarrow> answer False)
           | _ \<Rightarrow>
               (case registered_target c of
                  Some path \<Rightarrow>
                    (case find_managed_task m path of
                       Inr t \<Rightarrow>
                         let expected = owned_definition ut m t in
                         and_check
                           (definitions_semantically_equal d expected
                              \<and> enabled = ts_enabled (td_settings expected))
                           (case ri_security_descriptor (td_registration expected) of
                              Some desired \<Rightarrow> task_security_matches b path desired
                            | None \<Rightarrow> answer True)
                     | Inl _ \<Rightarrow> answer False)
                | None \<Rightarrow> answer False))
      | ObservedFolder _ \<Rightarrow>
          (case c of
             CreateFolder _ \<Rightarrow> answer True
           | SetFolderSecurity path \<Rightarrow>
               (case Option.bind (find_folder m path) mf_security_descriptor of
                  Some desired \<Rightarrow>
                    reads_equivalent (b_folder_security b path (security_information_for_sddl desired)) desired
                | None \<Rightarrow> answer False)
           | _ \<Rightarrow> answer False)
      | Missing \<Rightarrow> (case c of DeleteTask _ \<Rightarrow> answer True | _ \<Rightarrow> answer False))"

definition agrees_with_inspection :: "current_state \<Rightarrow> change \<Rightarrow> observed \<Rightarrow> bool" where
  "agrees_with_inspection st c obs =
     (case task_path_of c of
        Some path \<Rightarrow>
          (case (find (\<lambda>t. ct_path t = path) (cs_tasks st), obs) of
             (None, Missing) \<Rightarrow> True
           | (Some old, ObservedTask d enabled _) \<Rightarrow>
               definitions_semantically_equal (ct_definition old) d \<and> ct_enabled old = enabled
           | _ \<Rightarrow> False)
      | None \<Rightarrow>
          (case folder_path_of c of
             Some path \<Rightarrow>
               btree_contains (cs_folders st) path = (case obs of ObservedFolder _ \<Rightarrow> True | _ \<Rightarrow> False)
           | None \<Rightarrow> False))"

lemma change_target_total: "task_path_of c = None \<longleftrightarrow> folder_path_of c \<noteq> None"
  by (cases c) auto

section \<open>Reads are quiet\<close>

context quiet_reads
begin

lemma quiet_inspect_folder_security: "quiet view (inspect_folder_security b ds folders)"
proof (induction ds arbitrary: folders)
  case (Cons d ds)
  then show ?case
    by (cases "mf_security_descriptor d") (auto intro!: quiet_and_then quiet_folder_security)
qed simp

lemma quiet_inspect_task: "quiet view (inspect_task ut b m t)"
  unfolding inspect_task_def by (auto split: option.splits intro!: quiet_task_security quiet_and_then)

lemma quiet_inspect: "quiet view (inspect_backend ut b m)"
  unfolding inspect_backend_def
  by (auto intro!: quiet_and_then quiet_on_result quiet_list_tasks quiet_list_folders
      quiet_inspect_folder_security quiet_inspect_task quiet_collect)

lemma quiet_observe: "quiet view (observe b m c allow)"
  unfolding observe_def observe_task_def observe_folder_def Let_def
  by (auto split: option.splits intro!: quiet_and_then quiet_on_result quiet_get_task
      quiet_task_security quiet_folder_security quiet_list_folders)

end

end
