(* ===== verification/Execute.thy ===== *)
theory Execute
  imports Observe
begin

text \<open>
  Preparing, executing and compensating one change (\<open>prepare\<close>, \<open>prepare_task_backup\<close>,
  \<open>execute_change\<close> and \<open>compensate_change\<close> of \<open>reconcile.rs\<close>): the snapshots and passwords that
  preflight collects, the calls a change makes, and the calls that undo it. The lemmas say that
  preflight leaves nothing missing that compensation would need, and that recording is transparent.
\<close>

section \<open>Prepared state\<close>

record security_snapshot =
  sn_descriptor :: security_descriptor
  sn_information :: security_information

record task_backup =
  tb_raw :: raw_task_xml
  tb_logon_type :: logon_type
  tb_enabled :: bool
  tb_security :: "security_snapshot option"
  tb_password :: "password option"

record prepared_apply =
  pr_task_backups :: "(task_path, task_backup) btree"
  pr_enabled_backups :: "(task_path, bool) btree"
  pr_task_security :: "(task_path, security_snapshot) btree"
  pr_folder_security :: "(folder_path, security_snapshot) btree"
  pr_desired_passwords :: "(task_path, password) btree"
  pr_created_folders :: "folder_path list"

fun created_folder :: "change \<Rightarrow> folder_path option" where
  "created_folder (CreateFolder p) = Some p"
| "created_folder _ = None"

definition prepared_empty :: "plan \<Rightarrow> prepared_apply" where
  "prepared_empty p =
     \<lparr>pr_task_backups = [], pr_enabled_backups = [], pr_task_security = [], pr_folder_security = [],
      pr_desired_passwords = [],
      pr_created_folders = bset_collect (List.map_filter (\<lambda>c. created_folder (pc_change c)) (pl_changes p))\<rparr>"

section \<open>Preflight\<close>

text \<open>\<open>Ok(x) => Some(f x), Err(_) if allow_irreversible => None, Err(e) => return Err(e)\<close>\<close>

definition unless_allowed :: "bool \<Rightarrow> ('w, 'a) effect \<Rightarrow> ('w, 'a option) effect" where
  "unless_allowed allow_irreversible m =
     on_result m (\<lambda>e. if allow_irreversible then done_with None else fail_with e) (\<lambda>x. done_with (Some x))"

definition prepare_task_backup ::
  "'w backend \<Rightarrow> task_manifest \<Rightarrow> task_path \<Rightarrow> bool \<Rightarrow> 'w resolver \<Rightarrow> security_information
     \<Rightarrow> prepared_apply \<Rightarrow> ('w, prepared_apply) effect" where
  "prepare_task_backup b m path allow_irreversible resolve info prep =
     (if btree_contains (pr_task_backups prep) path then done_with prep
      else
        and_then (b_get_task b path) (\<lambda>task.
        and_then (lift_result (snap_typed (rg_snapshot task))) (\<lambda>d.
          let logon = pr_logon_type (td_principal d);
              reference = Option.bind (find_task m path) (\<lambda>t. cr_registration (mg_credentials t))
          in
        and_then
          (if password_backed logon then
             unless_allowed allow_irreversible (resolve path reference RollbackRegistration)
           else done_with None) (\<lambda>password.
        and_then (unless_allowed allow_irreversible (b_task_security b path info)) (\<lambda>security.
          done_with (prep\<lparr>pr_task_backups := btree_insert path
            \<lparr>tb_raw = snap_raw (rg_snapshot task), tb_logon_type = logon, tb_enabled = rg_enabled task,
             tb_security = map_option (\<lambda>d. \<lparr>sn_descriptor = d, sn_information = info\<rparr>) security,
             tb_password = password\<rparr> (pr_task_backups prep)\<rparr>))))))"

text \<open>The body of the loop of \<open>prepare\<close>, one change. Registering changes first resolve the password
  the desired definition needs.\<close>

definition prepare_registration ::
  "'w backend \<Rightarrow> task_manifest \<Rightarrow> bool \<Rightarrow> 'w resolver \<Rightarrow> task_path \<Rightarrow> prepared_apply \<Rightarrow> ('w, prepared_apply) effect" where
  "prepare_registration b m allow_irreversible resolve path prep =
     and_then (lift_result (find_managed_task m path)) (\<lambda>desired.
       if password_backed (pr_logon_type (td_principal (mg_definition desired))) then
         and_then (resolve path (cr_registration (mg_credentials desired)) DesiredRegistration) (\<lambda>password.
           done_with (prep\<lparr>pr_desired_passwords := btree_insert path password (pr_desired_passwords prep)\<rparr>))
       else done_with prep)"

definition task_descriptor :: "task_manifest \<Rightarrow> task_path \<Rightarrow> security_descriptor result" where
  "task_descriptor m path =
     bind_ok (find_managed_task m path) (\<lambda>desired.
       ok_or (target_error InvalidDefinition ''planned task security has no desired descriptor'' (task_str path))
         (desired_security desired))"

definition folder_descriptor :: "task_manifest \<Rightarrow> folder_path \<Rightarrow> security_descriptor result" where
  "folder_descriptor m path =
     ok_or (target_error InvalidDefinition ''planned folder security has no desired descriptor'' (folder_str path))
       (Option.bind (find_folder m path) mf_security_descriptor)"

fun prepare_change ::
  "'w backend \<Rightarrow> task_manifest \<Rightarrow> bool \<Rightarrow> 'w resolver \<Rightarrow> change \<Rightarrow> prepared_apply \<Rightarrow> ('w, prepared_apply) effect" where
  "prepare_change b m allow resolve (CreateTask path) prep = prepare_registration b m allow resolve path prep"
| "prepare_change b m allow resolve (UpdateTask path) prep =
     and_then (prepare_registration b m allow resolve path prep) (\<lambda>prep.
       prepare_task_backup b m path allow resolve (information m (UpdateTask path)) prep)"
| "prepare_change b m allow resolve (AdoptTask path) prep =
     and_then (prepare_registration b m allow resolve path prep) (\<lambda>prep.
       prepare_task_backup b m path allow resolve (information m (AdoptTask path)) prep)"
| "prepare_change b m allow resolve (DeleteTask path) prep =
     prepare_task_backup b m path allow resolve (information m (DeleteTask path)) prep"
| "prepare_change b m allow resolve (SetEnabled path _) prep =
     (if btree_contains (pr_enabled_backups prep) path then done_with prep
      else and_then (b_get_task b path) (\<lambda>task.
        done_with (prep\<lparr>pr_enabled_backups := btree_insert path (rg_enabled task) (pr_enabled_backups prep)\<rparr>)))"
| "prepare_change b m allow resolve (SetTaskSecurity path) prep =
     and_then (lift_result (task_descriptor m path)) (\<lambda>desired.
       let info = security_information_for_sddl desired in
       and_then (unless_allowed allow (b_task_security b path info)) (\<lambda>live.
         done_with (case live of
           Some d \<Rightarrow> prep\<lparr>pr_task_security := btree_insert path \<lparr>sn_descriptor = d, sn_information = info\<rparr>
                       (pr_task_security prep)\<rparr>
         | None \<Rightarrow> prep)))"
| "prepare_change b m allow resolve (SetFolderSecurity path) prep =
     (if path \<in> set (pr_created_folders prep) then done_with prep
      else and_then (lift_result (folder_descriptor m path)) (\<lambda>desired.
        let info = security_information_for_sddl desired in
        and_then (unless_allowed allow (b_folder_security b path info)) (\<lambda>live.
          done_with (case live of
            Some d \<Rightarrow> prep\<lparr>pr_folder_security := btree_insert path \<lparr>sn_descriptor = d, sn_information = info\<rparr>
                        (pr_folder_security prep)\<rparr>
          | None \<Rightarrow> prep))))"
| "prepare_change b m allow resolve (CreateFolder _) prep = done_with prep"

fun prepare_changes ::
  "'w backend \<Rightarrow> task_manifest \<Rightarrow> bool \<Rightarrow> 'w resolver \<Rightarrow> planned_change list \<Rightarrow> prepared_apply \<Rightarrow> ('w, prepared_apply) effect" where
  "prepare_changes b m allow resolve [] prep = done_with prep"
| "prepare_changes b m allow resolve (c # cs) prep =
     and_then (prepare_change b m allow resolve (pc_change c) prep) (prepare_changes b m allow resolve cs)"

definition prepare ::
  "'w backend \<Rightarrow> task_manifest \<Rightarrow> plan \<Rightarrow> bool \<Rightarrow> 'w resolver \<Rightarrow> ('w, prepared_apply) effect" where
  "prepare b m p allow_irreversible resolve =
     prepare_changes b m allow_irreversible resolve (pl_changes p) (prepared_empty p)"

section \<open>Execution\<close>

text \<open>What \<open>execute_change\<close> and \<open>compensate_change\<close> take out of the prepared state does not depend on
  how their calls end, so each is a pair: the calls, and the prepared state they leave.\<close>

type_synonym 'w prepared_effect = "('w, unit) effect \<times> prepared_apply"

definition registration_for :: "apply_options \<Rightarrow> bool \<Rightarrow> task_definition \<Rightarrow> password option \<Rightarrow> registration_options" where
  "registration_for opts is_create d password =
     registration_options_default
       \<lparr>ro_mode := if is_create then Create else CreateOrUpdate,
        ro_ignore_registration_triggers := ao_ignore_registration_triggers opts,
        ro_password := password,
        ro_dont_add_principal_ace := ri_security_descriptor (td_registration d) \<noteq> None\<rparr>"

text \<open>The definition to register: a replaced task keeps its live security when none is desired.\<close>

definition backup_descriptor :: "prepared_apply \<Rightarrow> task_path \<Rightarrow> security_descriptor option" where
  "backup_descriptor prep path =
     map_option sn_descriptor (Option.bind (btree_get (pr_task_backups prep) path) tb_security)"

definition registered_definition ::
  "(uuid \<Rightarrow> string) \<Rightarrow> task_manifest \<Rightarrow> task_path \<Rightarrow> managed_task \<Rightarrow> bool \<Rightarrow> prepared_apply \<Rightarrow> task_definition" where
  "registered_definition ut m path desired is_create prep =
     (let d = owned_definition ut m desired in
      if \<not> is_create \<and> ri_security_descriptor (td_registration d) = None then
        d\<lparr>td_registration := (td_registration d)
          \<lparr>ri_security_descriptor := backup_descriptor prep path\<rparr>\<rparr>
      else d)"

definition execute_registration ::
  "(uuid \<Rightarrow> string) \<Rightarrow> 'w backend \<Rightarrow> task_manifest \<Rightarrow> task_path \<Rightarrow> bool \<Rightarrow> apply_options \<Rightarrow> prepared_apply
     \<Rightarrow> 'w prepared_effect" where
  "execute_registration ut b m path is_create opts prep =
     (case find_managed_task m path of
        Inl e \<Rightarrow> (fail_with e, prep)
      | Inr desired \<Rightarrow>
          let d = registered_definition ut m path desired is_create prep;
              registration = registration_for opts is_create d (btree_get (pr_desired_passwords prep) path)
          in (and_then (b_register b path d registration) (\<lambda>_.
                and_then (b_get_task b path) (\<lambda>_. done_with ())),
              prep\<lparr>pr_desired_passwords := btree_remove path (pr_desired_passwords prep)\<rparr>))"

fun execute_change ::
  "(uuid \<Rightarrow> string) \<Rightarrow> 'w backend \<Rightarrow> task_manifest \<Rightarrow> change \<Rightarrow> apply_options \<Rightarrow> prepared_apply
     \<Rightarrow> 'w prepared_effect" where
  "execute_change ut b m (CreateFolder path) opts prep =
     (and_then (b_create_folder b path None) (\<lambda>_. done_with ()), prep)"
| "execute_change ut b m (CreateTask path) opts prep = execute_registration ut b m path True opts prep"
| "execute_change ut b m (UpdateTask path) opts prep = execute_registration ut b m path False opts prep"
| "execute_change ut b m (AdoptTask path) opts prep = execute_registration ut b m path False opts prep"
| "execute_change ut b m (DeleteTask path) opts prep = (b_delete_task b path, prep)"
| "execute_change ut b m (SetEnabled path enabled) opts prep = (b_set_enabled b path enabled, prep)"
| "execute_change ut b m (SetTaskSecurity path) opts prep =
     (and_then (lift_result (task_descriptor m path)) (\<lambda>d.
        b_set_task_security b path d (security_information_for_sddl d)), prep)"
| "execute_change ut b m (SetFolderSecurity path) opts prep =
     (and_then (lift_result (folder_descriptor m path)) (\<lambda>d.
        b_set_folder_security b path d (security_information_for_sddl d)), prep)"

section \<open>Compensation\<close>

text \<open>\<open>let r1 = a; let r2 = b; r1.and(r2)\<close>: both run, the first error wins.\<close>

definition both :: "('w, unit) effect \<Rightarrow> ('w, unit) effect \<Rightarrow> ('w, unit) effect" where
  "both m n = (\<lambda>w. case m w of (r1, w1) \<Rightarrow> (case n w1 of (r2, w2) \<Rightarrow>
     ((case r1 of Inl e \<Rightarrow> Inl e | Inr _ \<Rightarrow> r2), w2)))"

definition restore_task :: "'w backend \<Rightarrow> task_path \<Rightarrow> apply_options \<Rightarrow> task_backup \<Rightarrow> ('w, unit) effect" where
  "restore_task b path opts backup =
     (if password_backed (tb_logon_type backup) \<and> tb_password backup = None then
        fail_with (target_error Irreversible ''task rollback password is unavailable'' (task_str path))
      else
        and_then (b_register_raw b path (tb_raw backup) (tb_logon_type backup)
            (registration_options_default
              \<lparr>ro_ignore_registration_triggers := ao_ignore_registration_triggers opts,
               ro_password := tb_password backup\<rparr>)) (\<lambda>_.
          both (b_set_enabled b path (tb_enabled backup))
            (case tb_security backup of
               None \<Rightarrow> done_with ()
             | Some s \<Rightarrow> b_set_task_security b path (sn_descriptor s) (sn_information s))))"

definition compensate_task :: "'w backend \<Rightarrow> task_path \<Rightarrow> apply_options \<Rightarrow> prepared_apply \<Rightarrow> 'w prepared_effect" where
  "compensate_task b path opts prep =
     (case btree_get (pr_task_backups prep) path of
        None \<Rightarrow> (fail_with (target_error Irreversible ''task rollback snapshot is unavailable'' (task_str path)), prep)
      | Some backup \<Rightarrow>
          (restore_task b path opts backup,
           prep\<lparr>pr_task_backups := btree_remove path (pr_task_backups prep)\<rparr>))"

fun compensate_change :: "'w backend \<Rightarrow> change \<Rightarrow> apply_options \<Rightarrow> prepared_apply \<Rightarrow> 'w prepared_effect" where
  "compensate_change b (CreateFolder path) opts prep = (b_delete_folder b path, prep)"
| "compensate_change b (CreateTask path) opts prep =
     (if ao_stop_running opts then and_then (b_stop_all b path) (\<lambda>_. b_delete_task b path)
      else b_delete_task b path, prep)"
| "compensate_change b (UpdateTask path) opts prep = compensate_task b path opts prep"
| "compensate_change b (AdoptTask path) opts prep = compensate_task b path opts prep"
| "compensate_change b (DeleteTask path) opts prep = compensate_task b path opts prep"
| "compensate_change b (SetEnabled path _) opts prep =
     (case btree_get (pr_enabled_backups prep) path of
        None \<Rightarrow> fail_with (target_error Irreversible ''task enabled-state snapshot is unavailable'' (task_str path))
      | Some enabled \<Rightarrow> b_set_enabled b path enabled, prep)"
| "compensate_change b (SetTaskSecurity path) opts prep =
     (case btree_get (pr_task_security prep) path of
        None \<Rightarrow> fail_with (target_error Irreversible ''task security snapshot is unavailable'' (task_str path))
      | Some s \<Rightarrow> b_set_task_security b path (sn_descriptor s) (sn_information s), prep)"
| "compensate_change b (SetFolderSecurity path) opts prep =
     (case btree_get (pr_folder_security prep) path of
        None \<Rightarrow> (fail_with (target_error Irreversible ''folder security snapshot is unavailable'' (folder_str path)), prep)
      | Some s \<Rightarrow> (b_set_folder_security b path (sn_descriptor s) (sn_information s),
          prep\<lparr>pr_folder_security := btree_remove path (pr_folder_security prep)\<rparr>))"

section \<open>What preflight provides\<close>

text \<open>What the compensation of a change will look for. Two things may be missing, and only when irreversible
  changes are allowed: a security descriptor that could not be read and a password that could not be resolved.\<close>

definition may_fail :: "('w, 'a) effect \<Rightarrow> bool" where
  "may_fail m \<longleftrightarrow> (\<exists>w e w'. m w = (Inl e, w'))"

definition backup_usable :: "'w backend \<Rightarrow> task_manifest \<Rightarrow> bool \<Rightarrow> 'w resolver \<Rightarrow> task_path \<Rightarrow> task_backup \<Rightarrow> bool" where
  "backup_usable b m allow resolve path backup \<longleftrightarrow>
     (tb_security backup \<noteq> None \<or> allow \<and> (\<exists>info. may_fail (b_task_security b path info)))
     \<and> (password_backed (tb_logon_type backup) \<longrightarrow> tb_password backup \<noteq> None \<or>
          allow \<and> may_fail (resolve path (Option.bind (find_task m path) (\<lambda>t. cr_registration (mg_credentials t)))
            RollbackRegistration))"

definition backed_up :: "'w backend \<Rightarrow> task_manifest \<Rightarrow> bool \<Rightarrow> 'w resolver \<Rightarrow> prepared_apply \<Rightarrow> task_path \<Rightarrow> bool" where
  "backed_up b m allow resolve prep path \<longleftrightarrow> (case btree_get (pr_task_backups prep) path of
     None \<Rightarrow> False | Some backup \<Rightarrow> backup_usable b m allow resolve path backup)"

fun undo_ready :: "'w backend \<Rightarrow> task_manifest \<Rightarrow> bool \<Rightarrow> 'w resolver \<Rightarrow> prepared_apply \<Rightarrow> change \<Rightarrow> bool" where
  "undo_ready b m allow resolve prep (CreateFolder _) = True"
| "undo_ready b m allow resolve prep (CreateTask _) = True"
| "undo_ready b m allow resolve prep (UpdateTask path) = backed_up b m allow resolve prep path"
| "undo_ready b m allow resolve prep (AdoptTask path) = backed_up b m allow resolve prep path"
| "undo_ready b m allow resolve prep (DeleteTask path) = backed_up b m allow resolve prep path"
| "undo_ready b m allow resolve prep (SetEnabled path _) = btree_contains (pr_enabled_backups prep) path"
| "undo_ready b m allow resolve prep (SetTaskSecurity path) \<longleftrightarrow>
     btree_contains (pr_task_security prep) path \<or> allow \<and> (\<exists>info. may_fail (b_task_security b path info))"
| "undo_ready b m allow resolve prep (SetFolderSecurity path) \<longleftrightarrow>
     path \<in> set (pr_created_folders prep) \<or> btree_contains (pr_folder_security prep) path
       \<or> allow \<and> (\<exists>info. may_fail (b_folder_security b path info))"

text \<open>The password a registration needs is there.\<close>

definition password_ready :: "task_manifest \<Rightarrow> prepared_apply \<Rightarrow> change \<Rightarrow> bool" where
  "password_ready m prep c \<longleftrightarrow>
     (case registered_target c of
        None \<Rightarrow> True
      | Some path \<Rightarrow>
          (case find_managed_task m path of
             Inl _ \<Rightarrow> False
           | Inr t \<Rightarrow> password_backed (pr_logon_type (td_principal (mg_definition t)))
               \<longrightarrow> btree_contains (pr_desired_passwords prep) path))"

lemma and_then_ok [ok_iff]: "and_then m f w = (Inr y, w') \<longleftrightarrow> (\<exists>x v. m w = (Inr x, v) \<and> f x v = (Inr y, w'))"
  by (auto simp: and_then_def split: prod.splits sum.splits)

lemma done_with_ok [ok_iff]: "done_with x w = (Inr y, w') \<longleftrightarrow> y = x \<and> w' = w"
  by (auto simp: done_with_def)

lemma fail_with_ok [ok_iff]: "fail_with e w = (Inr y, w') \<longleftrightarrow> False"
  by (auto simp: fail_with_def)

lemma lift_result_ok [ok_iff]: "lift_result r w = (Inr y, w') \<longleftrightarrow> r = Inr y \<and> w' = w"
  by (auto simp: lift_result_def)

lemma unless_allowed_ok [ok_iff]:
  "unless_allowed allow m w = (Inr y, w') \<longleftrightarrow>
     (\<exists>x. m w = (Inr x, w') \<and> y = Some x) \<or> allow \<and> y = None \<and> (\<exists>e. m w = (Inl e, w'))"
  by (auto simp: unless_allowed_def on_result_def done_with_def fail_with_def split: prod.splits sum.splits)

text \<open>One prepared state extends another when it keeps every entry and, in the maps that are never
  overwritten, its value.\<close>

definition prepared_extends :: "prepared_apply \<Rightarrow> prepared_apply \<Rightarrow> bool" where
  "prepared_extends p q \<longleftrightarrow>
     btree_get (pr_task_backups p) \<subseteq>\<^sub>m btree_get (pr_task_backups q)
     \<and> btree_get (pr_enabled_backups p) \<subseteq>\<^sub>m btree_get (pr_enabled_backups q)
     \<and> dom (btree_get (pr_task_security p)) \<subseteq> dom (btree_get (pr_task_security q))
     \<and> dom (btree_get (pr_folder_security p)) \<subseteq> dom (btree_get (pr_folder_security q))
     \<and> dom (btree_get (pr_desired_passwords p)) \<subseteq> dom (btree_get (pr_desired_passwords q))
     \<and> pr_created_folders q = pr_created_folders p"

lemma prepared_extends_refl [simp]: "prepared_extends p p"
  by (simp add: prepared_extends_def)

lemma prepared_extends_trans: "prepared_extends p q \<Longrightarrow> prepared_extends q r \<Longrightarrow> prepared_extends p r"
  unfolding prepared_extends_def
  by (elim conjE, intro conjI) (erule (1) map_le_trans | erule (1) subset_trans | simp)+

lemma contains_dom: "btree_contains t k \<longleftrightarrow> k \<in> dom (btree_get t)"
  by (auto simp: btree_contains_def)

lemma backed_up_extends:
  "prepared_extends p q \<Longrightarrow> backed_up b m allow resolve p path \<Longrightarrow> backed_up b m allow resolve q path"
  unfolding prepared_extends_def backed_up_def by (auto split: option.splits simp: map_le_def) (metis domI option.inject)+

lemma undo_ready_extends:
  "prepared_extends p q \<Longrightarrow> undo_ready b m allow resolve p c \<Longrightarrow> undo_ready b m allow resolve q c"
  by (cases c) (auto intro: backed_up_extends simp: contains_dom prepared_extends_def dest: map_le_implies_dom_le)

lemma password_ready_extends: "prepared_extends p q \<Longrightarrow> password_ready m p c \<Longrightarrow> password_ready m q c"
  unfolding password_ready_def by (auto simp: contains_dom prepared_extends_def split: option.splits sum.splits)

lemma prepare_registration_cases:
  assumes "prepare_registration b m allow resolve path prep w = (Inr prep', w')"
  obtains t where "find_managed_task m path = Inr t"
      "\<not> password_backed (pr_logon_type (td_principal (mg_definition t)))" "prep' = prep"
  | t password where "find_managed_task m path = Inr t"
      "prep' = prep\<lparr>pr_desired_passwords := btree_insert path password (pr_desired_passwords prep)\<rparr>"
proof -
  from assms obtain t where t: "find_managed_task m path = Inr t"
    unfolding prepare_registration_def by (auto simp: ok_iff)
  show thesis
  proof (cases "password_backed (pr_logon_type (td_principal (mg_definition t)))")
    case True
    then show ?thesis using assms t that(2) unfolding prepare_registration_def by (auto simp: ok_iff)
  next
    case False
    then show ?thesis using assms t that(1) unfolding prepare_registration_def by (auto simp: ok_iff)
  qed
qed

lemma prepare_registration_extends:
  assumes "prepare_registration b m allow resolve path prep w = (Inr prep', w')"
  shows "prepared_extends prep prep'" and "registered_target c = Some path \<Longrightarrow> password_ready m prep' c"
    and "pr_task_backups prep' = pr_task_backups prep"
  using assms
  by (auto elim!: prepare_registration_cases simp: password_ready_def prepared_extends_def contains_dom btree_get_insert)

text \<open>What \<open>prepare_task_backup\<close> adds, when it adds something.\<close>

lemma prepare_task_backup_cases:
  assumes "prepare_task_backup b m path allow resolve info prep w = (Inr prep', w')"
  obtains "btree_contains (pr_task_backups prep) path" "prep' = prep"
  | backup where "\<not> btree_contains (pr_task_backups prep) path" "backup_usable b m allow resolve path backup"
      "prep' = prep\<lparr>pr_task_backups := btree_insert path backup (pr_task_backups prep)\<rparr>"
proof (cases "btree_contains (pr_task_backups prep) path")
  case True
  then show ?thesis using assms that(1) unfolding prepare_task_backup_def by (simp add: ok_iff)
next
  case False
  then obtain task :: registered_task and v and d :: task_definition and password security u1 u2 where
    "(if password_backed (pr_logon_type (td_principal d))
       then unless_allowed allow (resolve path (Option.bind (find_task m path) (\<lambda>t. cr_registration (mg_credentials t)))
         RollbackRegistration) else done_with None) v = (Inr password, u1)"
    "unless_allowed allow (b_task_security b path info) u1 = (Inr security, u2)"
    "prep' = prep\<lparr>pr_task_backups := btree_insert path
       \<lparr>tb_raw = snap_raw (rg_snapshot task), tb_logon_type = pr_logon_type (td_principal d),
        tb_enabled = rg_enabled task,
        tb_security = map_option (\<lambda>d. \<lparr>sn_descriptor = d, sn_information = info\<rparr>) security,
        tb_password = password\<rparr> (pr_task_backups prep)\<rparr>"
    using assms unfolding prepare_task_backup_def by (simp only: ok_iff Let_def if_False) blast
  then show ?thesis
    using False by (intro that(2)) (auto simp: backup_usable_def may_fail_def ok_iff split: if_splits)
qed

lemma prepare_task_backup_extends:
  assumes "prepare_task_backup b m path allow resolve info prep w = (Inr prep', w')"
  shows "prepared_extends prep prep'"
  using assms
  by (auto elim!: prepare_task_backup_cases simp: prepared_extends_def btree_contains_def btree_get_insert map_le_def)

definition backups_usable :: "'w backend \<Rightarrow> task_manifest \<Rightarrow> bool \<Rightarrow> 'w resolver \<Rightarrow> prepared_apply \<Rightarrow> bool" where
  "backups_usable b m allow resolve prep \<longleftrightarrow>
     (\<forall>p k. btree_get (pr_task_backups prep) p = Some k \<longrightarrow> backup_usable b m allow resolve p k)"

lemma backups_usable_cong:
  "pr_task_backups q = pr_task_backups p \<Longrightarrow> backups_usable b m allow resolve p \<Longrightarrow> backups_usable b m allow resolve q"
  by (simp add: backups_usable_def)

lemma prepare_task_backup_ready:
  assumes "prepare_task_backup b m path allow resolve info prep w = (Inr prep', w')"
    and "backups_usable b m allow resolve prep"
  shows "backed_up b m allow resolve prep' path" and "backups_usable b m allow resolve prep'"
  using assms
  by (auto elim!: prepare_task_backup_cases simp: backups_usable_def backed_up_def btree_contains_def btree_get_insert
      split: if_splits)

lemma prepare_change_extends:
  "prepare_change b m allow resolve c prep w = (Inr prep', w') \<Longrightarrow> prepared_extends prep prep'"
proof (cases c)
  case (UpdateTask path)
  then show "prepare_change b m allow resolve c prep w = (Inr prep', w') \<Longrightarrow> ?thesis"
    by (auto simp: ok_iff intro: prepared_extends_trans dest!: prepare_registration_extends(1) prepare_task_backup_extends)
next
  case (AdoptTask path)
  then show "prepare_change b m allow resolve c prep w = (Inr prep', w') \<Longrightarrow> ?thesis"
    by (auto simp: ok_iff intro: prepared_extends_trans dest!: prepare_registration_extends(1) prepare_task_backup_extends)
next
  case (SetEnabled path e)
  then show "prepare_change b m allow resolve c prep w = (Inr prep', w') \<Longrightarrow> ?thesis"
    by (auto simp: ok_iff prepared_extends_def btree_contains_def btree_get_insert map_le_def split: if_splits)
next
  case (SetTaskSecurity path)
  then show "prepare_change b m allow resolve c prep w = (Inr prep', w') \<Longrightarrow> ?thesis"
    by (auto simp: ok_iff Let_def prepared_extends_def btree_get_insert split: option.splits)
next
  case (SetFolderSecurity path)
  then show "prepare_change b m allow resolve c prep w = (Inr prep', w') \<Longrightarrow> ?thesis"
    by (auto simp: ok_iff Let_def prepared_extends_def btree_get_insert split: option.splits if_splits)
qed (auto simp: ok_iff dest: prepare_registration_extends(1) prepare_task_backup_extends)

lemma prepare_change_password:
  "prepare_change b m allow resolve c prep w = (Inr prep', w') \<Longrightarrow> password_ready m prep' c"
proof (cases c)
  case (CreateTask path)
  then show "prepare_change b m allow resolve c prep w = (Inr prep', w') \<Longrightarrow> ?thesis"
    by (auto intro: prepare_registration_extends(2))
next
  case (UpdateTask path)
  then show "prepare_change b m allow resolve c prep w = (Inr prep', w') \<Longrightarrow> ?thesis"
    using prepare_registration_extends(2)[of b m allow resolve path prep w _ _ c]
    by (auto simp: ok_iff intro: password_ready_extends[OF prepare_task_backup_extends])
next
  case (AdoptTask path)
  then show "prepare_change b m allow resolve c prep w = (Inr prep', w') \<Longrightarrow> ?thesis"
    using prepare_registration_extends(2)[of b m allow resolve path prep w _ _ c]
    by (auto simp: ok_iff intro: password_ready_extends[OF prepare_task_backup_extends])
qed (simp_all add: password_ready_def)

lemma prepare_change_ready:
  assumes "prepare_change b m allow resolve c prep w = (Inr prep', w')" "backups_usable b m allow resolve prep"
  shows "undo_ready b m allow resolve prep' c \<and> backups_usable b m allow resolve prep'"
  using assms(1)
proof (cases c)
  case (UpdateTask path)
  then show ?thesis using assms
    by (auto simp: ok_iff dest: backups_usable_cong[OF prepare_registration_extends(3)] intro: prepare_task_backup_ready)
next
  case (AdoptTask path)
  then show ?thesis using assms
    by (auto simp: ok_iff dest: backups_usable_cong[OF prepare_registration_extends(3)] intro: prepare_task_backup_ready)
next
  case (DeleteTask path)
  then show ?thesis using assms by (auto intro: prepare_task_backup_ready)
next
  case (CreateTask path)
  then show ?thesis using assms by (auto intro: backups_usable_cong[OF prepare_registration_extends(3)])
next
  case (SetEnabled path e)
  then show ?thesis using assms
    by (auto simp: ok_iff btree_contains_def btree_get_insert backups_usable_def split: if_splits)
next
  case (SetTaskSecurity path)
  then show ?thesis using assms
    by (auto simp: ok_iff Let_def btree_contains_def btree_get_insert backups_usable_def may_fail_def)
next
  case (SetFolderSecurity path)
  then show ?thesis using assms
    by (auto simp: ok_iff Let_def btree_contains_def btree_get_insert backups_usable_def may_fail_def split: if_splits)
qed (use assms(2) in \<open>auto simp: ok_iff\<close>)

lemma prepare_changes_extends:
  "prepare_changes b m allow resolve cs prep w = (Inr prep', w') \<Longrightarrow> prepared_extends prep prep'"
  by (induction cs arbitrary: prep w)
    (auto simp: ok_iff intro: prepared_extends_trans dest!: prepare_change_extends)

lemma prepare_changes_password:
  "prepare_changes b m allow resolve cs prep w = (Inr prep', w') \<Longrightarrow> c \<in> set cs
     \<Longrightarrow> password_ready m prep' (pc_change c)"
  by (induction cs arbitrary: prep w)
    (auto simp: ok_iff intro: password_ready_extends dest: prepare_change_password prepare_changes_extends)

lemma prepare_changes_ready:
  "prepare_changes b m allow resolve cs prep w = (Inr prep', w') \<Longrightarrow> backups_usable b m allow resolve prep
     \<Longrightarrow> c \<in> set cs \<Longrightarrow> undo_ready b m allow resolve prep' (pc_change c)"
  by (induction cs arbitrary: prep w)
    (auto simp: ok_iff intro: undo_ready_extends dest: prepare_change_ready prepare_changes_extends)

lemma backups_usable_empty [simp]: "backups_usable b m allow resolve (prepared_empty p)"
  by (simp add: backups_usable_def prepared_empty_def btree_get_def)

end
