(* ===== verification/Apply.thy ===== *)
theory Apply
  imports Execute
begin

text \<open>
  Applying a manifest (\<open>apply_backend\<close> of \<open>reconcile.rs\<close>, \<open>compensate_observed\<close> of
  \<open>reconcile/recovery.rs\<close>): inspection and planning, preflight, then for each change precondition,
  stop, mutation and verification, and on the first failure the compensation of everything that was
  applied, in reverse order.
\<close>

section \<open>Compensation\<close>

record undo_entry =
  un_change :: change
  un_before :: observed
  un_after :: observed

fun created_task :: "change \<Rightarrow> task_path option" where
  "created_task (CreateTask p) = Some p"
| "created_task _ = None"

definition note_irreversible :: "task_path option \<Rightarrow> apply_report \<Rightarrow> apply_report" where
  "note_irreversible path report =
     (case path of
        Some p \<Rightarrow> report\<lparr>ar_irreversible_effects := ar_irreversible_effects report @ [p]\<rparr>
      | None \<Rightarrow> report)"

definition extend_journal :: "journal_entry list \<Rightarrow> apply_report \<Rightarrow> apply_report" where
  "extend_journal entries report = report\<lparr>ar_journal := ar_journal report @ entries\<rparr>"

text \<open>The closure of \<open>compensate_observed\<close>: look, undo through the recording wrapper, look again.\<close>

definition undo_change ::
  "'w backend \<Rightarrow> task_manifest \<Rightarrow> apply_options \<Rightarrow> undo_entry \<Rightarrow> prepared_apply \<Rightarrow> apply_report \<Rightarrow> 'w
     \<Rightarrow> unit result \<times> prepared_apply \<times> apply_report \<times> 'w" where
  "undo_change b m opts entry prep report w =
     (let c = un_change entry; allow = ao_allow_irreversible opts in
      case observe b m c allow w of
        (Inl e, w) \<Rightarrow> (Inl e, prep, report, w)
      | (Inr live, w) \<Rightarrow>
          if \<not> observed_eq live (un_after entry) then
            (Inl (new_error Conflict
              [Lit ''state changed after apply; refusing to overwrite external changes'']), prep, report, w)
          else
            let report = (if ao_stop_running opts then note_irreversible (created_task c) report else report);
                (run, prep) = compensate_change (recorded_backend c Rollback b) c opts prep;
                (result, journal, w) = with_journal run w;
                report = extend_journal journal report
            in case result of
                 Inl e \<Rightarrow> (Inl e, prep, report, w)
               | Inr _ \<Rightarrow>
                   (case observe b m c allow w of
                      (Inl e, w) \<Rightarrow> (Inl e, prep, report, w)
                    | (Inr live, w) \<Rightarrow>
                        (if observed_eq live (un_before entry) then Inr ()
                         else Inl (new_error Irreversible
                           [Lit ''rollback returned but original state is not confirmed'']), prep, report, w)))"

definition compensate_entry ::
  "'w backend \<Rightarrow> task_manifest \<Rightarrow> apply_options \<Rightarrow> undo_entry \<Rightarrow> prepared_apply \<Rightarrow> apply_report \<Rightarrow> 'w
     \<Rightarrow> prepared_apply \<times> apply_report \<times> 'w" where
  "compensate_entry b m opts entry prep report w =
     (let c = un_change entry in
      case undo_change b m opts entry prep (record_entry c Rollback Attempted None report) w of
        (Inr _, prep, report, w) \<Rightarrow>
          (prep, (record_entry c Rollback Succeeded None report)
             \<lparr>ar_rolled_back := ar_rolled_back report @ [c]\<rparr>, w)
      | (Inl e, prep, report, w) \<Rightarrow>
          (prep, (record_entry c Rollback Unknown (Some e) report)
             \<lparr>ar_unresolved := ar_unresolved report @ [c],
              ar_rollback_failures := ar_rollback_failures report
                @ [\<lparr>rf_change = c, rf_phase = Rollback, rf_error = e\<rparr>]\<rparr>, w))"

fun compensate_entries ::
  "'w backend \<Rightarrow> task_manifest \<Rightarrow> apply_options \<Rightarrow> undo_entry list \<Rightarrow> prepared_apply \<Rightarrow> apply_report \<Rightarrow> 'w
     \<Rightarrow> prepared_apply \<times> apply_report \<times> 'w" where
  "compensate_entries b m opts [] prep report w = (prep, report, w)"
| "compensate_entries b m opts (entry # entries) prep report w =
     (case compensate_entry b m opts entry prep report w of
        (prep, report, w) \<Rightarrow> compensate_entries b m opts entries prep report w)"

definition compensate_observed ::
  "'w backend \<Rightarrow> task_manifest \<Rightarrow> apply_options \<Rightarrow> prepared_apply \<Rightarrow> apply_report \<Rightarrow> undo_entry list \<Rightarrow> 'w
     \<Rightarrow> prepared_apply \<times> apply_report \<times> 'w" where
  "compensate_observed b m opts prep report undo w = compensate_entries b m opts (rev undo) prep report w"

section \<open>One change\<close>

definition succeeded_or :: "step_outcome \<Rightarrow> error option \<Rightarrow> step_outcome" where
  "succeeded_or outcome err = (if err = None then Succeeded else outcome)"

definition check_precondition ::
  "'w backend \<Rightarrow> task_manifest \<Rightarrow> apply_options \<Rightarrow> change \<Rightarrow> observed \<Rightarrow> apply_report \<Rightarrow> 'w
     \<Rightarrow> error option \<times> apply_report \<times> 'w" where
  "check_precondition b m opts c before report w =
     (case observe b m c (ao_allow_irreversible opts) w of (seen, w) \<Rightarrow>
        let err = (case seen of
              Inl e \<Rightarrow> Some e
            | Inr live \<Rightarrow> if observed_eq live before then None
                else Some (new_error Conflict [Lit ''state changed during preflight'']))
        in (err, record_entry c Precondition (succeeded_or Failed err) err report, w))"

text \<open>Folder security is snapshot from the observation when preflight has none (\<open>or_insert_with\<close>).\<close>

definition snapshot_folder :: "task_manifest \<Rightarrow> change \<Rightarrow> observed \<Rightarrow> prepared_apply \<Rightarrow> prepared_apply" where
  "snapshot_folder m c before prep =
     (case (c, before) of
        (SetFolderSecurity path, ObservedFolder (Some d)) \<Rightarrow>
          if btree_contains (pr_folder_security prep) path then prep
          else prep\<lparr>pr_folder_security := btree_insert path
                 \<lparr>sn_descriptor = d, sn_information = information m c\<rparr> (pr_folder_security prep)\<rparr>
      | _ \<Rightarrow> prep)"

definition stop_change ::
  "'w backend \<Rightarrow> apply_options \<Rightarrow> change \<Rightarrow> apply_report \<Rightarrow> 'w \<Rightarrow> error option \<times> apply_report \<times> 'w" where
  "stop_change b opts c report w =
     (case (ao_stop_running opts, stopped_task c) of
        (True, Some path) \<Rightarrow>
          let report = record_entry c Stop Attempted None (note_irreversible (Some path) report)
          in (case b_stop_all b path w of (result, w) \<Rightarrow>
                (err_opt result, record_entry c Stop (succeeded_or Unknown (err_opt result)) (err_opt result) report, w))
      | _ \<Rightarrow> (None, report, w))"

definition mutate_change ::
  "(uuid \<Rightarrow> string) \<Rightarrow> 'w backend \<Rightarrow> task_manifest \<Rightarrow> apply_options \<Rightarrow> change \<Rightarrow> prepared_apply \<Rightarrow> apply_report \<Rightarrow> 'w
     \<Rightarrow> error option \<times> prepared_apply \<times> apply_report \<times> 'w" where
  "mutate_change ut b m opts c prep report w =
     (let report = record_entry c Mutation Attempted None report;
          (run, prep) = execute_change ut (recorded_backend c Mutation b) m c opts prep;
          (result, journal, w) = with_journal run w;
          err = err_opt result
      in (err, prep, record_entry c Mutation (succeeded_or Unknown err) err (extend_journal journal report), w))"

fun verified_by_state :: "change \<Rightarrow> bool" where
  "verified_by_state (CreateTask _) = True"
| "verified_by_state (UpdateTask _) = True"
| "verified_by_state (AdoptTask _) = True"
| "verified_by_state (DeleteTask _) = True"
| "verified_by_state (SetEnabled _ _) = True"
| "verified_by_state _ = False"

text \<open>The \<open>match observed\<close>: the state after the change when it counts as applied, and the error when
  the outcome cannot be attributed.\<close>

definition unresolved_change ::
  "change \<Rightarrow> error \<Rightarrow> apply_report \<Rightarrow> apply_report" where
  "unresolved_change c e report =
     (record_entry c Verify Unknown (Some e) report)\<lparr>ar_unresolved := ar_unresolved report @ [c]\<rparr>"

definition verify_change ::
  "(uuid \<Rightarrow> string) \<Rightarrow> 'w backend \<Rightarrow> task_manifest \<Rightarrow> apply_options \<Rightarrow> change \<Rightarrow> observed \<Rightarrow> bool \<Rightarrow> apply_report \<Rightarrow> 'w
     \<Rightarrow> observed option \<times> error option \<times> apply_report \<times> 'w" where
  "verify_change ut b m opts c before failed report w =
     (case observe b m c (ao_allow_irreversible opts) w of
        (Inl e, w) \<Rightarrow> (None, Some e, unresolved_change c e report, w)
      | (Inr after, w) \<Rightarrow>
          if observed_eq after before \<and> failed then
            (None, None, record_entry c Verify Succeeded None report, w)
          else
            (case expected_after ut b before after m c w of (as_expected, w) \<Rightarrow>
               if as_expected \<and> (\<not> failed \<or> verified_by_state c) then
                 (Some after, None,
                  (record_entry c Verify Succeeded None report)\<lparr>ar_applied := ar_applied report @ [c]\<rparr>, w)
               else
                 (let e = verification_conflict m c after in
                  (None, Some e, unresolved_change c e report, w))))"

text \<open>The body of the loop over the plan. The result is the cause of failure, the state after the
  change when it was applied, and the state of the run.\<close>

definition apply_change ::
  "(uuid \<Rightarrow> string) \<Rightarrow> 'w backend \<Rightarrow> task_manifest \<Rightarrow> apply_options \<Rightarrow> change \<Rightarrow> observed
     \<Rightarrow> prepared_apply \<Rightarrow> apply_report \<Rightarrow> 'w
     \<Rightarrow> error option \<times> observed option \<times> prepared_apply \<times> apply_report \<times> 'w" where
  "apply_change ut b m opts c before prep report w =
     (case check_precondition b m opts c before report w of
        (Some e, report, w) \<Rightarrow> (Some e, None, prep, report, w)
      | (None, report, w) \<Rightarrow>
          let prep = snapshot_folder m c before prep in
          (case stop_change b opts c report w of
             (Some e, report, w) \<Rightarrow> (Some e, None, prep, report, w)
           | (None, report, w) \<Rightarrow>
               (case mutate_change ut b m opts c prep report w of
                  (failure, prep, report, w) \<Rightarrow>
                    (case verify_change ut b m opts c before (failure \<noteq> None) report w of
                       (after, conflict, report, w) \<Rightarrow>
                         (case failure of Some e \<Rightarrow> Some e | None \<Rightarrow> conflict, after, prep, report, w)))))"

section \<open>The run\<close>

definition expect_after :: "change \<Rightarrow> observed \<Rightarrow> (change \<times> observed) list \<Rightarrow> (change \<times> observed) list" where
  "expect_after c after later =
     map (\<lambda>(l, expected). (l, if same_target c l then after else expected)) later"

type_synonym apply_result = "apply_failure + apply_report"

function apply_changes ::
  "(uuid \<Rightarrow> string) \<Rightarrow> 'w backend \<Rightarrow> task_manifest \<Rightarrow> apply_options \<Rightarrow> (change \<times> observed) list
     \<Rightarrow> prepared_apply \<Rightarrow> apply_report \<Rightarrow> undo_entry list \<Rightarrow> 'w \<Rightarrow> apply_result \<times> 'w" where
  "apply_changes ut b m opts [] prep report undo w = (Inr (report\<lparr>ar_status := ApplySucceeded\<rparr>), w)"
| "apply_changes ut b m opts ((c, before) # later) prep report undo w =
     (case apply_change ut b m opts c before prep report w of
        (cause, after, prep, report, w) \<Rightarrow>
          let later = (case after of Some a \<Rightarrow> expect_after c a later | None \<Rightarrow> later);
              undo = (case after of
                  Some a \<Rightarrow> undo @ [\<lparr>un_change = c, un_before = before, un_after = a\<rparr>]
                | None \<Rightarrow> undo)
          in (case cause of
                None \<Rightarrow> apply_changes ut b m opts later prep report undo w
              | Some e \<Rightarrow>
                  (case compensate_observed b m opts prep report undo w of
                     (prep, report, w) \<Rightarrow> (Inl \<lparr>af_cause = e, af_report = report\<rparr>, w))))"
  by pat_completeness auto

termination
  by (relation "measure (\<lambda>(ut, b, m, opts, todo, _). length todo)") (auto simp: expect_after_def split: option.splits)

definition apply_plan ::
  "(uuid \<Rightarrow> string) \<Rightarrow> 'w backend \<Rightarrow> task_manifest \<Rightarrow> apply_options \<Rightarrow> 'w resolver \<Rightarrow> current_state \<Rightarrow> plan
     \<Rightarrow> 'w \<Rightarrow> apply_result \<times> 'w" where
  "apply_plan ut b m opts resolve state p w =
     (let report = empty_apply_report p;
          failed = (\<lambda>e. Inl \<lparr>af_cause = e, af_report = report\<rparr>)
      in if plan_is_empty p then (Inr (report\<lparr>ar_status := ApplySucceeded\<rparr>), w)
         else
           (case collect_effects (\<lambda>c. observe b m (pc_change c) (ao_allow_irreversible opts)) (pl_changes p) w of
              (Inl e, w) \<Rightarrow> (failed e, w)
            | (Inr expected, w) \<Rightarrow>
                if list_ex (\<lambda>(c, obs). \<not> agrees_with_inspection state (pc_change c) obs)
                    (zip (pl_changes p) expected) then
                  (failed (new_error Conflict [Lit ''state changed between planning and preflight'']), w)
                else
                  (case prepare b m p (ao_allow_irreversible opts) resolve w of
                     (Inl e, w) \<Rightarrow> (failed e, w)
                   | (Inr prep, w) \<Rightarrow>
                       apply_changes ut b m opts (zip (map pc_change (pl_changes p)) expected) prep report [] w)))"

definition apply_backend ::
  "(uuid \<Rightarrow> string) \<Rightarrow> 'w backend \<Rightarrow> task_manifest \<Rightarrow> apply_options \<Rightarrow> 'w resolver \<Rightarrow> 'w \<Rightarrow> apply_result \<times> 'w" where
  "apply_backend ut b m opts resolve w =
     (case inspect_backend ut b m w of
        (Inl e, w) \<Rightarrow> (Inl (empty_apply_failure e), w)
      | (Inr state, w) \<Rightarrow>
          (case plan_state ut m state \<lparr>po_prune = ao_prune opts, po_adopt = ao_adopt opts\<rparr> of
             Inl e \<Rightarrow> (Inl (empty_apply_failure e), w)
           | Inr p \<Rightarrow>
               apply_plan ut b m opts resolve state (if ao_stop_running opts then with_stop_running p else p) w))"

section \<open>The public entry points\<close>

text \<open>Normalization asks the connected scheduler for its canonical form of definitions and security
  descriptors; both calls are parameters.\<close>

record 'w normalizer =
  nz_definition :: "task_definition \<Rightarrow> ('w, task_definition) effect"
  nz_security :: "security_descriptor \<Rightarrow> security_information \<Rightarrow> ('w, security_descriptor) effect"

definition normalize_descriptor ::
  "'w normalizer \<Rightarrow> security_descriptor option \<Rightarrow> ('w, security_descriptor option) effect" where
  "normalize_descriptor nz d =
     (case d of
        None \<Rightarrow> done_with None
      | Some descriptor \<Rightarrow>
          and_then (nz_security nz descriptor (security_information_for_sddl descriptor)) (\<lambda>s. done_with (Some s)))"

definition normalize_task :: "'w normalizer \<Rightarrow> managed_task \<Rightarrow> ('w, managed_task) effect" where
  "normalize_task nz t =
     and_then (nz_definition nz (mg_definition t)) (\<lambda>d.
     and_then (normalize_descriptor nz (ri_security_descriptor (td_registration d))) (\<lambda>s.
       done_with (t\<lparr>mg_definition := d\<lparr>td_registration := (td_registration d)\<lparr>ri_security_descriptor := s\<rparr>\<rparr>\<rparr>)))"

definition normalize_folder :: "'w normalizer \<Rightarrow> managed_folder \<Rightarrow> ('w, managed_folder) effect" where
  "normalize_folder nz f =
     and_then (normalize_descriptor nz (mf_security_descriptor f)) (\<lambda>s.
       done_with (f\<lparr>mf_security_descriptor := s\<rparr>))"

definition normalize_manifest :: "'w normalizer \<Rightarrow> task_manifest \<Rightarrow> ('w, task_manifest) effect" where
  "normalize_manifest nz m =
     and_then (lift_result (ensure_valid_manifest m)) (\<lambda>_.
     and_then (collect_effects (normalize_task nz) (tm_tasks m)) (\<lambda>tasks.
     and_then (collect_effects (normalize_folder nz) (tm_folders m)) (\<lambda>folders.
       done_with (m\<lparr>tm_tasks := tasks, tm_folders := folders\<rparr>))))"

definition plan_live ::
  "(uuid \<Rightarrow> string) \<Rightarrow> 'w normalizer \<Rightarrow> 'w backend \<Rightarrow> task_manifest \<Rightarrow> plan_options \<Rightarrow> ('w, plan) effect" where
  "plan_live ut nz b m opts =
     and_then (normalize_manifest nz m) (\<lambda>m.
     and_then (inspect_backend ut b m) (\<lambda>state. lift_result (plan_state ut m state opts)))"

definition apply_with_credentials ::
  "(uuid \<Rightarrow> string) \<Rightarrow> 'w normalizer \<Rightarrow> 'w backend \<Rightarrow> task_manifest \<Rightarrow> apply_options \<Rightarrow> 'w resolver
     \<Rightarrow> 'w \<Rightarrow> apply_result \<times> 'w" where
  "apply_with_credentials ut nz b m opts resolve w =
     (case normalize_manifest nz m w of
        (Inl e, w) \<Rightarrow> (Inl (empty_apply_failure e), w)
      | (Inr m, w) \<Rightarrow> apply_backend ut b m opts resolve w)"

definition apply_without_credentials ::
  "(uuid \<Rightarrow> string) \<Rightarrow> 'w normalizer \<Rightarrow> 'w backend \<Rightarrow> task_manifest \<Rightarrow> apply_options \<Rightarrow> 'w \<Rightarrow> apply_result \<times> 'w" where
  "apply_without_credentials ut nz b m opts = apply_with_credentials ut nz b m opts no_credentials"

lemma collect_effects_list_all2:
  assumes "collect_effects f xs w = (Inr ys, w')" and "\<And>x y v v'. f x v = (Inr y, v') \<Longrightarrow> R x y"
  shows "list_all2 R xs ys"
  using assms(1)
proof (induction xs arbitrary: w ys)
  case (Cons x xs)
  then show ?case using assms(2) by (auto simp: ok_iff)
qed (simp add: ok_iff)

lemma normalize_keeps_paths:
  assumes "normalize_manifest nz m w = (Inr m', w')"
  shows "map mg_path (tm_tasks m') = map mg_path (tm_tasks m) \<and> map mf_path (tm_folders m') = map mf_path (tm_folders m)
    \<and> tm_namespace m' = tm_namespace m \<and> tm_owner m' = tm_owner m \<and> manifest_ok m"
proof -
  obtain tasks folders v v' u where parts: "collect_effects (normalize_task nz) (tm_tasks m) v = (Inr tasks, v')"
    "collect_effects (normalize_folder nz) (tm_folders m) v' = (Inr folders, u)"
    "m' = m\<lparr>tm_tasks := tasks, tm_folders := folders\<rparr>" "manifest_ok m"
    using assms by (auto simp: normalize_manifest_def ok_iff)
  have "list_all2 (\<lambda>t t'. mg_path t = mg_path t') (tm_tasks m) tasks"
    by (rule collect_effects_list_all2[OF parts(1)]) (auto simp: normalize_task_def ok_iff)
  moreover have "list_all2 (\<lambda>f f'. mf_path f = mf_path f') (tm_folders m) folders"
    by (rule collect_effects_list_all2[OF parts(2)]) (auto simp: normalize_folder_def ok_iff)
  ultimately show ?thesis
    using parts(3,4) by (simp add: list_all2_conv_all_nth list_eq_iff_nth_eq)
qed

section \<open>Bookkeeping\<close>

text \<open>Recording touches the journal only; compensation adds to the rollback lists only.\<close>

lemma record_entry_fields [simp]:
  "ar_status (record_entry c ph out e r) = ar_status r"
  "ar_plan (record_entry c ph out e r) = ar_plan r"
  "ar_applied (record_entry c ph out e r) = ar_applied r"
  "ar_rolled_back (record_entry c ph out e r) = ar_rolled_back r"
  "ar_rollback_failures (record_entry c ph out e r) = ar_rollback_failures r"
  "ar_unresolved (record_entry c ph out e r) = ar_unresolved r"
  by (simp_all add: record_entry_def)

lemma extend_journal_fields [simp]:
  "ar_status (extend_journal js r) = ar_status r"
  "ar_plan (extend_journal js r) = ar_plan r"
  "ar_applied (extend_journal js r) = ar_applied r"
  "ar_rolled_back (extend_journal js r) = ar_rolled_back r"
  "ar_rollback_failures (extend_journal js r) = ar_rollback_failures r"
  "ar_unresolved (extend_journal js r) = ar_unresolved r"
  by (simp_all add: extend_journal_def)

lemma note_irreversible_fields [simp]:
  "ar_status (note_irreversible p r) = ar_status r"
  "ar_plan (note_irreversible p r) = ar_plan r"
  "ar_applied (note_irreversible p r) = ar_applied r"
  "ar_rolled_back (note_irreversible p r) = ar_rolled_back r"
  "ar_rollback_failures (note_irreversible p r) = ar_rollback_failures r"
  "ar_unresolved (note_irreversible p r) = ar_unresolved r"
  by (simp_all add: note_irreversible_def split: option.split)

definition outcome_of :: "apply_report \<Rightarrow> apply_status \<times> plan \<times> change list \<times> change list \<times> rollback_failure list \<times> change list" where
  "outcome_of r = (ar_status r, ar_plan r, ar_applied r, ar_rolled_back r, ar_rollback_failures r, ar_unresolved r)"

lemma undo_change_outcome:
  "undo_change b m opts entry prep report w = (res, prep', report', w') \<Longrightarrow> outcome_of report' = outcome_of report"
  by (auto simp: undo_change_def outcome_of_def Let_def split: prod.splits sum.splits if_splits)

lemma compensate_entry_outcome:
  assumes "compensate_entry b m opts entry prep report w = (prep', report', w')"
  shows "ar_status report' = ar_status report \<and> ar_plan report' = ar_plan report \<and> ar_applied report' = ar_applied report \<and>
    (ar_rolled_back report' = ar_rolled_back report @ [un_change entry]
       \<and> ar_rollback_failures report' = ar_rollback_failures report \<and> ar_unresolved report' = ar_unresolved report
     \<or> (\<exists>e. ar_rolled_back report' = ar_rolled_back report
       \<and> ar_rollback_failures report' = ar_rollback_failures report @ [\<lparr>rf_change = un_change entry, rf_phase = Rollback, rf_error = e\<rparr>]
       \<and> ar_unresolved report' = ar_unresolved report @ [un_change entry]))"
proof -
  obtain res p r v where u: "undo_change b m opts entry prep
      (record_entry (un_change entry) Rollback Attempted None report) w = (res, p, r, v)"
    using prod_cases4 by blast
  then show ?thesis
    using assms undo_change_outcome[OF u]
    by (cases res) (auto simp: compensate_entry_def outcome_of_def Let_def)
qed

lemma compensate_entries_outcome:
  assumes "compensate_entries b m opts entries prep report w = (prep', report', w')"
  shows "\<exists>rolled failed. ar_status report' = ar_status report \<and> ar_plan report' = ar_plan report
    \<and> ar_applied report' = ar_applied report \<and> ar_rolled_back report' = ar_rolled_back report @ rolled
    \<and> ar_rollback_failures report' = ar_rollback_failures report @ failed
    \<and> ar_unresolved report' = ar_unresolved report @ map rf_change failed
    \<and> map un_change entries \<in> shuffles rolled (map rf_change failed)"
  using assms
proof (induction entries arbitrary: prep report w)
  case (Cons entry entries)
  obtain p r v where e: "compensate_entry b m opts entry prep report w = (p, r, v)"
    using prod_cases3 by blast
  then have rest: "compensate_entries b m opts entries p r v = (prep', report', w')"
    using Cons.prems by simp
  obtain rolled failed where IH: "ar_status report' = ar_status r" "ar_plan report' = ar_plan r"
    "ar_applied report' = ar_applied r" "ar_rolled_back report' = ar_rolled_back r @ rolled"
    "ar_rollback_failures report' = ar_rollback_failures r @ failed"
    "ar_unresolved report' = ar_unresolved r @ map rf_change failed"
    "map un_change entries \<in> shuffles rolled (map rf_change failed)"
    using Cons.IH[OF rest] by blast
  from compensate_entry_outcome[OF e] show ?case
  proof (elim conjE disjE exE, goal_cases)
    case 1
    then show ?thesis using IH
      by (intro exI[of _ "un_change entry # rolled"] exI[of _ failed]) (auto intro: Cons_in_shuffles_leftI)
  next
    case (2 e)
    then show ?thesis using IH
      by (intro exI[of _ rolled] exI[of _ "\<lparr>rf_change = un_change entry, rf_phase = Rollback, rf_error = e\<rparr> # failed"])
        (auto intro: Cons_in_shuffles_rightI)
  qed
qed auto

lemma apply_change_cases:
  assumes "apply_change ut b m opts c before prep report w = (cause, after, prep', report', w')"
  obtains (precondition) e where "check_precondition b m opts c before report w = (Some e, report', w')"
      "cause = Some e" "after = None"
  | (stop) r1 w1 e where "check_precondition b m opts c before report w = (None, r1, w1)"
      "stop_change b opts c r1 w1 = (Some e, report', w')" "cause = Some e" "after = None"
  | (mutation) r1 w1 r2 w2 failure r3 w3 conflict where
      "check_precondition b m opts c before report w = (None, r1, w1)"
      "stop_change b opts c r1 w1 = (None, r2, w2)"
      "mutate_change ut b m opts c (snapshot_folder m c before prep) r2 w2 = (failure, prep', r3, w3)"
      "verify_change ut b m opts c before (failure \<noteq> None) r3 w3 = (after, conflict, report', w')"
      "cause = (case failure of Some e \<Rightarrow> Some e | None \<Rightarrow> conflict)"
proof -
  obtain e1 r1 w1 where c1: "check_precondition b m opts c before report w = (e1, r1, w1)"
    using prod_cases3 by blast
  obtain e2 r2 w2 where c2: "stop_change b opts c r1 w1 = (e2, r2, w2)" using prod_cases3 by blast
  obtain failure p3 r3 w3 where c3: "mutate_change ut b m opts c (snapshot_folder m c before prep) r2 w2 = (failure, p3, r3, w3)"
    using prod_cases4 by blast
  obtain a4 conflict r4 w4 where c4: "verify_change ut b m opts c before (failure \<noteq> None) r3 w3 = (a4, conflict, r4, w4)"
    using prod_cases4 by blast
  show thesis
  proof (cases e1)
    case (Some e)
    then show ?thesis using assms c1 that(1) by (auto simp: apply_change_def)
  next
    case None
    note e1 = None
    show ?thesis
    proof (cases e2)
      case (Some e)
      then show ?thesis using assms c1 c2 e1 that(2) by (auto simp: apply_change_def Let_def)
    next
      case None
      then show ?thesis using assms c1 c2 c3 c4 e1 that(3) by (auto simp: apply_change_def Let_def)
    qed
  qed
qed

lemma check_precondition_outcome:
  "check_precondition b m opts c before report w = (e, report', w') \<Longrightarrow> outcome_of report' = outcome_of report"
  by (auto simp: check_precondition_def outcome_of_def Let_def split: prod.splits)

lemma stop_change_outcome:
  "stop_change b opts c report w = (e, report', w') \<Longrightarrow> outcome_of report' = outcome_of report"
  by (auto simp: stop_change_def outcome_of_def Let_def split: prod.splits bool.splits option.splits)

lemma mutate_change_outcome:
  "mutate_change ut b m opts c prep report w = (e, prep', report', w') \<Longrightarrow> outcome_of report' = outcome_of report"
  by (auto simp: mutate_change_def outcome_of_def Let_def split: prod.splits)

lemma verify_change_outcome:
  assumes "verify_change ut b m opts c before failed report w = (after, conflict, report', w')"
  shows "ar_status report' = ar_status report \<and> ar_plan report' = ar_plan report
    \<and> ar_rolled_back report' = ar_rolled_back report \<and> ar_rollback_failures report' = ar_rollback_failures report
    \<and> (case after of
         Some _ \<Rightarrow> ar_applied report' = ar_applied report @ [c] \<and> ar_unresolved report' = ar_unresolved report
       | None \<Rightarrow> (failed \<or> conflict \<noteq> None) \<and> ar_applied report' = ar_applied report
           \<and> (ar_unresolved report' = ar_unresolved report \<or> ar_unresolved report' = ar_unresolved report @ [c]))"
  using assms
  by (auto simp: verify_change_def unresolved_change_def Let_def split: prod.splits sum.splits if_splits)

lemma apply_change_outcome:
  assumes "apply_change ut b m opts c before prep report w = (cause, after, prep', report', w')"
  shows "ar_status report' = ar_status report \<and> ar_plan report' = ar_plan report
    \<and> ar_rolled_back report' = ar_rolled_back report \<and> ar_rollback_failures report' = ar_rollback_failures report
    \<and> (case after of
         Some _ \<Rightarrow> ar_applied report' = ar_applied report @ [c] \<and> ar_unresolved report' = ar_unresolved report
       | None \<Rightarrow> cause \<noteq> None \<and> ar_applied report' = ar_applied report
           \<and> (ar_unresolved report' = ar_unresolved report \<or> ar_unresolved report' = ar_unresolved report @ [c]))"
  using assms
proof (cases rule: apply_change_cases)
  case (precondition e)
  then show ?thesis using check_precondition_outcome by (fastforce simp: outcome_of_def)
next
  case (stop r1 w1 e)
  then show ?thesis
    using check_precondition_outcome[OF stop(1)] stop_change_outcome[OF stop(2)] by (auto simp: outcome_of_def)
next
  case (mutation r1 w1 r2 w2 failure r3 w3 conflict)
  have r3: "outcome_of r3 = outcome_of report"
    using check_precondition_outcome[OF mutation(1)] stop_change_outcome[OF mutation(2)]
      mutate_change_outcome[OF mutation(3)] by simp
  show ?thesis
    using verify_change_outcome[OF mutation(4)] r3 mutation(5)
    by (cases after; cases failure) (auto simp: outcome_of_def)
qed

lemma map_fst_expect_after [simp]: "map fst (expect_after c a later) = map fst later"
  by (auto simp: expect_after_def)

text \<open>What a failed run reports about the changes still to do, in terms of the report it started from.\<close>

definition failure_accounts :: "change list \<Rightarrow> apply_report \<Rightarrow> change list \<Rightarrow> bool" where
  "failure_accounts earlier r planned_changes \<longleftrightarrow> ar_status r = ApplyFailed
     \<and> (\<exists>rest. earlier @ planned_changes = ar_applied r @ rest
         \<and> rev (ar_applied r) \<in> shuffles (ar_rolled_back r) (map rf_change (ar_rollback_failures r))
         \<and> (ar_unresolved r = map rf_change (ar_rollback_failures r)
            \<or> (\<exists>c rest'. rest = c # rest' \<and> ar_unresolved r = c # map rf_change (ar_rollback_failures r))))"

lemma apply_changes_outcome:
  assumes "apply_changes ut b m opts todo prep report undo w = (res, w')"
    and "ar_status report = ApplyFailed" "ar_applied report = map un_change undo"
    and "ar_rolled_back report = []" "ar_rollback_failures report = []" "ar_unresolved report = []"
  shows "case res of
      Inr r \<Rightarrow> ar_status r = ApplySucceeded \<and> ar_plan r = ar_plan report
        \<and> ar_applied r = ar_applied report @ map fst todo
        \<and> ar_rolled_back r = [] \<and> ar_rollback_failures r = [] \<and> ar_unresolved r = []
    | Inl f \<Rightarrow> ar_plan (af_report f) = ar_plan report
        \<and> failure_accounts (ar_applied report) (af_report f) (map fst todo)"
  using assms
proof (induction ut b m opts todo prep report undo w rule: apply_changes.induct)
  case (2 ut b m opts c before later prep report undo w)
  obtain cause after p r v where step: "apply_change ut b m opts c before prep report w = (cause, after, p, r, v)"
    using prod_cases5 by blast
  note out = apply_change_outcome[OF step]
  show ?case
  proof (cases cause)
    case None
    then obtain a where a: "after = Some a" using out by (cases after) auto
    have "apply_changes ut b m opts (expect_after c a later) p r
        (undo @ [\<lparr>un_change = c, un_before = before, un_after = a\<rparr>]) v = (res, w')"
      using "2.prems"(1) step None a by simp
    from "2.IH"[OF step[symmetric] refl refl refl refl refl None] this show ?thesis
      using out "2.prems" a by (auto split: sum.splits simp: failure_accounts_def)
  next
    case (Some e)
    define undo' where "undo' = (case after of
        Some a \<Rightarrow> undo @ [\<lparr>un_change = c, un_before = before, un_after = a\<rparr>] | None \<Rightarrow> undo)"
    obtain p' r' v' where comp: "compensate_observed b m opts p r undo' v = (p', r', v')"
      using prod_cases3 by blast
    have res: "res = Inl \<lparr>af_cause = e, af_report = r'\<rparr>"
      using "2.prems"(1) step Some comp unfolding undo'_def by simp
    have applied: "ar_applied r = map un_change undo'"
      using out "2.prems"(3) unfolding undo'_def by (cases after) auto
    obtain rolled failed where c: "ar_status r' = ar_status r" "ar_plan r' = ar_plan r"
      "ar_applied r' = ar_applied r" "ar_rolled_back r' = ar_rolled_back r @ rolled"
      "ar_rollback_failures r' = ar_rollback_failures r @ failed"
      "ar_unresolved r' = ar_unresolved r @ map rf_change failed"
      "map un_change (rev undo') \<in> shuffles rolled (map rf_change failed)"
      using compensate_entries_outcome[OF comp[unfolded compensate_observed_def]] by blast
    have shuffled: "rev (ar_applied r') \<in> shuffles rolled (map rf_change failed)"
      using c(3,7) applied by (simp add: rev_map)
    show ?thesis
      using res c(1-6) shuffled out "2.prems"(2-) unfolding failure_accounts_def
      by (cases after) auto
  qed
qed auto

lemma apply_plan_outcome:
  assumes "apply_plan ut b m opts resolve state p w = (res, w')"
  shows "case res of
      Inr r \<Rightarrow> report_succeeded r \<and> ar_plan r = p \<and> ar_applied r = map pc_change (pl_changes p)
    | Inl f \<Rightarrow> ar_plan (af_report f) = p \<and> failure_accounts [] (af_report f) (map pc_change (pl_changes p))"
proof -
  have fresh: "failure_accounts [] (empty_apply_report p) cs" for cs
    by (simp add: failure_accounts_def empty_apply_report_def)
  consider (nothing) "pl_changes p = []"
    | (unobserved) e v where "pl_changes p \<noteq> []" "collect_effects (\<lambda>c. observe b m (pc_change c) (ao_allow_irreversible opts)) (pl_changes p) w = (Inl e, v)"
    | (observed) expected v where "pl_changes p \<noteq> []" "collect_effects (\<lambda>c. observe b m (pc_change c) (ao_allow_irreversible opts)) (pl_changes p) w = (Inr expected, v)"
    by (metis old.prod.exhaust old.sum.exhaust)
  then show ?thesis
  proof cases
    case nothing
    then show ?thesis using assms
      by (auto simp: apply_plan_def plan_is_empty_def report_succeeded_def empty_apply_report_def Let_def)
  next
    case unobserved
    then show ?thesis using assms fresh
      by (auto simp: apply_plan_def plan_is_empty_def Let_def) (simp_all add: empty_apply_report_def)
  next
    case observed
    have len: "length expected = length (pl_changes p)" by (rule length_collect_effects[OF observed(2)])
    obtain prep u where pr: "prepare b m p (ao_allow_irreversible opts) resolve v = (prep, u)" by fastforce
    show ?thesis
    proof (cases prep)
      case (Inl e)
      then show ?thesis using assms fresh observed pr
        by (auto simp: apply_plan_def plan_is_empty_def Let_def split: if_splits) (simp_all add: empty_apply_report_def)
    next
      case (Inr q)
      then show ?thesis
        using assms fresh observed pr len
          apply_changes_outcome[of ut b m opts "zip (map pc_change (pl_changes p)) expected" q "empty_apply_report p" "[]" u res w']
        by (auto simp: apply_plan_def plan_is_empty_def Let_def split: if_splits sum.splits)
          (simp_all add: empty_apply_report_def report_succeeded_def)
    qed
  qed
qed

lemma apply_backend_outcome:
  assumes "apply_backend ut b m opts resolve w = (res, w')"
  shows "case res of
      Inr r \<Rightarrow> report_succeeded r \<and> ar_applied r = map pc_change (pl_changes (ar_plan r))
    | Inl f \<Rightarrow> failure_accounts [] (af_report f) (map pc_change (pl_changes (ar_plan (af_report f))))"
proof -
  have "failure_accounts [] (empty_apply_report plan_default)
      (map pc_change (pl_changes (ar_plan (empty_apply_report plan_default))))"
    by (simp add: failure_accounts_def empty_apply_report_def plan_default_def)
  then show ?thesis
    using assms
    by (auto simp: apply_backend_def empty_apply_failure_def split: prod.splits sum.splits
        dest!: apply_plan_outcome)
qed

end
