(* ===== verification/Frame.thy ===== *)
theory Frame
  imports Execute
begin

text \<open>
  What a change may touch. The locale \<open>framed\<close> extends \<open>quiet_reads\<close> with the contract of the
  mutating backend operations: each changes what can be seen of its own target only. Inside it:
  preflight touches nothing, executing or compensating a change touches the change's target, and the
  recording wrapper keeps the contract.
\<close>

section \<open>Targets\<close>

datatype target = TaskTarget task_path | FolderTarget folder_path

fun target_of :: "change \<Rightarrow> target" where
  "target_of (CreateFolder p) = FolderTarget p"
| "target_of (SetFolderSecurity p) = FolderTarget p"
| "target_of (CreateTask p) = TaskTarget p"
| "target_of (UpdateTask p) = TaskTarget p"
| "target_of (AdoptTask p) = TaskTarget p"
| "target_of (DeleteTask p) = TaskTarget p"
| "target_of (SetEnabled p _) = TaskTarget p"
| "target_of (SetTaskSecurity p) = TaskTarget p"

lemma same_target_iff: "same_target c d \<longleftrightarrow> target_of c = target_of d"
  by (cases c; cases d) (auto simp: same_target_def)

definition touches :: "('w \<Rightarrow> target \<Rightarrow> 's) \<Rightarrow> target \<Rightarrow> ('w, 'a) effect \<Rightarrow> bool" where
  "touches view t m \<longleftrightarrow> (\<forall>w u. u \<noteq> t \<longrightarrow> view (snd (m w)) u = view w u)"

lemma touches_quiet [intro]: "quiet view m \<Longrightarrow> touches view t m"
  by (simp add: touches_def quiet_def)

lemma touches_done [intro, simp]: "touches view t (done_with x)" "touches view t (fail_with e)"
  "touches view t (lift_result r)"
  by (auto intro!: touches_quiet)

lemma touchesD: "touches view t m \<Longrightarrow> m w = (r, w') \<Longrightarrow> u \<noteq> t \<Longrightarrow> view w' u = view w u"
  unfolding touches_def by (metis snd_conv)

lemma touchesI:
  "(\<And>w r w' u. m w = (r, w') \<Longrightarrow> u \<noteq> t \<Longrightarrow> view w' u = view w u) \<Longrightarrow> touches view t m"
  unfolding touches_def by (metis prod.collapse)

lemma touches_and_then [intro]:
  assumes "touches view t m" "\<And>x. touches view t (f x)"
  shows "touches view t (and_then m f)"
proof (rule touchesI)
  fix w r w' u
  assume run: "and_then m f w = (r, w')" and u: "u \<noteq> t"
  obtain q v where m: "m w = (q, v)" by fastforce
  show "view w' u = view w u"
  proof (cases q)
    case (Inl e)
    then show ?thesis using run m touchesD[OF assms(1) m u] by (simp add: and_then_def)
  next
    case (Inr x)
    then have "f x v = (r, w')" using run m by (simp add: and_then_def)
    then show ?thesis using touchesD[OF assms(1) m u] touchesD[OF assms(2) _ u] by simp
  qed
qed

lemma touches_both [intro]:
  assumes "touches view t m" "touches view t n" shows "touches view t (both m n)"
proof (rule touchesI)
  fix w r w' u
  assume run: "both m n w = (r, w')" and u: "u \<noteq> t"
  obtain q v where m: "m w = (q, v)" by fastforce
  obtain q' v' where n: "n v = (q', v')" by fastforce
  have "w' = v'" using run m n by (simp add: both_def)
  then show "view w' u = view w u" using touchesD[OF assms(1) m u] touchesD[OF assms(2) n u] by simp
qed

lemma touches_recorded_op:
  assumes "touches view t op"
  shows "touches (\<lambda>s. view (fst s)) t (recorded_op c phase name op)"
proof (rule touchesI)
  fix w r w' u
  assume run: "recorded_op c phase name op w = (r, w')" and u: "u \<noteq> t"
  obtain v j where w: "w = (v, j)" by fastforce
  obtain q v' where "op v = (q, v')" by fastforce
  with run w have "op v = (q, fst w')" by (auto simp: recorded_op_def Let_def)
  then show "view (fst w') u = view (fst w) u" using touchesD[OF assms _ u] w by simp
qed

lemma touches_with_journal:
  assumes "touches (\<lambda>s. view (fst s)) t run" "with_journal run w = (r, journal, w')" "u \<noteq> t"
  shows "view w' u = view w u"
  using assms(2) touchesD[OF assms(1) _ assms(3), of "(w, [])"]
  by (auto simp: with_journal_def split: prod.splits)

section \<open>The contract of a backend\<close>

locale framed = quiet_reads b view for b :: "'w backend" and view :: "'w \<Rightarrow> target \<Rightarrow> 's" +
  assumes touches_register: "touches view (TaskTarget p) (b_register b p d ro)"
    and touches_register_raw: "touches view (TaskTarget p) (b_register_raw b p x l ro)"
    and touches_create_folder: "touches view (FolderTarget f) (b_create_folder b f s)"
    and touches_delete_folder: "touches view (FolderTarget f) (b_delete_folder b f)"
    and touches_delete_task: "touches view (TaskTarget p) (b_delete_task b p)"
    and touches_set_enabled: "touches view (TaskTarget p) (b_set_enabled b p en)"
    and touches_set_task_security: "touches view (TaskTarget p) (b_set_task_security b p sd i)"
    and touches_set_folder_security: "touches view (FolderTarget f) (b_set_folder_security b f sd i)"
    and touches_stop_all: "touches view (TaskTarget p) (b_stop_all b p)"
begin

lemmas touches_mutations = touches_register touches_register_raw touches_create_folder
  touches_delete_folder touches_delete_task touches_set_enabled touches_set_task_security
  touches_set_folder_security touches_stop_all

lemma framed_recorded: "framed (recorded_backend c phase b) (\<lambda>s. view (fst s))"
  by (intro framed.intro quiet_reads_recorded framed_axioms.intro)
    (auto simp: recorded_backend_def intro!: touches_recorded_op touches_mutations)

lemma touches_execute_registration:
  "touches view (TaskTarget path) (fst (execute_registration ut b m path is_create opts prep))"
  unfolding execute_registration_def Let_def
  by (cases "find_managed_task m path") (auto intro!: touches_and_then touches_register quiet_get_task)

lemma touches_execute: "touches view (target_of c) (fst (execute_change ut b m c opts prep))"
  by (cases c) (auto intro!: touches_and_then touches_mutations touches_execute_registration)

lemma touches_restore_task: "touches view (TaskTarget path) (restore_task b path opts backup)"
  unfolding restore_task_def
  by (cases "tb_security backup") (auto intro!: touches_and_then touches_both touches_mutations)

lemma touches_compensate: "touches view (target_of c) (fst (compensate_change b c opts prep))"
  by (cases c)
    (auto intro!: touches_and_then touches_mutations touches_restore_task simp: compensate_task_def
      split: option.splits)

end

section \<open>Preflight is quiet\<close>

text \<open>A resolver reads its secret from somewhere else: resolving leaves the scheduler alone.\<close>

definition quiet_resolver :: "('w \<Rightarrow> 's) \<Rightarrow> 'w resolver \<Rightarrow> bool" where
  "quiet_resolver view resolve \<longleftrightarrow> (\<forall>path reference purpose. quiet view (resolve path reference purpose))"

lemma quiet_resolverD [intro]: "quiet_resolver view resolve \<Longrightarrow> quiet view (resolve path reference purpose)"
  by (simp add: quiet_resolver_def)

lemma quiet_no_credentials: "quiet_resolver view no_credentials"
  by (simp add: quiet_resolver_def no_credentials_def)

lemma quiet_unless_allowed [intro]: "quiet view m \<Longrightarrow> quiet view (unless_allowed allow m)"
  unfolding unless_allowed_def by (auto intro!: quiet_on_result)

context quiet_reads
begin

lemma quiet_prepare_task_backup:
  assumes "quiet_resolver view resolve"
  shows "quiet view (prepare_task_backup b m path allow resolve info prep)"
  unfolding prepare_task_backup_def Let_def using assms
  by (auto intro!: quiet_and_then quiet_get_task quiet_unless_allowed quiet_task_security)

lemma quiet_prepare_registration:
  assumes "quiet_resolver view resolve"
  shows "quiet view (prepare_registration b m allow resolve path prep)"
  unfolding prepare_registration_def using assms by (auto intro!: quiet_and_then)

lemma quiet_prepare_change:
  assumes "quiet_resolver view resolve"
  shows "quiet view (prepare_change b m allow resolve c prep)"
  using assms
  by (cases c) (auto simp: Let_def intro!: quiet_and_then quiet_get_task quiet_unless_allowed
      quiet_task_security quiet_folder_security quiet_prepare_task_backup quiet_prepare_registration)

lemma quiet_prepare_changes:
  assumes "quiet_resolver view resolve"
  shows "quiet view (prepare_changes b m allow resolve cs prep)"
proof (induction cs arbitrary: prep)
  case (Cons c cs)
  then show ?case using quiet_prepare_change[OF assms] by (auto intro!: quiet_and_then)
qed simp

lemma quiet_prepare:
  "quiet_resolver view resolve \<Longrightarrow> quiet view (prepare b m p allow resolve)"
  unfolding prepare_def by (rule quiet_prepare_changes)

end

section \<open>Recording is transparent\<close>

lemma transparent_both [intro]:
  assumes "transparent m n" "transparent m' n'" shows "transparent (both m m') (both n n')"
proof (rule transparentI)
  fix w r w'
  assume r: "both n n' w = (r, w')"
  obtain q v where n: "n w = (q, v)" by fastforce
  obtain q' v' where n': "n' v = (q', v')" by fastforce
  obtain js where "\<And>j. m (w, j) = (q, (v, j @ js))" using transparentE[OF assms(1) n] by blast
  moreover obtain ks where "\<And>j. m' (v, j) = (q', (v', j @ ks))" using transparentE[OF assms(2) n'] by blast
  ultimately show "\<exists>js. \<forall>j. both m m' (w, j) = (r, (w', j @ js))"
    using r n n' by (auto simp: both_def)
qed

context simulation
begin

lemmas simulates = sim_get_task sim_list_tasks sim_list_folders sim_task_security sim_folder_security
  sim_register sim_register_raw sim_create_folder sim_delete_folder sim_delete_task sim_set_enabled
  sim_set_task_security sim_set_folder_security sim_stop_all

lemma transparent_execute:
  "transparent (fst (execute_change ut outer m c opts prep)) (fst (execute_change ut inner m c opts prep))
    \<and> snd (execute_change ut outer m c opts prep) = snd (execute_change ut inner m c opts prep)"
  by (cases c) (auto simp: execute_registration_def Let_def split: sum.splits
      intro!: transparent_and_then simulates)

lemma transparent_restore_task: "transparent (restore_task outer path opts backup) (restore_task inner path opts backup)"
  unfolding restore_task_def
  by (cases "tb_security backup") (auto intro!: transparent_and_then transparent_both simulates)

lemma transparent_compensate:
  "transparent (fst (compensate_change outer c opts prep)) (fst (compensate_change inner c opts prep))
    \<and> snd (compensate_change outer c opts prep) = snd (compensate_change inner c opts prep)"
  by (cases c) (auto simp: compensate_task_def split: option.splits
      intro!: transparent_and_then simulates transparent_restore_task)

end

end
