(* ===== verification/Fake.thy ===== *)
theory Fake
  imports Frame
begin

text \<open>
  The in-memory scheduler of \<open>reconcile/fault_tests.rs\<close>: tasks and folders in ordered maps, injected
  faults before or after an operation. It satisfies the contract \<open>framed\<close>, so everything proved from
  the contract holds of it. The fixture's \<open>drift\<close> field (a foreign writer between two calls) is left
  unset here, the Task XML codec it calls is a parameter.
\<close>

section \<open>The fixture\<close>

record fake_state =
  fs_tasks :: "(task_path, task_definition) btree"
  fs_folders :: "(folder_path, security_descriptor) btree"

record fault =
  fl_operation :: string
  fl_occurrence :: nat
  fl_after :: bool

record registration_contract =
  rc_mode :: registration_mode
  rc_suppress_triggers :: bool
  rc_preserve_acl :: bool
  rc_has_password :: bool
  rc_raw :: bool

record fake =
  fk_state :: fake_state
  fk_calls :: "string list"
  fk_faults :: "fault list"
  fk_registrations :: "registration_contract list"
  fk_folder_security_writes :: "security_information list"

record xml_codec =
  xc_to_string :: "task_definition \<Rightarrow> string result"
  xc_parse :: "string \<Rightarrow> task_snapshot result"
  xc_definition :: "raw_task_xml \<Rightarrow> task_definition result"

definition acl :: security_descriptor where
  "acl = SecurityDescriptor ''D:(A;;GA;;;SY)''"

definition missing :: error where
  "missing = new_error NotFound [Lit ''fixture object absent'']"

definition fake_default :: fake where
  "fake_default = \<lparr>fk_state = \<lparr>fs_tasks = [], fs_folders = []\<rparr>, fk_calls = [], fk_faults = [],
     fk_registrations = [], fk_folder_security_writes = []\<rparr>"

section \<open>Operations\<close>

definition record_registration :: "registration_options \<Rightarrow> bool \<Rightarrow> fake \<Rightarrow> fake" where
  "record_registration opts raw w =
     w\<lparr>fk_registrations := fk_registrations w @
       [\<lparr>rc_mode = ro_mode opts, rc_suppress_triggers = ro_ignore_registration_triggers opts,
         rc_preserve_acl = ro_dont_add_principal_ace opts, rc_has_password = ro_password opts \<noteq> None,
         rc_raw = raw\<rparr>]\<rparr>"

fun remove_fault :: "(fault \<Rightarrow> bool) \<Rightarrow> fault list \<Rightarrow> fault list" where
  "remove_fault P [] = []"
| "remove_fault P (f # fs) = (if P f then fs else f # remove_fault P fs)"

definition invoke :: "string \<Rightarrow> (fake_state \<Rightarrow> 'a result \<times> fake_state) \<Rightarrow> (fake, 'a) effect" where
  "invoke name operation w =
     (let calls = fk_calls w @ [name];
          occurrence = count_list calls name;
          hit = (\<lambda>f. fl_operation f = name \<and> fl_occurrence f = occurrence);
          fault = find hit (fk_faults w);
          w = w\<lparr>fk_calls := calls, fk_faults := remove_fault hit (fk_faults w)\<rparr>
      in case fault of
           Some f \<Rightarrow>
             if \<not> fl_after f then (Inl (new_error AccessDenied [Lit ''injected before operation'']), w)
             else (Inl (new_error SchedulerUnavailable [Lit ''injected response loss'']),
                   w\<lparr>fk_state := snd (operation (fk_state w))\<rparr>)
         | None \<Rightarrow> (case operation (fk_state w) of (r, st) \<Rightarrow> (r, w\<lparr>fk_state := st\<rparr>)))"

definition registered :: "xml_codec \<Rightarrow> task_path \<Rightarrow> task_definition \<Rightarrow> registered_task result" where
  "registered x path d =
     bind_ok (xc_to_string x (d\<lparr>td_registration := (td_registration d)\<lparr>ri_security_descriptor := None\<rparr>\<rparr>)) (\<lambda>text.
     bind_ok (xc_parse x text) (\<lambda>snapshot.
       Inr \<lparr>rg_path = path, rg_state = Ready, rg_enabled = ts_enabled (td_settings d), rg_last_result = 0,
            rg_missed_runs = 0, rg_last_run = None, rg_next_run = None, rg_snapshot = snapshot\<rparr>))"

text \<open>Reading operations leave the state; \<open>change_task\<close> updates the entry of a task that must exist.\<close>

definition reading :: "(fake_state \<Rightarrow> 'a result) \<Rightarrow> fake_state \<Rightarrow> 'a result \<times> fake_state" where
  "reading f st = (f st, st)"

definition with_acl :: "task_definition \<Rightarrow> task_definition" where
  "with_acl d = d\<lparr>td_registration := (td_registration d)\<lparr>ri_security_descriptor :=
     (case ri_security_descriptor (td_registration d) of None \<Rightarrow> Some acl | Some s \<Rightarrow> Some s)\<rparr>\<rparr>"

definition insert_task :: "task_path \<Rightarrow> task_definition \<Rightarrow> fake_state \<Rightarrow> fake_state" where
  "insert_task path d st = st\<lparr>fs_tasks := btree_insert path d (fs_tasks st)\<rparr>"

definition change_task :: "task_path \<Rightarrow> (task_definition \<Rightarrow> task_definition) \<Rightarrow> fake_state \<Rightarrow> unit result \<times> fake_state" where
  "change_task path f st =
     (case btree_get (fs_tasks st) path of
        None \<Rightarrow> (Inl missing, st)
      | Some d \<Rightarrow> (Inr (), insert_task path (f d) st))"

definition fake_backend :: "xml_codec \<Rightarrow> bool option \<Rightarrow> fake backend" where
  "fake_backend x registered_engine =
     \<lparr>b_get_task = \<lambda>path. invoke ''get_task'' (reading (\<lambda>st.
        bind_ok (ok_or missing (btree_get (fs_tasks st) path)) (registered x path))),
      b_list_tasks = \<lambda>path o1. invoke ''list_tasks'' (reading (\<lambda>st.
        if \<not> btree_contains (fs_folders st) path then Inl missing
        else map_ok (\<lambda>(p, d). registered x p d) (fs_tasks st))),
      b_list_folders = \<lambda>path o1. invoke ''list_folders'' (reading (\<lambda>st.
        if \<not> btree_contains (fs_folders st) path then Inl missing
        else Inr (map (\<lambda>f. \<lparr>fo_path = f, fo_security_descriptor = None\<rparr>)
          (filter (\<lambda>f. f \<noteq> path) (map fst (fs_folders st)))))),
      b_task_security = \<lambda>path i. invoke ''task_security'' (reading (\<lambda>st.
        bind_ok (ok_or missing (btree_get (fs_tasks st) path)) (\<lambda>d.
          Inr (case ri_security_descriptor (td_registration d) of None \<Rightarrow> acl | Some s \<Rightarrow> s)))),
      b_folder_security = \<lambda>path i. invoke ''folder_security'' (reading (\<lambda>st.
        ok_or missing (btree_get (fs_folders st) path))),
      b_register = \<lambda>path d opts w. invoke ''register'' (\<lambda>st.
        let d = (case registered_engine of None \<Rightarrow> d | Some engine \<Rightarrow>
              d\<lparr>td_settings := (td_settings d)\<lparr>ts_use_unified_scheduling_engine := engine\<rparr>\<rparr>)
        in (Inr (), insert_task path (with_acl d) st)) (record_registration opts False w),
      b_register_raw = \<lambda>path raw l opts w. invoke ''register_raw'' (\<lambda>st.
        case xc_definition x raw of
          Inl e \<Rightarrow> (Inl e, st)
        | Inr d \<Rightarrow> (Inr (), insert_task path (with_acl d) st)) (record_registration opts True w),
      b_create_folder = \<lambda>path security. invoke ''create_folder'' (\<lambda>st.
        (Inr \<lparr>fo_path = path, fo_security_descriptor = None\<rparr>,
         st\<lparr>fs_folders := btree_insert path (case security of None \<Rightarrow> acl | Some s \<Rightarrow> s) (fs_folders st)\<rparr>)),
      b_delete_folder = \<lambda>path. invoke ''delete_folder'' (\<lambda>st.
        if list_ex (\<lambda>t. task_folder (fst t) = path) (fs_tasks st) then
          (Inl (new_error Conflict [Lit ''folder not empty'']), st)
        else if btree_contains (fs_folders st) path then
          (Inr (), st\<lparr>fs_folders := btree_remove path (fs_folders st)\<rparr>)
        else (Inl missing, st)),
      b_delete_task = \<lambda>path. invoke ''delete_task'' (\<lambda>st.
        if btree_contains (fs_tasks st) path then
          (Inr (), st\<lparr>fs_tasks := btree_remove path (fs_tasks st)\<rparr>)
        else (Inl missing, st)),
      b_set_enabled = \<lambda>path enabled. invoke ''set_enabled''
        (change_task path (\<lambda>d. d\<lparr>td_settings := (td_settings d)\<lparr>ts_enabled := enabled\<rparr>\<rparr>)),
      b_set_task_security = \<lambda>path s i. invoke ''set_task_security''
        (change_task path (\<lambda>d. d\<lparr>td_registration := (td_registration d)\<lparr>ri_security_descriptor := Some s\<rparr>\<rparr>)),
      b_set_folder_security = \<lambda>path s i w. invoke ''set_folder_security'' (\<lambda>st.
        if btree_contains (fs_folders st) path then
          (Inr (), st\<lparr>fs_folders := btree_insert path s (fs_folders st)\<rparr>)
        else (Inl missing, st)) (w\<lparr>fk_folder_security_writes := fk_folder_security_writes w @ [i]\<rparr>),
      b_stop_all = \<lambda>path. invoke ''stop_all'' (\<lambda>st. (Inr (), st))\<rparr>"

section \<open>The contract\<close>

definition state_view :: "fake_state \<Rightarrow> target \<Rightarrow> task_definition option \<times> security_descriptor option" where
  "state_view st t = (case t of
     TaskTarget p \<Rightarrow> (btree_get (fs_tasks st) p, None)
   | FolderTarget f \<Rightarrow> (None, btree_get (fs_folders st) f))"

definition fake_view :: "fake \<Rightarrow> target \<Rightarrow> task_definition option \<times> security_descriptor option" where
  "fake_view w = state_view (fk_state w)"

lemma invoke_state: "fk_state (snd (invoke name operation w)) \<in> {fk_state w, snd (operation (fk_state w))}"
  by (auto simp: invoke_def Let_def split: option.splits if_splits prod.splits)

lemma quiet_invoke_reading: "quiet fake_view (invoke name (reading f))"
  using invoke_state[of name "reading f"] by (auto simp: quiet_def fake_view_def reading_def)

lemma touches_invoke:
  assumes "\<And>st u. u \<noteq> t \<Longrightarrow> state_view (snd (operation st)) u = state_view st u"
  shows "touches fake_view t (invoke name operation)"
  unfolding touches_def fake_view_def using assms invoke_state[of name operation]
  by (metis (no_types, lifting) empty_iff insert_iff)

lemma touches_after:
  assumes "touches fake_view t m" "\<And>w. fk_state (f w) = fk_state w"
  shows "touches fake_view t (\<lambda>w. m (f w))"
  using assms by (simp add: touches_def fake_view_def)

lemma state_view_update:
  "u \<noteq> TaskTarget p \<Longrightarrow> state_view (st\<lparr>fs_tasks := btree_insert p d (fs_tasks st)\<rparr>) u = state_view st u"
  "u \<noteq> TaskTarget p \<Longrightarrow> state_view (st\<lparr>fs_tasks := btree_remove p (fs_tasks st)\<rparr>) u = state_view st u"
  "u \<noteq> FolderTarget f \<Longrightarrow> state_view (st\<lparr>fs_folders := btree_insert f s (fs_folders st)\<rparr>) u = state_view st u"
  "u \<noteq> FolderTarget f \<Longrightarrow> state_view (st\<lparr>fs_folders := btree_remove f (fs_folders st)\<rparr>) u = state_view st u"
  by (cases u; simp add: state_view_def btree_get_insert btree_get_remove)+

lemma state_view_change_task:
  "u \<noteq> TaskTarget p \<Longrightarrow> state_view (snd (change_task p f st)) u = state_view st u"
  by (auto simp: change_task_def insert_task_def state_view_update split: option.split)

lemma fk_state_record_registration: "fk_state (record_registration ro raw w) = fk_state w"
  by (simp add: record_registration_def)

interpretation fake: framed "fake_backend x engine" fake_view for x engine
  by unfold_locales
    (auto simp: fake_backend_def insert_task_def fk_state_record_registration state_view_update state_view_change_task
      Let_def split: sum.splits
      intro!: quiet_invoke_reading touches_invoke touches_after[where f = "record_registration ro raw" for ro raw]
        touches_after[where f = "\<lambda>w. w\<lparr>fk_folder_security_writes := fk_folder_security_writes w @ [i]\<rparr>" for i])

end
