(* ===== verification/Safety.thy ===== *)
theory Safety
  imports Apply Fake
begin

text \<open>
  The effects of a whole run, from the contract \<open>framed\<close> of the backend: what can be seen of the
  scheduler changes only at the targets of planned changes, and every such change has been announced
  in the journal first. Together with the ownership safety of planning this bounds everything
  \<open>apply_backend\<close> does, compensation included.
\<close>

section \<open>Checks are quiet\<close>

definition quiet_check :: "('w \<Rightarrow> 's) \<Rightarrow> 'w check \<Rightarrow> bool" where
  "quiet_check view k \<longleftrightarrow> (\<forall>w. view (snd (k w)) = view w)"

lemma quiet_check_intros [intro, simp]: "quiet_check view (answer v)"
  by (simp add: quiet_check_def answer_def)

lemma quiet_and_check [intro]: "quiet_check view k \<Longrightarrow> quiet_check view (and_check v k)"
  by (auto simp: quiet_check_def and_check_def)

lemma quiet_reads_equivalent [intro]: "quiet view m \<Longrightarrow> quiet_check view (reads_equivalent m d)"
  by (auto simp: quiet_def quiet_check_def reads_equivalent_def split: prod.splits sum.splits) (metis snd_conv)+

context quiet_reads
begin

lemma quiet_expected_after: "quiet_check view (expected_after ut b before after m c)"
  unfolding expected_after_def task_security_matches_def Let_def
  by (auto split: observed.splits change.splits option.splits sum.splits
      intro!: quiet_and_check quiet_reads_equivalent quiet_task_security quiet_folder_security)

end

section \<open>Accounted effects\<close>

definition attempted :: "apply_report \<Rightarrow> change \<Rightarrow> bool" where
  "attempted r c \<longleftrightarrow> (\<exists>e \<in> set (ar_journal r). je_change e = c \<and> je_outcome e = Attempted
     \<and> je_phase e \<in> {Stop, Mutation, Rollback})"

definition accounted ::
  "('w \<Rightarrow> target \<Rightarrow> 's) \<Rightarrow> change set \<Rightarrow> apply_report \<Rightarrow> 'w \<Rightarrow> apply_report \<Rightarrow> 'w \<Rightarrow> bool" where
  "accounted view cs r w r' w' \<longleftrightarrow> set (ar_journal r) \<subseteq> set (ar_journal r')
     \<and> (\<forall>u. view w' u \<noteq> view w u \<longrightarrow> (\<exists>c \<in> cs. target_of c = u \<and> attempted r' c))"

lemma attempted_mono: "set (ar_journal r) \<subseteq> set (ar_journal r') \<Longrightarrow> attempted r c \<Longrightarrow> attempted r' c"
  by (auto simp: attempted_def)

lemma accounted_trans:
  assumes "accounted view cs r w r1 w1" "accounted view ds r1 w1 r2 w2"
  shows "accounted view (cs \<union> ds) r w r2 w2"
  unfolding accounted_def
proof (intro conjI allI impI)
  fix u
  assume "view w2 u \<noteq> view w u"
  then consider "view w1 u \<noteq> view w u" | "view w2 u \<noteq> view w1 u" by metis
  then show "\<exists>c \<in> cs \<union> ds. target_of c = u \<and> attempted r2 c"
    using assms attempted_mono[of r1 r2] by cases (unfold accounted_def, blast+)
qed (use assms in \<open>auto simp: accounted_def\<close>)

lemma accounted_mono: "accounted view cs r w r' w' \<Longrightarrow> cs \<subseteq> ds \<Longrightarrow> accounted view ds r w r' w'"
  unfolding accounted_def by blast

lemma accounted_quiet:
  "view w' = view w \<Longrightarrow> set (ar_journal r) \<subseteq> set (ar_journal r') \<Longrightarrow> accounted view cs r w r' w'"
  by (simp add: accounted_def)

lemma accounted_one:
  "(\<And>u. u \<noteq> target_of c \<Longrightarrow> view w' u = view w u) \<Longrightarrow> set (ar_journal r) \<subseteq> set (ar_journal r')
     \<Longrightarrow> attempted r' c \<Longrightarrow> accounted view {c} r w r' w'"
  unfolding accounted_def by (metis singletonI)

lemma journal_fields [simp]:
  "ar_journal (extend_journal js r) = ar_journal r @ js"
  "ar_journal (note_irreversible p r) = ar_journal r"
  "ar_journal (record_entry c ph out e r) = ar_journal r @
     [\<lparr>je_operation = phase_name ph, je_change = c, je_phase = ph, je_outcome = out, je_error = e\<rparr>]"
  by (simp_all add: extend_journal_def note_irreversible_def record_entry_def split: option.split)

text \<open>The report a result carries.\<close>

fun report_of :: "apply_result \<Rightarrow> apply_report" where
  "report_of (Inl f) = af_report f"
| "report_of (Inr r) = r"

context framed
begin

lemma frame_mutation:
  assumes "execute_change ut (recorded_backend c phase b) m c opts prep = (run, prep')"
    and "with_journal run w = (res, js, w')" and "u \<noteq> target_of c"
  shows "view w' u = view w u"
proof -
  have "touches (\<lambda>s. view (fst s)) (target_of c) run"
    using framed.touches_execute[OF framed_recorded, of c ut c phase m opts prep] assms(1) by simp
  from touches_with_journal[OF this assms(2,3)] show ?thesis .
qed

lemma frame_compensation:
  assumes "compensate_change (recorded_backend c phase b) c opts prep = (run, prep')"
    and "with_journal run w = (res, js, w')" and "u \<noteq> target_of c"
  shows "view w' u = view w u"
proof -
  have "touches (\<lambda>s. view (fst s)) (target_of c) run"
    using framed.touches_compensate[OF framed_recorded, of c c phase opts prep] assms(1) by simp
  from touches_with_journal[OF this assms(2,3)] show ?thesis .
qed

lemma observe_view: "observe b m c allow w = (res, w') \<Longrightarrow> view w' = view w"
  by (rule quietD[OF quiet_observe])

lemma undo_change_accounted:
  assumes "undo_change b m opts entry prep report w = (res, prep', report', w')"
    and "attempted report (un_change entry)"
  shows "accounted view {un_change entry} report w report' w'"
proof -
  define c where "c = un_change entry"
  define allow where "allow = ao_allow_irreversible opts"
  obtain seen w1 where o1: "observe b m c allow w = (seen, w1)" by fastforce
  obtain run p where comp: "compensate_change (recorded_backend c Rollback b) c opts prep = (run, p)" by fastforce
  obtain r js w2 where run: "with_journal run w1 = (r, js, w2)" using prod_cases3 by blast
  obtain seen2 w3 where o2: "observe b m c allow w2 = (seen2, w3)" by fastforce
  have "w' \<in> {w1, w2, w3}" "set (ar_journal report) \<subseteq> set (ar_journal report')"
    using assms(1) o1 comp run o2
    by (auto simp: undo_change_def Let_def c_def allow_def split: sum.splits if_splits)
  moreover have "view w1 = view w" "view w3 = view w2" using o1 o2 by (simp_all add: observe_view)
  moreover have "view w2 u = view w1 u" if "u \<noteq> target_of c" for u
    by (rule frame_compensation[OF comp run that])
  ultimately show ?thesis
    using assms(2) attempted_mono by (intro accounted_one) (auto simp: c_def)
qed

lemma compensate_entry_accounted:
  assumes "compensate_entry b m opts entry prep report w = (prep', report', w')"
  shows "accounted view {un_change entry} report w report' w'"
proof -
  let ?c = "un_change entry"
  let ?r = "record_entry ?c Rollback Attempted None report"
  obtain res p r v where u: "undo_change b m opts entry prep ?r w = (res, p, r, v)" using prod_cases4 by blast
  have "accounted view {?c} ?r w r v" by (rule undo_change_accounted[OF u]) (auto simp: attempted_def)
  moreover have "v = w'" "set (ar_journal r) \<subseteq> set (ar_journal report')"
    using assms u by (auto simp: compensate_entry_def Let_def split: sum.splits)
  ultimately show ?thesis
    using attempted_mono[of r report'] by (auto simp: accounted_def)
qed

lemma compensate_entries_accounted:
  "compensate_entries b m opts entries prep report w = (prep', report', w')
     \<Longrightarrow> accounted view (un_change ` set entries) report w report' w'"
proof (induction entries arbitrary: prep report w)
  case (Cons entry entries)
  obtain p r v where e: "compensate_entry b m opts entry prep report w = (p, r, v)" using prod_cases3 by blast
  from accounted_trans[OF compensate_entry_accounted[OF e] Cons.IH] Cons.prems e show ?case by simp
qed (simp add: accounted_quiet)

lemma check_precondition_accounted:
  "check_precondition b m opts c before report w = (e, report', w') \<Longrightarrow> accounted view cs report w report' w'"
  by (rule accounted_quiet) (auto simp: check_precondition_def Let_def observe_view split: prod.splits)

lemma stop_change_accounted:
  assumes "stop_change b opts c report w = (e, report', w')"
  shows "accounted view {c} report w report' w'"
proof (cases "ao_stop_running opts \<and> stopped_task c \<noteq> None")
  case True
  then obtain path where path: "stopped_task c = Some path" and "ao_stop_running opts" by auto
  then obtain res where run: "b_stop_all b path w = (res, w')"
    and journal: "attempted report' c" "set (ar_journal report) \<subseteq> set (ar_journal report')"
    using assms by (auto simp: stop_change_def Let_def attempted_def split: prod.splits intro!: that)
  have "target_of c = TaskTarget path" using path by (cases c) auto
  then have "view w' u = view w u" if "u \<noteq> target_of c" for u
    using touchesD[OF touches_stop_all run] that by simp
  then show ?thesis using journal by (intro accounted_one)
next
  case False
  then show ?thesis
    using assms by (intro accounted_quiet) (auto simp: stop_change_def split: bool.splits option.splits)
qed

lemma mutate_change_accounted:
  assumes "mutate_change ut b m opts c prep report w = (e, prep', report', w')"
  shows "accounted view {c} report w report' w'"
proof -
  obtain run p where ex: "execute_change ut (recorded_backend c Mutation b) m c opts prep = (run, p)" by fastforce
  obtain r js v where run: "with_journal run w = (r, js, v)" using prod_cases3 by blast
  have "v = w'" "attempted report' c" "set (ar_journal report) \<subseteq> set (ar_journal report')"
    using assms ex run by (auto simp: mutate_change_def Let_def attempted_def)
  then show ?thesis using frame_mutation[OF ex run] by (intro accounted_one) auto
qed

lemma verify_change_accounted:
  assumes "verify_change ut b m opts c before failed report w = (after, conflict, report', w')"
  shows "accounted view cs report w report' w'"
proof -
  have check: "view v' = view v" if "expected_after ut b before a m c v = (ok, v')" for v v' a ok
    using quiet_expected_after[of ut before a m c] that by (auto simp: quiet_check_def dest: spec[of _ v])
  show ?thesis
    using assms
    by (intro accounted_quiet)
      (auto simp: verify_change_def unresolved_change_def Let_def observe_view check
        split: prod.splits sum.splits if_splits)
qed

lemma apply_change_accounted:
  assumes "apply_change ut b m opts c before prep report w = (cause, after, prep', report', w')"
  shows "accounted view {c} report w report' w'"
  using assms
proof (cases rule: apply_change_cases)
  case (precondition e)
  then show ?thesis by (auto intro: check_precondition_accounted)
next
  case (stop r1 w1 e)
  from accounted_trans[OF check_precondition_accounted[OF stop(1), of "{c}"] stop_change_accounted[OF stop(2)]]
  show ?thesis by simp
next
  case (mutation r1 w1 r2 w2 failure r3 w3 conflict)
  from accounted_trans[OF accounted_trans[OF check_precondition_accounted[OF mutation(1), of "{c}"]
      stop_change_accounted[OF mutation(2)]] accounted_trans[OF mutate_change_accounted[OF mutation(3)]
      verify_change_accounted[OF mutation(4), of "{c}"]]]
  show ?thesis by simp
qed

lemma apply_changes_accounted:
  "apply_changes ut b m opts todo prep report undo w = (res, w')
     \<Longrightarrow> accounted view (fst ` set todo \<union> un_change ` set undo) report w (report_of res) w'"
proof (induction "length todo" arbitrary: todo prep report undo w)
  case 0
  then show ?case by (auto intro!: accounted_quiet)
next
  case (Suc n)
  then obtain c before later where todo: "todo = (c, before) # later" by (cases todo) auto
  note prems = Suc.prems[unfolded todo]
  obtain cause after p r v where step: "apply_change ut b m opts c before prep report w = (cause, after, p, r, v)"
    using prod_cases5 by blast
  note first = apply_change_accounted[OF step]
  define later' where "later' = (case after of None \<Rightarrow> later | Some a \<Rightarrow> expect_after c a later)"
  define undo' where "undo' = (case after of None \<Rightarrow> undo
      | Some a \<Rightarrow> undo @ [\<lparr>un_change = c, un_before = before, un_after = a\<rparr>])"
  have targets: "fst ` set later' = fst ` set later" "un_change ` set undo' \<subseteq> insert c (un_change ` set undo)"
    unfolding later'_def undo'_def by (auto split: option.splits simp flip: set_map)
  have "accounted view (fst ` set later' \<union> un_change ` set undo') r v (report_of res) w'"
  proof (cases cause)
    case None
    have "apply_changes ut b m opts later' p r undo' v = (res, w')"
      using prems step None unfolding later'_def undo'_def by simp
    moreover have "n = length later'"
      using Suc.hyps(2) todo by (auto simp: later'_def expect_after_def split: option.split)
    ultimately show ?thesis using Suc.hyps(1) by blast
  next
    case (Some e)
    obtain p' r' v' where comp: "compensate_observed b m opts p r undo' v = (p', r', v')"
      using prod_cases3 by blast
    have "res = Inl \<lparr>af_cause = e, af_report = r'\<rparr>" "w' = v'"
      using prems step Some comp unfolding undo'_def by simp_all
    then show ?thesis
      using compensate_entries_accounted[OF comp[unfolded compensate_observed_def]]
      by (auto elim!: accounted_mono)
  qed
  from accounted_trans[OF first this] show ?case
    by (rule accounted_mono) (use targets todo in auto)
qed

lemma apply_plan_accounted:
  assumes "quiet_resolver view resolve" and "apply_plan ut b m opts resolve state p w = (res, w')"
  shows "accounted view (pc_change ` set (pl_changes p)) (empty_apply_report p) w (report_of res) w'"
proof -
  let ?observe = "collect_effects (\<lambda>c. observe b m (pc_change c) (ao_allow_irreversible opts)) (pl_changes p)"
  obtain expected v where o: "?observe w = (expected, v)" by fastforce
  have v: "view v = view w" by (rule quietD[OF quiet_collect[OF quiet_observe] o])
  obtain prep u where pr: "prepare b m p (ao_allow_irreversible opts) resolve v = (prep, u)" by fastforce
  have u: "view u = view w" using quietD[OF quiet_prepare[OF assms(1)] pr] v by simp
  show ?thesis
  proof (cases "\<exists>obs q. pl_changes p \<noteq> [] \<and> expected = Inr obs \<and> prep = Inr q \<and>
      apply_changes ut b m opts (zip (map pc_change (pl_changes p)) obs) q (empty_apply_report p) [] u = (res, w')")
    case True
    then obtain obs q where run: "apply_changes ut b m opts (zip (map pc_change (pl_changes p)) obs) q
        (empty_apply_report p) [] u = (res, w')" by blast
    have "fst ` set (zip (map pc_change (pl_changes p)) obs) \<subseteq> pc_change ` set (pl_changes p)"
      by (auto dest!: set_zip_leftD)
    then have "accounted view (pc_change ` set (pl_changes p)) (empty_apply_report p) u (report_of res) w'"
      using apply_changes_accounted[OF run] by (auto elim!: accounted_mono)
    then show ?thesis using u by (simp add: accounted_def)
  next
    case False
    have "view w' = view w \<and> ar_journal (report_of res) = []"
      using False assms(2) o pr u v
      by (auto simp: apply_plan_def plan_is_empty_def empty_apply_report_def Let_def split: sum.splits if_splits)
    then show ?thesis by (intro accounted_quiet) (auto simp: empty_apply_report_def)
  qed
qed

end

section \<open>A run on the in-memory scheduler\<close>

definition sample_codec :: xml_codec where
  "sample_codec = \<lparr>xc_to_string = \<lambda>d. Inr ''x'',
     xc_parse = \<lambda>text. Inr \<lparr>snap_raw = \<lparr>raw_bytes = text, raw_encoding = Utf8\<rparr>,
       snap_typed = Inr (owned_definition no_uuid sample_manifest sample_task)\<rparr>,
     xc_definition = \<lambda>raw. Inr (owned_definition no_uuid sample_manifest sample_task)\<rparr>"

abbreviation sample_run :: "apply_options \<Rightarrow> fake \<Rightarrow> apply_result \<times> fake" where
  "sample_run opts w \<equiv> apply_backend no_uuid (fake_backend sample_codec None) sample_manifest opts no_credentials w"

lemma sample_run_changes:
  "(case sample_run apply_options_default fake_default of (res, w') \<Rightarrow>
     is_ok res \<and> fst (fake_view w' (TaskTarget sample_path)) \<noteq> None)"
  by code_simp

definition folder_entry :: undo_entry where
  "folder_entry = \<lparr>un_change = CreateFolder sample_namespace, un_before = Missing,
     un_after = ObservedFolder (Some acl)\<rparr>"

definition folder_world :: "security_descriptor \<Rightarrow> fake" where
  "folder_world s = fake_default\<lparr>fk_state := \<lparr>fs_tasks = [], fs_folders = [(sample_namespace, s)]\<rparr>\<rparr>"

section \<open>Properties\<close>

text \<open>C1. Nothing happens behind the journal or outside the plan. With a backend whose reads change
  nothing and whose mutations change only their target, whenever a run of \<open>apply_backend\<close>, however it
  ends, changes what can be seen at some task or folder, that target belongs to a change of the plan,
  which ownership safety permits for the inspected state (owned, or absent before, or adoption or
  pruning was asked for), and the report's journal has announced the attempt.\<close>

theorem apply_effects_permitted:
  assumes "framed b view" and "quiet_resolver view resolve"
    and "apply_backend ut b m opts resolve w = (res, w')" and "view w' t \<noteq> view w t"
  shows "\<exists>state v c. inspect_backend ut b m w = (Inr state, v) \<and> target_of c = t
    \<and> change_permitted m state \<lparr>po_prune = ao_prune opts, po_adopt = ao_adopt opts\<rparr> c
    \<and> c \<in> pc_change ` set (pl_changes (ar_plan (report_of res))) \<and> attempted (report_of res) c"
proof -
  have reads: "quiet_reads b view" using assms(1) by (simp add: framed_def)
  obtain inspected v where i: "inspect_backend ut b m w = (inspected, v)" by fastforce
  have v: "view v = view w" by (rule quietD[OF quiet_reads.quiet_inspect[OF reads] i])
  obtain state p q where run: "inspected = Inr state"
      "plan_state ut m state \<lparr>po_prune = ao_prune opts, po_adopt = ao_adopt opts\<rparr> = Inr p"
      "q = (if ao_stop_running opts then with_stop_running p else p)"
      "apply_plan ut b m opts resolve state q v = (res, w')"
    using assms(3,4) i v by (auto simp: apply_backend_def split: sum.splits)
  have q: "pl_changes q = pl_changes p" using run(3) by (simp add: with_stop_running_def)
  from framed.apply_plan_accounted[OF assms(1,2) run(4)] assms(4) v
  obtain c where c: "c \<in> pc_change ` set (pl_changes q)" "target_of c = t" "attempted (report_of res) c"
    unfolding accounted_def by metis
  have "ar_plan (report_of res) = q"
    using apply_plan_outcome[OF run(4)] by (cases res) auto
  moreover have "change_permitted m state \<lparr>po_prune = ao_prune opts, po_adopt = ao_adopt opts\<rparr> c"
    using c(1) q change_permitted_member[OF run(2)] by auto
  ultimately show ?thesis using c i run(1) by blast
qed

lemma apply_effects_permitted_witness:
  "\<exists>res w' state c. sample_run apply_options_default fake_default = (res, w') \<and> target_of c = TaskTarget sample_path
     \<and> change_permitted sample_manifest state \<lparr>po_prune = False, po_adopt = False\<rparr> c \<and> attempted (report_of res) c"
proof -
  obtain res w' where run: "sample_run apply_options_default fake_default = (res, w')" by fastforce
  have "fake_view w' (TaskTarget sample_path) \<noteq> fake_view fake_default (TaskTarget sample_path)"
    using sample_run_changes run by (auto simp: fake_view_def state_view_def fake_default_def btree_get_def)
  from apply_effects_permitted[OF fake.framed_axioms quiet_no_credentials run this]
  show ?thesis using run by (auto simp: apply_options_default_def)
qed

text \<open>C2. What the result of \<open>apply_backend\<close> accounts for. On success every planned change was applied, in
  plan order, and the report counts as succeeded. On failure it does not; the applied changes are an
  initial part of the plan, each of them was either rolled back or is reported as a rollback failure,
  in reverse order of application, and apart from those failures at most the change after the applied
  ones is left unresolved.\<close>

theorem apply_result_accounts:
  "case fst (apply_backend ut b m opts resolve w) of
     Inr r \<Rightarrow> report_succeeded r \<and> ar_applied r = map pc_change (pl_changes (ar_plan r))
   | Inl f \<Rightarrow> (let r = af_report f in \<not> report_succeeded r \<and>
       (\<exists>rest. map pc_change (pl_changes (ar_plan r)) = ar_applied r @ rest
         \<and> rev (ar_applied r) \<in> shuffles (ar_rolled_back r) (map rf_change (ar_rollback_failures r))
         \<and> (ar_unresolved r = map rf_change (ar_rollback_failures r)
            \<or> (\<exists>c rest'. rest = c # rest' \<and> ar_unresolved r = c # map rf_change (ar_rollback_failures r)))))"
proof -
  obtain res w' where run: "apply_backend ut b m opts resolve w = (res, w')" by fastforce
  show ?thesis
    using apply_backend_outcome[OF run]
    by (cases res) (auto simp: run failure_accounts_def report_succeeded_def Let_def)
qed

text \<open>C6. A change counts as rolled back only when its undoing was confirmed: before the compensating
  calls the target was observed exactly as the apply had left it, and the last thing done was to
  observe it in the state it had before the change.\<close>

theorem rollback_confirmed:
  assumes "compensate_entry b m opts entry prep report w = (prep', report', w')"
    and "ar_rolled_back report' \<noteq> ar_rolled_back report"
  shows "ar_rolled_back report' = ar_rolled_back report @ [un_change entry] \<and>
    (\<exists>live v. observe b m (un_change entry) (ao_allow_irreversible opts) w = (Inr live, v)
       \<and> observed_eq live (un_after entry)) \<and>
    (\<exists>live v. observe b m (un_change entry) (ao_allow_irreversible opts) v = (Inr live, w')
       \<and> observed_eq live (un_before entry))"
proof -
  let ?report = "record_entry (un_change entry) Rollback Attempted None report"
  obtain res p r v where u: "undo_change b m opts entry prep ?report w = (res, p, r, v)" using prod_cases4 by blast
  have ok: "res = Inr ()" "v = w'"
    using assms u undo_change_outcome[OF u]
    by (cases res; auto simp: compensate_entry_def outcome_of_def Let_def)+
  have "ar_rolled_back report' = ar_rolled_back report @ [un_change entry]"
    using compensate_entry_outcome[OF assms(1)] assms(2) by auto
  with u ok show ?thesis
    by (auto simp: undo_change_def Let_def split: prod.splits sum.splits if_splits)
qed

lemma rollback_confirmed_witness:
  "\<exists>live v w'. observe (fake_backend sample_codec None) sample_manifest (CreateFolder sample_namespace) False v = (Inr live, w')
     \<and> observed_eq live Missing"
proof -
  obtain prep' report' w' where c: "compensate_entry (fake_backend sample_codec None) sample_manifest apply_options_default
      folder_entry (prepared_empty sample_plan) (empty_apply_report sample_plan) (folder_world acl) = (prep', report', w')"
    using prod_cases3 by blast
  have "ar_rolled_back (fst (snd (compensate_entry (fake_backend sample_codec None) sample_manifest apply_options_default
      folder_entry (prepared_empty sample_plan) (empty_apply_report sample_plan) (folder_world acl))))
      = [CreateFolder sample_namespace]"
    by code_simp
  then have "ar_rolled_back report' \<noteq> ar_rolled_back (empty_apply_report sample_plan)"
    using c by (simp add: empty_apply_report_def)
  from rollback_confirmed[OF c this] show ?thesis
    by (auto simp: folder_entry_def apply_options_default_def)
qed

text \<open>C7. Compensation never overwrites foreign changes: when the target of an applied change is no
  longer observed as the apply left it, compensation changes nothing, keeps its snapshots, and reports
  the change as a rollback failure with a conflict and as unresolved.\<close>

theorem drift_not_overwritten:
  assumes "quiet_reads b view"
    and "observe b m (un_change entry) (ao_allow_irreversible opts) w = (Inr live, v)"
    and "\<not> observed_eq live (un_after entry)"
    and "compensate_entry b m opts entry prep report w = (prep', report', w')"
  shows "view w' = view w \<and> prep' = prep \<and> ar_rolled_back report' = ar_rolled_back report
    \<and> ar_unresolved report' = ar_unresolved report @ [un_change entry]
    \<and> (\<exists>e. e_kind e = Conflict \<and> ar_rollback_failures report' = ar_rollback_failures report
        @ [\<lparr>rf_change = un_change entry, rf_phase = Rollback, rf_error = e\<rparr>])"
proof -
  have "view v = view w" by (rule quietD[OF quiet_reads.quiet_observe[OF assms(1)] assms(2)])
  then show ?thesis
    using assms(2-4) by (auto simp: compensate_entry_def undo_change_def Let_def)
qed

lemma drift_not_overwritten_witness:
  "\<exists>prep' report' w'. compensate_entry (fake_backend sample_codec None) sample_manifest apply_options_default folder_entry
       (prepared_empty sample_plan) (empty_apply_report sample_plan) (folder_world (SecurityDescriptor ''D:''))
       = (prep', report', w') \<and> fake_view w' = fake_view (folder_world (SecurityDescriptor ''D:''))
       \<and> ar_unresolved report' = [CreateFolder sample_namespace]"
proof -
  let ?b = "fake_backend sample_codec None" and ?w = "folder_world (SecurityDescriptor ''D:'')"
  obtain prep' report' w' where c: "compensate_entry ?b sample_manifest apply_options_default
      folder_entry (prepared_empty sample_plan) (empty_apply_report sample_plan) ?w = (prep', report', w')"
    using prod_cases3 by blast
  have "fst (observe ?b sample_manifest (un_change folder_entry) (ao_allow_irreversible apply_options_default) ?w)
      = Inr (ObservedFolder (Some (SecurityDescriptor ''D:'')))"
    by code_simp
  then obtain v where o: "observe ?b sample_manifest (un_change folder_entry) (ao_allow_irreversible apply_options_default) ?w
      = (Inr (ObservedFolder (Some (SecurityDescriptor ''D:''))), v)"
    by (metis prod.collapse)
  have "\<not> observed_eq (ObservedFolder (Some (SecurityDescriptor ''D:''))) (un_after folder_entry)"
    by code_simp
  from drift_not_overwritten[OF fake.quiet_reads_axioms o this c] c show ?thesis
    by (auto simp: folder_entry_def empty_apply_report_def)
qed

text \<open>C8. Preflight is complete: when it succeeds, the password every registration needs has been
  resolved, and everything the compensation of each planned change will look for is there: a task backup with
  its security and, for password logons, its password; the enabled state; the security descriptor of a
  re-secured task or existing folder. Only where irreversible changes are allowed may some of it be missing,
  and then only a security descriptor whose read can fail or a rollback password whose resolution can fail:
  the backup of the task itself and the enabled state are there all the same.\<close>

theorem preflight_complete:
  assumes "prepare b m p allow resolve w = (Inr prep, w')" and "c \<in> set (pl_changes p)"
  shows "password_ready m prep (pc_change c) \<and> undo_ready b m allow resolve prep (pc_change c)"
  using prepare_changes_password[OF assms(1)[unfolded prepare_def] assms(2)]
    prepare_changes_ready[OF assms(1)[unfolded prepare_def] backups_usable_empty assms(2)] by simp

definition prune_plan :: plan where
  "prune_plan = \<lparr>pl_changes = [planned (DeleteTask sample_path) Reversible], pl_irreversible_effects = []\<rparr>"

definition task_world :: fake where
  "task_world = fake_default\<lparr>fk_state := \<lparr>fs_tasks = [(sample_path, mg_definition sample_task)],
     fs_folders = [(sample_namespace, acl)]\<rparr>\<rparr>"

lemma preflight_complete_witness:
  "\<exists>prep w'. prepare (fake_backend sample_codec None) sample_manifest prune_plan False no_credentials task_world
      = (Inr prep, w') \<and> backed_up (fake_backend sample_codec None) sample_manifest False no_credentials prep sample_path"
proof -
  have "is_ok (fst (prepare (fake_backend sample_codec None) sample_manifest prune_plan False no_credentials task_world))"
    by code_simp
  then obtain prep w' where run: "prepare (fake_backend sample_codec None) sample_manifest prune_plan False no_credentials
      task_world = (Inr prep, w')"
    unfolding is_ok_iff by (metis prod.collapse)
  have "planned (DeleteTask sample_path) Reversible \<in> set (pl_changes prune_plan)" by (simp add: prune_plan_def)
  from preflight_complete[OF run this] run show ?thesis by auto
qed

text \<open>C9. The journal is only a witness: executing or compensating a change through the recording
  wrapper returns the same result, leaves the same prepared state and does the same to the scheduler
  as doing it directly, whatever the change and however it ends.\<close>

theorem recording_transparent:
  "(let recorded = execute_change ut (recorded_backend c phase b) m d opts prep;
        plain = execute_change ut b m d opts prep
    in (case with_journal (fst recorded) w of (r, journal, w') \<Rightarrow> (r, w')) = fst plain w \<and> snd recorded = snd plain)
   \<and> (let recorded = compensate_change (recorded_backend c phase b) d opts prep;
          plain = compensate_change b d opts prep
      in (case with_journal (fst recorded) w of (r, journal, w') \<Rightarrow> (r, w')) = fst plain w \<and> snd recorded = snd plain)"
proof -
  have run: "(case with_journal f w of (r, journal, w') \<Rightarrow> (r, w')) = g w" if "transparent f g" for f and g :: "('a, unit) effect"
    using that[unfolded transparent_def, THEN spec, of w, THEN spec, of "[]"]
    by (auto simp: with_journal_def split: prod.splits)
  show ?thesis
    using recorded.transparent_execute[of ut c phase b m d opts prep] recorded.transparent_compensate[of c phase b d opts prep] run
    by (simp add: Let_def)
qed

end
