(* ===== verification/Xml_Tree.thy ===== *)
theory Xml_Tree
  imports Definition
begin

text \<open>
  Element trees (\<open>Node\<close> of \<open>xml.rs\<close>), the escaping of texts and attribute values, and the printing of
  a tree that the reader keeps as opaque text.
\<close>

section \<open>Element trees\<close>

datatype node = Node (nd_name: string) (nd_attributes: "(string, string) btree")
  (nd_children: "node list") (nd_text: string)

definition child :: "node \<Rightarrow> string \<Rightarrow> node option" where
  "child n name = find (\<lambda>c. nd_name c = name) (nd_children n)"

definition children :: "node \<Rightarrow> string \<Rightarrow> node list" where
  "children n name = filter (\<lambda>c. nd_name c = name) (nd_children n)"

definition child_text :: "node \<Rightarrow> string \<Rightarrow> string option" where
  "child_text n name = map_option nd_text (child n name)"

section \<open>Escaping\<close>

text \<open>\<open>str::replace(char, &str)\<close>\<close>

definition replace_char_str :: "char \<Rightarrow> string \<Rightarrow> string \<Rightarrow> string" where
  "replace_char_str c sub s = concat (map (\<lambda>x. if x = c then sub else [x]) s)"

definition escape_text :: "string \<Rightarrow> string" where
  "escape_text value =
     replace_char_str (CHR ''>'') ''&gt;''
       (replace_char_str (CHR ''<'') ''&lt;'' (replace_char_str (CHR ''&'') ''&amp;'' value))"

definition escape_attribute :: "string \<Rightarrow> string" where
  "escape_attribute value =
     replace_char_str (CHR 0x27) ''&apos;'' (replace_char_str (CHR 0x22) ''&quot;'' (escape_text value))"

text \<open>The loop over the attributes shared by \<open>node_to_xml\<close> and \<open>container\<close>.\<close>

definition attributes_text :: "(string \<times> string) list \<Rightarrow> string" where
  "attributes_text attributes =
     concat (map (\<lambda>(key, value). '' '' @ key @ ''='' @ [CHR 0x22] @ escape_attribute value @ [CHR 0x22])
       attributes)"

fun node_to_xml :: "node \<Rightarrow> string" where
  "node_to_xml (Node name attributes kids content) =
     ''<'' @ name @ attributes_text attributes
     @ (if kids = [] \<and> content = [] then '' />''
        else ''>'' @ escape_text content @ concat (map node_to_xml kids) @ ''</'' @ name @ ''>'')"

section \<open>What escaping does to each character\<close>

fun escape_char :: "char \<Rightarrow> string" where
  "escape_char c =
     (if c = CHR ''&'' then ''&amp;'' else if c = CHR ''<'' then ''&lt;''
      else if c = CHR ''>'' then ''&gt;'' else [c])"

fun escape_attribute_char :: "char \<Rightarrow> string" where
  "escape_attribute_char c =
     (if c = CHR 0x22 then ''&quot;'' else if c = CHR 0x27 then ''&apos;'' else escape_char c)"

lemma replace_char_str_append [simp]:
  "replace_char_str c sub (s @ t) = replace_char_str c sub s @ replace_char_str c sub t"
  by (simp add: replace_char_str_def)

lemma replace_char_str_Nil [simp]: "replace_char_str c sub [] = []"
  by (simp add: replace_char_str_def)

lemma replace_char_str_Cons [simp]:
  "replace_char_str c sub (x # s) = (if x = c then sub else [x]) @ replace_char_str c sub s"
  by (simp add: replace_char_str_def)

lemma escape_text_chars: "escape_text s = concat (map escape_char s)"
  by (induction s) (simp_all add: escape_text_def)

lemma escape_attribute_chars: "escape_attribute s = concat (map escape_attribute_char s)"
proof (induction s)
  case (Cons c s)
  have "escape_attribute (c # s) = escape_attribute [c] @ escape_attribute s"
    by (simp add: escape_attribute_def escape_text_def)
  moreover have "escape_attribute [c] = escape_attribute_char c"
    by (simp add: escape_attribute_def escape_text_def)
  ultimately show ?case using Cons by simp
qed (simp add: escape_attribute_def escape_text_def)

end
