(* ===== verification/Xml_Read.thy ===== *)
theory Xml_Read
  imports Xml_Tree
begin

text \<open>
  Reading a task definition from its element tree (\<open>xml.rs\<close>, from \<open>definition_from_node\<close> to
  \<open>extensions_for\<close>). The civil-time parser and the UUID parser are parameters; errors keep the source's
  messages.
\<close>

definition xml_error :: "message \<Rightarrow> error" where
  "xml_error msg = new_error Xml msg"

text \<open>\<open>option.map(f).transpose()\<close>\<close>

fun map_transpose :: "('a \<Rightarrow> 'e + 'b) \<Rightarrow> 'a option \<Rightarrow> 'e + 'b option" where
  "map_transpose f None = Inr None"
| "map_transpose f (Some x) = bind_ok (f x) (\<lambda>y. Inr (Some y))"

definition unwrap_or :: "'a \<Rightarrow> 'a option \<Rightarrow> 'a" where
  "unwrap_or d x = (case x of None \<Rightarrow> d | Some v \<Rightarrow> v)"

section \<open>Values\<close>

definition owned_text :: "node \<Rightarrow> string \<Rightarrow> string option" where
  "owned_text n name = child_text n name"

definition required_text :: "node \<Rightarrow> string \<Rightarrow> string result" where
  "required_text n name =
     ok_or (xml_error [Dsp (nd_name n), Lit '' requires '', Dsp name]) (child_text n name)"

definition required_child :: "node \<Rightarrow> string \<Rightarrow> node result" where
  "required_child n name =
     ok_or (xml_error [Dsp (nd_name n), Lit '' requires '', Dsp name]) (child n name)"

definition bool_value :: "string \<Rightarrow> string \<Rightarrow> bool result" where
  "bool_value name value =
     (if value = ''true'' \<or> value = ''1'' then Inr True
      else if value = ''false'' \<or> value = ''0'' then Inr False
      else Inl (xml_error [Dsp name, Lit '' is not a boolean: '', Dbg value]))"

definition child_bool :: "node \<Rightarrow> string \<Rightarrow> bool option result" where
  "child_bool n name = map_transpose (bool_value name) (child_text n name)"

text \<open>The text of a \<open>ParseIntError\<close> of an unsigned type with \<open>w\<close> bits.\<close>

fun int_error_loop :: "nat \<Rightarrow> nat \<Rightarrow> string \<Rightarrow> string" where
  "int_error_loop w acc [] = []"
| "int_error_loop w acc (c # cs) =
     (if \<not> is_ascii_digit c then ''invalid digit found in string''
      else if 10 * acc + digit_val c \<ge> 2 ^ w then ''number too large to fit in target type''
      else int_error_loop w (10 * acc + digit_val c) cs)"

definition int_error :: "nat \<Rightarrow> string \<Rightarrow> string" where
  "int_error w s =
     (if s = [] then ''cannot parse integer from empty string''
      else if s = ''+'' then ''invalid digit found in string''
      else int_error_loop w 0 (if hd s = CHR ''+'' then tl s else s))"

definition parse_number :: "string \<Rightarrow> string \<Rightarrow> 'w::len word result" where
  "parse_number value name =
     ok_or (xml_error [Lit ''invalid '', Dsp name, Lit '' value '', Dbg value, Lit '': '',
              Dsp (int_error LENGTH('w) value)])
       (map_option of_nat (parse_uint LENGTH('w) value))"

definition required_number :: "node \<Rightarrow> string \<Rightarrow> 'w::len word result" where
  "required_number n name = bind_ok (required_text n name) (\<lambda>value. parse_number value name)"

fun duration_error_text :: "parse_duration_error \<Rightarrow> message" where
  "duration_error_text (ParseTaskDurationError m) = m"

definition parse_duration :: "string \<Rightarrow> task_duration result" where
  "parse_duration value = map_err (\<lambda>e. xml_error (duration_error_text e)) (parse_iso_duration value)"

definition required_duration :: "node \<Rightarrow> string \<Rightarrow> task_duration result" where
  "required_duration n name = bind_ok (required_text n name) parse_duration"

definition optional_duration :: "node \<Rightarrow> string \<Rightarrow> task_duration option result" where
  "optional_duration n name = map_transpose parse_duration (child_text n name)"

definition parse_limit :: "string \<Rightarrow> task_limit result" where
  "parse_limit value =
     (if value = ''PT0S'' then Inr Unlimited else bind_ok (parse_duration value) (\<lambda>d. Inr (Finite d)))"

fun datetime_error_text :: "parse_datetime_error \<Rightarrow> message" where
  "datetime_error_text (ParseTaskDateTimeError m) = m"

type_synonym civil_parser = "string \<Rightarrow> string + unit"

definition child_datetime :: "civil_parser \<Rightarrow> node \<Rightarrow> string \<Rightarrow> task_datetime option result" where
  "child_datetime civil n name =
     map_err (\<lambda>e. xml_error (datetime_error_text e)) (map_transpose (datetime_parse civil) (child_text n name))"

section \<open>Registration information and principal\<close>

definition parse_registration :: "civil_parser \<Rightarrow> node \<Rightarrow> registration_info result" where
  "parse_registration civil n =
     bind_ok (child_datetime civil n ''Date'') (\<lambda>date.
     bind_ok (map_err (\<lambda>_. xml_error [Lit ''a security descriptor must be non-empty SDDL without NUL''])
         (map_transpose from_sddl (child_text n ''SecurityDescriptor''))) (\<lambda>security.
       Inr \<lparr>ri_author = owned_text n ''Author'', ri_date = date, ri_description = owned_text n ''Description'',
            ri_documentation = owned_text n ''Documentation'', ri_source = owned_text n ''Source'',
            ri_version = owned_text n ''Version'', ri_uri = owned_text n ''URI'',
            ri_security_descriptor = security\<rparr>))"

definition to_ascii_uppercase :: "char \<Rightarrow> char" where
  "to_ascii_uppercase c = (if is_ascii_lower c then char_of (of_char c - 32 :: nat) else c)"

definition user_identity :: "string \<Rightarrow> principal_identity" where
  "user_identity user =
     (let upper = map to_ascii_uppercase user in
      if upper \<in> set [''SYSTEM'', ''S-1-5-18''] then ServiceAccount LocalSystem
      else if upper \<in> set [''LOCAL SERVICE'', ''NT AUTHORITY'' @ [CHR 0x5C] @ ''LOCAL SERVICE'', ''S-1-5-19'']
        then ServiceAccount LocalService
      else if upper \<in> set [''NETWORK SERVICE'', ''NT AUTHORITY'' @ [CHR 0x5C] @ ''NETWORK SERVICE'', ''S-1-5-20'']
        then ServiceAccount NetworkService
      else User user)"

definition parse_identity :: "node \<Rightarrow> principal_identity" where
  "parse_identity n =
     (case child_text n ''GroupId'' of
        Some g \<Rightarrow> Group g
      | None \<Rightarrow> (case child_text n ''UserId'' of Some user \<Rightarrow> user_identity user | None \<Rightarrow> NoIdentity))"

definition parse_logon_type :: "node \<Rightarrow> principal_identity \<Rightarrow> logon_type result" where
  "parse_logon_type n identity =
     (case child_text n ''LogonType'' of
        Some value \<Rightarrow>
          if value = ''None'' then Inr LogonNone
          else if value = ''Password'' then Inr Password
          else if value = ''InteractiveToken'' then Inr InteractiveToken
          else if value = ''S4U'' then Inr S4u
          else if value = ''Group'' then Inr LogonGroup
          else if value = ''ServiceAccount'' then Inr LogonServiceAccount
          else if value = ''InteractiveTokenOrPassword'' then Inr InteractiveTokenOrPassword
          else Inl (xml_error [Lit ''unknown LogonType '', Dbg value])
      | None \<Rightarrow> Inr (case identity of
            Group _ \<Rightarrow> LogonGroup
          | ServiceAccount _ \<Rightarrow> LogonServiceAccount
          | _ \<Rightarrow> LogonNone))"

definition parse_run_level :: "node \<Rightarrow> run_level result" where
  "parse_run_level n =
     (let value = unwrap_or ''LeastPrivilege'' (child_text n ''RunLevel'') in
      if value = ''LeastPrivilege'' then Inr LeastPrivilege
      else if value = ''HighestAvailable'' then Inr HighestAvailable
      else Inl (xml_error [Lit ''unknown RunLevel '', Dbg value]))"

definition parse_sid_type :: "node \<Rightarrow> process_token_sid_type result" where
  "parse_sid_type n =
     (let value = unwrap_or ''Default'' (child_text n ''ProcessTokenSidType'') in
      if value = ''Default'' then Inr SidDefault
      else if value = ''None'' then Inr SidNone
      else if value = ''Unrestricted'' then Inr SidUnrestricted
      else Inl (xml_error [Lit ''unknown ProcessTokenSidType '', Dbg value]))"

definition parse_privilege :: "node \<Rightarrow> required_privilege result" where
  "parse_privilege n =
     map_err (\<lambda>_. xml_error [Lit ''invalid Windows privilege name '', Dbg (nd_text n)]) (privilege_new (nd_text n))"

definition container_children :: "node \<Rightarrow> string \<Rightarrow> string \<Rightarrow> node list" where
  "container_children n container name =
     (case child n container of None \<Rightarrow> [] | Some c \<Rightarrow> children c name)"

definition parse_principal :: "node \<Rightarrow> principal result" where
  "parse_principal n =
     (let identity = parse_identity n in
      bind_ok (parse_logon_type n identity) (\<lambda>logon_type.
      bind_ok (parse_run_level n) (\<lambda>run_level.
      bind_ok (parse_sid_type n) (\<lambda>sid_type.
      bind_ok (map_ok parse_privilege (container_children n ''RequiredPrivileges'' ''Privilege'')) (\<lambda>privileges.
        Inr \<lparr>pr_id = unwrap_or ''Author'' (btree_get (nd_attributes n) ''id''),
             pr_display_name = owned_text n ''DisplayName'', pr_identity = identity,
             pr_logon_type = logon_type, pr_run_level = run_level,
             pr_process_token_sid_type = sid_type, pr_required_privileges = privileges\<rparr>)))))"

section \<open>Settings\<close>

definition parse_instances :: "node \<Rightarrow> multiple_instances_policy result" where
  "parse_instances n =
     (let value = unwrap_or ''IgnoreNew'' (child_text n ''MultipleInstancesPolicy'') in
      if value = ''Parallel'' then Inr Parallel
      else if value = ''Queue'' then Inr Queue
      else if value = ''IgnoreNew'' then Inr IgnoreNew
      else if value = ''StopExisting'' then Inr StopExisting
      else Inl (xml_error [Lit ''unknown MultipleInstancesPolicy '', Dbg value]))"

text \<open>\<open>child_bool(node, name)?.unwrap_or(default)\<close>\<close>

definition bool_or :: "node \<Rightarrow> string \<Rightarrow> bool \<Rightarrow> bool result" where
  "bool_or n name d = bind_ok (child_bool n name) (\<lambda>b. Inr (unwrap_or d b))"

definition parse_restart :: "node \<Rightarrow> restart_policy option result" where
  "parse_restart n =
     map_transpose (\<lambda>restart.
       bind_ok (required_duration restart ''Interval'') (\<lambda>interval.
       bind_ok (required_number restart ''Count'') (\<lambda>count.
         Inr \<lparr>rp_interval = interval, rp_count = count\<rparr>)))
       (child n ''RestartOnFailure'')"

definition parse_idle :: "node \<Rightarrow> idle_settings option result" where
  "parse_idle n =
     bind_ok (bool_or n ''RunOnlyIfIdle'' False) (\<lambda>run_only.
       if \<not> run_only then Inr None
       else
         let idle = child n ''IdleSettings''; defaults = idle_settings_default in
         bind_ok (map_transpose parse_duration (Option.bind idle (\<lambda>v. child_text v ''Duration''))) (\<lambda>duration.
         bind_ok (map_transpose parse_duration (Option.bind idle (\<lambda>v. child_text v ''WaitTimeout''))) (\<lambda>wait.
         bind_ok (map_transpose (\<lambda>v. child_bool v ''StopOnIdleEnd'') idle) (\<lambda>stop.
         bind_ok (map_transpose (\<lambda>v. child_bool v ''RestartOnIdle'') idle) (\<lambda>restart.
           Inr (Some
             \<lparr>idle_duration = unwrap_or (idle_duration defaults) duration,
              idle_wait_timeout = unwrap_or (idle_wait_timeout defaults) wait,
              idle_stop_on_idle_end = unwrap_or (idle_stop_on_idle_end defaults) (Option.bind stop id),
              idle_restart_on_idle = unwrap_or (idle_restart_on_idle defaults) (Option.bind restart id)\<rparr>))))))"

definition parse_network :: "node \<Rightarrow> network_settings option result" where
  "parse_network n =
     bind_ok (bool_or n ''RunOnlyIfNetworkAvailable'' False) (\<lambda>run_only.
       let network = child n ''NetworkSettings'' in
       if run_only \<or> network \<noteq> None then
         Inr (Some \<lparr>net_id = Option.bind network (\<lambda>v. owned_text v ''Id''),
                    net_name = Option.bind network (\<lambda>v. owned_text v ''Name'')\<rparr>)
       else Inr None)"

definition parse_maintenance :: "node \<Rightarrow> maintenance_settings option result" where
  "parse_maintenance n =
     map_transpose (\<lambda>maintenance.
       bind_ok (required_duration maintenance ''Period'') (\<lambda>period.
       bind_ok (required_duration maintenance ''Deadline'') (\<lambda>deadline.
       bind_ok (bool_or maintenance ''Exclusive'' False) (\<lambda>exclusive.
         Inr \<lparr>mt_period = period, mt_deadline = deadline, mt_exclusive = exclusive\<rparr>))))
       (child n ''MaintenanceSettings'')"

definition parse_settings :: "node \<Rightarrow> task_settings result" where
  "parse_settings n =
     bind_ok (bool_or n ''AllowStartOnDemand'' True) (\<lambda>demand.
     bind_ok (parse_instances n) (\<lambda>instances.
     bind_ok (bool_or n ''DisallowStartIfOnBatteries'' True) (\<lambda>disallow.
     bind_ok (bool_or n ''StopIfGoingOnBatteries'' True) (\<lambda>stop.
     bind_ok (bool_or n ''AllowHardTerminate'' True) (\<lambda>hard.
     bind_ok (bool_or n ''StartWhenAvailable'' False) (\<lambda>available.
     bind_ok (map_transpose parse_limit (child_text n ''ExecutionTimeLimit'')) (\<lambda>limit.
     bind_ok (bool_or n ''Enabled'' True) (\<lambda>enabled.
     bind_ok (optional_duration n ''DeleteExpiredTaskAfter'') (\<lambda>delete.
     bind_ok (map_transpose (\<lambda>v. parse_number v ''Priority'') (child_text n ''Priority'')) (\<lambda>priority.
     bind_ok (bool_or n ''WakeToRun'' False) (\<lambda>wake.
     bind_ok (bool_or n ''Hidden'' False) (\<lambda>hid.
     bind_ok (bool_or n ''UseUnifiedSchedulingEngine'' False) (\<lambda>unified.
     bind_ok (bool_or n ''DisallowStartOnRemoteAppSession'' False) (\<lambda>remote.
     bind_ok (bool_or n ''Volatile'' False) (\<lambda>vol.
     bind_ok (parse_restart n) (\<lambda>restart.
     bind_ok (parse_idle n) (\<lambda>idle.
     bind_ok (parse_network n) (\<lambda>network.
     bind_ok (parse_maintenance n) (\<lambda>maintenance.
       Inr \<lparr>ts_allow_demand_start = demand, ts_restart_on_failure = restart,
            ts_multiple_instances = instances, ts_disallow_start_if_on_batteries = disallow,
            ts_stop_if_going_on_batteries = stop, ts_allow_hard_terminate = hard,
            ts_start_when_available = available, ts_network = network,
            ts_execution_time_limit = unwrap_or default_limit limit, ts_enabled = enabled,
            ts_delete_expired_after = delete, ts_priority = unwrap_or 7 priority, ts_idle = idle,
            ts_wake_to_run = wake, ts_hidden = hid, ts_use_unified_scheduling_engine = unified,
            ts_disallow_start_on_remote_app_session = remote, ts_maintenance = maintenance,
            ts_volatile = vol\<rparr>)))))))))))))))))))"

section \<open>Actions\<close>

type_synonym uuid_parser = "string \<Rightarrow> string + uuid"

definition parse_header :: "node \<Rightarrow> email_header result" where
  "parse_header header =
     bind_ok (required_text header ''Name'') (\<lambda>name.
     bind_ok (required_text header ''Value'') (\<lambda>value.
       Inr \<lparr>eh_name = name, eh_value = value\<rparr>))"

definition parse_exec :: "node \<Rightarrow> action result" where
  "parse_exec n =
     bind_ok (required_text n ''Command'') (\<lambda>command.
     bind_ok (bool_or n ''HideAppWindow'' False) (\<lambda>hide.
       Inr (Exec \<lparr>ex_id = btree_get (nd_attributes n) ''id'', ex_command = command,
         ex_arguments = owned_text n ''Arguments'', ex_working_directory = owned_text n ''WorkingDirectory'',
         ex_hide_window = hide\<rparr>)))"

definition parse_com :: "uuid_parser \<Rightarrow> node \<Rightarrow> action result" where
  "parse_com uuid n =
     bind_ok (required_text n ''ClassId'') (\<lambda>class.
     bind_ok (map_err (\<lambda>e. xml_error [Lit ''invalid ComHandler ClassId: '', Dsp e]) (uuid class)) (\<lambda>class_id.
       Inr (ComHandler \<lparr>com_id = btree_get (nd_attributes n) ''id'', com_class_id = class_id,
         com_data = owned_text n ''Data''\<rparr>)))"

definition parse_email :: "node \<Rightarrow> action result" where
  "parse_email n =
     bind_ok (required_text n ''Server'') (\<lambda>server.
     bind_ok (map_ok parse_header (container_children n ''HeaderFields'' ''HeaderField'')) (\<lambda>headers.
       Inr (Email \<lparr>em_id = btree_get (nd_attributes n) ''id'', em_server = server,
         em_subject = owned_text n ''Subject'', em_from = owned_text n ''From'', em_to = owned_text n ''To'',
         em_cc = owned_text n ''Cc'', em_bcc = owned_text n ''Bcc'', em_reply_to = owned_text n ''ReplyTo'',
         em_body = owned_text n ''Body'',
         em_attachments = map nd_text (container_children n ''Attachments'' ''File''),
         em_headers = headers\<rparr>)))"

definition parse_message :: "node \<Rightarrow> action result" where
  "parse_message n =
     bind_ok (required_text n ''Body'') (\<lambda>body.
       Inr (ShowMessage \<lparr>sm_id = btree_get (nd_attributes n) ''id'', sm_title = owned_text n ''Title'',
         sm_body = body\<rparr>))"

definition parse_action :: "uuid_parser \<Rightarrow> node \<Rightarrow> action result" where
  "parse_action uuid n =
     (if nd_name n = ''Exec'' then parse_exec n
      else if nd_name n = ''ComHandler'' then parse_com uuid n
      else if nd_name n = ''SendEmail'' then parse_email n
      else if nd_name n = ''ShowMessage'' then parse_message n
      else Inr (UnknownAction \<lparr>ua_kind = nd_name n, ua_xml = node_to_xml n\<rparr>))"

definition limit_text_error :: "collection_limit_error \<Rightarrow> error" where
  "limit_text_error e = xml_error
     [Dsp (cl_kind e), Lit '' contains '', Dsp (show_nat (cl_actual e)),
      Lit '' entries; the maximum is '', Dsp (show_nat (cl_maximum e))]"

definition parse_actions :: "uuid_parser \<Rightarrow> node \<Rightarrow> actions result" where
  "parse_actions uuid n =
     bind_ok (map_ok (parse_action uuid) (nd_children n)) (\<lambda>as.
       map_err limit_text_error (actions_try_from as))"

section \<open>Triggers\<close>

definition parse_repetition :: "node \<Rightarrow> repetition result" where
  "parse_repetition n =
     bind_ok (required_duration n ''Interval'') (\<lambda>interval.
     bind_ok (optional_duration n ''Duration'') (\<lambda>duration.
     bind_ok (bool_or n ''StopAtDurationEnd'' False) (\<lambda>stop.
       Inr \<lparr>rep_interval = interval, rep_duration = duration, rep_stop_at_duration_end = stop\<rparr>)))"

definition parse_trigger_common :: "civil_parser \<Rightarrow> node \<Rightarrow> trigger_common result" where
  "parse_trigger_common civil n =
     bind_ok (child_datetime civil n ''StartBoundary'') (\<lambda>start.
     bind_ok (child_datetime civil n ''EndBoundary'') (\<lambda>end_boundary.
     bind_ok (bool_or n ''Enabled'' True) (\<lambda>enabled.
     bind_ok (map_transpose parse_limit (child_text n ''ExecutionTimeLimit'')) (\<lambda>limit.
     bind_ok (map_transpose parse_repetition (child n ''Repetition'')) (\<lambda>rep.
       Inr \<lparr>tc_id = btree_get (nd_attributes n) ''id'', tc_start_boundary = start,
            tc_end_boundary = end_boundary, tc_enabled = enabled, tc_execution_time_limit = limit,
            tc_repetition = rep\<rparr>)))))"

definition weekday_named :: "node \<Rightarrow> weekday option" where
  "weekday_named c = map_of
     [(''Sunday'', Sunday), (''Monday'', Monday), (''Tuesday'', Tuesday), (''Wednesday'', Wednesday),
      (''Thursday'', Thursday), (''Friday'', Friday), (''Saturday'', Saturday)] (nd_name c)"

definition parse_weekdays :: "node \<Rightarrow> weekday list" where
  "parse_weekdays n = bset_collect (List.map_filter weekday_named (nd_children n))"

definition month_named :: "node \<Rightarrow> month option" where
  "month_named c = map_of
     [(''January'', January), (''February'', February), (''March'', March), (''April'', April),
      (''May'', May), (''June'', June), (''July'', July), (''August'', August),
      (''September'', September), (''October'', October), (''November'', November),
      (''December'', December)] (nd_name c)"

definition parse_months :: "node \<Rightarrow> month list" where
  "parse_months n = bset_collect (List.map_filter month_named (nd_children n))"

definition week_named :: "node \<Rightarrow> week_of_month option" where
  "week_named c =
     (if nd_name c = ''Week''
      then map_of [(''1'', First), (''2'', Second), (''3'', Third), (''4'', Fourth)] (nd_text c)
      else None)"

definition parse_weeks :: "node \<Rightarrow> week_of_month list" where
  "parse_weeks n = bset_collect (List.map_filter week_named (nd_children n))"

definition parse_day_numbers :: "node \<Rightarrow> u8 list result" where
  "parse_day_numbers n =
     bind_ok (map_ok (\<lambda>c. parse_number (nd_text c) ''Day'') (children n ''Day'')) (\<lambda>days.
       Inr (bset_collect days))"

definition parse_state_change :: "node \<Rightarrow> session_state_change result" where
  "parse_state_change n =
     bind_ok (required_text n ''StateChange'') (\<lambda>value.
       ok_or (xml_error [Lit ''unknown session state change '', Dbg value])
         (map_of [(''ConsoleConnect'', ConsoleConnect), (''ConsoleDisconnect'', ConsoleDisconnect),
            (''RemoteConnect'', RemoteConnect), (''RemoteDisconnect'', RemoteDisconnect),
            (''SessionLock'', SessionLock), (''SessionUnlock'', SessionUnlock)] value))"

definition parse_value_queries :: "node \<Rightarrow> (string, string) btree" where
  "parse_value_queries n = btree_collect (List.map_filter
     (\<lambda>v. map_option (\<lambda>name. (name, nd_text v)) (btree_get (nd_attributes v) ''name''))
     (container_children n ''ValueQueries'' ''Value''))"

definition parse_event_trigger :: "node \<Rightarrow> trigger_common \<Rightarrow> trigger result" where
  "parse_event_trigger n common =
     bind_ok (required_text n ''Subscription'') (\<lambda>subscription.
     bind_ok (optional_duration n ''Delay'') (\<lambda>delay.
     bind_ok (optional_duration n ''PeriodOfOccurrence'') (\<lambda>period.
     bind_ok (map_transpose (\<lambda>v. parse_number v ''NumberOfOccurrences'')
         (child_text n ''NumberOfOccurrences'')) (\<lambda>number.
       Inr (Event \<lparr>et_common = common, et_subscription = subscription,
         et_value_queries = parse_value_queries n, et_delay = delay, et_period_of_occurrence = period,
         et_number_of_occurrences = number, et_matching_element = owned_text n ''MatchingElement''\<rparr>)))))"

text \<open>\<open>Option::or_else\<close>\<close>

fun or_else :: "'a option \<Rightarrow> 'a option \<Rightarrow> 'a option" where
  "or_else (Some x) y = Some x"
| "or_else None y = y"

definition parse_schedule ::
  "node \<Rightarrow> node \<Rightarrow> trigger_common \<Rightarrow> task_duration option \<Rightarrow> trigger result" where
  "parse_schedule n schedule common random_delay =
     (if nd_name schedule = ''ScheduleByDay'' then
        bind_ok (required_number schedule ''DaysInterval'') (\<lambda>interval.
          Inr (Daily \<lparr>dly_common = common, dly_days_interval = interval, dly_random_delay = random_delay\<rparr>))
      else if nd_name schedule = ''ScheduleByWeek'' then
        bind_ok (required_number schedule ''WeeksInterval'') (\<lambda>interval.
        bind_ok (required_child schedule ''DaysOfWeek'') (\<lambda>days.
          Inr (Weekly \<lparr>wt_common = common, wt_weeks_interval = interval,
            wt_days_of_week = parse_weekdays days, wt_random_delay = random_delay\<rparr>)))
      else if nd_name schedule = ''ScheduleByMonth'' then
        bind_ok (required_child schedule ''DaysOfMonth'') (\<lambda>day_node.
        bind_ok (parse_day_numbers day_node) (\<lambda>days.
        bind_ok (required_child schedule ''Months'') (\<lambda>months.
        bind_ok (bool_or schedule ''RunOnLastDayOfMonth'' False) (\<lambda>last_day.
          Inr (Monthly \<lparr>mo_common = common, mo_days_of_month = days, mo_months = parse_months months,
            mo_run_on_last_day = last_day, mo_random_delay = random_delay\<rparr>)))))
      else if nd_name schedule = ''ScheduleByMonthDayOfWeek'' then
        bind_ok (required_child schedule ''Weeks'') (\<lambda>weeks.
        bind_ok (required_child schedule ''DaysOfWeek'') (\<lambda>days.
        bind_ok (required_child schedule ''Months'') (\<lambda>months.
        bind_ok (bool_or schedule ''RunOnLastWeekOfMonth'' False) (\<lambda>last_week.
          Inr (MonthlyDow \<lparr>md_common = common, md_weeks_of_month = parse_weeks weeks,
            md_days_of_week = parse_weekdays days, md_months = parse_months months,
            md_run_on_last_week = last_week, md_random_delay = random_delay\<rparr>)))))
      else Inl (xml_error [Lit ''unsupported calendar schedule'']))"

definition parse_calendar_trigger :: "node \<Rightarrow> trigger_common \<Rightarrow> trigger result" where
  "parse_calendar_trigger n common =
     bind_ok (ok_or (xml_error [Lit ''CalendarTrigger has no schedule''])
       (or_else (or_else (or_else (child n ''ScheduleByDay'') (child n ''ScheduleByWeek''))
         (child n ''ScheduleByMonth'')) (child n ''ScheduleByMonthDayOfWeek''))) (\<lambda>schedule.
     bind_ok (optional_duration n ''RandomDelay'') (\<lambda>random_delay.
       parse_schedule n schedule common random_delay))"

definition parse_trigger :: "civil_parser \<Rightarrow> node \<Rightarrow> trigger result" where
  "parse_trigger civil n =
     bind_ok (parse_trigger_common civil n) (\<lambda>common.
       let name = nd_name n; delay = optional_duration n ''Delay'' in
       if name = ''BootTrigger'' then
         bind_ok delay (\<lambda>d. Inr (Boot \<lparr>bt_common = common, bt_delay = d\<rparr>))
       else if name = ''RegistrationTrigger'' then
         bind_ok delay (\<lambda>d. Inr (Registration \<lparr>rt_common = common, rt_delay = d\<rparr>))
       else if name = ''IdleTrigger'' then Inr (Idle \<lparr>it_common = common\<rparr>)
       else if name = ''TimeTrigger'' then
         bind_ok (optional_duration n ''RandomDelay'') (\<lambda>d.
           Inr (Time \<lparr>tt_common = common, tt_random_delay = d\<rparr>))
       else if name = ''EventTrigger'' then parse_event_trigger n common
       else if name = ''LogonTrigger'' then
         bind_ok delay (\<lambda>d.
           Inr (Logon \<lparr>lt_common = common, lt_user_id = owned_text n ''UserId'', lt_delay = d\<rparr>))
       else if name = ''SessionStateChangeTrigger'' then
         bind_ok (parse_state_change n) (\<lambda>change.
         bind_ok delay (\<lambda>d.
           Inr (SessionStateChange \<lparr>st_common = common, st_state_change = change,
             st_user_id = owned_text n ''UserId'', st_delay = d\<rparr>)))
       else if name = ''CalendarTrigger'' then parse_calendar_trigger n common
       else Inr (UnknownTrigger \<lparr>ut_kind = name, ut_xml = node_to_xml n\<rparr>))"

definition parse_triggers :: "civil_parser \<Rightarrow> node \<Rightarrow> triggers result" where
  "parse_triggers civil n =
     bind_ok (map_ok (parse_trigger civil) (nd_children n)) (\<lambda>ts.
       map_err limit_text_error (triggers_try_from ts))"

section \<open>The definition\<close>

definition extensions_for :: "node \<Rightarrow> string \<Rightarrow> string list \<Rightarrow> xml_extension list" where
  "extensions_for n parent known =
     map (\<lambda>(ordinal, c). \<lparr>xe_parent = parent, xe_ordinal = ordinal, xe_xml = node_to_xml c\<rparr>)
       (filter (\<lambda>(ordinal, c). nd_name c \<notin> set known) (enumerate 0 (nd_children n)))"

definition task_children :: "string list" where
  "task_children = [''RegistrationInfo'', ''Triggers'', ''Principals'', ''Settings'', ''Data'', ''Actions'']"

definition registration_children :: "string list" where
  "registration_children =
     [''Author'', ''Date'', ''Description'', ''Documentation'', ''Source'', ''URI'', ''Version'',
      ''SecurityDescriptor'']"

definition settings_children :: "string list" where
  "settings_children =
     [''AllowStartOnDemand'', ''RestartOnFailure'', ''MultipleInstancesPolicy'',
      ''DisallowStartIfOnBatteries'', ''StopIfGoingOnBatteries'', ''AllowHardTerminate'',
      ''StartWhenAvailable'', ''NetworkSettings'', ''RunOnlyIfNetworkAvailable'',
      ''ExecutionTimeLimit'', ''Enabled'', ''DeleteExpiredTaskAfter'', ''Priority'', ''IdleSettings'',
      ''RunOnlyIfIdle'', ''WakeToRun'', ''Hidden'', ''UseUnifiedSchedulingEngine'',
      ''DisallowStartOnRemoteAppSession'', ''MaintenanceSettings'', ''Volatile'']"

definition default_xml_settings :: task_settings where
  "default_xml_settings = task_settings_default\<lparr>ts_use_unified_scheduling_engine := False\<rparr>"

definition definition_extensions :: "node \<Rightarrow> xml_extension list" where
  "definition_extensions root =
     extensions_for root ''Task'' task_children
     @ (case child root ''RegistrationInfo'' of
          Some n \<Rightarrow> extensions_for n ''Task/RegistrationInfo'' registration_children | None \<Rightarrow> [])
     @ (case child root ''Settings'' of
          Some n \<Rightarrow> extensions_for n ''Task/Settings'' settings_children | None \<Rightarrow> [])"

definition definition_from_node :: "civil_parser \<Rightarrow> uuid_parser \<Rightarrow> node \<Rightarrow> task_definition result" where
  "definition_from_node civil uuid root =
     (if nd_name root \<noteq> ''Task'' then
        Inl (xml_error [Lit ''expected Task root, found '', Dsp (nd_name root)])
      else
        let version = (case btree_get (nd_attributes root) ''version'' of
                         None \<Rightarrow> V1_2 | Some value \<Rightarrow> schema_parse value) in
        bind_ok (map_transpose (parse_registration civil) (child root ''RegistrationInfo'')) (\<lambda>registration.
        bind_ok (map_transpose parse_principal
            (Option.bind (child root ''Principals'') (\<lambda>ps. child ps ''Principal''))) (\<lambda>principal.
        bind_ok (map_transpose parse_settings (child root ''Settings'')) (\<lambda>settings.
        bind_ok (map_transpose (parse_triggers civil) (child root ''Triggers'')) (\<lambda>trigs.
        bind_ok (map_transpose (parse_actions uuid) (child root ''Actions'')) (\<lambda>acts.
          Inr \<lparr>td_schema_version = version, td_registration = unwrap_or registration_default registration,
               td_triggers = unwrap_or (Triggers []) trigs,
               td_principal = unwrap_or principal_default principal,
               td_settings = unwrap_or default_xml_settings settings,
               td_data = child_text root ''Data'', td_actions = unwrap_or (Actions []) acts,
               td_extensions = definition_extensions root\<rparr>))))))"

end
