(* ===== verification/Unicode.thy ===== *)
theory Unicode
  imports Errors
begin

text \<open>
  The Unicode encodings of the standard library that \<open>xml.rs\<close> uses: \<open>String::from_utf8\<close> with its error,
  \<open>str::chars\<close>, \<open>str::encode_utf16\<close> and \<open>char::decode_utf16\<close>. A code point is a natural number, a string
  its UTF-8 bytes. The lemmas show that both encodings read back what they wrote.
\<close>

section \<open>UTF-8\<close>

definition scalar_value :: "nat \<Rightarrow> bool" where
  "scalar_value c \<longleftrightarrow> c < 0xD800 \<or> 0xE000 \<le> c \<and> c < 0x110000"

definition continuation :: "nat \<Rightarrow> bool" where
  "continuation b \<longleftrightarrow> 0x80 \<le> b \<and> b < 0xC0"

text \<open>The bytes that may follow a lead byte of three or four bytes.\<close>

definition second_ok :: "nat \<Rightarrow> nat \<Rightarrow> bool" where
  "second_ok first next \<longleftrightarrow>
     (if first = 0xE0 then 0xA0 \<le> next \<and> next < 0xC0
      else if first = 0xED then 0x80 \<le> next \<and> next < 0xA0
      else if first = 0xF0 then 0x90 \<le> next \<and> next < 0xC0
      else if first = 0xF4 then 0x80 \<le> next \<and> next < 0x90
      else continuation next)"

text \<open>The first code point and its length; on failure the length of the invalid sequence, or
  \<^const>\<open>None\<close> when the text ends inside one.\<close>

definition utf8_char :: "nat list \<Rightarrow> nat option + nat \<times> nat" where
  "utf8_char bs =
     (case bs of
        [] \<Rightarrow> Inl None
      | b0 # r \<Rightarrow>
          if b0 < 0x80 then Inr (b0, 1)
          else if 0xC2 \<le> b0 \<and> b0 < 0xE0 then
            (case r of
               [] \<Rightarrow> Inl None
             | b1 # _ \<Rightarrow>
                 if continuation b1 then Inr ((b0 - 0xC0) * 64 + (b1 - 0x80), 2) else Inl (Some 1))
          else if 0xE0 \<le> b0 \<and> b0 < 0xF0 then
            (case r of
               [] \<Rightarrow> Inl None
             | b1 # r' \<Rightarrow>
                 if \<not> second_ok b0 b1 then Inl (Some 1)
                 else (case r' of
                         [] \<Rightarrow> Inl None
                       | b2 # _ \<Rightarrow>
                           if continuation b2
                           then Inr ((b0 - 0xE0) * 4096 + (b1 - 0x80) * 64 + (b2 - 0x80), 3)
                           else Inl (Some 2)))
          else if 0xF0 \<le> b0 \<and> b0 < 0xF5 then
            (case r of
               [] \<Rightarrow> Inl None
             | b1 # r' \<Rightarrow>
                 if \<not> second_ok b0 b1 then Inl (Some 1)
                 else (case r' of
                         [] \<Rightarrow> Inl None
                       | b2 # r'' \<Rightarrow>
                           if \<not> continuation b2 then Inl (Some 2)
                           else (case r'' of
                                   [] \<Rightarrow> Inl None
                                 | b3 # _ \<Rightarrow>
                                     if continuation b3
                                     then Inr ((b0 - 0xF0) * 262144 + (b1 - 0x80) * 4096
                                               + (b2 - 0x80) * 64 + (b3 - 0x80), 4)
                                     else Inl (Some 3))))
          else Inl (Some 1))"

lemma utf8_char_width: "utf8_char bs = Inr (c, w) \<Longrightarrow> 0 < w \<and> w \<le> length bs"
  by (auto simp: utf8_char_def split: list.splits if_splits)

record utf8_error =
  valid_up_to :: nat
  error_len :: "nat option"

function utf8_decode :: "nat \<Rightarrow> nat list \<Rightarrow> utf8_error + nat list" where
  "utf8_decode index bs =
     (if bs = [] then Inr []
      else (case utf8_char bs of
              Inl len \<Rightarrow> Inl \<lparr>valid_up_to = index, error_len = len\<rparr>
            | Inr (c, w) \<Rightarrow> bind_ok (utf8_decode (index + w) (drop w bs)) (\<lambda>cs. Inr (c # cs))))"
  by pat_completeness auto
termination
  by (relation "measure (\<lambda>(index, bs). length bs)") (auto dest!: utf8_char_width diff_less[of _ "length _"])

declare utf8_decode.simps [simp del]

definition bytes_of :: "string \<Rightarrow> nat list" where
  "bytes_of s = map of_char s"

definition from_utf8 :: "string \<Rightarrow> utf8_error + nat list" where
  "from_utf8 s = utf8_decode 0 (bytes_of s)"

definition utf8_error_text :: "utf8_error \<Rightarrow> string" where
  "utf8_error_text e =
     (case error_len e of
        Some len \<Rightarrow> ''invalid utf-8 sequence of '' @ show_nat len @ '' bytes from index '' @ show_nat (valid_up_to e)
      | None \<Rightarrow> ''incomplete utf-8 byte sequence from index '' @ show_nat (valid_up_to e))"

text \<open>What every Rust \<open>str\<close> satisfies, and its code points.\<close>

definition valid_str :: "string \<Rightarrow> bool" where
  "valid_str s \<longleftrightarrow> is_ok (from_utf8 s)"

definition chars_of :: "string \<Rightarrow> nat list" where
  "chars_of s = (case from_utf8 s of Inr cs \<Rightarrow> cs | Inl _ \<Rightarrow> [])"

definition utf8_encode :: "nat \<Rightarrow> nat list" where
  "utf8_encode c =
     (if c < 0x80 then [c]
      else if c < 0x800 then [0xC0 + c div 64, 0x80 + c mod 64]
      else if c < 0x10000 then [0xE0 + c div 4096, 0x80 + c div 64 mod 64, 0x80 + c mod 64]
      else [0xF0 + c div 262144, 0x80 + c div 4096 mod 64, 0x80 + c div 64 mod 64, 0x80 + c mod 64])"

definition string_of :: "nat list \<Rightarrow> string" where
  "string_of cs = map char_of (concat (map utf8_encode cs))"

section \<open>UTF-16\<close>

definition encode_unit :: "nat \<Rightarrow> u16 list" where
  "encode_unit c =
     (if c < 0x10000 then [of_nat c]
      else [of_nat (0xD800 + (c - 0x10000) div 1024), of_nat (0xDC00 + (c - 0x10000) mod 1024)])"

definition encode_utf16 :: "string \<Rightarrow> u16 list" where
  "encode_utf16 s = concat (map encode_unit (chars_of s))"

fun decode_units :: "u16 list \<Rightarrow> u16 + nat list" where
  "decode_units [] = Inr []"
| "decode_units (u # us) =
     (if unat u < 0xD800 \<or> 0xDFFF < unat u then
        bind_ok (decode_units us) (\<lambda>cs. Inr (unat u # cs))
      else if 0xDC00 \<le> unat u then Inl u
      else (case us of
              [] \<Rightarrow> Inl u
            | u2 # us' \<Rightarrow>
                if unat u2 < 0xDC00 \<or> 0xDFFF < unat u2 then Inl u
                else bind_ok (decode_units us')
                  (\<lambda>cs. Inr ((0x10000 + (unat u - 0xD800) * 1024 + (unat u2 - 0xDC00)) # cs))))"

definition hex_digit :: "nat \<Rightarrow> char" where
  "hex_digit d = (if d < 10 then char_of (48 + d) else char_of (87 + d))"

fun show_hex :: "nat \<Rightarrow> string" where
  "show_hex n = (if n < 16 then [hex_digit n] else show_hex (n div 16) @ [hex_digit (n mod 16)])"

declare show_hex.simps [simp del]

definition utf16_error_text :: "u16 \<Rightarrow> string" where
  "utf16_error_text u = ''unpaired surrogate found: '' @ show_hex (unat u)"

text \<open>\<open>u16::to_le_bytes\<close>, \<open>u16::from_le_bytes\<close> and \<open>u16::from_be_bytes\<close>\<close>

definition to_le_bytes :: "u16 \<Rightarrow> string" where
  "to_le_bytes u = [char_of (unat u mod 256), char_of (unat u div 256)]"

definition from_le_bytes :: "char \<Rightarrow> char \<Rightarrow> u16" where
  "from_le_bytes a b = of_nat (of_char a + 256 * of_char b)"

definition from_be_bytes :: "char \<Rightarrow> char \<Rightarrow> u16" where
  "from_be_bytes a b = of_nat (256 * of_char a + of_char b)"

section \<open>Round trips\<close>

lemma base64_split:
  fixes c :: nat
  shows "c = c div 64 * 64 + c mod 64" and "c div 64 = c div 4096 * 64 + c div 64 mod 64"
    and "c div 4096 = c div 262144 * 64 + c div 4096 mod 64"
proof -
  have "c div 64 div 64 = c div 4096" "c div 4096 div 64 = c div 262144"
    by (simp_all flip: div_mult2_eq)
  then show "c div 64 = c div 4096 * 64 + c div 64 mod 64" "c div 4096 = c div 262144 * 64 + c div 4096 mod 64"
    using div_mult_mod_eq[of "c div 64" 64] div_mult_mod_eq[of "c div 4096" 64] by simp_all
qed simp

lemma utf8_char_encode:
  assumes "scalar_value c"
  shows "utf8_char (utf8_encode c @ r) = Inr (c, length (utf8_encode c))"
proof -
  consider "c < 0x80" | "0x80 \<le> c" "c < 0x800" | "0x800 \<le> c" "c < 0x10000" | "0x10000 \<le> c" "c < 0x110000"
    using assms by (auto simp: scalar_value_def) linarith+
  then show ?thesis
  proof cases
    case 1
    then show ?thesis by (simp add: utf8_encode_def utf8_char_def)
  next
    case 2
    then have "2 \<le> c div 64" "c div 64 < 32" by simp_all
    then show ?thesis using 2 by (simp add: utf8_encode_def utf8_char_def continuation_def)
  next
    case 3
    define a b d where "a = c div 4096" and "b = c div 64 mod 64" and "d = c mod 64"
    have c: "c = a * 4096 + b * 64 + d" using base64_split[of c] unfolding a_def b_def d_def by linarith
    have l: "b < 64" "d < 64" by (simp_all add: b_def d_def)
    have "c < 0xD800 \<or> 0xE000 \<le> c" using assms by (auto simp: scalar_value_def)
    with 3 c l have "a < 16" "a = 0 \<longrightarrow> 32 \<le> b" "a = 13 \<longrightarrow> b < 32" by arith+
    then have "second_ok (0xE0 + a) (0x80 + b)" "continuation (0x80 + d)" using l
      by (auto simp: second_ok_def continuation_def)
    moreover have "utf8_encode c = [0xE0 + a, 0x80 + b, 0x80 + d]"
      using 3 by (simp add: utf8_encode_def a_def b_def d_def)
    ultimately show ?thesis using \<open>a < 16\<close> by (simp add: utf8_char_def c)
  next
    case 4
    define e a b d where "e = c div 262144" and "a = c div 4096 mod 64" and "b = c div 64 mod 64" and "d = c mod 64"
    have c: "c = e * 262144 + a * 4096 + b * 64 + d"
      using base64_split[of c] unfolding e_def a_def b_def d_def by linarith
    have l: "a < 64" "b < 64" "d < 64" by (simp_all add: a_def b_def d_def)
    with 4 c have "e < 5" "e = 0 \<longrightarrow> 16 \<le> a" "e = 4 \<longrightarrow> a < 16" by arith+
    then have "second_ok (0xF0 + e) (0x80 + a)" "continuation (0x80 + b)" "continuation (0x80 + d)"
      using l by (auto simp: second_ok_def continuation_def)
    moreover have "utf8_encode c = [0xF0 + e, 0x80 + a, 0x80 + b, 0x80 + d]"
      using 4 by (simp add: utf8_encode_def e_def a_def b_def d_def)
    ultimately show ?thesis using \<open>e < 5\<close> by (simp add: utf8_char_def c)
  qed
qed

lemma utf8_encode_not_Nil [simp]: "utf8_encode c \<noteq> []"
  by (simp add: utf8_encode_def)

lemma utf8_decode_Cons:
  "scalar_value c \<Longrightarrow>
     utf8_decode i (utf8_encode c @ r) =
       bind_ok (utf8_decode (i + length (utf8_encode c)) r) (\<lambda>cs. Inr (c # cs))"
  by (subst utf8_decode.simps) (simp add: utf8_char_encode)

lemma utf8_decode_encode:
  "list_all scalar_value cs \<Longrightarrow> utf8_decode i (concat (map utf8_encode cs)) = Inr cs"
  by (induction cs arbitrary: i) (simp_all add: utf8_decode_Cons utf8_decode.simps[of _ "[]"])

lemma div64:
  fixes c :: nat
  assumes "c = k * 64 + r" and "r < 64"
  shows "c div 64 = k" and "c mod 64 = r"
  using assms by simp_all

lemma utf8_char_sound:
  assumes "utf8_char bs = Inr (c, w)"
  shows "scalar_value c \<and> utf8_encode c = take w bs"
proof -
  obtain b0 r where bs: "bs = b0 # r" using assms by (cases bs) (auto simp: utf8_char_def)
  consider "b0 < 0x80" | "0xC2 \<le> b0" "b0 < 0xE0" | "0xE0 \<le> b0" "b0 < 0xF0" | "0xF0 \<le> b0" "b0 < 0xF5"
    using assms by (auto simp: bs utf8_char_def split: if_splits)
  then show ?thesis
  proof cases
    case 1
    then show ?thesis using assms by (auto simp: bs utf8_char_def utf8_encode_def scalar_value_def)
  next
    case 2
    then obtain b1 r1 where r: "r = b1 # r1" "continuation b1" "c = (b0 - 0xC0) * 64 + (b1 - 0x80)" "w = 2"
      using assms by (auto simp: bs utf8_char_def split: list.splits if_splits)
    define x y where "x = b0 - 0xC0" and "y = b1 - 0x80"
    then have b: "b0 = 0xC0 + x" "b1 = 0x80 + y" and l: "y < 64" "2 \<le> x" "x < 32"
      using 2 r(2) by (auto simp: continuation_def)
    then have "c = x * 64 + y" using r(3) by simp
    then show ?thesis using l by (simp add: bs r(1,4) b utf8_encode_def scalar_value_def)
  next
    case 3
    then obtain b1 b2 r2 where r: "r = b1 # b2 # r2" "second_ok b0 b1" "continuation b2"
        "c = (b0 - 0xE0) * 4096 + (b1 - 0x80) * 64 + (b2 - 0x80)" "w = 3"
      using assms by (auto simp: bs utf8_char_def split: list.splits if_splits)
    define x y z where "x = b0 - 0xE0" and "y = b1 - 0x80" and "z = b2 - 0x80"
    then have b: "b0 = 0xE0 + x" "b1 = 0x80 + y" "b2 = 0x80 + z" and l: "x < 16" "y < 64" "z < 64"
        and e: "x = 0 \<longrightarrow> 32 \<le> y" "x = 13 \<longrightarrow> y < 32"
      using 3 r(2,3) by (auto simp: continuation_def second_ok_def split: if_splits)
    have c: "c = (x * 64 + y) * 64 + z" using r(4) by (simp add: b)
    then have d: "c div 64 = x * 64 + y" "c mod 64 = z" using div64 l by blast+
    have "c div 4096 = c div 64 div 64" by (simp flip: div_mult2_eq)
    with d l have "c div 4096 = x" "c div 64 mod 64 = y" by simp_all
    moreover have "0x800 \<le> c" using e(1) c by (cases "x = 0") simp_all
    moreover have "c < 0x10000" using l c by simp
    moreover have "c < 0xD800 \<or> 0xE000 \<le> c"
    proof (cases "x \<le> 13")
      case True
      then have "c < 0xD800" using l e(2) c by (cases "x = 13") simp_all
      then show ?thesis by simp
    qed (use c in simp)
    ultimately show ?thesis using d by (auto simp: bs r(1,5) b utf8_encode_def scalar_value_def)
  next
    case 4
    then obtain b1 b2 b3 r3 where r: "r = b1 # b2 # b3 # r3" "second_ok b0 b1" "continuation b2" "continuation b3"
        "c = (b0 - 0xF0) * 262144 + (b1 - 0x80) * 4096 + (b2 - 0x80) * 64 + (b3 - 0x80)" "w = 4"
      using assms by (auto simp: bs utf8_char_def split: list.splits if_splits)
    define x y z u where "x = b0 - 0xF0" and "y = b1 - 0x80" and "z = b2 - 0x80" and "u = b3 - 0x80"
    then have b: "b0 = 0xF0 + x" "b1 = 0x80 + y" "b2 = 0x80 + z" "b3 = 0x80 + u"
        and l: "x < 5" "y < 64" "z < 64" "u < 64" and e: "x = 0 \<longrightarrow> 16 \<le> y" "x = 4 \<longrightarrow> y < 16"
      using 4 r(2-4) by (auto simp: continuation_def second_ok_def split: if_splits)
    have c: "c = ((x * 64 + y) * 64 + z) * 64 + u" using r(5) by (simp add: b)
    then have d: "c div 64 = (x * 64 + y) * 64 + z" "c mod 64 = u" using div64 l by blast+
    have "c div 4096 = c div 64 div 64" "c div 262144 = c div 64 div 64 div 64" by (simp_all flip: div_mult2_eq)
    with div64[OF d(1) l(3)] div64[of "x * 64 + y", OF refl l(2)] d(1) div64[of _ "x * 64 + y" z, OF d(1) l(3)]
    have "c div 262144 = x" "c div 4096 mod 64 = y" "c div 64 mod 64 = z" by simp_all
    moreover have "0x10000 \<le> c" using e(1) c by (cases "x = 0") simp_all
    moreover have "c < 0x110000" using l e(2) c by (cases "x = 4") simp_all
    ultimately show ?thesis using d by (auto simp: bs r(1,6) b utf8_encode_def scalar_value_def)
  qed
qed

lemma utf8_decode_sound:
  "utf8_decode i bs = Inr cs \<Longrightarrow> bs = concat (map utf8_encode cs) \<and> list_all scalar_value cs"
proof (induction i bs arbitrary: cs rule: utf8_decode.induct)
  case (1 i bs)
  show ?case
  proof (cases "bs = []")
    case True
    with 1(2) show ?thesis by (simp add: utf8_decode.simps)
  next
    case False
    then obtain c w cs' where c: "utf8_char bs = Inr (c, w)" "utf8_decode (i + w) (drop w bs) = Inr cs'" "cs = c # cs'"
      using 1(2) by (subst (asm) utf8_decode.simps) (auto simp: ok_iff split: sum.splits)
    have "bs = take w bs @ drop w bs" by simp
    with 1(1)[OF False c(1) refl c(2)] utf8_char_sound[OF c(1)] show ?thesis
      by (simp add: c(3))
  qed
qed

lemma scalar_encode_bytes: "scalar_value c \<Longrightarrow> b \<in> set (utf8_encode c) \<Longrightarrow> b < 256"
  by (auto simp: utf8_encode_def scalar_value_def split: if_splits)

lemma bytes_string_of:
  "list_all scalar_value cs \<Longrightarrow> bytes_of (string_of cs) = concat (map utf8_encode cs)"
  by (auto simp: bytes_of_def string_of_def list_all_iff comp_def intro!: map_idI)
    (meson mod_less scalar_encode_bytes)

lemma from_utf8_string_of: "list_all scalar_value cs \<Longrightarrow> from_utf8 (string_of cs) = Inr cs"
  by (simp add: from_utf8_def bytes_string_of utf8_decode_encode)

lemma from_utf8_sound:
  assumes "from_utf8 s = Inr cs"
  shows "string_of cs = s \<and> list_all scalar_value cs"
proof -
  have b: "concat (map utf8_encode cs) = bytes_of s" "list_all scalar_value cs"
    using utf8_decode_sound assms by (auto simp: from_utf8_def)
  then show ?thesis by (simp add: string_of_def b(1)) (simp add: bytes_of_def comp_def)
qed

lemma valid_str_string_of [simp]: "list_all scalar_value cs \<Longrightarrow> valid_str (string_of cs)"
  by (simp add: valid_str_def from_utf8_string_of)

lemma chars_of_string_of [simp]: "list_all scalar_value cs \<Longrightarrow> chars_of (string_of cs) = cs"
  by (simp add: chars_of_def from_utf8_string_of)

lemma valid_str_chars: "valid_str s \<Longrightarrow> string_of (chars_of s) = s \<and> list_all scalar_value (chars_of s)"
  using from_utf8_sound[of s] by (auto simp: valid_str_def chars_of_def is_ok_iff)

lemma decode_units_encode:
  "list_all scalar_value cs \<Longrightarrow> decode_units (concat (map encode_unit cs)) = Inr cs"
proof (induction cs)
  case (Cons c cs)
  then have IH: "decode_units (concat (map encode_unit cs)) = Inr cs" and sc: "scalar_value c" by simp_all
  show ?case
  proof (cases "c < 0x10000")
    case True
    then have "unat (of_nat c :: u16) = c" by (simp add: unat_of_nat)
    moreover have "encode_unit c = [of_nat c]" using True by (simp add: encode_unit_def)
    ultimately show ?thesis using sc by (auto simp: IH scalar_value_def)
  next
    case False
    define h l where "h = (c - 0x10000) div 1024" and "l = (c - 0x10000) mod 1024"
    have c: "c = 0x10000 + h * 1024 + l" and b: "h < 1024" "l < 1024"
      using False sc by (auto simp: h_def l_def scalar_value_def)
    have "unat (of_nat (0xD800 + h) :: u16) = 0xD800 + h" "unat (of_nat (0xDC00 + l) :: u16) = 0xDC00 + l"
      using b by (simp_all add: unat_of_nat del: of_nat_add)
    moreover have "encode_unit c = [of_nat (0xD800 + h), of_nat (0xDC00 + l)]"
      using False by (simp add: encode_unit_def h_def l_def)
    ultimately show ?thesis using b by (simp add: IH c del: of_nat_add)
  qed
qed simp

lemma decode_encode_utf16: "valid_str s \<Longrightarrow> decode_units (encode_utf16 s) = Inr (chars_of s)"
  by (simp add: encode_utf16_def decode_units_encode valid_str_chars)

lemma le_bytes: "from_le_bytes (to_le_bytes u ! 0) (to_le_bytes u ! 1) = u"
proof -
  have "unat u < 2 ^ LENGTH(16)" by (rule unsigned_less)
  then have "unat u div 256 < 256" by simp
  then show ?thesis by (simp add: from_le_bytes_def to_le_bytes_def)
qed

end
