(* ===== verification/Xml_Dom.thy ===== *)
theory Xml_Dom
  imports Xml_Read Unicode Changes
begin

text \<open>
  Bounded parsing of Task XML (\<open>xml.rs\<close>, first half): decoding of the bytes, the stack machine that
  builds the element tree from the events of the \<open>quick_xml\<close> reader, and the operations of raw documents
  and snapshots. The reader and the entity decoder of \<open>quick_xml\<close> are parameters: \<open>reader text\<close> is the sequence
  of results of \<open>read_event\<close>, its end is \<open>Event::Eof\<close>.
\<close>

section \<open>Limits and encodings\<close>

record parse_limits =
  max_bytes :: nat
  max_depth :: nat
  max_nodes :: nat

definition DEFAULT_MAX_BYTES :: nat where "DEFAULT_MAX_BYTES = 8 * 1024 * 1024"
definition DEFAULT_MAX_DEPTH :: nat where "DEFAULT_MAX_DEPTH = 64"
definition DEFAULT_MAX_NODES :: nat where "DEFAULT_MAX_NODES = 100000"

definition default_limits :: parse_limits where
  "default_limits =
     \<lparr>max_bytes = DEFAULT_MAX_BYTES, max_depth = DEFAULT_MAX_DEPTH, max_nodes = DEFAULT_MAX_NODES\<rparr>"

text \<open>\<open>chunks_exact(2)\<close>, read as code units\<close>

fun code_units :: "bool \<Rightarrow> string \<Rightarrow> u16 list" where
  "code_units little_endian (a # b # r) =
     (if little_endian then from_le_bytes a b else from_be_bytes a b) # code_units little_endian r"
| "code_units little_endian _ = []"

definition decode_utf16 :: "string \<Rightarrow> bool \<Rightarrow> string result" where
  "decode_utf16 bytes little_endian =
     (if odd (length bytes) then
        Inl (xml_error [Lit ''UTF-16 Task XML contains an incomplete code unit''])
      else
        bind_ok (map_err (\<lambda>u. xml_error [Lit ''Task XML contains invalid UTF-16: '', Dsp (utf16_error_text u)])
          (decode_units (code_units little_endian bytes))) (\<lambda>cs. Inr (string_of cs)))"

definition le_bom :: string where "le_bom = [CHR 0xFF, CHR 0xFE]"
definition be_bom :: string where "be_bom = [CHR 0xFE, CHR 0xFF]"
definition utf8_bom :: string where "utf8_bom = [CHR 0xEF, CHR 0xBB, CHR 0xBF]"

definition decode_xml :: "string \<Rightarrow> nat \<Rightarrow> (xml_encoding \<times> string) result" where
  "decode_xml bytes limit =
     (if length bytes > limit then
        Inl (xml_error [Lit ''XML exceeds the '', Dsp (show_nat limit), Lit ''-byte parse limit''])
      else if starts_with le_bom bytes then
        bind_ok (decode_utf16 (drop 2 bytes) True) (\<lambda>s. Inr (Utf16LittleEndian, s))
      else if starts_with be_bom bytes then
        bind_ok (decode_utf16 (drop 2 bytes) False) (\<lambda>s. Inr (Utf16BigEndian, s))
      else
        let body = (case strip_prefix utf8_bom bytes of Some r \<Rightarrow> r | None \<Rightarrow> bytes) in
        bind_ok (map_err (\<lambda>e. xml_error [Lit ''Task XML is not valid UTF-8: '', Dsp (utf8_error_text e)])
          (from_utf8 body)) (\<lambda>_. Inr (Utf8, body)))"

section \<open>Reader events\<close>

text \<open>An attribute as \<open>quick_xml\<close> delivers it: a malformed one, or a name with the result of decoding
  and normalizing its value. Texts carry the result of \<open>xml10_content\<close>.\<close>

type_synonym attribute_event = "string + string \<times> (string + string)"

datatype event =
    StartEvent string "attribute_event list"
  | EmptyEvent string "attribute_event list"
  | TextEvent "string + string"
  | CDataEvent "string + string"
  | EndEvent string
  | GeneralRef string
  | DocType
  | Decl
  | PI
  | Comment
  | Eof

type_synonym reader = "string \<Rightarrow> (string + event) list"
type_synonym unescaper = "string \<Rightarrow> string + string"

definition local_name :: "string \<Rightarrow> string result" where
  "local_name qualified =
     bind_ok (map_err (\<lambda>e. xml_error [Lit ''XML name is not UTF-8: '', Dsp (utf8_error_text e)])
       (from_utf8 qualified)) (\<lambda>_. Inr (last (split_on (CHR '':'') qualified)))"

definition xml_char :: "nat \<Rightarrow> bool" where
  "xml_char c \<longleftrightarrow> c \<in> {0x09, 0x0A, 0x0D} \<or> 0x20 \<le> c \<and> c \<le> 0xD7FF \<or> 0xE000 \<le> c \<and> c \<le> 0xFFFD
     \<or> 0x10000 \<le> c \<and> c \<le> 0x10FFFF"

definition resolve_reference :: "unescaper \<Rightarrow> string \<Rightarrow> string result" where
  "resolve_reference unescape reference =
     bind_ok (map_err (\<lambda>_. xml_error [Lit ''invalid XML reference'']) (from_utf8 reference)) (\<lambda>_.
     bind_ok (map_err (\<lambda>_. xml_error [Lit ''undeclared XML entity reference''])
       (unescape (''&'' @ reference @ '';''))) (\<lambda>decoded.
       if list_ex (\<lambda>c. \<not> xml_char c) (chars_of decoded)
       then Inl (xml_error [Lit ''reference is not an XML 1.0 character'']) else Inr decoded))"

section \<open>The stack machine\<close>

text \<open>The attribute loop, shared by the two kinds of start tags.\<close>

fun read_attributes :: "attribute_event list \<Rightarrow> (string, string) btree \<Rightarrow> (string, string) btree result" where
  "read_attributes [] m = Inr m"
| "read_attributes (Inl e # es) m = Inl (xml_error [Dsp e])"
| "read_attributes (Inr (key, value) # es) m =
     bind_ok (local_name key) (\<lambda>k.
     bind_ok (map_err (\<lambda>e. xml_error [Dsp e]) value) (\<lambda>v.
       read_attributes es (btree_insert k v m)))"

record dom_state =
  ds_stack :: "node list" \<comment> \<open>the top first\<close>
  ds_root :: "node option"
  ds_nodes :: nat

definition dom_start :: dom_state where
  "dom_start = \<lparr>ds_stack = [], ds_root = None, ds_nodes = 0\<rparr>"

text \<open>The checks and the node of a start or empty tag.\<close>

definition open_element :: "parse_limits \<Rightarrow> string \<Rightarrow> attribute_event list \<Rightarrow> dom_state \<Rightarrow> node result" where
  "open_element limits name attributes st =
     (if ds_nodes st + 1 > max_nodes limits then
        Inl (xml_error [Lit ''XML element count exceeds the parse limit''])
      else if length (ds_stack st) \<ge> max_depth limits then
        Inl (xml_error [Lit ''XML nesting exceeds the parse limit''])
      else
        bind_ok (read_attributes attributes []) (\<lambda>m.
        bind_ok (local_name name) (\<lambda>n. Inr (Node n m [] []))))"

fun add_child :: "node \<Rightarrow> node \<Rightarrow> node" where
  "add_child c (Node name attributes kids content) = Node name attributes (kids @ [c]) content"

fun push_text :: "string \<Rightarrow> node \<Rightarrow> node" where
  "push_text s (Node name attributes kids content) = Node name attributes kids (content @ s)"

text \<open>A finished element goes to its parent, or becomes the root.\<close>

definition close_element :: "node \<Rightarrow> dom_state \<Rightarrow> dom_state result" where
  "close_element n st =
     (case ds_stack st of
        parent # rest \<Rightarrow> Inr (st\<lparr>ds_stack := add_child n parent # rest\<rparr>)
      | [] \<Rightarrow>
          if ds_root st \<noteq> None then Inl (xml_error [Lit ''Task XML contains multiple root elements''])
          else Inr (st\<lparr>ds_root := Some n\<rparr>))"

fun push_top :: "string \<Rightarrow> node list \<Rightarrow> node list" where
  "push_top s [] = []"
| "push_top s (n # rest) = push_text s n # rest"

fun dom_step :: "unescaper \<Rightarrow> parse_limits \<Rightarrow> event \<Rightarrow> dom_state \<Rightarrow> dom_state result" where
  "dom_step unescape limits (StartEvent name attributes) st =
     bind_ok (open_element limits name attributes st) (\<lambda>n.
       Inr (st\<lparr>ds_nodes := ds_nodes st + 1, ds_stack := n # ds_stack st\<rparr>))"
| "dom_step unescape limits (EmptyEvent name attributes) st =
     bind_ok (open_element limits name attributes st) (\<lambda>n.
       close_element n (st\<lparr>ds_nodes := ds_nodes st + 1\<rparr>))"
| "dom_step unescape limits (TextEvent content) st =
     bind_ok (map_err (\<lambda>e. xml_error [Dsp e]) content) (\<lambda>s.
     bind_ok (map_err (\<lambda>e. xml_error [Dsp e]) (unescape s)) (\<lambda>decoded.
       if ds_stack st \<noteq> [] then Inr (st\<lparr>ds_stack := push_top decoded (ds_stack st)\<rparr>)
       else if trim decoded \<noteq> [] then
         Inl (xml_error [Lit ''text is not allowed outside the root element''])
       else Inr st))"
| "dom_step unescape limits (CDataEvent content) st =
     (if ds_stack st = [] then Inr st
      else bind_ok (map_err (\<lambda>e. xml_error [Dsp e]) content) (\<lambda>s.
        Inr (st\<lparr>ds_stack := push_top s (ds_stack st)\<rparr>)))"
| "dom_step unescape limits (EndEvent name) st =
     (case ds_stack st of
        [] \<Rightarrow> Inl (xml_error [Lit ''unexpected XML end element''])
      | n # rest \<Rightarrow> close_element n (st\<lparr>ds_stack := rest\<rparr>))"
| "dom_step unescape limits (GeneralRef name) st =
     bind_ok (resolve_reference unescape name) (\<lambda>value.
       if ds_stack st = [] then Inl (xml_error [Lit ''reference outside XML root''])
       else Inr (st\<lparr>ds_stack := push_top value (ds_stack st)\<rparr>))"
| "dom_step unescape limits DocType st =
     Inl (xml_error [Lit ''DTD declarations and entity references are not allowed''])"
| "dom_step unescape limits _ st = Inr st"

text \<open>The loop, up to \<open>Eof\<close>.\<close>

fun dom_loop :: "unescaper \<Rightarrow> parse_limits \<Rightarrow> (string + event) list \<Rightarrow> dom_state \<Rightarrow> dom_state result" where
  "dom_loop unescape limits [] st = Inr st"
| "dom_loop unescape limits (Inl e # es) st = Inl (xml_error [Dsp e])"
| "dom_loop unescape limits (Inr ev # es) st =
     (if ev = Eof then Inr st
      else bind_ok (dom_step unescape limits ev st) (dom_loop unescape limits es))"

definition parse_dom :: "reader \<Rightarrow> unescaper \<Rightarrow> string \<Rightarrow> parse_limits \<Rightarrow> node result" where
  "parse_dom reader unescape source limits =
     (if length source > max_bytes limits then
        Inl (xml_error [Lit ''decoded XML exceeds the '', Dsp (show_nat (max_bytes limits)), Lit ''-byte parse limit''])
      else
        bind_ok (dom_loop unescape limits (reader source) dom_start) (\<lambda>st.
          if ds_stack st \<noteq> [] then Inl (xml_error [Lit ''Task XML ended before all elements were closed''])
          else ok_or (xml_error [Lit ''Task XML has no root element'']) (ds_root st)))"

section \<open>Documents\<close>

definition raw_with_limits :: "reader \<Rightarrow> unescaper \<Rightarrow> string \<Rightarrow> parse_limits \<Rightarrow> raw_task_xml result" where
  "raw_with_limits reader unescape bytes limits =
     bind_ok (decode_xml bytes (max_bytes limits)) (\<lambda>(encoding, decoded).
     bind_ok (parse_dom reader unescape decoded limits) (\<lambda>_.
       Inr \<lparr>raw_bytes = bytes, raw_encoding = encoding\<rparr>))"

definition raw_new :: "reader \<Rightarrow> unescaper \<Rightarrow> string \<Rightarrow> raw_task_xml result" where
  "raw_new reader unescape bytes = raw_with_limits reader unescape bytes default_limits"

text \<open>\<open>usize::MAX\<close> of a 64-bit target\<close>

definition usize_max :: nat where "usize_max = 2 ^ 64 - 1"

definition raw_decoded :: "raw_task_xml \<Rightarrow> string result" where
  "raw_decoded raw = bind_ok (decode_xml (raw_bytes raw) usize_max) (\<lambda>(_, s). Inr s)"

record xml_env =
  env_reader :: reader
  env_unescape :: unescaper
  env_civil :: civil_parser
  env_uuid :: uuid_parser

definition raw_definition :: "xml_env \<Rightarrow> raw_task_xml \<Rightarrow> task_definition result" where
  "raw_definition env raw =
     bind_ok (raw_decoded raw) (\<lambda>decoded.
     bind_ok (parse_dom (env_reader env) (env_unescape env) decoded default_limits) (\<lambda>root.
       definition_from_node (env_civil env) (env_uuid env) root))"

definition snapshot_parse :: "xml_env \<Rightarrow> string \<Rightarrow> task_snapshot result" where
  "snapshot_parse env bytes =
     bind_ok (raw_new (env_reader env) (env_unescape env) bytes) (\<lambda>raw.
       Inr \<lparr>snap_raw = raw, snap_typed = raw_definition env raw\<rparr>)"

definition from_bytes :: "xml_env \<Rightarrow> string \<Rightarrow> task_definition result" where
  "from_bytes env bytes =
     bind_ok (raw_new (env_reader env) (env_unescape env) bytes) (raw_definition env)"

text \<open>\<open>str::find("?>")\<close> and the removal of a declaration\<close>

fun find_str :: "string \<Rightarrow> string \<Rightarrow> nat option" where
  "find_str pat [] = (if pat = [] then Some 0 else None)"
| "find_str pat (c # cs) = (if starts_with pat (c # cs) then Some 0 else map_option Suc (find_str pat cs))"

definition without_declaration :: "string \<Rightarrow> string" where
  "without_declaration source =
     (case strip_prefix ''<?xml'' source of
        None \<Rightarrow> source
      | Some rest \<Rightarrow>
          (case find_str ''?>'' rest of None \<Rightarrow> source | Some index \<Rightarrow> drop (index + 2) rest))"

end
