(* ===== verification/Xml_Bounds.thy ===== *)
theory Xml_Bounds
  imports Xml_Dom "HOL-Library.Code_Target_Nat"
begin

text \<open>
  What the parser guarantees about every document, whatever events the XML library delivers: the
  states that the stack machine can reach form an inductive set, and the resource limits are an
  invariant of it.
\<close>

section \<open>Reachable states\<close>

inductive dom_reachable :: "unescaper \<Rightarrow> parse_limits \<Rightarrow> dom_state \<Rightarrow> bool"
  for unescape limits where
  start: "dom_reachable unescape limits dom_start"
| step: "dom_reachable unescape limits st \<Longrightarrow> dom_step unescape limits ev st = Inr st' \<Longrightarrow>
    dom_reachable unescape limits st'"

lemma dom_loop_reachable:
  "dom_reachable unescape limits st \<Longrightarrow> dom_loop unescape limits es st = Inr st' \<Longrightarrow>
     dom_reachable unescape limits st'"
proof (induction unescape limits es st rule: dom_loop.induct)
  case (3 unescape limits ev es st)
  then show ?case by (cases "ev = Eof") (auto simp: ok_iff intro: dom_reachable.step)
qed simp_all

text \<open>The size of a tree.\<close>

fun node_count :: "node \<Rightarrow> nat" where
  "node_count (Node name attributes kids content) = Suc (sum_list (map node_count kids))"

fun node_height :: "node \<Rightarrow> nat" where
  "node_height (Node name attributes kids content) = Suc (foldr max (map node_height kids) 0)"

lemma push_text_size [simp]: "node_count (push_text s n) = node_count n" "node_height (push_text s n) = node_height n"
  by (cases n; simp)+

lemma add_child_count [simp]: "node_count (add_child c n) = node_count n + node_count c"
  by (cases n) simp

lemma foldr_max_snoc: "foldr max (xs @ [c]) 0 = max (foldr max xs 0) (c :: nat)"
  by (induction xs) auto

lemma add_child_height [simp]: "node_height (add_child c n) = max (node_height n) (Suc (node_height c))"
  by (cases n) (simp add: foldr_max_snoc del: foldr_append)

text \<open>An element of the stack with its part of the tree fits under the elements below it.\<close>

fun heights_ok :: "nat \<Rightarrow> node list \<Rightarrow> bool" where
  "heights_ok limit [] = True"
| "heights_ok limit (n # rest) = (length rest + node_height n \<le> limit \<and> heights_ok limit rest)"

definition dom_invariant :: "parse_limits \<Rightarrow> dom_state \<Rightarrow> bool" where
  "dom_invariant limits st \<longleftrightarrow>
     heights_ok (max_depth limits) (ds_stack st)
     \<and> (case ds_root st of Some n \<Rightarrow> node_height n \<le> max_depth limits | None \<Rightarrow> True)
     \<and> ds_nodes st = sum_list (map node_count (ds_stack st))
         + (case ds_root st of Some n \<Rightarrow> node_count n | None \<Rightarrow> 0)
     \<and> ds_nodes st \<le> max_nodes limits"

lemma open_element_ok:
  "open_element limits name attributes st = Inr n \<Longrightarrow>
     node_count n = 1 \<and> node_height n = 1 \<and> ds_nodes st + 1 \<le> max_nodes limits
     \<and> length (ds_stack st) < max_depth limits"
  by (auto simp: open_element_def ok_iff split: if_splits)

lemma close_element_ok:
  assumes "close_element n st = Inr st'"
    and "heights_ok (max_depth limits) (n # ds_stack st)"
    and "case ds_root st of Some r \<Rightarrow> node_height r \<le> max_depth limits | None \<Rightarrow> True"
    and "ds_nodes st = node_count n + sum_list (map node_count (ds_stack st))
         + (case ds_root st of Some r \<Rightarrow> node_count r | None \<Rightarrow> 0)"
    and "ds_nodes st \<le> max_nodes limits"
  shows "dom_invariant limits st'"
  using assms by (auto simp: close_element_def dom_invariant_def split: list.splits if_splits option.splits)

lemma push_top_ok [simp]:
  "heights_ok limit (push_top s st) = heights_ok limit st" "map node_count (push_top s st) = map node_count st"
  by (cases st; simp)+

lemma dom_invariant_step:
  assumes "dom_step unescape limits ev st = Inr st'" and "dom_invariant limits st"
  shows "dom_invariant limits st'"
proof (cases ev)
  case (StartEvent name attributes)
  then obtain n where "open_element limits name attributes st = Inr n"
      "st' = st\<lparr>ds_nodes := ds_nodes st + 1, ds_stack := n # ds_stack st\<rparr>"
    using assms(1) by (auto simp: ok_iff)
  with open_element_ok[of limits name attributes st n] assms(2) show ?thesis
    by (auto simp: dom_invariant_def)
next
  case (EmptyEvent name attributes)
  then obtain n where n: "open_element limits name attributes st = Inr n"
      "close_element n (st\<lparr>ds_nodes := ds_nodes st + 1\<rparr>) = Inr st'"
    using assms(1) by (auto simp: ok_iff)
  show ?thesis
    by (rule close_element_ok[OF n(2)])
      (use open_element_ok[OF n(1)] assms(2) in \<open>auto simp: dom_invariant_def split: option.splits\<close>)
next
  case (EndEvent name)
  then obtain n rest where n: "ds_stack st = n # rest" "close_element n (st\<lparr>ds_stack := rest\<rparr>) = Inr st'"
    using assms(1) by (auto split: list.splits)
  show ?thesis
    by (rule close_element_ok[OF n(2)]) (use assms(2) n(1) in \<open>auto simp: dom_invariant_def\<close>)
qed (use assms in \<open>auto simp: ok_iff dom_invariant_def split: if_splits\<close>)

lemma dom_invariant_reachable: "dom_reachable unescape limits st \<Longrightarrow> dom_invariant limits st"
proof (induction rule: dom_reachable.induct)
  case start
  show ?case by (simp add: dom_invariant_def dom_start_def)
next
  case (step st ev st')
  then show ?case using dom_invariant_step by blast
qed

section \<open>Properties\<close>

text \<open>C18. The resource limits hold for every document that parses: however the XML library splits
  it into events, the text is at most \<open>max_bytes\<close> long and the resulting tree has at most
  \<open>max_nodes\<close> elements and at most \<open>max_depth\<close> nested levels.\<close>

theorem parse_dom_bounded:
  assumes "parse_dom reader unescape source limits = Inr root"
  shows "length source \<le> max_bytes limits \<and> node_count root \<le> max_nodes limits
    \<and> node_height root \<le> max_depth limits"
proof -
  obtain st where st: "dom_loop unescape limits (reader source) dom_start = Inr st" "ds_stack st = []"
      "ds_root st = Some root" "length source \<le> max_bytes limits"
    using assms by (auto simp: parse_dom_def ok_iff split: if_splits)
  then have "dom_invariant limits st"
    using dom_loop_reachable[OF dom_reachable.start] dom_invariant_reachable by blast
  with st show ?thesis by (simp add: dom_invariant_def)
qed

lemma parse_dom_bounded_witness:
  "node_height (Node ''Task'' [] [Node ''Data'' [] [] ''x''] []) \<le> 2"
proof -
  let ?r = "\<lambda>s. [Inr (StartEvent ''Task'' []), Inr (StartEvent ''Data'' []), Inr (TextEvent (Inr ''x'')),
    Inr (EndEvent ''Data''), Inr (EndEvent ''Task''), Inr Eof] :: (string + event) list"
  have "parse_dom ?r Inr ''<Task><Data>x</Data></Task>'' \<lparr>max_bytes = 40, max_depth = 2, max_nodes = 2\<rparr>
      = Inr (Node ''Task'' [] [Node ''Data'' [] [] ''x''] [])"
    by code_simp
  from parse_dom_bounded[OF this] show ?thesis by simp
qed

text \<open>No document type declaration is ever processed and no character outside XML 1.0 is let in
  through a reference: in a document that parses, no event before the end is a \<open>DocType\<close>, and every
  general reference resolves to text made of XML characters only.\<close>

theorem parse_dom_no_entities:
  assumes "parse_dom reader unescape source limits = Inr root"
    and "e \<in> set (takeWhile (\<lambda>e. e \<noteq> Inr Eof) (reader source))"
  shows "e \<noteq> Inr DocType \<and> (\<forall>name. e = Inr (GeneralRef name) \<longrightarrow>
    (\<exists>decoded. unescape (''&'' @ name @ '';'') = Inr decoded \<and> list_all xml_char (chars_of decoded)))"
proof -
  have "e \<noteq> Inr DocType \<and> (\<forall>name. e = Inr (GeneralRef name) \<longrightarrow>
      (\<exists>decoded. unescape (''&'' @ name @ '';'') = Inr decoded \<and> list_all xml_char (chars_of decoded)))"
    if "dom_loop unescape limits es st = Inr st'" "e \<in> set (takeWhile (\<lambda>e. e \<noteq> Inr Eof) es)" for es st st'
    using that
  proof (induction unescape limits es st rule: dom_loop.induct)
    case (3 unescape limits ev es st)
    then have ne: "ev \<noteq> Eof" by (auto split: if_splits)
    then obtain st2 where st2: "dom_step unescape limits ev st = Inr st2" "dom_loop unescape limits es st2 = Inr st'"
      using 3 by (auto simp: ok_iff)
    show ?case
    proof (cases "e = Inr ev")
      case True
      then show ?thesis using st2(1)
        by (cases ev) (auto simp: ok_iff resolve_reference_def list_all_iff list_ex_iff split: if_splits)
    next
      case False
      then show ?thesis using 3(1)[OF ne st2(2)] 3(3) ne by (auto split: if_splits)
    qed
  qed simp_all
  then show ?thesis using assms by (auto simp: parse_dom_def ok_iff split: if_splits)
qed

lemma parse_dom_no_entities_witness:
  "\<exists>decoded. (if ''&amp;'' = ''&amp;'' then Inr ''&'' else Inr ''&amp;'' :: string + string) = Inr decoded
     \<and> list_all xml_char (chars_of decoded)"
proof -
  let ?r = "\<lambda>s. [Inr (StartEvent ''Task'' []), Inr (GeneralRef ''amp''), Inr (EndEvent ''Task''), Inr Eof]
    :: (string + event) list"
  let ?u = "\<lambda>s. if s = ''&amp;'' then Inr ''&'' else Inr s :: string + string"
  have "parse_dom ?r ?u ''<Task>&amp;</Task>'' \<lparr>max_bytes = 40, max_depth = 2, max_nodes = 2\<rparr>
      = Inr (Node ''Task'' [] [] ''&'')"
    by code_simp
  from parse_dom_no_entities[OF this, of "Inr (GeneralRef ''amp'')"] show ?thesis by simp
qed

end
