(* ===== verification/Xml_Write.thy ===== *)
theory Xml_Write
  imports Xml_Tree Ordering Validation
begin

text \<open>
  The canonical Task XML writer (\<open>xml.rs\<close>, from \<open>write_definition\<close> to \<open>limit_text\<close>). The source writes
  every element straight into a string; here \<open>container\<close> first builds a markup tree and \<open>render\<close>
  gives its text, so that the tree a reader has to find can be named. Text kept from a document is
  \<open>Raw\<close>. The printed form of a UUID is a parameter.
\<close>

section \<open>Markup\<close>

datatype markup =
    Element string "(string \<times> string) list" "markup list" string
  | EmptyElement string
  | Raw string

fun render :: "markup \<Rightarrow> string" where
  "render (Element name attributes kids content) =
     ''<'' @ name @ attributes_text attributes @ ''>'' @ escape_text content
     @ concat (map render kids) @ ''</'' @ name @ ''>''"
| "render (EmptyElement name) = ''<'' @ name @ '' />''"
| "render (Raw s) = s"

definition container :: "string \<Rightarrow> markup list \<Rightarrow> (string \<times> string) list \<Rightarrow> string \<Rightarrow> markup" where
  "container name kids attributes content = Element name attributes kids content"

definition container_with_id :: "string \<Rightarrow> markup list \<Rightarrow> string option \<Rightarrow> markup" where
  "container_with_id name kids i =
     (case i of Some v \<Rightarrow> container name kids [(''id'', v)] [] | None \<Rightarrow> container name kids [] [])"

definition element :: "string \<Rightarrow> string \<Rightarrow> markup" where
  "element name content = container name [] [] content"

definition empty_element :: "string \<Rightarrow> markup" where
  "empty_element name = EmptyElement name"

definition bool_element :: "string \<Rightarrow> bool \<Rightarrow> markup" where
  "bool_element name value = element name (if value then ''true'' else ''false'')"

definition optional_element :: "string \<Rightarrow> string option \<Rightarrow> markup list" where
  "optional_element name value = (case value of Some v \<Rightarrow> [element name v] | None \<Rightarrow> [])"

fun limit_text :: "task_limit \<Rightarrow> string" where
  "limit_text (Finite d) = duration_display d"
| "limit_text Unlimited = ''PT0S''"

definition has_extensions :: "task_definition \<Rightarrow> string \<Rightarrow> bool" where
  "has_extensions d parent \<longleftrightarrow> list_ex (\<lambda>e. xe_parent e = parent) (td_extensions d)"

definition merge_extensions :: "string \<Rightarrow> markup list \<Rightarrow> xml_extension list \<Rightarrow> markup list" where
  "merge_extensions parent known extensions =
     merge (map (\<lambda>c. if render c = [] then None else Some c) known)
       (map (\<lambda>e. \<lparr>p_ordinal = xe_ordinal e, p_child = Raw (xe_xml e)\<rparr>)
         (filter (\<lambda>e. xe_parent e = parent) extensions))"

section \<open>Registration information and principal\<close>

definition registration_elements :: "registration_info \<Rightarrow> markup list" where
  "registration_elements r =
     optional_element ''Date'' (map_option dt_text (ri_date r))
     @ optional_element ''Author'' (ri_author r)
     @ optional_element ''Version'' (ri_version r)
     @ optional_element ''Description'' (ri_description r)
     @ optional_element ''Documentation'' (ri_documentation r)
     @ optional_element ''URI'' (ri_uri r)
     @ optional_element ''SecurityDescriptor'' (map_option as_sddl (ri_security_descriptor r))
     @ optional_element ''Source'' (ri_source r)"

definition write_registration :: "task_definition \<Rightarrow> markup" where
  "write_registration d =
     container ''RegistrationInfo''
       (merge_extensions ''Task/RegistrationInfo'' (registration_elements (td_registration d))
         (td_extensions d)) [] []"

fun service_account_text :: "service_account \<Rightarrow> string" where
  "service_account_text LocalSystem = ''SYSTEM''"
| "service_account_text LocalService = ''NT AUTHORITY'' @ [CHR 0x5C] @ ''LOCAL SERVICE''"
| "service_account_text NetworkService = ''NT AUTHORITY'' @ [CHR 0x5C] @ ''NETWORK SERVICE''"

fun identity_elements :: "principal_identity \<Rightarrow> markup list" where
  "identity_elements NoIdentity = []"
| "identity_elements (User user) = [element ''UserId'' user]"
| "identity_elements (Group g) = [element ''GroupId'' g]"
| "identity_elements (ServiceAccount account) = [element ''UserId'' (service_account_text account)]"

fun xml_logon_type :: "logon_type \<Rightarrow> string option" where
  "xml_logon_type Password = Some ''Password''"
| "xml_logon_type InteractiveToken = Some ''InteractiveToken''"
| "xml_logon_type S4u = Some ''S4U''"
| "xml_logon_type InteractiveTokenOrPassword = Some ''InteractiveTokenOrPassword''"
| "xml_logon_type _ = None"

fun run_level_text :: "run_level \<Rightarrow> string" where
  "run_level_text LeastPrivilege = ''LeastPrivilege''"
| "run_level_text HighestAvailable = ''HighestAvailable''"

fun sid_type_text :: "process_token_sid_type \<Rightarrow> string" where
  "sid_type_text SidDefault = ''Default''"
| "sid_type_text SidNone = ''None''"
| "sid_type_text SidUnrestricted = ''Unrestricted''"

definition write_principal :: "principal \<Rightarrow> markup" where
  "write_principal p =
     container ''Principals''
       [container ''Principal''
         (identity_elements (pr_identity p)
          @ optional_element ''DisplayName'' (pr_display_name p)
          @ optional_element ''LogonType'' (xml_logon_type (pr_logon_type p))
          @ [element ''RunLevel'' (run_level_text (pr_run_level p))]
          @ (if pr_process_token_sid_type p \<noteq> SidDefault
             then [element ''ProcessTokenSidType'' (sid_type_text (pr_process_token_sid_type p))] else [])
          @ (if pr_required_privileges p \<noteq> []
             then [container ''RequiredPrivileges''
                (map (\<lambda>q. element ''Privilege'' (privilege_str q)) (pr_required_privileges p)) [] []]
             else []))
         [(''id'', pr_id p)] []] [] []"

section \<open>Settings\<close>

fun instances_text :: "multiple_instances_policy \<Rightarrow> string" where
  "instances_text Parallel = ''Parallel''"
| "instances_text Queue = ''Queue''"
| "instances_text IgnoreNew = ''IgnoreNew''"
| "instances_text StopExisting = ''StopExisting''"

definition restart_elements :: "restart_policy option \<Rightarrow> markup list" where
  "restart_elements restart =
     (case restart of
        Some r \<Rightarrow> [container ''RestartOnFailure''
          [element ''Interval'' (duration_display (rp_interval r)),
           element ''Count'' (show_nat (unat (rp_count r)))] [] []]
      | None \<Rightarrow> [])"

definition idle_elements :: "idle_settings option \<Rightarrow> markup list" where
  "idle_elements idle =
     (case idle of
        Some i \<Rightarrow> [container ''IdleSettings''
          [element ''Duration'' (duration_display (idle_duration i)),
           element ''WaitTimeout'' (duration_display (idle_wait_timeout i)),
           bool_element ''StopOnIdleEnd'' (idle_stop_on_idle_end i),
           bool_element ''RestartOnIdle'' (idle_restart_on_idle i)] [] []]
      | None \<Rightarrow> [])"

definition network_elements :: "network_settings option \<Rightarrow> markup list" where
  "network_elements network =
     (case network of
        Some v \<Rightarrow> [container ''NetworkSettings''
          (optional_element ''Name'' (net_name v) @ optional_element ''Id'' (net_id v)) [] []]
      | None \<Rightarrow> [])"

definition maintenance_elements :: "maintenance_settings option \<Rightarrow> markup list" where
  "maintenance_elements maintenance =
     (case maintenance of
        Some v \<Rightarrow> [container ''MaintenanceSettings''
          [element ''Period'' (duration_display (mt_period v)),
           element ''Deadline'' (duration_display (mt_deadline v)),
           bool_element ''Exclusive'' (mt_exclusive v)] [] []]
      | None \<Rightarrow> [])"

definition settings_elements :: "task_definition \<Rightarrow> markup list" where
  "settings_elements d =
     (let s = td_settings d in
      [bool_element ''AllowStartOnDemand'' (ts_allow_demand_start s),
       bool_element ''DisallowStartIfOnBatteries'' (ts_disallow_start_if_on_batteries s),
       bool_element ''StopIfGoingOnBatteries'' (ts_stop_if_going_on_batteries s)]
      @ restart_elements (ts_restart_on_failure s)
      @ [element ''MultipleInstancesPolicy'' (instances_text (ts_multiple_instances s)),
         bool_element ''StartWhenAvailable'' (ts_start_when_available s),
         bool_element ''AllowHardTerminate'' (ts_allow_hard_terminate s)]
      @ idle_elements (ts_idle s)
      @ [bool_element ''RunOnlyIfIdle'' (ts_idle s \<noteq> None)]
      @ network_elements (ts_network s)
      @ [bool_element ''RunOnlyIfNetworkAvailable'' (ts_network s \<noteq> None),
         bool_element ''WakeToRun'' (ts_wake_to_run s),
         bool_element ''Enabled'' (ts_enabled s),
         bool_element ''Hidden'' (ts_hidden s)]
      @ optional_element ''DeleteExpiredTaskAfter'' (map_option duration_display (ts_delete_expired_after s))
      @ [element ''ExecutionTimeLimit'' (limit_text (ts_execution_time_limit s)),
         element ''Priority'' (show_nat (unat (ts_priority s)))]
      @ (if td_schema_version d \<noteq> V1_2
         then [bool_element ''UseUnifiedSchedulingEngine'' (ts_use_unified_scheduling_engine s)] else [])
      @ (if ts_disallow_start_on_remote_app_session s
         then [bool_element ''DisallowStartOnRemoteAppSession'' True] else [])
      @ maintenance_elements (ts_maintenance s)
      @ (if ts_volatile s then [bool_element ''Volatile'' True] else []))"

definition write_settings :: "task_definition \<Rightarrow> markup" where
  "write_settings d =
     container ''Settings'' (merge_extensions ''Task/Settings'' (settings_elements d) (td_extensions d)) [] []"

section \<open>Actions\<close>

definition write_header :: "email_header \<Rightarrow> markup" where
  "write_header h =
     container ''HeaderField'' [element ''Name'' (eh_name h), element ''Value'' (eh_value h)] [] []"

definition write_exec :: "exec_action \<Rightarrow> markup" where
  "write_exec a =
     container_with_id ''Exec''
       ([element ''Command'' (ex_command a)]
        @ optional_element ''Arguments'' (ex_arguments a)
        @ optional_element ''WorkingDirectory'' (ex_working_directory a)
        @ (if ex_hide_window a then [bool_element ''HideAppWindow'' True] else []))
       (ex_id a)"

definition write_com :: "(uuid \<Rightarrow> string) \<Rightarrow> com_handler_action \<Rightarrow> markup" where
  "write_com uuid_text a =
     container_with_id ''ComHandler''
       ([element ''ClassId'' (uuid_text (com_class_id a))] @ optional_element ''Data'' (com_data a))
       (com_id a)"

definition write_email :: "email_action \<Rightarrow> markup" where
  "write_email a =
     container_with_id ''SendEmail''
       ([element ''Server'' (em_server a)]
        @ optional_element ''Subject'' (em_subject a)
        @ optional_element ''To'' (em_to a)
        @ optional_element ''Cc'' (em_cc a)
        @ optional_element ''Bcc'' (em_bcc a)
        @ optional_element ''ReplyTo'' (em_reply_to a)
        @ optional_element ''From'' (em_from a)
        @ (if em_headers a \<noteq> []
           then [container ''HeaderFields'' (map write_header (em_headers a)) [] []] else [])
        @ optional_element ''Body'' (em_body a)
        @ (if em_attachments a \<noteq> []
           then [container ''Attachments'' (map (element ''File'') (em_attachments a)) [] []] else []))
       (em_id a)"

definition write_message :: "show_message_action \<Rightarrow> markup" where
  "write_message a =
     container_with_id ''ShowMessage''
       (optional_element ''Title'' (sm_title a) @ [element ''Body'' (sm_body a)]) (sm_id a)"

fun write_action :: "(uuid \<Rightarrow> string) \<Rightarrow> action \<Rightarrow> markup" where
  "write_action uuid_text (Exec a) = write_exec a"
| "write_action uuid_text (ComHandler a) = write_com uuid_text a"
| "write_action uuid_text (Email a) = write_email a"
| "write_action uuid_text (ShowMessage a) = write_message a"
| "write_action uuid_text (UnknownAction a) = Raw (ua_xml a)"

definition write_actions :: "(uuid \<Rightarrow> string) \<Rightarrow> task_definition \<Rightarrow> markup" where
  "write_actions uuid_text d =
     container ''Actions'' (map (write_action uuid_text) (actions_slice (td_actions d)))
       [(''Context'', pr_id (td_principal d))] []"

section \<open>Triggers\<close>

definition duration_element :: "string \<Rightarrow> task_duration option \<Rightarrow> markup list" where
  "duration_element name d = optional_element name (map_option duration_display d)"

definition repetition_elements :: "repetition option \<Rightarrow> markup list" where
  "repetition_elements rep =
     (case rep of
        Some r \<Rightarrow> [container ''Repetition''
          ([element ''Interval'' (duration_display (rep_interval r))]
           @ duration_element ''Duration'' (rep_duration r)
           @ [bool_element ''StopAtDurationEnd'' (rep_stop_at_duration_end r)]) [] []]
      | None \<Rightarrow> [])"

definition trigger_common_elements :: "trigger_common \<Rightarrow> markup list" where
  "trigger_common_elements c =
     repetition_elements (tc_repetition c)
     @ optional_element ''StartBoundary'' (map_option dt_text (tc_start_boundary c))
     @ optional_element ''EndBoundary'' (map_option dt_text (tc_end_boundary c))
     @ optional_element ''ExecutionTimeLimit'' (map_option limit_text (tc_execution_time_limit c))
     @ [bool_element ''Enabled'' (tc_enabled c)]"

definition write_simple_trigger :: "string \<Rightarrow> trigger_common \<Rightarrow> markup list \<Rightarrow> markup" where
  "write_simple_trigger name common specific =
     container_with_id name (trigger_common_elements common @ specific) (tc_id common)"

definition write_calendar_trigger :: "trigger_common \<Rightarrow> markup \<Rightarrow> task_duration option \<Rightarrow> markup" where
  "write_calendar_trigger common schedule random_delay =
     container_with_id ''CalendarTrigger''
       (trigger_common_elements common @ [schedule] @ duration_element ''RandomDelay'' random_delay)
       (tc_id common)"

fun weekday_text :: "weekday \<Rightarrow> string" where
  "weekday_text Sunday = ''Sunday''"
| "weekday_text Monday = ''Monday''"
| "weekday_text Tuesday = ''Tuesday''"
| "weekday_text Wednesday = ''Wednesday''"
| "weekday_text Thursday = ''Thursday''"
| "weekday_text Friday = ''Friday''"
| "weekday_text Saturday = ''Saturday''"

definition write_weekdays :: "weekday list \<Rightarrow> markup" where
  "write_weekdays days = container ''DaysOfWeek'' (map (\<lambda>d. empty_element (weekday_text d)) days) [] []"

fun month_text :: "month \<Rightarrow> string" where
  "month_text January = ''January''"
| "month_text February = ''February''"
| "month_text March = ''March''"
| "month_text April = ''April''"
| "month_text May = ''May''"
| "month_text June = ''June''"
| "month_text July = ''July''"
| "month_text August = ''August''"
| "month_text September = ''September''"
| "month_text October = ''October''"
| "month_text November = ''November''"
| "month_text December = ''December''"

definition write_months :: "month list \<Rightarrow> markup" where
  "write_months months = container ''Months'' (map (\<lambda>m. empty_element (month_text m)) months) [] []"

fun week_text :: "week_of_month \<Rightarrow> string" where
  "week_text First = ''1''"
| "week_text Second = ''2''"
| "week_text Third = ''3''"
| "week_text Fourth = ''4''"

fun state_change_text :: "session_state_change \<Rightarrow> string" where
  "state_change_text ConsoleConnect = ''ConsoleConnect''"
| "state_change_text ConsoleDisconnect = ''ConsoleDisconnect''"
| "state_change_text RemoteConnect = ''RemoteConnect''"
| "state_change_text RemoteDisconnect = ''RemoteDisconnect''"
| "state_change_text SessionLock = ''SessionLock''"
| "state_change_text SessionUnlock = ''SessionUnlock''"

definition event_elements :: "event_trigger \<Rightarrow> markup list" where
  "event_elements t =
     duration_element ''Delay'' (et_delay t)
     @ [element ''Subscription'' (et_subscription t)]
     @ (if et_value_queries t \<noteq> []
        then [container ''ValueQueries''
          (map (\<lambda>(name, value). container ''Value'' [] [(''name'', name)] value) (et_value_queries t)) [] []]
        else [])
     @ duration_element ''PeriodOfOccurrence'' (et_period_of_occurrence t)
     @ optional_element ''NumberOfOccurrences''
         (map_option (\<lambda>n. show_nat (unat n)) (et_number_of_occurrences t))
     @ optional_element ''MatchingElement'' (et_matching_element t)"

fun write_trigger :: "trigger \<Rightarrow> markup" where
  "write_trigger (Boot t) =
     write_simple_trigger ''BootTrigger'' (bt_common t) (duration_element ''Delay'' (bt_delay t))"
| "write_trigger (Registration t) =
     write_simple_trigger ''RegistrationTrigger'' (rt_common t) (duration_element ''Delay'' (rt_delay t))"
| "write_trigger (Idle t) = write_simple_trigger ''IdleTrigger'' (it_common t) []"
| "write_trigger (Time t) =
     write_simple_trigger ''TimeTrigger'' (tt_common t) (duration_element ''RandomDelay'' (tt_random_delay t))"
| "write_trigger (Event t) = write_simple_trigger ''EventTrigger'' (et_common t) (event_elements t)"
| "write_trigger (Logon t) =
     write_simple_trigger ''LogonTrigger'' (lt_common t)
       (optional_element ''UserId'' (lt_user_id t) @ duration_element ''Delay'' (lt_delay t))"
| "write_trigger (SessionStateChange t) =
     write_simple_trigger ''SessionStateChangeTrigger'' (st_common t)
       ([element ''StateChange'' (state_change_text (st_state_change t))]
        @ optional_element ''UserId'' (st_user_id t) @ duration_element ''Delay'' (st_delay t))"
| "write_trigger (Daily t) =
     write_calendar_trigger (dly_common t)
       (container ''ScheduleByDay'' [element ''DaysInterval'' (show_nat (unat (dly_days_interval t)))] [] [])
       (dly_random_delay t)"
| "write_trigger (Weekly t) =
     write_calendar_trigger (wt_common t)
       (container ''ScheduleByWeek''
         [element ''WeeksInterval'' (show_nat (unat (wt_weeks_interval t))),
          write_weekdays (wt_days_of_week t)] [] [])
       (wt_random_delay t)"
| "write_trigger (Monthly t) =
     write_calendar_trigger (mo_common t)
       (container ''ScheduleByMonth''
         [container ''DaysOfMonth'' (map (\<lambda>day. element ''Day'' (show_nat (unat day))) (mo_days_of_month t)) [] [],
          write_months (mo_months t),
          bool_element ''RunOnLastDayOfMonth'' (mo_run_on_last_day t)] [] [])
       (mo_random_delay t)"
| "write_trigger (MonthlyDow t) =
     write_calendar_trigger (md_common t)
       (container ''ScheduleByMonthDayOfWeek''
         [container ''Weeks'' (map (\<lambda>w. element ''Week'' (week_text w)) (md_weeks_of_month t)) [] [],
          write_weekdays (md_days_of_week t), write_months (md_months t),
          bool_element ''RunOnLastWeekOfMonth'' (md_run_on_last_week t)] [] [])
       (md_random_delay t)"
| "write_trigger (UnknownTrigger t) = Raw (ut_xml t)"

section \<open>The document\<close>

definition task_namespace :: string where
  "task_namespace = ''http://schemas.microsoft.com/windows/2004/02/mit/task''"

definition root_children :: "(uuid \<Rightarrow> string) \<Rightarrow> task_definition \<Rightarrow> markup list" where
  "root_children uuid_text d =
     (if td_registration d \<noteq> registration_default \<or> has_extensions d ''Task/RegistrationInfo''
      then [write_registration d] else [])
     @ (if triggers_slice (td_triggers d) \<noteq> []
        then [container ''Triggers'' (map write_trigger (triggers_slice (td_triggers d))) [] []] else [])
     @ [write_principal (td_principal d), write_settings d]
     @ optional_element ''Data'' (td_data d)
     @ [write_actions uuid_text d]"

definition root_element :: "(uuid \<Rightarrow> string) \<Rightarrow> task_definition \<Rightarrow> markup" where
  "root_element uuid_text d =
     container ''Task'' (merge_extensions ''Task'' (root_children uuid_text d) (td_extensions d))
       [(''version'', schema_as_str (td_schema_version d)), (''xmlns'', task_namespace)] []"

definition crlf :: string where
  "crlf = [CHR 0x0D, CHR 0x0A]"

definition quoted :: "string \<Rightarrow> string" where
  "quoted s = [CHR 0x22] @ s @ [CHR 0x22]"

definition write_definition :: "(uuid \<Rightarrow> string) \<Rightarrow> task_definition \<Rightarrow> string \<Rightarrow> string" where
  "write_definition uuid_text d encoding =
     ''<?xml version='' @ quoted ''1.0'' @ '' encoding='' @ quoted encoding @ ''?>'' @ crlf
     @ render (root_element uuid_text d) @ crlf"

definition encoded_string :: "(uuid \<Rightarrow> string) \<Rightarrow> task_definition \<Rightarrow> string \<Rightarrow> string result" where
  "encoded_string uuid_text d encoding =
     (let report = validate_definition d in
      if \<not> report_is_valid report then
        Inl (with_validation report
          (new_error InvalidDefinition [Lit ''cannot serialize an invalid task definition'']))
      else Inr (write_definition uuid_text d encoding))"

text \<open>\<open>to_string\<close>\<close>

definition to_xml_string :: "(uuid \<Rightarrow> string) \<Rightarrow> task_definition \<Rightarrow> string result" where
  "to_xml_string uuid_text d = encoded_string uuid_text d ''UTF-8''"

lemma task_namespace_plain: "escape_attribute task_namespace = task_namespace"
  by code_simp

end
