(* ===== verification/Xml_Round.thy ===== *)
theory Xml_Round
  imports Xml_Read Xml_Write
begin

text \<open>
  The canonical writer against the reader, on element trees: \<open>dom\<close> is the tree that a conforming XML
  parser builds from a markup tree. Lemmas \<open>read_*\<close> show for each part of a definition that reading
  back what was written gives the part.
\<close>

section \<open>The tree of a markup\<close>

fun dom :: "markup \<Rightarrow> node" where
  "dom (Element name attributes kids content) = Node name (btree_collect attributes) (map dom kids) content"
| "dom (EmptyElement name) = Node name [] [] []"
| "dom (Raw s) = Node [] [] [] []"

text \<open>Markup without text kept from another document.\<close>

fun plain :: "markup \<Rightarrow> bool" where
  "plain (Element name attributes kids content) = list_all plain kids"
| "plain (EmptyElement name) = True"
| "plain (Raw s) = False"

lemma plain_render: "plain m \<Longrightarrow> render m \<noteq> []"
  by (cases m) auto

lemma merge_extensions_Nil: "list_all plain ms \<Longrightarrow> merge_extensions p ms [] = ms"
  by (induction ms)
    (auto simp: merge_extensions_def merge_def flatten_options_def List.map_filter_def comp_def
      dest: plain_render)

section \<open>Looking up children\<close>

named_theorems tree_simps \<comment> \<open>children of written elements\<close>

definition lookup :: "string \<Rightarrow> node list \<Rightarrow> node option" where
  "lookup k ns = find (\<lambda>c. nd_name c = k) ns"

lemma lookup_Nil [tree_simps]: "lookup k [] = None"
  by (simp add: lookup_def)

lemma lookup_Cons [tree_simps]: "lookup k (n # ns) = (if nd_name n = k then Some n else lookup k ns)"
  by (simp add: lookup_def)

lemma lookup_append [tree_simps]: "lookup k (ms @ ns) = or_else (lookup k ms) (lookup k ns)"
  by (induction ms) (auto simp: lookup_def)

lemma or_else_None [simp]: "or_else x None = x"
  by (cases x) auto

definition leaf :: "string \<Rightarrow> string \<Rightarrow> node" where
  "leaf name content = Node name [] [] content"

lemma leaf_sel [simp]: "nd_name (leaf name content) = name" "nd_text (leaf name content) = content"
    "nd_children (leaf name content) = []"
  by (simp_all add: leaf_def)

lemma dom_container [tree_simps]:
  "dom (container name kids attributes content) = Node name (btree_collect attributes) (map dom kids) content"
  by (simp add: container_def)

lemma dom_container_with_id [tree_simps]:
  "dom (container_with_id name kids i) =
     Node name (case i of Some v \<Rightarrow> [(''id'', v)] | None \<Rightarrow> []) (map dom kids) []"
  by (simp add: container_with_id_def container_def btree_collect_def split: option.splits)

lemma dom_element [tree_simps]: "dom (element name content) = leaf name content"
  by (simp add: element_def container_def leaf_def btree_collect_def)

lemma dom_empty_element [tree_simps]: "dom (empty_element name) = leaf name []"
  by (simp add: empty_element_def leaf_def)

lemma dom_bool_element [tree_simps]:
  "dom (bool_element name b) = leaf name (if b then ''true'' else ''false'')"
  by (simp add: bool_element_def tree_simps)

lemma lookup_optional [tree_simps]:
  "lookup k (map dom (optional_element name v)) = (if name = k then map_option (leaf name) v else None)"
  by (cases v) (simp_all add: optional_element_def tree_simps)

lemma lookup_duration [tree_simps]:
  "lookup k (map dom (duration_element name v)) =
     (if name = k then map_option (\<lambda>d. leaf name (duration_display d)) v else None)"
  by (cases v) (simp_all add: duration_element_def tree_simps)

lemma child_lookup [tree_simps]: "child n k = lookup k (nd_children n)"
  by (simp add: child_def lookup_def)

lemma child_text_lookup [tree_simps]: "child_text n k = map_option nd_text (lookup k (nd_children n))"
  by (simp add: child_text_def child_lookup)

lemma bool_or_lookup [tree_simps]:
  "lookup k (nd_children n) = Some (leaf k (if b then ''true'' else ''false'')) \<Longrightarrow> bool_or n k d = Inr b"
  by (simp add: bool_or_def child_bool_def tree_simps bool_value_def unwrap_or_def)

lemma bool_or_missing [tree_simps]:
  "lookup k (nd_children n) = None \<Longrightarrow> bool_or n k d = Inr d"
  by (simp add: bool_or_def child_bool_def tree_simps unwrap_or_def)

section \<open>Values\<close>

lemma read_duration: "duration_wf d \<Longrightarrow> parse_duration (duration_display d) = Inr d"
  by (simp add: parse_duration_def duration_text.parse_print)

lemma read_number: "parse_number (show_nat (unat (w :: 'w::len word))) name = Inr w"
  by (simp add: parse_number_def)

definition optional_wf :: "task_duration option \<Rightarrow> bool" where
  "optional_wf d = (case d of Some v \<Rightarrow> duration_wf v | None \<Rightarrow> True)"

lemma read_optional_duration:
  "optional_wf d \<Longrightarrow> map_transpose parse_duration (map_option duration_display d) = Inr d"
  by (cases d) (simp_all add: optional_wf_def read_duration)

text \<open>A limit that reads back: \<open>PT0S\<close> is the text of no limit, so a finite limit must not be zero.\<close>

fun limit_wf :: "task_limit \<Rightarrow> bool" where
  "limit_wf (Finite d) = (duration_wf d \<and> \<not> is_zero_duration d)"
| "limit_wf Unlimited = True"

lemma zero_display: "duration_display (from_secs 0) = ''PT0S''"
  by code_simp

lemma display_zero:
  assumes "duration_wf d" "duration_display d = ''PT0S''"
  shows "is_zero_duration d"
proof -
  have "duration_wf (from_secs 0)" by (simp add: duration_wf_def from_secs_def)
  then have "d = from_secs 0"
    using duration_text.print_inj[OF assms(1), of "from_secs 0"] assms(2) zero_display by simp
  then show ?thesis by (simp add: is_zero_duration_def from_secs_def)
qed

lemma read_limit: "limit_wf l \<Longrightarrow> parse_limit (limit_text l) = Inr l"
  by (cases l) (auto simp: parse_limit_def read_duration dest: display_zero)

definition datetime_wf :: "civil_parser \<Rightarrow> task_datetime \<Rightarrow> bool" where
  "datetime_wf civil d \<longleftrightarrow> datetime_parse civil (dt_text d) = Inr d"

definition optional_datetime_wf :: "civil_parser \<Rightarrow> task_datetime option \<Rightarrow> bool" where
  "optional_datetime_wf civil d = (case d of Some v \<Rightarrow> datetime_wf civil v | None \<Rightarrow> True)"

lemma read_datetime:
  "optional_datetime_wf civil d \<Longrightarrow>
     map_transpose (datetime_parse civil) (map_option dt_text d) = Inr d"
  by (cases d) (simp_all add: optional_datetime_wf_def datetime_wf_def)

section \<open>Registration and principal\<close>

definition sddl_wf :: "security_descriptor option \<Rightarrow> bool" where
  "sddl_wf s = (case s of Some v \<Rightarrow> from_sddl (as_sddl v) = Inr v | None \<Rightarrow> True)"

definition registration_wf :: "civil_parser \<Rightarrow> registration_info \<Rightarrow> bool" where
  "registration_wf civil r \<longleftrightarrow> optional_datetime_wf civil (ri_date r) \<and> sddl_wf (ri_security_descriptor r)"

lemma read_sddl: "sddl_wf s \<Longrightarrow> map_transpose from_sddl (map_option as_sddl s) = Inr s"
  by (cases s) (simp_all add: sddl_wf_def)

lemma optional_text [simp]: "map_option nd_text (map_option (leaf name) v) = v"
  by (cases v) simp_all

lemma plain_element [simp]: "plain (element name content)" "plain (empty_element name)"
    "plain (bool_element name b)" "plain (container name ms attributes content) = list_all plain ms"
    "plain (container_with_id name ms i) = list_all plain ms"
  by (simp_all add: element_def container_def empty_element_def bool_element_def container_with_id_def
      split: option.splits)

lemma plain_optional [simp]: "list_all plain (optional_element name v)" "list_all plain (duration_element name d)"
  by (simp_all add: optional_element_def duration_element_def split: option.splits)

lemma plain_registration_elements [simp]: "list_all plain (registration_elements r)"
  by (simp add: registration_elements_def)

lemma read_registration:
  assumes "registration_wf civil (td_registration d)" and "td_extensions d = []"
  shows "parse_registration civil (dom (write_registration d)) = Inr (td_registration d)"
  using assms read_datetime[of civil "ri_date (td_registration d)"]
    read_sddl[of "ri_security_descriptor (td_registration d)"]
  by (simp add: write_registration_def registration_elements_def merge_extensions_Nil tree_simps parse_registration_def
      registration_wf_def child_datetime_def owned_text_def option.map_comp comp_def option.map_ident)

text \<open>An identity reads back unless it is a user with the name of a service account; a logon type
  reads back unless it is left out and the identity suggests another.\<close>

definition identity_wf :: "principal_identity \<Rightarrow> bool" where
  "identity_wf i \<longleftrightarrow> (case i of User u \<Rightarrow> user_identity u = User u | _ \<Rightarrow> True)"

definition logon_wf :: "principal \<Rightarrow> bool" where
  "logon_wf p \<longleftrightarrow>
     (case pr_logon_type p of
        LogonNone \<Rightarrow> (case pr_identity p of NoIdentity \<Rightarrow> True | User _ \<Rightarrow> True | _ \<Rightarrow> False)
      | LogonGroup \<Rightarrow> (case pr_identity p of Group _ \<Rightarrow> True | _ \<Rightarrow> False)
      | LogonServiceAccount \<Rightarrow> (case pr_identity p of ServiceAccount _ \<Rightarrow> True | _ \<Rightarrow> False)
      | _ \<Rightarrow> True)"

definition privileges_wf :: "required_privilege list \<Rightarrow> bool" where
  "privileges_wf ps = list_all (\<lambda>p. privilege_new (privilege_str p) = Inr p) ps"

definition principal_wf :: "principal \<Rightarrow> bool" where
  "principal_wf p \<longleftrightarrow> identity_wf (pr_identity p) \<and> logon_wf p \<and> privileges_wf (pr_required_privileges p)"

lemma service_identities:
  "user_identity (service_account_text LocalSystem) = ServiceAccount LocalSystem"
  "user_identity (service_account_text LocalService) = ServiceAccount LocalService"
  "user_identity (service_account_text NetworkService) = ServiceAccount NetworkService"
  by code_simp+

lemma service_identity: "user_identity (service_account_text a) = ServiceAccount a"
  by (cases a) (simp_all only: service_identities)

lemma lookup_if [tree_simps]: "lookup k (map dom (if b then ms else [])) = (if b then lookup k (map dom ms) else None)"
  by (simp add: lookup_Nil)

lemma lookup_leaf [tree_simps]: "lookup k [leaf name content] = (if name = k then Some (leaf name content) else None)"
  by (simp add: tree_simps)

definition principal_node :: "principal \<Rightarrow> node" where
  "principal_node p = hd (nd_children (dom (write_principal p)))"

lemma dom_write_principal: "dom (write_principal p) = Node ''Principals'' [] [principal_node p] []"
  by (simp add: write_principal_def principal_node_def tree_simps btree_collect_def)

lemma principal_name [simp]: "nd_name (principal_node p) = ''Principal''"
  by (simp add: write_principal_def principal_node_def tree_simps)

lemma identity_lookup:
  "lookup ''GroupId'' (map dom (identity_elements i)) =
     (case i of Group g \<Rightarrow> Some (leaf ''GroupId'' g) | _ \<Rightarrow> None)"
  "lookup ''UserId'' (map dom (identity_elements i)) =
     (case i of User u \<Rightarrow> Some (leaf ''UserId'' u)
      | ServiceAccount a \<Rightarrow> Some (leaf ''UserId'' (service_account_text a)) | _ \<Rightarrow> None)"
  "k \<noteq> ''GroupId'' \<Longrightarrow> k \<noteq> ''UserId'' \<Longrightarrow> lookup k (map dom (identity_elements i)) = None"
  by (cases i; simp add: tree_simps)+

lemmas principal_tree = principal_node_def write_principal_def tree_simps identity_lookup

lemma read_identity: "identity_wf (pr_identity p) \<Longrightarrow> parse_identity (principal_node p) = pr_identity p"
  by (cases "pr_identity p") (simp_all add: parse_identity_def principal_tree identity_wf_def service_identity)

lemma read_logon:
  "logon_wf p \<Longrightarrow> parse_logon_type (principal_node p) (pr_identity p) = Inr (pr_logon_type p)"
  by (cases "pr_logon_type p")
    (auto simp: parse_logon_type_def principal_tree logon_wf_def split: principal_identity.splits)

lemma read_run_level: "parse_run_level (principal_node p) = Inr (pr_run_level p)"
  by (cases "pr_run_level p") (simp_all add: parse_run_level_def principal_tree unwrap_or_def)

lemma read_sid_type: "parse_sid_type (principal_node p) = Inr (pr_process_token_sid_type p)"
  by (cases "pr_process_token_sid_type p") (simp_all add: parse_sid_type_def principal_tree unwrap_or_def)

lemma filter_leaves [simp]:
  "filter (\<lambda>c. nd_name c = k) (map (leaf k \<circ> f) xs) = map (leaf k \<circ> f) xs"
  by (induction xs) auto

lemma read_privileges:
  assumes "privileges_wf (pr_required_privileges p)"
  shows "map_ok parse_privilege (container_children (principal_node p) ''RequiredPrivileges'' ''Privilege'')
    = Inr (pr_required_privileges p)"
proof -
  have "container_children (principal_node p) ''RequiredPrivileges'' ''Privilege''
      = map (leaf ''Privilege'' \<circ> privilege_str) (pr_required_privileges p)"
    by (simp add: principal_tree container_children_def children_def comp_def
        filter_leaves[unfolded comp_def])
  then show ?thesis using assms
    by (simp add: map_ok_list_all2 list_all2_conv_all_nth privileges_wf_def list_all_length parse_privilege_def)
qed

lemma read_principal:
  assumes "principal_wf p"
  shows "parse_principal (principal_node p) = Inr p"
proof -
  have "btree_get (nd_attributes (principal_node p)) ''id'' = Some (pr_id p)"
    by (simp add: principal_tree btree_collect_def btree_get_def)
  moreover have "owned_text (principal_node p) ''DisplayName'' = pr_display_name p"
    by (simp add: owned_text_def principal_tree)
  ultimately show ?thesis
    using assms by (simp add: parse_principal_def Let_def principal_wf_def read_identity read_logon
        read_run_level read_sid_type read_privileges unwrap_or_def)
qed

section \<open>Settings\<close>

definition idle_wf :: "idle_settings option \<Rightarrow> bool" where
  "idle_wf idle = (case idle of
     Some i \<Rightarrow> duration_wf (idle_duration i) \<and> duration_wf (idle_wait_timeout i) | None \<Rightarrow> True)"

definition restart_wf :: "restart_policy option \<Rightarrow> bool" where
  "restart_wf restart = (case restart of Some r \<Rightarrow> duration_wf (rp_interval r) | None \<Rightarrow> True)"

definition maintenance_wf :: "maintenance_settings option \<Rightarrow> bool" where
  "maintenance_wf maintenance = (case maintenance of
     Some m \<Rightarrow> duration_wf (mt_period m) \<and> duration_wf (mt_deadline m) | None \<Rightarrow> True)"

definition settings_wf :: "task_schema_version \<Rightarrow> task_settings \<Rightarrow> bool" where
  "settings_wf version s \<longleftrightarrow>
     restart_wf (ts_restart_on_failure s) \<and> limit_wf (ts_execution_time_limit s)
     \<and> optional_wf (ts_delete_expired_after s) \<and> idle_wf (ts_idle s) \<and> maintenance_wf (ts_maintenance s)
     \<and> (version = V1_2 \<longrightarrow> \<not> ts_use_unified_scheduling_engine s)"

definition settings_node :: "task_definition \<Rightarrow> node" where
  "settings_node d = Node ''Settings'' [] (map dom (settings_elements d)) []"

lemma lookup_restart [tree_simps]:
  "lookup k (map dom (restart_elements restart)) =
     (if k = ''RestartOnFailure''
      then map_option (\<lambda>r. Node ''RestartOnFailure'' []
        [leaf ''Interval'' (duration_display (rp_interval r)), leaf ''Count'' (show_nat (unat (rp_count r)))] [])
        restart else None)"
  by (cases restart) (simp_all add: restart_elements_def tree_simps btree_collect_def)

lemma lookup_idle [tree_simps]:
  "lookup k (map dom (idle_elements idle)) =
     (if k = ''IdleSettings''
      then map_option (\<lambda>i. Node ''IdleSettings'' []
        [leaf ''Duration'' (duration_display (idle_duration i)),
         leaf ''WaitTimeout'' (duration_display (idle_wait_timeout i)),
         leaf ''StopOnIdleEnd'' (if idle_stop_on_idle_end i then ''true'' else ''false''),
         leaf ''RestartOnIdle'' (if idle_restart_on_idle i then ''true'' else ''false'')] [])
        idle else None)"
  by (cases idle) (simp_all add: idle_elements_def tree_simps btree_collect_def)

lemma lookup_network [tree_simps]:
  "lookup k (map dom (network_elements network)) =
     (if k = ''NetworkSettings''
      then map_option (\<lambda>v. Node ''NetworkSettings'' []
        (map dom (optional_element ''Name'' (net_name v) @ optional_element ''Id'' (net_id v))) [])
        network else None)"
  by (cases network) (simp_all add: network_elements_def tree_simps btree_collect_def)

lemma lookup_maintenance [tree_simps]:
  "lookup k (map dom (maintenance_elements maintenance)) =
     (if k = ''MaintenanceSettings''
      then map_option (\<lambda>v. Node ''MaintenanceSettings'' []
        [leaf ''Period'' (duration_display (mt_period v)), leaf ''Deadline'' (duration_display (mt_deadline v)),
         leaf ''Exclusive'' (if mt_exclusive v then ''true'' else ''false'')] [])
        maintenance else None)"
  by (cases maintenance) (simp_all add: maintenance_elements_def tree_simps btree_collect_def)

lemma settings_children_list: "nd_children (settings_node d) = map dom (settings_elements d)"
  by (simp add: settings_node_def)

lemmas settings_tree = settings_children_list settings_elements_def Let_def tree_simps

lemma settings_bools:
  "bool_or (settings_node d) ''AllowStartOnDemand'' True = Inr (ts_allow_demand_start (td_settings d))"
  "bool_or (settings_node d) ''DisallowStartIfOnBatteries'' True
     = Inr (ts_disallow_start_if_on_batteries (td_settings d))"
  "bool_or (settings_node d) ''StopIfGoingOnBatteries'' True
     = Inr (ts_stop_if_going_on_batteries (td_settings d))"
  "bool_or (settings_node d) ''AllowHardTerminate'' True = Inr (ts_allow_hard_terminate (td_settings d))"
  "bool_or (settings_node d) ''StartWhenAvailable'' False = Inr (ts_start_when_available (td_settings d))"
  "bool_or (settings_node d) ''Enabled'' True = Inr (ts_enabled (td_settings d))"
  "bool_or (settings_node d) ''WakeToRun'' False = Inr (ts_wake_to_run (td_settings d))"
  "bool_or (settings_node d) ''Hidden'' False = Inr (ts_hidden (td_settings d))"
  "bool_or (settings_node d) ''DisallowStartOnRemoteAppSession'' False
     = Inr (ts_disallow_start_on_remote_app_session (td_settings d))"
  "bool_or (settings_node d) ''Volatile'' False = Inr (ts_volatile (td_settings d))"
  "bool_or (settings_node d) ''RunOnlyIfIdle'' False = Inr (ts_idle (td_settings d) \<noteq> None)"
  "bool_or (settings_node d) ''RunOnlyIfNetworkAvailable'' False = Inr (ts_network (td_settings d) \<noteq> None)"
  by (simp add: settings_tree bool_or_def child_bool_def bool_value_def unwrap_or_def)+

lemma settings_unified:
  "td_schema_version d = V1_2 \<longrightarrow> \<not> ts_use_unified_scheduling_engine (td_settings d) \<Longrightarrow>
     bool_or (settings_node d) ''UseUnifiedSchedulingEngine'' False
       = Inr (ts_use_unified_scheduling_engine (td_settings d))"
  by (auto simp: settings_tree bool_or_def child_bool_def bool_value_def unwrap_or_def)

lemma read_instances: "parse_instances (settings_node d) = Inr (ts_multiple_instances (td_settings d))"
  by (cases "ts_multiple_instances (td_settings d)")
    (simp_all add: parse_instances_def settings_tree unwrap_or_def)

lemma settings_texts:
  "child_text (settings_node d) ''ExecutionTimeLimit'' = Some (limit_text (ts_execution_time_limit (td_settings d)))"
  "child_text (settings_node d) ''DeleteExpiredTaskAfter''
     = map_option duration_display (ts_delete_expired_after (td_settings d))"
  "child_text (settings_node d) ''Priority'' = Some (show_nat (unat (ts_priority (td_settings d))))"
  by (simp_all add: settings_tree)

lemma read_restart:
  "restart_wf (ts_restart_on_failure (td_settings d)) \<Longrightarrow>
     parse_restart (settings_node d) = Inr (ts_restart_on_failure (td_settings d))"
  by (cases "ts_restart_on_failure (td_settings d)")
    (simp_all add: parse_restart_def settings_tree required_duration_def required_number_def
      required_text_def read_duration read_number restart_wf_def)

lemma child_bool_leaf:
  "lookup k (nd_children n) = Some (leaf k (if b then ''true'' else ''false'')) \<Longrightarrow>
     child_bool n k = Inr (Some b)"
  by (simp add: child_bool_def tree_simps bool_value_def)

lemma read_idle:
  assumes "idle_wf (ts_idle (td_settings d))"
  shows "parse_idle (settings_node d) = Inr (ts_idle (td_settings d))"
proof (cases "ts_idle (td_settings d)")
  case None
  then show ?thesis using settings_bools(11)[of d] by (simp add: parse_idle_def)
next
  case (Some i)
  have "child (settings_node d) ''IdleSettings'' =
    Some (Node ''IdleSettings'' []
        [leaf ''Duration'' (duration_display (idle_duration i)),
         leaf ''WaitTimeout'' (duration_display (idle_wait_timeout i)),
         leaf ''StopOnIdleEnd'' (if idle_stop_on_idle_end i then ''true'' else ''false''),
         leaf ''RestartOnIdle'' (if idle_restart_on_idle i then ''true'' else ''false'')] [])"
    using Some by (simp add: settings_tree)
  with Some assms settings_bools(11)[of d] show ?thesis
    by (simp add: parse_idle_def Let_def child_text_lookup lookup_Cons read_duration idle_wf_def
        child_bool_leaf unwrap_or_def)
qed

lemma read_network: "parse_network (settings_node d) = Inr (ts_network (td_settings d))"
proof (cases "ts_network (td_settings d)")
  case None
  then have "child (settings_node d) ''NetworkSettings'' = None" by (simp add: settings_tree)
  with None settings_bools(12)[of d] show ?thesis by (simp add: parse_network_def Let_def)
next
  case (Some v)
  then have "child (settings_node d) ''NetworkSettings'' = Some (Node ''NetworkSettings'' []
      (map dom (optional_element ''Name'' (net_name v) @ optional_element ''Id'' (net_id v))) [])"
    by (simp add: settings_tree)
  with Some settings_bools(12)[of d] show ?thesis
    by (simp add: parse_network_def Let_def owned_text_def child_text_lookup lookup_append lookup_optional)
qed

lemma read_maintenance:
  "maintenance_wf (ts_maintenance (td_settings d)) \<Longrightarrow>
     parse_maintenance (settings_node d) = Inr (ts_maintenance (td_settings d))"
  by (cases "ts_maintenance (td_settings d)")
    (simp_all add: parse_maintenance_def settings_tree required_duration_def required_text_def
      read_duration maintenance_wf_def bool_or_def child_bool_leaf unwrap_or_def)

lemma read_settings:
  assumes "settings_wf (td_schema_version d) (td_settings d)"
  shows "parse_settings (settings_node d) = Inr (td_settings d)"
  using assms read_optional_duration[of "ts_delete_expired_after (td_settings d)"]
  by (simp add: parse_settings_def settings_wf_def settings_bools settings_unified read_instances
      settings_texts optional_duration_def read_limit read_number read_restart read_idle read_network
      read_maintenance unwrap_or_def)

lemma plain_settings_elements [simp]: "list_all plain (settings_elements d)"
  by (simp add: settings_elements_def Let_def restart_elements_def idle_elements_def
      network_elements_def maintenance_elements_def split: option.splits)

lemma dom_write_settings:
  assumes "td_extensions d = []"
  shows "dom (write_settings d) = settings_node d"
  using assms by (simp add: write_settings_def merge_extensions_Nil dom_container settings_node_def
      btree_collect_def)

section \<open>Actions\<close>

definition known_action :: "action \<Rightarrow> bool" where
  "known_action a = (case a of UnknownAction _ \<Rightarrow> False | _ \<Rightarrow> True)"

lemma node_id [simp]:
  "btree_get (case i of Some v \<Rightarrow> [(''id'', v)] | None \<Rightarrow> []) ''id'' = i"
  by (cases i) (simp_all add: btree_get_def)

lemma plain_if [simp]: "list_all plain (if b then ms else []) \<longleftrightarrow> (b \<longrightarrow> list_all plain ms)"
  by simp

lemma read_exec: "parse_exec (dom (write_exec a)) = Inr (Exec a)"
  by (simp add: parse_exec_def write_exec_def required_text_def owned_text_def tree_simps bool_or_def
      child_bool_def bool_value_def unwrap_or_def)

lemma read_com:
  assumes "uuid (uuid_text (com_class_id a)) = Inr (com_class_id a)"
  shows "parse_com uuid (dom (write_com uuid_text a)) = Inr (ComHandler a)"
  using assms by (simp add: parse_com_def write_com_def required_text_def owned_text_def tree_simps)

lemma read_message: "parse_message (dom (write_message a)) = Inr (ShowMessage a)"
  by (simp add: parse_message_def write_message_def required_text_def owned_text_def tree_simps)

definition header_node :: "email_header \<Rightarrow> node" where
  "header_node h = Node ''HeaderField'' [] [leaf ''Name'' (eh_name h), leaf ''Value'' (eh_value h)] []"

lemma dom_write_header: "dom (write_header h) = header_node h"
  by (simp add: write_header_def header_node_def tree_simps btree_collect_def)

lemma read_headers: "map_ok parse_header (map header_node hs) = Inr hs"
  by (induction hs) (simp_all add: parse_header_def header_node_def required_text_def tree_simps)

lemma filter_headers [simp]:
  "filter (\<lambda>c. nd_name c = ''HeaderField'') (map header_node hs) = map header_node hs"
  by (induction hs) (simp_all add: header_node_def)

lemma read_email: "parse_email (dom (write_email a)) = Inr (Email a)"
proof -
  let ?n = "dom (write_email a)"
  have "container_children ?n ''HeaderFields'' ''HeaderField'' = map header_node (em_headers a)"
    using filter_headers[of "em_headers a"]
    by (simp add: container_children_def children_def write_email_def tree_simps comp_def dom_write_header)
  moreover have "container_children ?n ''Attachments'' ''File'' = map (leaf ''File'') (em_attachments a)"
    using filter_leaves[of "''File''" id "em_attachments a"]
    by (simp add: container_children_def children_def write_email_def tree_simps comp_def)
  ultimately show ?thesis
    by (simp add: parse_email_def read_headers comp_def)
      (simp add: write_email_def required_text_def owned_text_def tree_simps)
qed

lemma action_names:
  "nd_name (dom (write_exec x)) = ''Exec''" "nd_name (dom (write_com uuid_text c)) = ''ComHandler''"
  "nd_name (dom (write_email e)) = ''SendEmail''" "nd_name (dom (write_message m)) = ''ShowMessage''"
  by (simp_all add: write_exec_def write_com_def write_email_def write_message_def tree_simps)

lemma read_action:
  assumes "known_action a" and "\<And>u. uuid (uuid_text u) = Inr u"
  shows "parse_action uuid (dom (write_action uuid_text a)) = Inr a"
  using assms by (cases a)
    (simp_all add: parse_action_def action_names read_exec read_com read_email read_message known_action_def)

lemma map_ok_map: "(\<And>x. x \<in> set xs \<Longrightarrow> f (g x) = Inr x) \<Longrightarrow> map_ok f (map g xs) = Inr xs"
  by (induction xs) auto

lemma read_actions:
  assumes "list_all known_action (actions_slice (td_actions d))"
    and "length (actions_slice (td_actions d)) \<le> 32" and "\<And>u. uuid (uuid_text u) = Inr u"
  shows "parse_actions uuid (dom (write_actions uuid_text d)) = Inr (td_actions d)"
proof -
  have "map_ok (parse_action uuid) (map (\<lambda>a. dom (write_action uuid_text a)) (actions_slice (td_actions d)))
      = Inr (actions_slice (td_actions d))"
    using assms(1) by (intro map_ok_map read_action assms(3)) (auto simp: list_all_iff)
  then show ?thesis
    using assms(2) by (cases "td_actions d")
      (simp add: parse_actions_def write_actions_def tree_simps comp_def actions_try_from_def MAX_ACTIONS_def)
qed

section \<open>Triggers\<close>

definition repetition_wf :: "repetition option \<Rightarrow> bool" where
  "repetition_wf rep = (case rep of
     Some r \<Rightarrow> duration_wf (rep_interval r) \<and> optional_wf (rep_duration r) | None \<Rightarrow> True)"

definition optional_limit_wf :: "task_limit option \<Rightarrow> bool" where
  "optional_limit_wf l = (case l of Some v \<Rightarrow> limit_wf v | None \<Rightarrow> True)"

definition common_wf :: "civil_parser \<Rightarrow> trigger_common \<Rightarrow> bool" where
  "common_wf civil c \<longleftrightarrow>
     optional_datetime_wf civil (tc_start_boundary c) \<and> optional_datetime_wf civil (tc_end_boundary c)
     \<and> optional_limit_wf (tc_execution_time_limit c) \<and> repetition_wf (tc_repetition c)"

text \<open>Sets and maps are ascending lists without duplicates, durations are normalized.\<close>

definition trigger_wf :: "civil_parser \<Rightarrow> trigger \<Rightarrow> bool" where
  "trigger_wf civil t \<longleftrightarrow>
     (case trigger_common_of t of Some c \<Rightarrow> common_wf civil c | None \<Rightarrow> False) \<and>
     (case t of
        Boot v \<Rightarrow> optional_wf (bt_delay v)
      | Registration v \<Rightarrow> optional_wf (rt_delay v)
      | Idle v \<Rightarrow> True
      | Time v \<Rightarrow> optional_wf (tt_random_delay v)
      | Event v \<Rightarrow> optional_wf (et_delay v) \<and> optional_wf (et_period_of_occurrence v)
          \<and> btree_wf (et_value_queries v)
      | Logon v \<Rightarrow> optional_wf (lt_delay v)
      | SessionStateChange v \<Rightarrow> optional_wf (st_delay v)
      | Daily v \<Rightarrow> optional_wf (dly_random_delay v)
      | Weekly v \<Rightarrow> optional_wf (wt_random_delay v) \<and> sorted_wrt (<) (wt_days_of_week v)
      | Monthly v \<Rightarrow> optional_wf (mo_random_delay v) \<and> sorted_wrt (<) (mo_days_of_month v)
          \<and> sorted_wrt (<) (mo_months v)
      | MonthlyDow v \<Rightarrow> optional_wf (md_random_delay v) \<and> sorted_wrt (<) (md_weeks_of_month v)
          \<and> sorted_wrt (<) (md_days_of_week v) \<and> sorted_wrt (<) (md_months v)
      | UnknownTrigger v \<Rightarrow> False)"

lemma strict_sorted_eq:
  "sorted_wrt (<) xs \<Longrightarrow> sorted_wrt (<) ys \<Longrightarrow> set xs = set ys \<Longrightarrow> xs = (ys :: 'a::linorder list)"
  by (metis sorted_distinct_set_unique strict_sorted_iff)

lemma bset_collect_sorted: "sorted_wrt (<) xs \<Longrightarrow> bset_collect xs = xs"
  by (rule strict_sorted_eq) (simp_all add: sorted_bset_collect)

lemma btree_insert_last: "\<forall>e \<in> set m. fst e < k \<Longrightarrow> btree_insert k v m = m @ [(k, v)]"
  by (induction k v m rule: btree_insert.induct) auto

lemma btree_collect_sorted:
  assumes "btree_wf m"
  shows "btree_collect m = m"
proof -
  have "foldl (\<lambda>m (k, v). btree_insert k v m) acc es = acc @ es" if "btree_wf (acc @ es)" for acc es :: "('a \<times> 'b) list"
    using that
  proof (induction es arbitrary: acc)
    case (Cons e es)
    then have "\<forall>e' \<in> set acc. fst e' < fst e" by (auto simp: btree_wf_def sorted_wrt_append)
    with Cons.IH[of "acc @ [e]"] Cons.prems show ?case by (cases e) (simp add: btree_insert_last)
  qed simp
  from this[of "[]" m] assms show ?thesis by (simp add: btree_collect_def)
qed

lemma map_filter_map: "(\<And>x. x \<in> set xs \<Longrightarrow> f (g x) = Some x) \<Longrightarrow> List.map_filter f (map g xs) = xs"
  by (induction xs) (auto simp: List.map_filter_def)

lemma read_repetition:
  "repetition_wf rep \<Longrightarrow>
     map_transpose parse_repetition (lookup ''Repetition'' (map dom (repetition_elements rep))) = Inr rep"
  by (cases rep)
    (simp_all add: repetition_elements_def tree_simps parse_repetition_def required_duration_def
      required_text_def optional_duration_def read_duration repetition_wf_def bool_or_def child_bool_def
      bool_value_def unwrap_or_def read_optional_duration option.map_comp comp_def)

lemma lookup_repetition [tree_simps]:
  "k \<noteq> ''Repetition'' \<Longrightarrow> lookup k (map dom (repetition_elements rep)) = None"
  by (cases rep) (simp_all add: repetition_elements_def tree_simps)

lemma read_optional_limit:
  "optional_limit_wf l \<Longrightarrow> map_transpose parse_limit (map_option limit_text l) = Inr l"
  by (cases l) (simp_all add: optional_limit_wf_def read_limit)

definition trigger_node :: "string \<Rightarrow> trigger_common \<Rightarrow> markup list \<Rightarrow> node" where
  "trigger_node name c specific =
     Node name (case tc_id c of Some v \<Rightarrow> [(''id'', v)] | None \<Rightarrow> [])
       (map dom (trigger_common_elements c) @ map dom specific) []"

lemma trigger_node_sel [simp]:
  "nd_name (trigger_node name c specific) = name"
  "nd_children (trigger_node name c specific) = map dom (trigger_common_elements c) @ map dom specific"
  by (simp_all add: trigger_node_def)

lemma dom_simple_trigger: "dom (write_simple_trigger name c specific) = trigger_node name c specific"
  by (simp add: write_simple_trigger_def dom_container_with_id trigger_node_def)

lemma dom_calendar_trigger:
  "dom (write_calendar_trigger c schedule delay) =
     trigger_node ''CalendarTrigger'' c (schedule # duration_element ''RandomDelay'' delay)"
  by (simp add: write_calendar_trigger_def dom_container_with_id trigger_node_def)

definition common_names :: "string list" where
  "common_names = [''Repetition'', ''StartBoundary'', ''EndBoundary'', ''ExecutionTimeLimit'', ''Enabled'']"

lemma lookup_common [tree_simps]:
  assumes "k \<notin> set common_names"
  shows "lookup k (map dom (trigger_common_elements c)) = None"
proof -
  have "''Repetition'' \<noteq> k" "''StartBoundary'' \<noteq> k" "''EndBoundary'' \<noteq> k" "''ExecutionTimeLimit'' \<noteq> k"
      "''Enabled'' \<noteq> k"
    using assms by (auto simp: common_names_def)
  then show ?thesis by (simp add: trigger_common_elements_def tree_simps)
qed

definition specific_names :: "markup list \<Rightarrow> bool" where
  "specific_names specific = list_all (\<lambda>m. nd_name (dom m) \<notin> set common_names) specific"

lemma lookup_specific: "specific_names specific \<Longrightarrow> k \<in> set common_names \<Longrightarrow> lookup k (map dom specific) = None"
  by (induction specific) (auto simp: specific_names_def tree_simps)

lemma read_common:
  assumes "common_wf civil c" and "specific_names specific"
  shows "parse_trigger_common civil (trigger_node name c specific) = Inr c"
proof -
  let ?n = "trigger_node name c specific"
  have no: "lookup k (map dom specific) = None" if "k \<in> set common_names" for k
    using lookup_specific[OF assms(2) that] .
  have texts: "child_text ?n ''StartBoundary'' = map_option dt_text (tc_start_boundary c)"
    "child_text ?n ''EndBoundary'' = map_option dt_text (tc_end_boundary c)"
    "child_text ?n ''ExecutionTimeLimit'' = map_option limit_text (tc_execution_time_limit c)"
    "child ?n ''Repetition'' = lookup ''Repetition'' (map dom (repetition_elements (tc_repetition c)))"
    by (simp_all add: trigger_common_elements_def tree_simps no common_names_def option.map_comp comp_def)
  have "bool_or ?n ''Enabled'' True = Inr (tc_enabled c)"
    by (rule bool_or_lookup) (simp add: trigger_common_elements_def tree_simps)
  moreover have "btree_get (nd_attributes ?n) ''id'' = tc_id c" by (simp add: trigger_node_def)
  ultimately show ?thesis
    using assms(1) by (simp add: parse_trigger_common_def child_datetime_def texts read_datetime
        read_optional_limit read_repetition common_wf_def)
qed

lemma specific_simps [simp]:
  "specific_names []" "specific_names (ms @ ns) \<longleftrightarrow> specific_names ms \<and> specific_names ns"
  "specific_names (m # ms) \<longleftrightarrow> nd_name (dom m) \<notin> set common_names \<and> specific_names ms"
  "specific_names (duration_element k d) \<longleftrightarrow> d = None \<or> k \<notin> set common_names"
  "specific_names (optional_element k v) \<longleftrightarrow> v = None \<or> k \<notin> set common_names"
  by (auto simp: specific_names_def duration_element_def optional_element_def tree_simps split: option.splits)

lemma trigger_lookup:
  "k \<notin> set common_names \<Longrightarrow>
     lookup k (nd_children (trigger_node name c specific)) = lookup k (map dom specific)"
  by (simp add: tree_simps)

lemma trigger_duration:
  assumes "k \<notin> set common_names" and "optional_wf v"
    and "lookup k (map dom specific) = map_option (\<lambda>d. leaf k (duration_display d)) v"
  shows "optional_duration (trigger_node name c specific) k = Inr v"
  using assms read_optional_duration[of v]
  by (simp add: optional_duration_def child_text_lookup lookup_append lookup_common option.map_comp comp_def)

lemma trigger_text:
  assumes "k \<notin> set common_names"
  shows "child_text (trigger_node name c specific) k = map_option nd_text (lookup k (map dom specific))"
  using assms by (simp add: child_text_lookup lookup_append lookup_common)

lemma read_weekdays: "sorted_wrt (<) ds \<Longrightarrow> parse_weekdays (dom (write_weekdays ds)) = ds"
proof -
  have "weekday_named (dom (empty_element (weekday_text d))) = Some d" for d
    by (cases d) (simp_all add: weekday_named_def tree_simps)
  then have "List.map_filter weekday_named (map (\<lambda>d. dom (empty_element (weekday_text d))) ds) = ds"
    by (intro map_filter_map) simp
  then show "sorted_wrt (<) ds \<Longrightarrow> ?thesis"
    by (simp add: parse_weekdays_def write_weekdays_def dom_container comp_def bset_collect_sorted)
qed

lemma read_months: "sorted_wrt (<) ms \<Longrightarrow> parse_months (dom (write_months ms)) = ms"
proof -
  have "month_named (dom (empty_element (month_text m))) = Some m" for m
    by (cases m) (simp_all add: month_named_def tree_simps)
  then have "List.map_filter month_named (map (\<lambda>m. dom (empty_element (month_text m))) ms) = ms"
    by (intro map_filter_map) simp
  then show "sorted_wrt (<) ms \<Longrightarrow> ?thesis"
    by (simp add: parse_months_def write_months_def dom_container comp_def bset_collect_sorted)
qed

definition weeks_markup :: "week_of_month list \<Rightarrow> markup" where
  "weeks_markup ws = container ''Weeks'' (map (\<lambda>w. element ''Week'' (week_text w)) ws) [] []"

lemma read_weeks: "sorted_wrt (<) ws \<Longrightarrow> parse_weeks (dom (weeks_markup ws)) = ws"
proof -
  have "week_named (dom (element ''Week'' (week_text w))) = Some w" for w
    by (cases w) (simp_all add: week_named_def tree_simps)
  then have "List.map_filter week_named (map (\<lambda>w. dom (element ''Week'' (week_text w))) ws) = ws"
    by (intro map_filter_map) simp
  then show "sorted_wrt (<) ws \<Longrightarrow> ?thesis"
    by (simp add: parse_weeks_def weeks_markup_def dom_container comp_def bset_collect_sorted)
qed

definition days_markup :: "u8 list \<Rightarrow> markup" where
  "days_markup ds = container ''DaysOfMonth'' (map (\<lambda>day. element ''Day'' (show_nat (unat day))) ds) [] []"

lemma read_days: "sorted_wrt (<) ds \<Longrightarrow> parse_day_numbers (dom (days_markup ds)) = Inr ds"
proof -
  have "children (dom (days_markup ds)) ''Day'' = map (leaf ''Day'' \<circ> (\<lambda>day. show_nat (unat day))) ds"
    using filter_leaves[of "''Day''" "\<lambda>day. show_nat (unat day)" ds]
    by (simp add: children_def days_markup_def dom_container dom_element comp_def)
  moreover have "map_ok (\<lambda>c. parse_number (nd_text c) ''Day'')
      (map (leaf ''Day'' \<circ> (\<lambda>day. show_nat (unat day))) ds) = Inr ds"
    by (rule map_ok_map) (simp add: read_number)
  ultimately show "sorted_wrt (<) ds \<Longrightarrow> ?thesis"
    by (simp add: parse_day_numbers_def bset_collect_sorted)
qed

lemma read_queries:
  assumes "btree_wf qs"
    and "lookup ''ValueQueries'' (map dom specific) =
      (if qs = [] then None else Some (Node ''ValueQueries'' []
        (map (\<lambda>(name, value). Node ''Value'' [(''name'', name)] [] value) qs) []))"
  shows "parse_value_queries (trigger_node n c specific) = qs"
proof -
  let ?ns = "map (\<lambda>(name, value). Node ''Value'' [(''name'', name)] [] value) qs"
  have "child (trigger_node n c specific) ''ValueQueries'' =
      (if qs = [] then None else Some (Node ''ValueQueries'' [] ?ns []))"
    using assms(2) by (simp add: child_lookup lookup_append lookup_common common_names_def)
  moreover have "filter (\<lambda>v. nd_name v = ''Value'') ?ns = ?ns"
    by (auto simp: filter_id_conv)
  ultimately have "container_children (trigger_node n c specific) ''ValueQueries'' ''Value'' = ?ns"
    by (auto simp: container_children_def children_def)
  moreover have "List.map_filter
      (\<lambda>v. map_option (\<lambda>name. (name, nd_text v)) (btree_get (nd_attributes v) ''name'')) ?ns = qs"
    by (rule map_filter_map) (auto simp: btree_get_def)
  ultimately show ?thesis by (simp add: parse_value_queries_def btree_collect_sorted assms(1))
qed

lemmas trigger_read = trigger_lookup trigger_text tree_simps common_names_def owned_text_def required_text_def

lemma read_event:
  assumes "trigger_wf civil (Event t)"
  shows "parse_event_trigger (trigger_node ''EventTrigger'' (et_common t) (event_elements t)) (et_common t)
    = Inr (Event t)"
proof -
  let ?n = "trigger_node ''EventTrigger'' (et_common t) (event_elements t)"
  have wf: "optional_wf (et_delay t)" "optional_wf (et_period_of_occurrence t)" "btree_wf (et_value_queries t)"
    using assms by (simp_all add: trigger_wf_def)
  have q: "lookup ''ValueQueries'' (map dom (event_elements t)) =
      (if et_value_queries t = [] then None else Some (Node ''ValueQueries'' []
        (map (\<lambda>(name, value). Node ''Value'' [(''name'', name)] [] value) (et_value_queries t)) []))"
    by (simp add: event_elements_def tree_simps btree_collect_def comp_def case_prod_unfold)
  have "parse_value_queries ?n = et_value_queries t"
    by (rule read_queries[OF wf(3) q])
  moreover have "optional_duration ?n ''Delay'' = Inr (et_delay t)"
    by (rule trigger_duration) (simp_all add: wf common_names_def event_elements_def tree_simps)
  moreover have "optional_duration ?n ''PeriodOfOccurrence'' = Inr (et_period_of_occurrence t)"
    by (rule trigger_duration) (simp_all add: wf common_names_def event_elements_def tree_simps)
  moreover have "required_text ?n ''Subscription'' = Inr (et_subscription t)"
    "child_text ?n ''NumberOfOccurrences'' = map_option (\<lambda>n. show_nat (unat n)) (et_number_of_occurrences t)"
    "owned_text ?n ''MatchingElement'' = et_matching_element t"
    by (simp_all add: owned_text_def required_text_def trigger_text common_names_def)
      (simp_all add: event_elements_def tree_simps option.map_comp comp_def option.map_ident)
  moreover have "map_transpose (\<lambda>v. parse_number v ''NumberOfOccurrences'')
      (map_option (\<lambda>n. show_nat (unat n)) (et_number_of_occurrences t)) = Inr (et_number_of_occurrences t)"
    by (cases "et_number_of_occurrences t") (simp_all add: read_number)
  ultimately show ?thesis by (simp add: parse_event_trigger_def)
qed

text \<open>A calendar trigger whose schedule element has the given name and no rival.\<close>

definition schedule_names :: "string list" where
  "schedule_names = [''ScheduleByDay'', ''ScheduleByWeek'', ''ScheduleByMonth'', ''ScheduleByMonthDayOfWeek'']"

lemma schedule_not_common: "k \<in> set schedule_names \<Longrightarrow> k \<notin> set common_names \<and> ''RandomDelay'' \<noteq> k"
  by (auto simp: schedule_names_def common_names_def)

lemma read_calendar:
  assumes "nd_name (dom schedule) \<in> set schedule_names" and "optional_wf delay"
  shows "parse_calendar_trigger
      (trigger_node ''CalendarTrigger'' c (schedule # duration_element ''RandomDelay'' delay)) c
    = parse_schedule (trigger_node ''CalendarTrigger'' c (schedule # duration_element ''RandomDelay'' delay))
        (dom schedule) c delay"
proof -
  let ?n = "trigger_node ''CalendarTrigger'' c (schedule # duration_element ''RandomDelay'' delay)"
  have "nd_name (dom schedule) \<noteq> ''RandomDelay''" using schedule_not_common[OF assms(1)] by auto
  then have "lookup ''RandomDelay'' (map dom (schedule # duration_element ''RandomDelay'' delay))
      = map_option (\<lambda>d. leaf ''RandomDelay'' (duration_display d)) delay"
    by (simp add: lookup_Cons lookup_duration)
  then have delay: "optional_duration ?n ''RandomDelay'' = Inr delay"
    by (intro trigger_duration assms(2)) (simp_all add: common_names_def)
  have child: "child ?n k = (if nd_name (dom schedule) = k then Some (dom schedule) else None)"
    if "k \<in> set schedule_names" for k
    using schedule_not_common[OF that]
    by (simp add: child_lookup lookup_append lookup_common lookup_Cons lookup_duration)
  have names: "k \<in> set schedule_names"
    if "k = ''ScheduleByDay'' \<or> k = ''ScheduleByWeek'' \<or> k = ''ScheduleByMonth'' \<or> k = ''ScheduleByMonthDayOfWeek''" for k
    using that by (auto simp: schedule_names_def)
  consider "nd_name (dom schedule) = ''ScheduleByDay''" | "nd_name (dom schedule) = ''ScheduleByWeek''"
    | "nd_name (dom schedule) = ''ScheduleByMonth''" | "nd_name (dom schedule) = ''ScheduleByMonthDayOfWeek''"
    using assms(1) by (auto simp: schedule_names_def)
  then show ?thesis
    by cases (simp_all add: parse_calendar_trigger_def child[OF names] delay)
qed

lemma schedule_child:
  "required_child (Node name as ns content) k =
     ok_or (xml_error [Dsp name, Lit '' requires '', Dsp k]) (lookup k ns)"
  "required_number (Node name as ns content) k =
     bind_ok (ok_or (xml_error [Dsp name, Lit '' requires '', Dsp k]) (map_option nd_text (lookup k ns)))
       (\<lambda>v. parse_number v k)"
  "child_bool (Node name as ns content) k = map_transpose (bool_value k) (map_option nd_text (lookup k ns))"
  by (simp_all add: required_child_def required_number_def required_text_def child_bool_def tree_simps)

lemma schedule_parts [simp]:
  "nd_name (dom (days_markup ds)) = ''DaysOfMonth''" "nd_name (dom (weeks_markup ws)) = ''Weeks''"
  "nd_name (dom (write_weekdays wds)) = ''DaysOfWeek''" "nd_name (dom (write_months ms)) = ''Months''"
  by (simp_all add: days_markup_def weeks_markup_def write_weekdays_def write_months_def dom_container)

lemma dom_schedule:
  "dom (container name kids [] []) = Node name [] (map dom kids) []"
  by (simp add: dom_container btree_collect_def)

lemmas schedule_read = dom_schedule lookup_Cons lookup_Nil dom_element dom_bool_element schedule_child
  parse_schedule_def bool_or_def bool_value_def unwrap_or_def read_number read_weekdays read_months
  read_weeks read_days trigger_wf_def

lemma read_daily:
  "trigger_wf civil (Daily t) \<Longrightarrow> parse_schedule n (dom (container ''ScheduleByDay''
     [element ''DaysInterval'' (show_nat (unat (dly_days_interval t)))] [] [])) (dly_common t) (dly_random_delay t)
   = Inr (Daily t)"
  by (simp add: schedule_read)

lemma read_weekly:
  "trigger_wf civil (Weekly t) \<Longrightarrow> parse_schedule n (dom (container ''ScheduleByWeek''
     [element ''WeeksInterval'' (show_nat (unat (wt_weeks_interval t))), write_weekdays (wt_days_of_week t)]
     [] [])) (wt_common t) (wt_random_delay t)
   = Inr (Weekly t)"
  by (simp add: schedule_read)

lemma read_monthly:
  "trigger_wf civil (Monthly t) \<Longrightarrow> parse_schedule n (dom (container ''ScheduleByMonth''
     [days_markup (mo_days_of_month t), write_months (mo_months t),
      bool_element ''RunOnLastDayOfMonth'' (mo_run_on_last_day t)] [] [])) (mo_common t) (mo_random_delay t)
   = Inr (Monthly t)"
  by (simp add: schedule_read)

lemma read_monthly_dow:
  "trigger_wf civil (MonthlyDow t) \<Longrightarrow> parse_schedule n (dom (container ''ScheduleByMonthDayOfWeek''
     [weeks_markup (md_weeks_of_month t), write_weekdays (md_days_of_week t), write_months (md_months t),
      bool_element ''RunOnLastWeekOfMonth'' (md_run_on_last_week t)] [] [])) (md_common t) (md_random_delay t)
   = Inr (MonthlyDow t)"
  by (simp add: schedule_read)

lemma read_state_change:
  "lookup ''StateChange'' (nd_children n) = Some (leaf ''StateChange'' (state_change_text s)) \<Longrightarrow>
     parse_state_change n = Inr s"
  by (cases s) (simp_all add: parse_state_change_def required_text_def child_text_lookup)

lemma read_trigger_known:
  assumes "trigger_wf civil t" and "trigger_common_of t = Some c" and "specific_names specific"
    and "dom (write_trigger t) = trigger_node name c specific"
  shows "parse_trigger_common civil (dom (write_trigger t)) = Inr c"
proof -
  have "common_wf civil c" using assms(1,2) by (simp add: trigger_wf_def)
  then show ?thesis using assms(3) by (simp add: assms(4) read_common)
qed

lemma common_names_not [simp]:
  "''Delay'' \<notin> set common_names" "''RandomDelay'' \<notin> set common_names" "''UserId'' \<notin> set common_names"
  "''StateChange'' \<notin> set common_names" "''Subscription'' \<notin> set common_names"
  "''ValueQueries'' \<notin> set common_names" "''PeriodOfOccurrence'' \<notin> set common_names"
  "''NumberOfOccurrences'' \<notin> set common_names" "''MatchingElement'' \<notin> set common_names"
  by (simp_all add: common_names_def)

lemma read_delay:
  "optional_wf v \<Longrightarrow> k \<notin> set common_names \<Longrightarrow>
     optional_duration (trigger_node name c (duration_element k v)) k = Inr v"
  by (rule trigger_duration) (simp_all add: tree_simps)

lemma read_user_delay:
  assumes "optional_wf v"
  shows "optional_duration
      (trigger_node name c (optional_element ''UserId'' u @ duration_element ''Delay'' v)) ''Delay'' = Inr v"
    and "owned_text (trigger_node name c (optional_element ''UserId'' u @ duration_element ''Delay'' v)) ''UserId'' = u"
  by (rule trigger_duration) (simp_all add: assms owned_text_def trigger_text tree_simps)

lemma read_simple_triggers:
  "trigger_wf civil (Boot b) \<Longrightarrow> parse_trigger civil (dom (write_trigger (Boot b))) = Inr (Boot b)"
  "trigger_wf civil (Registration r) \<Longrightarrow>
     parse_trigger civil (dom (write_trigger (Registration r))) = Inr (Registration r)"
  "trigger_wf civil (Idle i) \<Longrightarrow> parse_trigger civil (dom (write_trigger (Idle i))) = Inr (Idle i)"
  "trigger_wf civil (Time t) \<Longrightarrow> parse_trigger civil (dom (write_trigger (Time t))) = Inr (Time t)"
  "trigger_wf civil (Logon l) \<Longrightarrow> parse_trigger civil (dom (write_trigger (Logon l))) = Inr (Logon l)"
  by (simp_all add: parse_trigger_def dom_simple_trigger read_common trigger_wf_def read_delay
      read_user_delay Let_def)

lemma read_session:
  assumes "trigger_wf civil (SessionStateChange t)"
  shows "parse_trigger civil (dom (write_trigger (SessionStateChange t))) = Inr (SessionStateChange t)"
proof -
  let ?specific = "[element ''StateChange'' (state_change_text (st_state_change t))]
      @ optional_element ''UserId'' (st_user_id t) @ duration_element ''Delay'' (st_delay t)"
  let ?n = "trigger_node ''SessionStateChangeTrigger'' (st_common t) ?specific"
  have "specific_names ?specific" by (simp add: dom_element)
  then have "parse_trigger_common civil ?n = Inr (st_common t)"
    using assms by (intro read_common) (simp_all add: trigger_wf_def)
  moreover have "parse_state_change ?n = Inr (st_state_change t)"
    by (rule read_state_change) (simp add: tree_simps)
  moreover have "optional_duration ?n ''Delay'' = Inr (st_delay t)"
    by (rule trigger_duration) (use assms in \<open>simp_all add: trigger_wf_def tree_simps\<close>)
  moreover have "owned_text ?n ''UserId'' = st_user_id t"
    by (simp add: owned_text_def trigger_text tree_simps)
  ultimately show ?thesis by (simp add: parse_trigger_def dom_simple_trigger Let_def)
qed

lemma read_calendar_trigger:
  assumes "common_wf civil c" and "nd_name (dom schedule) \<in> set schedule_names" and "optional_wf delay"
    and "\<And>n. parse_schedule n (dom schedule) c delay = Inr t"
  shows "parse_trigger civil (dom (write_calendar_trigger c schedule delay)) = Inr t"
proof -
  have "nd_name (dom schedule) \<notin> set common_names" using schedule_not_common[OF assms(2)] by blast
  then have "specific_names (schedule # duration_element ''RandomDelay'' delay)" by simp
  then have "parse_trigger_common civil (dom (write_calendar_trigger c schedule delay)) = Inr c"
    by (simp add: dom_calendar_trigger read_common assms(1))
  then show ?thesis
    by (simp add: parse_trigger_def dom_calendar_trigger Let_def read_calendar[OF assms(2,3)] assms(4))
qed

lemma schedule_names_in [simp]:
  "''ScheduleByDay'' \<in> set schedule_names" "''ScheduleByWeek'' \<in> set schedule_names"
  "''ScheduleByMonth'' \<in> set schedule_names" "''ScheduleByMonthDayOfWeek'' \<in> set schedule_names"
  by (simp_all add: schedule_names_def)

lemma read_trigger:
  assumes "trigger_wf civil t"
  shows "parse_trigger civil (dom (write_trigger t)) = Inr t"
proof (cases t)
  case (Event e)
  have "specific_names (event_elements e)"
    by (simp add: event_elements_def dom_element dom_container)
  then have "parse_trigger_common civil (dom (write_trigger t)) = Inr (et_common e)"
    using assms Event by (simp add: dom_simple_trigger read_common trigger_wf_def)
  then show ?thesis
    using read_event[of civil e] assms Event by (simp add: parse_trigger_def dom_simple_trigger Let_def)
next
  case (SessionStateChange s)
  then show ?thesis using read_session assms by simp
next
  case (Daily d)
  then show ?thesis
    using assms read_daily[of civil d]
    by (simp only: write_trigger.simps)
      (rule read_calendar_trigger; simp add: trigger_wf_def dom_schedule)
next
  case (Weekly w)
  then show ?thesis
    using assms read_weekly[of civil w]
    by (simp only: write_trigger.simps)
      (rule read_calendar_trigger; simp add: trigger_wf_def dom_schedule)
next
  case (Monthly m)
  then show ?thesis
    using assms read_monthly[of civil m]
    by (simp only: write_trigger.simps days_markup_def[symmetric])
      (rule read_calendar_trigger; simp add: trigger_wf_def dom_schedule)
next
  case (MonthlyDow m)
  then show ?thesis
    using assms read_monthly_dow[of civil m]
    by (simp only: write_trigger.simps weeks_markup_def[symmetric])
      (rule read_calendar_trigger; simp add: trigger_wf_def dom_schedule)
next
  case (UnknownTrigger u)
  then show ?thesis using assms by (simp add: trigger_wf_def)
qed (use assms read_simple_triggers in simp_all)

lemma read_triggers:
  assumes "list_all (trigger_wf civil) (triggers_slice ts)" and "length (triggers_slice ts) \<le> 48"
  shows "parse_triggers civil (dom (container ''Triggers'' (map write_trigger (triggers_slice ts)) [] [])) = Inr ts"
proof -
  have "map_ok (parse_trigger civil) (map (\<lambda>t. dom (write_trigger t)) (triggers_slice ts))
      = Inr (triggers_slice ts)"
    using assms(1) by (intro map_ok_map read_trigger) (auto simp: list_all_iff)
  then show ?thesis
    using assms(2) by (cases ts)
      (simp add: parse_triggers_def dom_container comp_def triggers_try_from_def MAX_TRIGGERS_def)
qed

section \<open>Definitions\<close>

text \<open>The definitions whose document says everything about them.\<close>

definition writable :: "civil_parser \<Rightarrow> task_definition \<Rightarrow> bool" where
  "writable civil d \<longleftrightarrow>
     td_extensions d = [] \<and> schema_parse (schema_as_str (td_schema_version d)) = td_schema_version d
     \<and> registration_wf civil (td_registration d) \<and> principal_wf (td_principal d)
     \<and> settings_wf (td_schema_version d) (td_settings d)
     \<and> list_all known_action (actions_slice (td_actions d)) \<and> length (actions_slice (td_actions d)) \<le> 32
     \<and> list_all (trigger_wf civil) (triggers_slice (td_triggers d))
     \<and> length (triggers_slice (td_triggers d)) \<le> 48"

lemma plain_repetition [simp]: "list_all plain (repetition_elements rep)"
  by (simp add: repetition_elements_def split: option.splits)

lemma plain_common [simp]: "list_all plain (trigger_common_elements c)"
  by (simp add: trigger_common_elements_def)

lemma plain_map [simp]: "(\<And>x. x \<in> set xs \<Longrightarrow> plain (f x)) \<Longrightarrow> list_all plain (map f xs)"
  by (simp add: list_all_iff)

lemma plain_action: "known_action a \<Longrightarrow> plain (write_action uuid_text a)"
  by (cases a) (simp_all add: known_action_def write_exec_def write_com_def write_email_def
      write_message_def write_header_def)

lemma plain_trigger: "trigger_wf civil t \<Longrightarrow> plain (write_trigger t)"
  by (cases t) (auto simp: trigger_wf_def write_simple_trigger_def write_calendar_trigger_def
      write_weekdays_def write_months_def event_elements_def list_all_iff[of plain "map _ _"])

lemma plain_identity [simp]: "list_all plain (identity_elements i)"
  by (cases i) simp_all

lemma plain_principal [simp]: "plain (write_principal p)"
  by (simp add: write_principal_def)

lemma plain_settings: "td_extensions d = [] \<Longrightarrow> plain (write_settings d)"
  by (simp add: write_settings_def merge_extensions_Nil)

lemma plain_registration: "td_extensions d = [] \<Longrightarrow> plain (write_registration d)"
  by (simp add: write_registration_def merge_extensions_Nil)

lemma plain_root_children:
  assumes "writable civil d"
  shows "list_all plain (root_children uuid_text d)"
proof -
  have "plain (write_trigger t)" if "t \<in> set (triggers_slice (td_triggers d))" for t
    using assms that plain_trigger[of civil t] by (simp add: writable_def list_all_iff)
  moreover have "plain (write_action uuid_text a)" if "a \<in> set (actions_slice (td_actions d))" for a
    using assms that by (simp add: writable_def list_all_iff plain_action)
  ultimately show ?thesis
    using assms by (simp add: root_children_def plain_registration plain_settings write_actions_def writable_def)
qed

definition root_node :: "(uuid \<Rightarrow> string) \<Rightarrow> task_definition \<Rightarrow> node" where
  "root_node uuid_text d =
     Node ''Task'' [(''version'', schema_as_str (td_schema_version d)), (''xmlns'', task_namespace)]
       (map dom (root_children uuid_text d)) []"

lemma dom_root:
  assumes "writable civil d"
  shows "dom (root_element uuid_text d) = root_node uuid_text d"
proof -
  have "td_extensions d = []" using assms by (simp add: writable_def)
  moreover have "btree_collect [(''version'', v), (''xmlns'', x)] = [(''version'', v), (''xmlns'', x)]" for v x :: string
    by (simp add: btree_collect_def less_list_code less_char_def)
  ultimately show ?thesis
    by (simp add: root_element_def dom_container root_node_def merge_extensions_Nil
        plain_root_children[OF assms])
qed

lemma write_names [simp]:
  "nd_name (dom (write_registration d)) = ''RegistrationInfo''"
  "nd_name (dom (write_settings d)) = ''Settings''"
  "nd_name (dom (write_actions uuid_text d)) = ''Actions''"
  "nd_name (dom (write_principal p)) = ''Principals''"
  "nd_name (dom (container name kids attributes content)) = name"
  by (simp_all add: write_registration_def write_settings_def write_actions_def write_principal_def
      dom_container)

lemma root_lookup:
  "child (root_node uuid_text d) ''RegistrationInfo'' =
     (if td_registration d \<noteq> registration_default \<or> has_extensions d ''Task/RegistrationInfo''
      then Some (dom (write_registration d)) else None)"
  "child (root_node uuid_text d) ''Triggers'' =
     (if triggers_slice (td_triggers d) \<noteq> []
      then Some (dom (container ''Triggers'' (map write_trigger (triggers_slice (td_triggers d))) [] []))
      else None)"
  "child (root_node uuid_text d) ''Principals'' = Some (dom (write_principal (td_principal d)))"
  "child (root_node uuid_text d) ''Settings'' = Some (dom (write_settings d))"
  "child (root_node uuid_text d) ''Actions'' = Some (dom (write_actions uuid_text d))"
  "child_text (root_node uuid_text d) ''Data'' = td_data d"
  by (simp_all add: root_node_def root_children_def child_lookup child_text_lookup lookup_append lookup_if
      lookup_Cons lookup_Nil lookup_optional)

lemma extensions_for_known:
  "\<forall>c \<in> set (nd_children n). nd_name c \<in> set known \<Longrightarrow> extensions_for n parent known = []"
  by (auto simp: extensions_for_def filter_empty_conv in_set_enumerate_eq)

definition named :: "string list \<Rightarrow> markup list \<Rightarrow> bool" where
  "named names ms = list_all (\<lambda>m. nd_name (dom m) \<in> set names) ms"

lemma named_simps [simp]:
  "named names []" "named names (ms @ ns) \<longleftrightarrow> named names ms \<and> named names ns"
  "named names (m # ms) \<longleftrightarrow> nd_name (dom m) \<in> set names \<and> named names ms"
  "named names (if b then ms else []) \<longleftrightarrow> (b \<longrightarrow> named names ms)"
  by (simp_all add: named_def)

lemma named_parts:
  "k \<in> set names \<Longrightarrow> named names (optional_element k v)"
  "''RestartOnFailure'' \<in> set names \<Longrightarrow> named names (restart_elements r)"
  "''IdleSettings'' \<in> set names \<Longrightarrow> named names (idle_elements i)"
  "''NetworkSettings'' \<in> set names \<Longrightarrow> named names (network_elements n)"
  "''MaintenanceSettings'' \<in> set names \<Longrightarrow> named names (maintenance_elements m)"
  by (simp_all add: optional_element_def restart_elements_def idle_elements_def network_elements_def
      maintenance_elements_def dom_element split: option.splits)

lemma extensions_for_named:
  "named known ms \<Longrightarrow> nd_children n = map dom ms \<Longrightarrow> extensions_for n parent known = []"
  by (rule extensions_for_known) (auto simp: named_def list_all_iff)

lemma root_names: "named task_children (root_children uuid_text d)"
  by (simp add: root_children_def task_children_def named_parts)

lemma settings_names: "named settings_children (settings_elements d)"
  by (simp add: settings_elements_def Let_def settings_children_def named_parts dom_bool_element dom_element)

lemma registration_names: "named registration_children (registration_elements r)"
  by (simp add: registration_elements_def registration_children_def named_parts)

lemma registration_extensions:
  assumes "td_extensions d = []"
  shows "extensions_for (dom (write_registration d)) parent registration_children = []"
  by (rule extensions_for_named[OF registration_names[of "td_registration d"]])
    (simp add: assms write_registration_def dom_container merge_extensions_Nil)

lemma no_extensions:
  assumes "writable civil d"
  shows "definition_extensions (root_node uuid_text d) = []"
proof -
  have e: "td_extensions d = []" using assms by (simp add: writable_def)
  have "extensions_for (root_node uuid_text d) ''Task'' task_children = []"
    by (rule extensions_for_named[OF root_names]) (simp add: root_node_def)
  moreover have "extensions_for (dom (write_settings d)) ''Task/Settings'' settings_children = []"
    by (rule extensions_for_named[OF settings_names]) (simp add: dom_write_settings[OF e] settings_node_def)
  ultimately show ?thesis
    by (simp add: definition_extensions_def root_lookup registration_extensions[OF e])
qed

lemma read_definition:
  assumes "writable civil d" and "\<And>u. uuid (uuid_text u) = Inr u"
  shows "definition_from_node civil uuid (dom (root_element uuid_text d)) = Inr d"
proof -
  have e: "td_extensions d = []" and s: "schema_parse (schema_as_str (td_schema_version d)) = td_schema_version d"
    using assms(1) by (simp_all add: writable_def)
  have "btree_get (nd_attributes (root_node uuid_text d)) ''version'' = Some (schema_as_str (td_schema_version d))"
    by (simp add: root_node_def btree_get_def)
  moreover have "map_transpose (parse_registration civil) (child (root_node uuid_text d) ''RegistrationInfo'')
      = Inr (if td_registration d = registration_default then None else Some (td_registration d))"
    using assms(1) e read_registration[of civil d] by (simp add: root_lookup has_extensions_def writable_def)
  moreover have "map_transpose parse_principal
      (Option.bind (child (root_node uuid_text d) ''Principals'') (\<lambda>ps. child ps ''Principal''))
      = Inr (Some (td_principal d))"
    using assms(1) read_principal[of "td_principal d"]
    by (simp add: root_lookup dom_write_principal child_def[of "Node _ _ _ _"] writable_def)
  moreover have "map_transpose parse_settings (child (root_node uuid_text d) ''Settings'') = Inr (Some (td_settings d))"
    using assms(1) e read_settings[of d] by (simp add: root_lookup dom_write_settings writable_def)
  moreover have "map_transpose (parse_triggers civil) (child (root_node uuid_text d) ''Triggers'')
      = Inr (if triggers_slice (td_triggers d) = [] then None else Some (td_triggers d))"
    using assms(1) read_triggers[of civil "td_triggers d"] by (simp add: root_lookup writable_def)
  moreover have "map_transpose (parse_actions uuid) (child (root_node uuid_text d) ''Actions'')
      = Inr (Some (td_actions d))"
    using assms read_actions[of d uuid uuid_text] by (simp add: root_lookup writable_def)
  moreover have "nd_name (root_node uuid_text d) = ''Task''" by (simp add: root_node_def)
  moreover have "triggers_slice (td_triggers d) = [] \<longleftrightarrow> td_triggers d = Triggers []"
    by (cases "td_triggers d") simp
  ultimately show ?thesis
    using e s by (simp add: dom_root[OF assms(1)] definition_from_node_def Let_def unwrap_or_def
        root_lookup no_extensions[OF assms(1)])
qed

end
