(* ===== verification/Xml_Events.thy ===== *)
theory Xml_Events
  imports Xml_Bounds Xml_Round
begin

text \<open>
  From the text of a document to its tree. \<open>conforming\<close> states what is relied on of the tokenizer of
  \<open>quick_xml\<close>, one law per kind of token, and \<open>decoding\<close> of its entity decoder. The lemmas compose the
  laws over the rendered markup and run the stack machine over the resulting events.
\<close>

section \<open>The contract of the XML library\<close>

text \<open>\<open>tok open text\<close> is what the reader delivers for \<open>text\<close> while the elements \<open>open\<close> are open.\<close>

type_synonym lexer = "string list \<Rightarrow> string \<Rightarrow> (string + event) list"

definition simple_name :: "string \<Rightarrow> bool" where
  "simple_name n \<longleftrightarrow> n \<noteq> [] \<and> list_all is_ascii_alphanumeric n"

text \<open>Attribute values are normalized (line ends and tabs become spaces), texts get line feeds only.\<close>

definition value_ok :: "string \<Rightarrow> bool" where
  "value_ok v \<longleftrightarrow> CHR 0x0D \<notin> set v \<and> CHR 0x0A \<notin> set v \<and> CHR 0x09 \<notin> set v"

definition text_ok :: "string \<Rightarrow> bool" where
  "text_ok s \<longleftrightarrow> CHR 0x0D \<notin> set s"

definition attributes_ok :: "(string \<times> string) list \<Rightarrow> bool" where
  "attributes_ok attributes \<longleftrightarrow>
     list_all (\<lambda>(k, v). simple_name k \<and> value_ok v) attributes \<and> distinct (map fst attributes)"

definition attribute_events :: "(string \<times> string) list \<Rightarrow> attribute_event list" where
  "attribute_events attributes = map (\<lambda>(k, v). Inr (k, Inr v)) attributes"

definition at_markup :: "string \<Rightarrow> bool" where
  "at_markup s \<longleftrightarrow> s = [] \<or> hd s \<in> {CHR ''<'', CHR ''&''}"

definition conforming :: "lexer \<Rightarrow> bool" where
  "conforming tok \<longleftrightarrow>
     tok [] [] = [] \<and>
     (\<forall>encoding rest. simple_name (filter (\<lambda>c. c \<noteq> CHR ''-'') encoding) \<longrightarrow>
        tok [] (''<?xml version='' @ quoted ''1.0'' @ '' encoding='' @ quoted encoding @ ''?>'' @ rest)
          = Inr Decl # tok [] rest) \<and>
     (\<forall>st rest. at_markup rest \<longrightarrow> tok st (crlf @ rest) = Inr (TextEvent (Inr [CHR 0x0A])) # tok st rest) \<and>
     (\<forall>st name attributes rest. simple_name name \<longrightarrow> attributes_ok attributes \<longrightarrow>
        tok st (''<'' @ name @ attributes_text attributes @ ''>'' @ rest)
          = Inr (StartEvent name (attribute_events attributes)) # tok (name # st) rest) \<and>
     (\<forall>st name rest. simple_name name \<longrightarrow>
        tok st (''<'' @ name @ '' />'' @ rest) = Inr (EmptyEvent name []) # tok st rest) \<and>
     (\<forall>st name rest. simple_name name \<longrightarrow>
        tok (name # st) (''</'' @ name @ ''>'' @ rest) = Inr (EndEvent name) # tok st rest) \<and>
     (\<forall>st name rest. simple_name name \<longrightarrow>
        tok st (''&'' @ name @ '';'' @ rest) = Inr (GeneralRef name) # tok st rest) \<and>
     (\<forall>st s rest. s \<noteq> [] \<longrightarrow> text_ok s \<longrightarrow> CHR ''<'' \<notin> set s \<longrightarrow> CHR ''&'' \<notin> set s \<longrightarrow> at_markup rest \<longrightarrow>
        tok st (s @ rest) = Inr (TextEvent (Inr s)) # tok st rest)"

definition decoding :: "unescaper \<Rightarrow> bool" where
  "decoding unescape \<longleftrightarrow>
     (\<forall>s. CHR ''&'' \<notin> set s \<longrightarrow> unescape s = Inr s) \<and> unescape ''&amp;'' = Inr ''&'' \<and>
     unescape ''&lt;'' = Inr ''<'' \<and> unescape ''&gt;'' = Inr ''>''"

lemma conforming_tokens:
  assumes "conforming tok"
  shows "tok [] [] = []"
    and "simple_name (filter (\<lambda>c. c \<noteq> CHR ''-'') encoding) \<Longrightarrow>
      tok [] (''<?xml version='' @ quoted ''1.0'' @ '' encoding='' @ quoted encoding @ ''?>'' @ rest)
        = Inr Decl # tok [] rest"
    and "at_markup rest \<Longrightarrow> tok st (crlf @ rest) = Inr (TextEvent (Inr [CHR 0x0A])) # tok st rest"
    and "simple_name name \<Longrightarrow> attributes_ok attributes \<Longrightarrow>
      tok st (''<'' @ name @ attributes_text attributes @ ''>'' @ rest)
        = Inr (StartEvent name (attribute_events attributes)) # tok (name # st) rest"
    and "simple_name name \<Longrightarrow> tok st (''<'' @ name @ '' />'' @ rest) = Inr (EmptyEvent name []) # tok st rest"
    and "simple_name name \<Longrightarrow> tok (name # st) (''</'' @ name @ ''>'' @ rest) = Inr (EndEvent name) # tok st rest"
    and "simple_name name \<Longrightarrow> tok st (''&'' @ name @ '';'' @ rest) = Inr (GeneralRef name) # tok st rest"
    and "s \<noteq> [] \<Longrightarrow> text_ok s \<Longrightarrow> CHR ''<'' \<notin> set s \<Longrightarrow> CHR ''&'' \<notin> set s \<Longrightarrow> at_markup rest \<Longrightarrow>
      tok st (s @ rest) = Inr (TextEvent (Inr s)) # tok st rest"
  using assms by (simp_all only: conforming_def simp_thms)

section \<open>The events of a markup\<close>

definition special :: "char \<Rightarrow> bool" where
  "special c \<longleftrightarrow> c \<in> {CHR ''&'', CHR ''<'', CHR ''>''}"

definition entity :: "char \<Rightarrow> string" where
  "entity c = (if c = CHR ''&'' then ''amp'' else if c = CHR ''<'' then ''lt'' else ''gt'')"

function text_events :: "string \<Rightarrow> event list" where
  "text_events [] = []"
| "text_events (c # s) =
     (if special c then GeneralRef (entity c) # text_events s
      else TextEvent (Inr (c # takeWhile (\<lambda>x. \<not> special x) s)) # text_events (dropWhile (\<lambda>x. \<not> special x) s))"
  by pat_completeness auto
termination
  by (relation "measure length") (auto simp: less_Suc_eq_le length_dropWhile_le)

fun events :: "markup \<Rightarrow> event list" where
  "events (Element name attributes kids content) =
     StartEvent name (attribute_events attributes) # text_events content @ concat (map events kids) @ [EndEvent name]"
| "events (EmptyElement name) = [EmptyEvent name []]"
| "events (Raw s) = []"

text \<open>Markup whose names are plain and whose texts survive the normalization of XML.\<close>

fun readable :: "markup \<Rightarrow> bool" where
  "readable (Element name attributes kids content) \<longleftrightarrow>
     simple_name name \<and> attributes_ok attributes \<and> text_ok content \<and> list_all readable kids"
| "readable (EmptyElement name) \<longleftrightarrow> simple_name name"
| "readable (Raw s) \<longleftrightarrow> False"

lemma escape_plain: "\<forall>c \<in> set s. \<not> special c \<Longrightarrow> escape_text s = s"
  by (induction s) (auto simp: escape_text_chars special_def)

lemma escape_special: "special c \<Longrightarrow> escape_text (c # s) = ''&'' @ entity c @ '';'' @ escape_text s"
  by (auto simp: escape_text_chars special_def entity_def)

lemma simple_entity: "special c \<Longrightarrow> simple_name (entity c)"
  by (auto simp: special_def entity_def simple_name_def is_ascii_alphanumeric_def is_ascii_lower_def)

lemma escape_text_append: "escape_text (s @ t) = escape_text s @ escape_text t"
  by (simp add: escape_text_chars)

lemma at_markup_escaped:
  assumes "s = [] \<or> special (hd s)" and "at_markup rest"
  shows "at_markup (escape_text s @ rest)"
proof (cases s)
  case Nil
  then show ?thesis using assms(2) by (simp add: escape_text_chars)
next
  case (Cons c r)
  then have "escape_text s = ''&'' @ entity c @ '';'' @ escape_text r"
    using assms(1) escape_special by simp
  then show ?thesis by (simp add: at_markup_def)
qed

lemma lex_text:
  assumes "conforming tok" and "text_ok content" and "at_markup rest"
  shows "tok st (escape_text content @ rest) = map Inr (text_events content) @ tok st rest"
  using assms(2)
proof (induction content rule: text_events.induct)
  case 1
  show ?case by (simp add: escape_text_def)
next
  case (2 c s)
  show ?case
  proof (cases "special c")
    case True
    have "tok st (''&'' @ entity c @ '';'' @ (escape_text s @ rest)) = Inr (GeneralRef (entity c)) # tok st (escape_text s @ rest)"
      by (rule conforming_tokens(7)[OF assms(1) simple_entity[OF True]])
    then show ?thesis using 2 True by (simp add: escape_special text_ok_def)
  next
    case False
    let ?t = "c # takeWhile (\<lambda>x. \<not> special x) s" and ?r = "dropWhile (\<lambda>x. \<not> special x) s"
    have plain: "\<forall>x \<in> set ?t. \<not> special x" using False by (auto dest: set_takeWhileD)
    have split: "c # s = ?t @ ?r" by simp
    have "escape_text (c # s) = ?t @ escape_text ?r"
      by (subst split, subst escape_text_append) (simp only: escape_plain[OF plain])
    then have "tok st (escape_text (c # s) @ rest) = tok st (?t @ (escape_text ?r @ rest))"
      by (simp only: append_assoc)
    also have "tok st (?t @ (escape_text ?r @ rest)) = Inr (TextEvent (Inr ?t)) # tok st (escape_text ?r @ rest)"
    proof (rule conforming_tokens(8)[OF assms(1)])
      have "set ?t \<subseteq> set (c # s)" by (auto dest: set_takeWhileD)
      then show "text_ok ?t" using 2(3) unfolding text_ok_def by blast
      show "CHR ''<'' \<notin> set ?t" using plain by (metis special_def insertCI)
      show "CHR ''&'' \<notin> set ?t" using plain by (metis special_def insertCI)
      show "at_markup (escape_text ?r @ rest)"
        using hd_dropWhile[of "\<lambda>x. \<not> special x" s] by (intro at_markup_escaped assms(3)) blast
    qed simp
    also have "tok st (escape_text ?r @ rest) = map Inr (text_events ?r) @ tok st rest"
      using 2(3) by (intro 2(2)[OF False]) (auto simp: text_ok_def dest: set_dropWhileD)
    finally show ?thesis using False by simp
  qed
qed

lemma at_markup_render: "readable m \<Longrightarrow> at_markup (render m @ rest)"
  by (cases m) (simp_all add: at_markup_def)

lemma lex_render:
  assumes "conforming tok"
  shows "readable m \<Longrightarrow> tok st (render m @ rest) = map Inr (events m) @ tok st rest"
proof (induction m arbitrary: st rest)
  case (Element name attributes kids content)
  let ?rest = "''</'' @ name @ ''>'' @ rest"
  have kids: "tok st' (concat (map render ms) @ ?rest) = map Inr (concat (map events ms)) @ tok st' ?rest"
    if "set ms \<subseteq> set kids" for ms st'
    using that
  proof (induction ms)
    case (Cons m ms)
    then have "readable m" using Element.prems by (auto simp: list_all_iff)
    with Cons Element.IH[of m] show ?case by simp
  qed simp
  have "at_markup (concat (map render kids) @ ?rest)"
  proof (cases kids)
    case (Cons m ms)
    then show ?thesis
      using Element.prems at_markup_render[of m "concat (map render ms) @ ?rest"] by simp
  qed (simp add: at_markup_def)
  then have "tok (name # st) (escape_text content @ (concat (map render kids) @ ?rest))
      = map Inr (text_events content) @ tok (name # st) (concat (map render kids) @ ?rest)"
    using Element.prems by (intro lex_text[OF assms]) simp_all
  moreover have "tok (name # st) ?rest = Inr (EndEvent name) # tok st rest"
    using Element.prems by (intro conforming_tokens(6)[OF assms]) simp
  moreover have "tok st (''<'' @ name @ attributes_text attributes @ ''>'' @ (escape_text content @ (concat (map render kids) @ ?rest)))
      = Inr (StartEvent name (attribute_events attributes)) # tok (name # st) (escape_text content @ (concat (map render kids) @ ?rest))"
    using Element.prems by (intro conforming_tokens(4)[OF assms]) simp_all
  ultimately show ?case using kids[of kids "name # st"] by simp
next
  case (EmptyElement name)
  then show ?case using conforming_tokens(5)[OF assms, of name st rest] by simp
qed simp

section \<open>The stack machine on the events\<close>

lemma ascii_utf8:
  "\<forall>c \<in> set s. (of_char c :: nat) < 128 \<Longrightarrow> \<exists>cs. utf8_decode i (map of_char s) = Inr cs"
proof (induction s arbitrary: i)
  case (Cons c s)
  then obtain cs where "utf8_decode (i + 1) (map of_char s) = Inr cs" by fastforce
  with Cons.prems show ?case by (subst utf8_decode.simps) (simp add: utf8_char_def)
qed (simp add: utf8_decode.simps)

lemma alphanumeric_ascii: "is_ascii_alphanumeric c \<Longrightarrow> (of_char c :: nat) < 128 \<and> c \<noteq> CHR '':''"
  by (auto simp: is_ascii_alphanumeric_def is_ascii_digit_def is_ascii_upper_def is_ascii_lower_def)

lemma simple_local_name: "simple_name n \<Longrightarrow> local_name n = Inr n"
proof -
  assume n: "simple_name n"
  then have a: "\<forall>c \<in> set n. (of_char c :: nat) < 128" "CHR '':'' \<notin> set n"
    using alphanumeric_ascii by (auto simp: simple_name_def list_all_iff)
  then obtain cs where "from_utf8 n = Inr cs"
    using ascii_utf8[of n 0] by (auto simp: from_utf8_def bytes_of_def)
  with a(2) show ?thesis by (simp add: local_name_def split_on_no_sep)
qed

lemma read_simple_attributes:
  "attributes_ok attributes \<Longrightarrow>
     read_attributes (attribute_events attributes) m = Inr (foldl (\<lambda>m (k, v). btree_insert k v m) m attributes)"
  by (induction attributes arbitrary: m)
    (auto simp: attribute_events_def attributes_ok_def simple_local_name)

lemma open_simple:
  "simple_name name \<Longrightarrow> attributes_ok attributes \<Longrightarrow> ds_nodes st < max_nodes limits \<Longrightarrow>
     length (ds_stack st) < max_depth limits \<Longrightarrow>
     open_element limits name (attribute_events attributes) st = Inr (Node name (btree_collect attributes) [] [])"
  by (simp add: open_element_def read_simple_attributes simple_local_name btree_collect_def)

lemma resolve_entity:
  assumes "decoding unescape" and "special c"
  shows "resolve_reference unescape (entity c) = Inr [c]"
proof -
  have "unescape (''&'' @ entity c @ '';'') = Inr [c]"
    using assms by (auto simp: decoding_def special_def entity_def)
  moreover have "\<forall>x \<in> set (entity c). (of_char x :: nat) < 128"
    using simple_entity[OF assms(2)] alphanumeric_ascii by (auto simp: simple_name_def list_all_iff)
  then obtain cs where "from_utf8 (entity c) = Inr cs"
    using ascii_utf8[of "entity c" 0] by (auto simp: from_utf8_def bytes_of_def)
  moreover have "list_all xml_char (chars_of [c])"
    using assms(2) by (auto simp: special_def chars_of_def from_utf8_def bytes_of_def utf8_decode.simps
        utf8_char_def xml_char_def)
  ultimately show ?thesis by (simp add: resolve_reference_def list_ex_iff list_all_iff)
qed

lemma push_text_append [simp]: "push_text s (push_text t n) = push_text (t @ s) n"
  by (cases n) simp

lemma push_top_append [simp]: "push_top s (push_top t ns) = push_top (t @ s) ns"
  by (cases ns) auto

lemma dom_loop_text:
  assumes "decoding unescape" and "ds_stack st \<noteq> []"
  shows "dom_loop unescape limits (map Inr (text_events content) @ es) st =
    dom_loop unescape limits es (st\<lparr>ds_stack := push_top content (ds_stack st)\<rparr>)"
  using assms(2)
proof (induction content arbitrary: st rule: text_events.induct)
  case 1
  then show ?case by (cases st; cases "ds_stack st") (auto, metis node.exhaust push_text.simps append_Nil2)
next
  case (2 c s)
  have ne: "push_top t (ds_stack st) \<noteq> []" for t using 2(3) by (cases "ds_stack st") auto
  show ?case
  proof (cases "special c")
    case True
    then show ?thesis using 2(1)[OF True] 2(3) ne by (simp add: resolve_entity[OF assms(1)])
  next
    case False
    let ?t = "c # takeWhile (\<lambda>x. \<not> special x) s"
    have "CHR ''&'' \<notin> set ?t" using False by (auto simp: special_def dest: set_takeWhileD)
    then have "unescape ?t = Inr ?t" using assms(1) unfolding decoding_def by blast
    then show ?thesis using 2(2)[OF False] False 2(3) ne by simp
  qed
qed

text \<open>A whole element goes to its parent, within the limits.\<close>

definition fits :: "parse_limits \<Rightarrow> node \<Rightarrow> dom_state \<Rightarrow> bool" where
  "fits limits n st \<longleftrightarrow>
     ds_nodes st + node_count n \<le> max_nodes limits \<and> length (ds_stack st) + node_height n \<le> max_depth limits"

definition add_children :: "node list \<Rightarrow> node \<Rightarrow> node" where
  "add_children ns n = foldl (\<lambda>m c. add_child c m) n ns"

lemma add_children_Node: "add_children ns (Node name as kids content) = Node name as (kids @ ns) content"
  by (induction ns arbitrary: kids) (auto simp: add_children_def)

lemma dom_loop_events:
  assumes "decoding unescape"
  shows "readable m \<Longrightarrow> fits limits (dom m) st \<Longrightarrow>
    dom_loop unescape limits (map Inr (events m) @ es) st =
      bind_ok (close_element (dom m) (st\<lparr>ds_nodes := ds_nodes st + node_count (dom m)\<rparr>))
        (dom_loop unescape limits es)"
proof (induction m arbitrary: st es)
  case (Element name attributes kids content)
  let ?n = "Node name (btree_collect attributes) [] content"
  have kids: "dom_loop unescape limits (map Inr (concat (map events ms)) @ es') (st'\<lparr>ds_stack := n # rest\<rparr>) =
      dom_loop unescape limits es'
        (st'\<lparr>ds_stack := add_children (map dom ms) n # rest, ds_nodes := ds_nodes st' + sum_list (map (node_count \<circ> dom) ms)\<rparr>)"
    if "set ms \<subseteq> set kids" "ds_nodes st' + sum_list (map (node_count \<circ> dom) ms) \<le> max_nodes limits"
      "\<forall>m \<in> set ms. Suc (length rest) + node_height (dom m) \<le> max_depth limits" for ms st' n rest es'
    using that
  proof (induction ms arbitrary: st' n)
    case (Cons m ms)
    have r: "readable m" and f: "fits limits (dom m) (st'\<lparr>ds_stack := n # rest\<rparr>)"
      using Cons.prems Element.prems by (auto simp: list_all_iff fits_def)
    have "m \<in> set kids" using Cons.prems by simp
    from Element.IH[OF this r f] Cons.IH[of "st'\<lparr>ds_nodes := ds_nodes st' + node_count (dom m)\<rparr>" "add_child (dom m) n"] Cons.prems
    show ?case by (simp add: close_element_def add_children_def add.assoc)
  qed (simp add: add_children_def)
  have ok: "simple_name name" "attributes_ok attributes" using Element.prems by simp_all
  have count: "node_count (dom (Element name attributes kids content)) = Suc (sum_list (map (node_count \<circ> dom) kids))"
    by (simp add: comp_def)
  have height: "Suc (length (ds_stack st)) + node_height (dom m) \<le> max_depth limits" if "m \<in> set kids" for m
  proof -
    have "x \<le> foldr max xs 0" if "x \<in> set xs" for x :: nat and xs using that by (induction xs) auto
    from this[of "node_height (dom m)" "map node_height (map dom kids)"] that
    show ?thesis using Element.prems(2) by (simp add: fits_def)
  qed
  have open1: "open_element limits name (attribute_events attributes) st = Inr (Node name (btree_collect attributes) [] [])"
    by (rule open_simple[OF ok]) (use Element.prems(2) in \<open>simp_all add: fits_def\<close>)
  let ?st = "st\<lparr>ds_nodes := ds_nodes st + 1\<rparr>"
  have "dom_loop unescape limits (map Inr (events (Element name attributes kids content)) @ es) st =
      dom_loop unescape limits (map Inr (text_events content) @ (map Inr (concat (map events kids)) @ Inr (EndEvent name) # es))
        (?st\<lparr>ds_stack := Node name (btree_collect attributes) [] [] # ds_stack st\<rparr>)"
    by (simp add: open1)
  also have "\<dots> = dom_loop unescape limits (map Inr (concat (map events kids)) @ Inr (EndEvent name) # es)
      (?st\<lparr>ds_stack := ?n # ds_stack st\<rparr>)"
    by (subst dom_loop_text[OF assms]) simp_all
  also have "\<dots> = dom_loop unescape limits (Inr (EndEvent name) # es)
      (?st\<lparr>ds_stack := add_children (map dom kids) ?n # ds_stack st,
           ds_nodes := ds_nodes ?st + sum_list (map (node_count \<circ> dom) kids)\<rparr>)"
    by (rule kids) (use Element.prems(2) height count in \<open>auto simp: fits_def\<close>)
  finally show ?case by (simp add: add_children_Node comp_def)
next
  case (EmptyElement name)
  then have "open_element limits name [] st = Inr (Node name [] [] [])"
    using open_simple[of name "[]" st limits]
    by (simp add: fits_def attribute_events_def attributes_ok_def btree_collect_def)
  then show ?case by simp
qed simp

text \<open>A document: declaration, root element, line ends.\<close>

definition document :: "string \<Rightarrow> markup \<Rightarrow> string" where
  "document encoding m =
     ''<?xml version='' @ quoted ''1.0'' @ '' encoding='' @ quoted encoding @ ''?>'' @ crlf @ render m @ crlf"

lemma write_definition_document:
  "write_definition uuid_text d encoding = document encoding (root_element uuid_text d)"
  by (simp add: write_definition_def document_def)

lemma trim_newline: "trim [CHR 0x0A] = []"
  by code_simp

lemma parse_document:
  assumes "conforming tok" and "decoding unescape" and "readable m"
    and "simple_name (filter (\<lambda>c. c \<noteq> CHR ''-'') encoding)"
    and "length (document encoding m) \<le> max_bytes limits"
    and "node_count (dom m) \<le> max_nodes limits" and "node_height (dom m) \<le> max_depth limits"
  shows "parse_dom (tok []) unescape (document encoding m) limits = Inr (dom m)"
proof -
  have "at_markup (render m @ crlf)" by (rule at_markup_render[OF assms(3)])
  then have "tok [] (document encoding m) =
      Inr Decl # Inr (TextEvent (Inr [CHR 0x0A])) # map Inr (events m) @ [Inr (TextEvent (Inr [CHR 0x0A]))]"
    using conforming_tokens(2)[OF assms(1,4), of "crlf @ render m @ crlf"]
      conforming_tokens(3)[OF assms(1), of "render m @ crlf" "[]"]
      lex_render[OF assms(1,3), of "[]" crlf] conforming_tokens(3)[OF assms(1), of "[]" "[]"]
      conforming_tokens(1)[OF assms(1)]
    by (simp add: document_def at_markup_def)
  moreover have "fits limits (dom m) dom_start" using assms(6,7) by (simp add: fits_def dom_start_def)
  moreover have "unescape [CHR 0x0A] = Inr [CHR 0x0A]" using assms(2) by (simp add: decoding_def)
  ultimately show ?thesis
    using assms(5) dom_loop_events[OF assms(2,3), of limits dom_start]
    by (simp add: parse_dom_def trim_newline dom_start_def close_element_def)
qed

end
