(* ===== verification/Xml_Tokenizer.thy ===== *)
theory Xml_Tokenizer
  imports Xml_Events
begin

text \<open>
  A small XML tokenizer and entity decoder that satisfy the contract of \<open>Xml_Events\<close>: they show that
  the laws are consistent and let documents be read inside the logic. They are no model of code of the
  repository.
\<close>

section \<open>Entities\<close>

definition until :: "char \<Rightarrow> string \<Rightarrow> string" where
  "until c s = takeWhile (\<lambda>x. x \<noteq> c) s"

definition after :: "char \<Rightarrow> string \<Rightarrow> string" where
  "after c s = drop 1 (dropWhile (\<lambda>x. x \<noteq> c) s)"

lemma until_after [simp]:
  "c \<notin> set a \<Longrightarrow> until c (a @ c # r) = a" "c \<notin> set a \<Longrightarrow> after c (a @ c # r) = r"
  by (induction a) (auto simp: until_def after_def)

lemma length_after: "length (after c s) \<le> length s"
  using length_dropWhile_le[of "\<lambda>x. x \<noteq> c" s] by (simp add: after_def)

definition entities :: "(string \<times> string) list" where
  "entities = [(''amp'', ''&''), (''lt'', ''<''), (''gt'', ''>''), (''quot'', [CHR 0x22]), (''apos'', [CHR 0x27])]"

function decode_entities :: "string \<Rightarrow> string + string" where
  "decode_entities [] = Inr []"
| "decode_entities (c # s) =
     (if c \<noteq> CHR ''&'' then bind_ok (decode_entities s) (\<lambda>r. Inr (c # r))
      else (case map_of entities (until (CHR '';'') s) of
              None \<Rightarrow> Inl ''unrecognized entity''
            | Some e \<Rightarrow> bind_ok (decode_entities (after (CHR '';'') s)) (\<lambda>r. Inr (e @ r))))"
  by pat_completeness auto
termination
  by (relation "measure length") (auto simp: less_Suc_eq_le length_after)

lemma decode_entities_plain: "CHR ''&'' \<notin> set s \<Longrightarrow> decode_entities s = Inr s"
  by (induction s) auto

lemma decode_entities_decoding: "decoding decode_entities"
proof -
  have "decode_entities ''&amp;'' = Inr ''&''" "decode_entities ''&lt;'' = Inr ''<''"
    "decode_entities ''&gt;'' = Inr ''>''"
    by code_simp+
  then show ?thesis by (simp add: decoding_def decode_entities_plain)
qed

lemma decode_escaped: "decode_entities (escape_attribute v) = Inr v"
proof (induction v)
  case (Cons c v)
  have "decode_entities (''&'' @ e @ '';'' @ r) = bind_ok (decode_entities r) (\<lambda>s. Inr (t @ s))"
    if "map_of entities e = Some t" for e t r
  proof -
    have "CHR '';'' \<notin> set e" using that by (auto simp: entities_def split: if_splits)
    then show ?thesis using that by simp
  qed
  note e = this
  have "decode_entities (escape_attribute_char c @ r) = bind_ok (decode_entities r) (\<lambda>s. Inr (c # s))" for r
    using e[of "''amp''" "''&''" r] e[of "''lt''" "''<''" r] e[of "''gt''" "''>''" r]
      e[of "''quot''" "[CHR 0x22]" r] e[of "''apos''" "[CHR 0x27]" r]
    by (auto simp: entities_def)
  then show ?case using Cons by (simp add: escape_attribute_chars)
qed (simp add: escape_attribute_chars)

section \<open>Tags\<close>

abbreviation blank :: char where "blank \<equiv> CHR '' ''"

text \<open>\<open> key="value"\<close>, repeated; what follows the last value is skipped.\<close>

function scan_attributes :: "string \<Rightarrow> attribute_event list" where
  "scan_attributes s =
     (if length s \<le> 1 then []
      else
        Inr (until (CHR ''='') (tl s), decode_entities (until (CHR 0x22) (after (CHR 0x22) s)))
        # scan_attributes (after (CHR 0x22) (after (CHR 0x22) (tl s))))"
  by pat_completeness auto
termination
proof (relation "measure length", goal_cases)
  case (2 s)
  have "length (after (CHR 0x22) (after (CHR 0x22) (tl s))) \<le> length (tl s)"
    using length_after le_trans by metis
  with 2 show ?case by (cases s) auto
qed simp

declare scan_attributes.simps [simp del]

fun normalize_eol :: "string \<Rightarrow> string" where
  "normalize_eol [] = []"
| "normalize_eol (c # s) =
     (if c = CHR 0x0D then
        (case s of
           [] \<Rightarrow> [CHR 0x0A]
         | d # r \<Rightarrow> if d = CHR 0x0A then CHR 0x0A # normalize_eol r else CHR 0x0A # normalize_eol (d # r))
      else c # normalize_eol s)"

definition text_char :: "char \<Rightarrow> bool" where
  "text_char c \<longleftrightarrow> c \<noteq> CHR ''<'' \<and> c \<noteq> CHR ''&''"

function tokens :: "string list \<Rightarrow> string \<Rightarrow> (string + event) list" where
  "tokens st [] = []"
| "tokens st (c # s) =
     (if c = CHR ''&'' then Inr (GeneralRef (until (CHR '';'') s)) # tokens st (after (CHR '';'') s)
      else if c \<noteq> CHR ''<'' then
        Inr (TextEvent (Inr (normalize_eol (takeWhile text_char (c # s))))) # tokens st (dropWhile text_char s)
      else if starts_with ''?'' s then Inr Decl # tokens st (after (CHR ''>'') s)
      else if starts_with ''/'' s then
        (if st = [] \<or> hd st \<noteq> until (CHR ''>'') (tl s) then [Inl ''mismatched end tag'']
         else Inr (EndEvent (hd st)) # tokens (tl st) (after (CHR ''>'') s))
      else
        let body = until (CHR ''>'') s;
            name = until blank body
        in if ends_with ''/'' body then
             Inr (EmptyEvent name (scan_attributes (dropWhile (\<lambda>x. x \<noteq> blank) (butlast body)))) # tokens st (after (CHR ''>'') s)
           else Inr (StartEvent name (scan_attributes (dropWhile (\<lambda>x. x \<noteq> blank) body)))
             # tokens (name # st) (after (CHR ''>'') s))"
  by pat_completeness auto
termination
  by (relation "measure (\<lambda>(st, s). length s)")
    (auto simp: less_Suc_eq_le length_after length_dropWhile_le)

section \<open>The laws\<close>

lemma escaped_no_quote: "CHR 0x22 \<notin> set (escape_attribute v)" "CHR ''>'' \<notin> set (escape_attribute v)"
  by (auto simp: escape_attribute_chars split: if_splits)

lemma name_chars: "simple_name n \<Longrightarrow> c \<in> set n \<Longrightarrow>
    c \<noteq> CHR ''='' \<and> c \<noteq> CHR 0x22 \<and> c \<noteq> CHR ''>'' \<and> c \<noteq> blank \<and> c \<noteq> CHR ''/'' \<and> c \<noteq> CHR ''?'' \<and> c \<noteq> CHR '';'' \<and> c \<noteq> CHR ''<''"
  by (auto simp: simple_name_def list_all_iff is_ascii_alphanumeric_def is_ascii_digit_def
      is_ascii_upper_def is_ascii_lower_def)

lemma scan_one:
  assumes "simple_name k"
  shows "scan_attributes ('' '' @ k @ ''='' @ [CHR 0x22] @ escape_attribute v @ [CHR 0x22] @ r)
    = Inr (k, Inr v) # scan_attributes r"
proof -
  have k: "CHR ''='' \<notin> set k" "CHR 0x22 \<notin> set k" using name_chars[OF assms] by auto
  then have q: "CHR 0x22 \<notin> set (k @ ''='')" "CHR 0x22 \<notin> set ('' '' @ k @ ''='')" by auto
  have "until (CHR ''='') (k @ CHR ''='' # CHR 0x22 # escape_attribute v @ CHR 0x22 # r) = k"
    using k by simp
  moreover have "after (CHR 0x22) (('' '' @ k @ ''='') @ CHR 0x22 # escape_attribute v @ CHR 0x22 # r)
      = escape_attribute v @ CHR 0x22 # r"
    by (rule until_after(2)[OF q(2)])
  moreover have "after (CHR 0x22) ((k @ ''='') @ CHR 0x22 # escape_attribute v @ CHR 0x22 # r)
      = escape_attribute v @ CHR 0x22 # r"
    by (rule until_after(2)[OF q(1)])
  ultimately show ?thesis
    using escaped_no_quote(1)[of v] by (subst scan_attributes.simps) (simp add: decode_escaped)
qed

lemma scan_attributes_text:
  "list_all (\<lambda>(k, v). simple_name k) attributes \<Longrightarrow>
     scan_attributes (attributes_text attributes) = attribute_events attributes"
proof (induction attributes)
  case Nil
  show ?case by (subst scan_attributes.simps) (simp add: attributes_text_def attribute_events_def)
next
  case (Cons a attributes)
  then show ?case using scan_one[of "fst a" "snd a" "attributes_text attributes"]
    by (cases a) (simp add: attributes_text_def attribute_events_def)
qed

lemma attributes_text_chars:
  "list_all (\<lambda>(k, v). simple_name k) attributes \<Longrightarrow> CHR ''>'' \<notin> set (attributes_text attributes)"
  by (induction attributes)
    (auto simp: attributes_text_def escaped_no_quote(2) dest: name_chars[of _ "CHR ''>''"])

lemma attributes_text_cases:
  "attributes_text attributes = [] \<or> hd (attributes_text attributes) = blank \<and> last (attributes_text attributes) = CHR 0x22"
proof (cases attributes rule: rev_cases)
  case (snoc as a)
  then show ?thesis by (cases a; cases as) (auto simp: attributes_text_def split: prod.splits)
qed (simp add: attributes_text_def)

lemma normalize_eol_plain: "CHR 0x0D \<notin> set s \<Longrightarrow> normalize_eol s = s"
  by (induction s) auto

lemma text_chunk:
  assumes "\<forall>c \<in> set s. text_char c" and "s \<noteq> []" and "at_markup rest"
  shows "tokens st (s @ rest) = Inr (TextEvent (Inr (normalize_eol s))) # tokens st rest"
proof -
  obtain c s' where s: "s = c # s'" using assms(2) by (cases s) auto
  have "takeWhile text_char rest = []" "dropWhile text_char rest = rest"
    using assms(3) by (cases rest; auto simp: at_markup_def text_char_def)+
  then have "takeWhile text_char (c # s' @ rest) = s" "dropWhile text_char (s' @ rest) = rest"
    using assms(1) by (simp_all add: s takeWhile_append2 dropWhile_append2)
  moreover have "c \<noteq> CHR ''&''" "c \<noteq> CHR ''<''" using assms(1) by (auto simp: s text_char_def)
  ultimately show ?thesis by (simp add: s)
qed

lemma name_start: "simple_name n \<Longrightarrow> \<not> starts_with ''?'' (n @ r) \<and> \<not> starts_with ''/'' (n @ r)"
  by (cases n) (auto simp: starts_with_def simple_name_def is_ascii_alphanumeric_def is_ascii_digit_def
      is_ascii_upper_def is_ascii_lower_def)

lemma tokens_start:
  assumes "simple_name name" and "attributes_ok attributes"
  shows "tokens st (''<'' @ name @ attributes_text attributes @ ''>'' @ rest)
    = Inr (StartEvent name (attribute_events attributes)) # tokens (name # st) rest"
proof -
  let ?a = "attributes_text attributes"
  have keys: "list_all (\<lambda>(k, v). simple_name k) attributes"
    using assms(2) by (auto simp: attributes_ok_def list_all_iff)
  have gt: "CHR ''>'' \<notin> set (name @ ?a)"
    using name_chars[OF assms(1)] attributes_text_chars[OF keys] by auto
  have body: "until (CHR ''>'') ((name @ ?a) @ CHR ''>'' # rest) = name @ ?a"
    "after (CHR ''>'') ((name @ ?a) @ CHR ''>'' # rest) = rest"
    using until_after[OF gt] by blast+
  have nb: "\<forall>x \<in> set name. x \<noteq> blank" using name_chars[OF assms(1)] by auto
  have "takeWhile (\<lambda>x. x \<noteq> blank) ?a = []" "dropWhile (\<lambda>x. x \<noteq> blank) ?a = ?a"
    using attributes_text_cases[of attributes] by (cases ?a; auto)+
  then have split: "until blank (name @ ?a) = name" "dropWhile (\<lambda>x. x \<noteq> blank) (name @ ?a) = ?a"
    using nb by (simp_all add: until_def takeWhile_append2 dropWhile_append2)
  have "last (name @ ?a) \<noteq> CHR ''/''"
    using attributes_text_cases[of attributes] name_chars[OF assms(1), of "last name"] assms(1)
    by (auto simp: simple_name_def last_append)
  then have "\<not> ends_with ''/'' (name @ ?a)" by (simp add: ends_with_char)
  then show ?thesis
    using name_start[OF assms(1), of "?a @ CHR ''>'' # rest"] body split scan_attributes_text[OF keys]
    by (simp add: Let_def)
qed

lemma tokens_empty:
  assumes "simple_name name"
  shows "tokens st (''<'' @ name @ '' />'' @ rest) = Inr (EmptyEvent name []) # tokens st rest"
proof -
  have gt: "CHR ''>'' \<notin> set (name @ '' /'')" using name_chars[OF assms] by auto
  have body: "until (CHR ''>'') ((name @ '' /'') @ CHR ''>'' # rest) = name @ '' /''"
    "after (CHR ''>'') ((name @ '' /'') @ CHR ''>'' # rest) = rest"
    using until_after[OF gt] by blast+
  have nb: "\<forall>x \<in> set name. x \<noteq> blank" using name_chars[OF assms] by auto
  then have "until blank (name @ '' /'') = name" "dropWhile (\<lambda>x. x \<noteq> blank) (butlast (name @ '' /'')) = '' ''"
    by (simp_all add: until_def takeWhile_append2 dropWhile_append2 butlast_append)
  moreover have "ends_with ''/'' (name @ '' /'')" by (simp add: ends_with_char)
  moreover have "scan_attributes '' '' = []" by (subst scan_attributes.simps) simp
  ultimately show ?thesis
    using name_start[OF assms, of "'' /'' @ CHR ''>'' # rest"] body by (simp add: Let_def)
qed

lemma tokens_conforming: "conforming tokens"
proof -
  have decl: "tokens [] (''<?xml version='' @ quoted ''1.0'' @ '' encoding='' @ quoted encoding @ ''?>'' @ rest)
      = Inr Decl # tokens [] rest"
    if "simple_name (filter (\<lambda>c. c \<noteq> CHR ''-'') encoding)" for encoding rest
  proof -
    have "c \<noteq> CHR ''>''" if "c \<in> set encoding" for c
      using name_chars[OF \<open>simple_name _\<close>, of c] that by (cases "c = CHR ''-''") auto
    then have "CHR ''>'' \<notin> set (''?xml version='' @ quoted ''1.0'' @ '' encoding='' @ quoted encoding @ ''?'')"
      by (auto simp: quoted_def)
    from until_after(2)[OF this, of rest] show ?thesis by (simp add: starts_with_def)
  qed
  have "tokens st (crlf @ rest) = Inr (TextEvent (Inr [CHR 0x0A])) # tokens st rest"
    if "at_markup rest" for st rest
    using text_chunk[of crlf rest st] that by (simp add: crlf_def text_char_def)
  moreover have "tokens (name # st) (''</'' @ name @ ''>'' @ rest) = Inr (EndEvent name) # tokens st rest"
    if "simple_name name" for st name rest
  proof -
    have "CHR ''>'' \<notin> set name" "CHR ''>'' \<notin> set (CHR ''/'' # name)"
      using name_chars[OF that, of "CHR ''>''"] by auto
    then show ?thesis
      using until_after(1)[of "CHR ''>''" name rest] until_after(2)[of "CHR ''>''" "CHR ''/'' # name" rest]
      by (simp add: starts_with_def)
  qed
  moreover have "tokens st (''&'' @ name @ '';'' @ rest) = Inr (GeneralRef name) # tokens st rest"
    if "simple_name name" for st name rest
  proof -
    have "CHR '';'' \<notin> set name" using name_chars[OF that, of "CHR '';''"] by auto
    then show ?thesis by simp
  qed
  moreover have "tokens st (s @ rest) = Inr (TextEvent (Inr s)) # tokens st rest"
    if "s \<noteq> []" "text_ok s" "CHR ''<'' \<notin> set s" "CHR ''&'' \<notin> set s" "at_markup rest" for st s rest
  proof -
    have "\<forall>c \<in> set s. text_char c" using that by (auto simp: text_char_def)
    then show ?thesis using text_chunk[of s rest st] that by (simp add: normalize_eol_plain text_ok_def)
  qed
  ultimately show ?thesis
    using decl tokens_start tokens_empty unfolding conforming_def by simp
qed

end
