(* ===== verification/Xml.thy ===== *)
theory Xml
  imports Xml_Tokenizer
begin

text \<open>
  Task XML as bytes (\<open>to_string\<close>, \<open>to_utf16le\<close>, \<open>from_bytes\<close> of \<open>xml.rs\<close>): encoding, parsing and the
  typed reader composed, and the properties of the whole.
\<close>

section \<open>Native bytes\<close>

definition to_utf16le :: "(uuid \<Rightarrow> string) \<Rightarrow> task_definition \<Rightarrow> string result" where
  "to_utf16le uuid_text d =
     bind_ok (encoded_string uuid_text d ''UTF-16'') (\<lambda>source.
       Inr (le_bom @ concat (map to_le_bytes (encode_utf16 source))))"

lemma code_units_le: "code_units True (concat (map to_le_bytes us)) = us"
proof (induction us)
  case (Cons u us)
  then show ?case using le_bytes[of u] by (simp add: to_le_bytes_def)
qed simp

lemma even_le: "even (length (concat (map to_le_bytes us)))"
  by (induction us) (auto simp: to_le_bytes_def)

lemma decode_le_source:
  assumes "valid_str s"
  shows "decode_utf16 (concat (map to_le_bytes (encode_utf16 s))) True = Inr s"
  using assms even_le[of "encode_utf16 s"]
  by (simp add: decode_utf16_def code_units_le decode_encode_utf16 valid_str_chars)

lemma decode_xml_le:
  assumes "valid_str s" and "length (le_bom @ concat (map to_le_bytes (encode_utf16 s))) \<le> n"
  shows "decode_xml (le_bom @ concat (map to_le_bytes (encode_utf16 s))) n = Inr (Utf16LittleEndian, s)"
  using assms decode_le_source[OF assms(1)] by (simp add: decode_xml_def le_bom_def starts_with_def)

lemma decode_xml_utf8:
  assumes "valid_str s" and "s \<noteq> []" and "hd s = CHR ''<''" and "length s \<le> n"
  shows "decode_xml s n = Inr (Utf8, s)"
proof -
  obtain r where s: "s = CHR ''<'' # r" using assms(2,3) by (cases s) auto
  then have "\<not> starts_with le_bom s" "\<not> starts_with be_bom s" "strip_prefix utf8_bom s = None"
    by (simp_all add: le_bom_def be_bom_def utf8_bom_def starts_with_def strip_prefix_def)
  moreover obtain cs where "from_utf8 s = Inr cs" using assms(1) by (auto simp: valid_str_def is_ok_iff)
  ultimately show ?thesis using assms(4) by (simp add: decode_xml_def)
qed

section \<open>The shape of a canonical document\<close>

text \<open>Plain names, at most \<open>k\<close> levels.\<close>

fun shaped :: "nat \<Rightarrow> markup \<Rightarrow> bool" where
  "shaped k (Element name attributes kids content) \<longleftrightarrow>
     0 < k \<and> simple_name name \<and> list_all (\<lambda>(key, v). simple_name key) attributes
     \<and> distinct (map fst attributes) \<and> list_all (shaped (k - 1)) kids"
| "shaped k (EmptyElement name) \<longleftrightarrow> 0 < k \<and> simple_name name"
| "shaped k (Raw s) \<longleftrightarrow> False"

text \<open>Texts and attribute values that the normalization of XML leaves alone.\<close>

fun texts_ok :: "markup \<Rightarrow> bool" where
  "texts_ok (Element name attributes kids content) \<longleftrightarrow>
     list_all (\<lambda>(key, v). value_ok v) attributes \<and> text_ok content \<and> list_all texts_ok kids"
| "texts_ok (EmptyElement name) \<longleftrightarrow> True"
| "texts_ok (Raw s) \<longleftrightarrow> True"

lemma shaped_readable: "shaped k m \<Longrightarrow> texts_ok m \<Longrightarrow> readable m"
proof (induction k m rule: shaped.induct)
  case (1 k name attributes kids content)
  then have "list_all readable kids" by (auto simp: list_all_iff)
  moreover have "attributes_ok attributes" using 1(2,3) by (auto simp: attributes_ok_def list_all_iff)
  ultimately show ?case using 1(2,3) by simp
qed simp_all

lemma foldr_max_le: "foldr max xs 0 \<le> (k :: nat) \<longleftrightarrow> list_all (\<lambda>x. x \<le> k) xs"
  by (induction xs) auto

lemma shaped_height: "shaped k m \<Longrightarrow> node_height (dom m) \<le> k"
proof (induction k m rule: shaped.induct)
  case (1 k name attributes kids content)
  then have "list_all (\<lambda>m. node_height (dom m) \<le> k - 1) kids" by (auto simp: list_all_iff)
  then have "foldr max (map node_height (map dom kids)) 0 \<le> k - 1"
    by (simp add: foldr_max_le list_all_iff)
  moreover have "0 < k" using 1(2) by simp
  ultimately show ?case by simp
qed simp_all

lemma shaped_element [simp]:
  "shaped k (element name content) \<longleftrightarrow> 0 < k \<and> simple_name name"
  "shaped k (empty_element name) \<longleftrightarrow> 0 < k \<and> simple_name name"
  "shaped k (bool_element name b) \<longleftrightarrow> 0 < k \<and> simple_name name"
  "shaped k (container name kids attributes content) \<longleftrightarrow>
     0 < k \<and> simple_name name \<and> list_all (\<lambda>(key, v). simple_name key) attributes
     \<and> distinct (map fst attributes) \<and> list_all (shaped (k - 1)) kids"
  "shaped k (container_with_id name kids i) \<longleftrightarrow>
     0 < k \<and> simple_name name \<and> (i \<noteq> None \<longrightarrow> simple_name ''id'') \<and> list_all (shaped (k - 1)) kids"
  by (auto simp: element_def empty_element_def bool_element_def container_def container_with_id_def
      split: option.splits)

lemma shaped_optional [simp]:
  "0 < k \<Longrightarrow> simple_name name \<Longrightarrow> list_all (shaped k) (optional_element name v)"
  "0 < k \<Longrightarrow> simple_name name \<Longrightarrow> list_all (shaped k) (duration_element name d)"
  by (simp_all add: optional_element_def duration_element_def split: option.splits)

lemmas names = simple_name_def is_ascii_alphanumeric_def is_ascii_upper_def is_ascii_lower_def

lemma shaped_repetition [simp]: "4 \<le> k \<Longrightarrow> list_all (shaped k) (repetition_elements rep)"
  by (simp add: repetition_elements_def names split: option.splits)

lemma shaped_common [simp]: "4 \<le> k \<Longrightarrow> list_all (shaped k) (trigger_common_elements c)"
  by (simp add: trigger_common_elements_def names)

lemma shaped_map [simp]: "(\<And>x. x \<in> set xs \<Longrightarrow> shaped k (f x)) \<Longrightarrow> list_all (shaped k) (map f xs)"
  by (simp add: list_all_iff)

lemma weekday_names [simp]: "simple_name (weekday_text d)"
  by (cases d) (simp_all add: names)

lemma month_names [simp]: "simple_name (month_text m)"
  by (cases m) (simp_all add: names)

lemma shaped_lists [simp]:
  "2 \<le> k \<Longrightarrow> shaped k (write_weekdays ds)" "2 \<le> k \<Longrightarrow> shaped k (write_months ms)"
  "2 \<le> k \<Longrightarrow> shaped k (days_markup days)" "2 \<le> k \<Longrightarrow> shaped k (weeks_markup ws)"
  by (simp_all add: write_weekdays_def write_months_def days_markup_def weeks_markup_def)
    (simp_all add: names)

lemma shaped_event: "list_all (shaped 4) (event_elements t)"
  by (auto simp: event_elements_def list_all_iff[of "shaped _" "map _ _"]) (simp_all add: names)

lemma shaped_simple_trigger [simp]:
  "shaped 5 (write_simple_trigger name c specific) \<longleftrightarrow> simple_name name \<and> list_all (shaped 4) specific"
  by (auto simp: write_simple_trigger_def names)

lemma shaped_calendar_trigger [simp]:
  "shaped 5 (write_calendar_trigger c schedule d) \<longleftrightarrow> shaped 4 schedule"
  by (auto simp: write_calendar_trigger_def names)

lemma shaped_trigger: "trigger_wf civil t \<Longrightarrow> shaped 5 (write_trigger t)"
  by (cases t) (simp_all add: shaped_event flip: days_markup_def weeks_markup_def,
      simp_all add: names trigger_wf_def)

lemma shaped_header [simp]: "2 \<le> k \<Longrightarrow> shaped k (write_header h)"
  by (simp add: write_header_def names)

lemma shaped_action: "known_action a \<Longrightarrow> shaped 5 (write_action uuid_text a)"
  by (cases a) (simp_all add: write_exec_def write_com_def write_email_def write_message_def
      known_action_def, simp_all add: names)

lemma shaped_identity [simp]: "0 < k \<Longrightarrow> list_all (shaped k) (identity_elements i)"
  by (cases i) (simp_all add: names)

lemma shaped_principal: "shaped 6 (write_principal p)"
  by (simp add: write_principal_def) (simp add: names)

lemma shaped_settings: "list_all (shaped 5) (settings_elements d)"
  by (simp add: settings_elements_def Let_def restart_elements_def idle_elements_def
      network_elements_def maintenance_elements_def names split: option.splits)

lemma shaped_registration: "list_all (shaped 5) (registration_elements r)"
  by (simp add: registration_elements_def names)

lemma shaped_root:
  assumes "writable civil d"
  shows "shaped 7 (root_element uuid_text d)"
proof -
  have e: "td_extensions d = []" using assms by (simp add: writable_def)
  have ts: "shaped 5 (write_trigger t)" if "t \<in> set (triggers_slice (td_triggers d))" for t
    using assms that shaped_trigger[of civil t] by (simp add: writable_def list_all_iff)
  have as: "shaped 5 (write_action uuid_text a)" if "a \<in> set (actions_slice (td_actions d))" for a
    using assms that by (simp add: writable_def list_all_iff shaped_action)
  have parts: "shaped 6 (write_registration d)" "shaped 6 (write_settings d)"
    using shaped_registration shaped_settings
    by (simp_all add: write_registration_def write_settings_def e merge_extensions_Nil names)
  have "list_all (shaped 6) (root_children uuid_text d)"
    using ts as by (simp add: root_children_def parts shaped_principal write_actions_def names)
  then show ?thesis
    using e by (simp add: root_element_def merge_extensions_Nil plain_root_children[OF assms] names)
qed

section \<open>Properties\<close>

definition env_ok :: "xml_env \<Rightarrow> lexer \<Rightarrow> (uuid \<Rightarrow> string) \<Rightarrow> bool" where
  "env_ok env tok uuid_text \<longleftrightarrow>
     env_reader env = tok [] \<and> conforming tok \<and> decoding (env_unescape env)
     \<and> (\<forall>u. env_uuid env (uuid_text u) = Inr u)"

text \<open>A document within the default limits of the reader.\<close>

definition within_limits :: "(uuid \<Rightarrow> string) \<Rightarrow> task_definition \<Rightarrow> string \<Rightarrow> bool" where
  "within_limits uuid_text d source \<longleftrightarrow>
     valid_str source \<and> length source \<le> DEFAULT_MAX_BYTES
     \<and> node_count (root_node uuid_text d) \<le> DEFAULT_MAX_NODES"

lemma read_document:
  assumes "env_ok env tok uuid_text" and "writable (env_civil env) d" and "texts_ok (root_element uuid_text d)"
    and "simple_name (filter (\<lambda>c. c \<noteq> CHR ''-'') encoding)"
    and "within_limits uuid_text d (write_definition uuid_text d encoding)"
    and "decode_xml bytes DEFAULT_MAX_BYTES = Inr (e, write_definition uuid_text d encoding)"
    and "decode_xml bytes usize_max = Inr (e, write_definition uuid_text d encoding)"
  shows "from_bytes env bytes = Inr d"
proof -
  let ?m = "root_element uuid_text d" and ?s = "write_definition uuid_text d encoding"
  have shape: "shaped 7 ?m" by (rule shaped_root[OF assms(2)])
  have readable: "readable ?m" by (rule shaped_readable[OF shape assms(3)])
  have "node_height (dom ?m) \<le> max_depth default_limits"
    using shaped_height[OF shape] by (simp add: default_limits_def DEFAULT_MAX_DEPTH_def)
  then have parsed: "parse_dom (env_reader env) (env_unescape env) ?s default_limits = Inr (dom ?m)"
    using assms(1,4,5) parse_document[OF _ _ readable, of tok "env_unescape env" encoding default_limits]
    by (simp add: env_ok_def within_limits_def write_definition_document default_limits_def dom_root[OF assms(2)])
  have "raw_new (env_reader env) (env_unescape env) bytes = Inr \<lparr>raw_bytes = bytes, raw_encoding = e\<rparr>"
    using assms(6) parsed by (simp add: raw_new_def raw_with_limits_def) (simp add: default_limits_def)
  moreover have "raw_decoded \<lparr>raw_bytes = bytes, raw_encoding = e\<rparr> = Inr ?s"
    using assms(7) by (simp add: raw_decoded_def)
  moreover have "definition_from_node (env_civil env) (env_uuid env) (dom ?m) = Inr d"
    using assms(1) by (intro read_definition[OF assms(2)]) (simp add: env_ok_def)
  ultimately show ?thesis using parsed by (simp add: from_bytes_def raw_definition_def)
qed

lemma encoded_string_ok:
  "encoded_string uuid_text d encoding = Inr source \<Longrightarrow> source = write_definition uuid_text d encoding"
  by (auto simp: encoded_string_def Let_def split: if_splits)

lemma write_definition_start: "hd (write_definition uuid_text d encoding) = CHR ''<'' \<and> write_definition uuid_text d encoding \<noteq> []"
  by (simp add: write_definition_def)

text \<open>C19. On the definitions that the writer renders without loss, reading is the inverse of writing: if a definition is
  \<open>writable\<close>, its texts pass XML's normalization unchanged, the lexer conforms to XML and reads printed
  GUIDs, and the UTF-8 document that the canonical writer makes of it stays within the reader's byte and node limits,
  then \<open>from_bytes\<close> gives back exactly that definition. \<open>writable\<close>: no opaque fragment, only
  known actions and triggers, at most 32 and 48 of them; each part in the normal form its own parser gives back
  (date-times, descriptors, privileges, users, schema version, durations; finite limits other than zero; sets and maps
  ascending); a logon type that fits the identity (left out only without identity or for a user, group only for a
  group, service account only for a service account); no unified engine in version 1.2. Texts unchanged: no carriage
  return, and in attributes no tab or line feed either. A definition outside this set can pass validation and still
  read back differently: a finite limit of zero reads back as no limit, a \<open>User\<close> named
  \<open>SYSTEM\<close> as the service account.\<close>

theorem xml_round_trip_utf8:
  assumes "env_ok env tok uuid_text" and "writable (env_civil env) d" and "texts_ok (root_element uuid_text d)"
    and "to_xml_string uuid_text d = Inr source" and "within_limits uuid_text d source"
  shows "from_bytes env source = Inr d"
proof -
  have s: "source = write_definition uuid_text d ''UTF-8''"
    using assms(4) encoded_string_ok by (simp add: to_xml_string_def)
  have v: "valid_str source" "length source \<le> DEFAULT_MAX_BYTES" "length source \<le> usize_max"
    using assms(5) by (simp_all add: within_limits_def DEFAULT_MAX_BYTES_def usize_max_def)
  show ?thesis
  proof (rule read_document[OF assms(1-3), where encoding = "''UTF-8''"])
    show "simple_name (filter (\<lambda>c. c \<noteq> CHR ''-'') ''UTF-8'')" by (simp add: names is_ascii_digit_def)
    show "within_limits uuid_text d (write_definition uuid_text d ''UTF-8'')" using assms(5) by (simp add: s)
    show "decode_xml source DEFAULT_MAX_BYTES = Inr (Utf8, write_definition uuid_text d ''UTF-8'')"
      using decode_xml_utf8[OF v(1) _ _ v(2)] write_definition_start by (simp add: s)
    show "decode_xml source usize_max = Inr (Utf8, write_definition uuid_text d ''UTF-8'')"
      using decode_xml_utf8[OF v(1) _ _ v(3)] write_definition_start by (simp add: s)
  qed
qed

text \<open>The same for the UTF-16 bytes handed to native registration: byte order mark, surrogate
  pairs and the declared encoding included.\<close>

theorem xml_round_trip_utf16:
  assumes "env_ok env tok uuid_text" and "writable (env_civil env) d" and "texts_ok (root_element uuid_text d)"
    and "to_utf16le uuid_text d = Inr bytes" and "length bytes \<le> DEFAULT_MAX_BYTES"
    and "within_limits uuid_text d (write_definition uuid_text d ''UTF-16'')"
  shows "from_bytes env bytes = Inr d"
proof -
  let ?s = "write_definition uuid_text d ''UTF-16''"
  have b: "bytes = le_bom @ concat (map to_le_bytes (encode_utf16 ?s))"
    using assms(4) by (auto simp: to_utf16le_def ok_iff dest: encoded_string_ok)
  have v: "valid_str ?s" "length bytes \<le> usize_max"
    using assms(5,6) by (simp_all add: within_limits_def DEFAULT_MAX_BYTES_def usize_max_def)
  show ?thesis
  proof (rule read_document[OF assms(1-3) _ assms(6)])
    show "simple_name (filter (\<lambda>c. c \<noteq> CHR ''-'') ''UTF-16'')" by (simp add: names is_ascii_digit_def)
    show "decode_xml bytes DEFAULT_MAX_BYTES = Inr (Utf16LittleEndian, ?s)"
      using decode_xml_le[OF v(1)] assms(5) by (simp add: b)
    show "decode_xml bytes usize_max = Inr (Utf16LittleEndian, ?s)"
      using decode_xml_le[OF v(1)] v(2) by (simp add: b)
  qed
qed

lemma find_declaration_end: "CHR ''?'' \<notin> set h \<Longrightarrow> find_str ''?>'' (h @ ''?>'' @ r) = Some (length h)"
  by (induction h) (auto simp: starts_with_def)

lemma without_declaration_cut: "CHR ''?'' \<notin> set h \<Longrightarrow> without_declaration (''<?xml'' @ h @ ''?>'' @ r) = r"
  using find_declaration_end[of h r] by (simp add: without_declaration_def strip_prefix_def)

text \<open>The text handed to the COM interface is the document without its declaration: whatever the
  definition contains, removing the declaration from the written document leaves exactly the line end,
  the root element and the final line end.\<close>

theorem without_declaration_written:
  assumes "encoding = ''UTF-8'' \<or> encoding = ''UTF-16''"
  shows "without_declaration (write_definition uuid_text d encoding)
    = crlf @ render (root_element uuid_text d) @ crlf"
proof -
  let ?h = "'' version='' @ quoted ''1.0'' @ '' encoding='' @ quoted encoding"
  have "write_definition uuid_text d encoding = ''<?xml'' @ ?h @ ''?>'' @ crlf @ render (root_element uuid_text d) @ crlf"
    by (simp add: write_definition_def)
  moreover have "CHR ''?'' \<notin> set ?h" using assms by (auto simp: quoted_def)
  ultimately show ?thesis using without_declaration_cut by (simp only:)
qed

text \<open>A snapshot is lossless: it keeps the bytes it was made from, and its typed view is what
  \<open>from_bytes\<close> would answer, be it a definition or an error.\<close>

theorem snapshot_lossless:
  assumes "snapshot_parse env bytes = Inr s"
  shows "raw_bytes (snap_raw s) = bytes \<and> snap_typed s = from_bytes env bytes"
  using assms by (auto simp: snapshot_parse_def from_bytes_def raw_new_def raw_with_limits_def ok_iff)

section \<open>A concrete document\<close>

text \<open>A check for plain ASCII documents.\<close>

definition ascii :: "string \<Rightarrow> bool" where
  "ascii s \<longleftrightarrow> list_all (\<lambda>c. \<not> digit7 c) s"

fun ascii_texts :: "markup \<Rightarrow> bool" where
  "ascii_texts (Element name attributes kids content) \<longleftrightarrow>
     list_all (\<lambda>(key, v). ascii v) attributes \<and> ascii content \<and> list_all ascii_texts kids"
| "ascii_texts (EmptyElement name) \<longleftrightarrow> True"
| "ascii_texts (Raw s) \<longleftrightarrow> False"

lemma ascii_code: "\<not> digit7 c \<longleftrightarrow> (of_char c :: nat) < 128"
  by (cases c) (auto simp: of_char_def split: if_splits)

lemma ascii_append [simp]: "ascii (s @ t) \<longleftrightarrow> ascii s \<and> ascii t" "ascii (c # s) \<longleftrightarrow> \<not> digit7 c \<and> ascii s" "ascii []"
  by (simp_all add: ascii_def)

lemma ascii_concat: "(\<And>x. x \<in> set xs \<Longrightarrow> ascii (f x)) \<Longrightarrow> ascii (concat (map f xs))"
  by (induction xs) auto

lemma ascii_valid: "ascii s \<Longrightarrow> valid_str s"
  using ascii_utf8[of s 0]
  by (auto simp: ascii_def ascii_code list_all_iff valid_str_def from_utf8_def bytes_of_def is_ok_iff)

lemma ascii_name: "simple_name n \<Longrightarrow> ascii n"
  using alphanumeric_ascii by (auto simp: simple_name_def ascii_def ascii_code list_all_iff)

lemma ascii_escape: "ascii s \<Longrightarrow> ascii (escape_text s)" "ascii s \<Longrightarrow> ascii (escape_attribute s)"
  by (auto simp: escape_text_chars escape_attribute_chars ascii_def list_all_iff split: if_splits)

lemma ascii_render: "shaped k m \<Longrightarrow> ascii_texts m \<Longrightarrow> ascii (render m)"
proof (induction k m rule: shaped.induct)
  case (1 k name attributes kids content)
  have "simple_name key \<and> ascii v" if "(key, v) \<in> set attributes" for key v
    using 1(2,3) that by (auto simp: list_all_iff)
  then have "ascii (attributes_text attributes)"
    unfolding attributes_text_def by (intro ascii_concat) (auto simp: ascii_name ascii_escape)
  moreover have "ascii (concat (map render kids))"
    using 1 by (intro ascii_concat) (auto simp: list_all_iff)
  ultimately show ?case using 1(2,3) by (simp add: ascii_name ascii_escape)
qed (simp_all add: ascii_name)

definition sample_env :: xml_env where
  "sample_env = \<lparr>env_reader = tokens [], env_unescape = decode_entities, env_civil = (\<lambda>s. Inr ()),
     env_uuid = (\<lambda>s. ok_or ''invalid'' (map_option of_nat (parse_uint 128 s)))\<rparr>"

definition sample_uuid :: "uuid \<Rightarrow> string" where
  "sample_uuid u = show_nat (unat u)"

lemma sample_env_ok: "env_ok sample_env tokens sample_uuid"
proof -
  have "unat u < 2 ^ LENGTH(128)" for u :: uuid by (rule unsigned_less)
  then show ?thesis
    by (simp add: env_ok_def sample_env_def sample_uuid_def tokens_conforming decode_entities_decoding)
qed

definition sample_task :: task_definition where
  "sample_task = (definition_new (Exec (exec_new ''a & b'')))
     \<lparr>td_principal := principal_service_account LocalService,
      td_registration := registration_default\<lparr>ri_description := Some ''x < y''\<rparr>,
      td_triggers := Triggers [Weekly (weekly_new \<lparr>dt_text = ''2024-01-01T00:00:00'', dt_basis = LocalWallClock\<rparr>
        [Friday, Monday])]\<rparr>"

lemma sample_writable: "writable (env_civil sample_env) sample_task"
  by code_simp

lemma sample_texts: "texts_ok (root_element sample_uuid sample_task)"
  by code_simp

lemma sample_ascii: "ascii_texts (root_element sample_uuid sample_task)"
  by code_simp

lemma sample_length:
  "length (write_definition sample_uuid sample_task ''UTF-8'') \<le> 3000"
  "length (write_definition sample_uuid sample_task ''UTF-16'') \<le> 3000"
  by code_simp+

lemma sample_valid_encoding:
  assumes "ascii encoding"
  shows "ascii (write_definition sample_uuid sample_task encoding)"
proof -
  have "ascii (render (root_element sample_uuid sample_task))"
    by (rule ascii_render[OF shaped_root[OF sample_writable] sample_ascii])
  then show ?thesis using assms by (simp add: write_definition_def quoted_def crlf_def)
qed

lemma sample_nodes: "node_count (root_node sample_uuid sample_task) \<le> 1000"
  by code_simp

lemma sample_limits:
  assumes "ascii encoding" and "length (write_definition sample_uuid sample_task encoding) \<le> 3000"
  shows "within_limits sample_uuid sample_task (write_definition sample_uuid sample_task encoding)"
  using assms sample_valid_encoding[OF assms(1)] sample_nodes
  by (simp add: within_limits_def ascii_valid DEFAULT_MAX_BYTES_def DEFAULT_MAX_NODES_def)

lemma sample_report: "report_is_valid (validate_definition sample_task)"
  by code_simp

lemma xml_round_trip_utf8_witness:
  "from_bytes sample_env (write_definition sample_uuid sample_task ''UTF-8'') = Inr sample_task"
  by (rule xml_round_trip_utf8[OF sample_env_ok sample_writable sample_texts])
    (simp_all add: to_xml_string_def encoded_string_def sample_report sample_limits sample_length)

lemma without_declaration_written_witness:
  "without_declaration (write_definition sample_uuid sample_task ''UTF-16'')
    = crlf @ render (root_element sample_uuid sample_task) @ crlf"
  by (rule without_declaration_written) simp

lemma snapshot_lossless_witness:
  "snap_typed \<lparr>snap_raw = \<lparr>raw_bytes = ''<Other></Other>'', raw_encoding = Utf8\<rparr>,
     snap_typed = Inl (xml_error [Lit ''expected Task root, found '', Dsp ''Other''])\<rparr>
   = from_bytes sample_env ''<Other></Other>''"
proof -
  have "snapshot_parse sample_env ''<Other></Other>'' = Inr
    \<lparr>snap_raw = \<lparr>raw_bytes = ''<Other></Other>'', raw_encoding = Utf8\<rparr>,
     snap_typed = Inl (xml_error [Lit ''expected Task root, found '', Dsp ''Other''])\<rparr>"
    by code_simp
  from snapshot_lossless[OF this] show ?thesis by simp
qed

lemma length_le_units: "length (concat (map to_le_bytes us)) = 2 * length us"
  by (induction us) (simp_all add: to_le_bytes_def)

lemma length_string_of: "length cs \<le> length (string_of cs)"
proof (induction cs)
  case (Cons c cs)
  then show ?case by (simp add: string_of_def utf8_encode_def)
qed simp

lemma length_encode_utf16: "valid_str s \<Longrightarrow> length (encode_utf16 s) \<le> 2 * length s"
proof -
  assume v: "valid_str s"
  have "length (concat (map encode_unit cs)) \<le> 2 * length cs" for cs
    by (induction cs) (simp_all add: encode_unit_def)
  from this[of "chars_of s"] length_string_of[of "chars_of s"] valid_str_chars[OF v] show ?thesis
    by (simp add: encode_utf16_def)
qed

lemma xml_round_trip_utf16_witness:
  "\<exists>bytes. to_utf16le sample_uuid sample_task = Inr bytes \<and> from_bytes sample_env bytes = Inr sample_task"
proof -
  let ?s = "write_definition sample_uuid sample_task ''UTF-16''"
  let ?b = "le_bom @ concat (map to_le_bytes (encode_utf16 ?s))"
  have a: "ascii ''UTF-16''" by simp
  have b: "to_utf16le sample_uuid sample_task = Inr ?b"
    by (simp add: to_utf16le_def encoded_string_def sample_report)
  have "valid_str ?s" by (rule ascii_valid[OF sample_valid_encoding[OF a]])
  from length_encode_utf16[OF this] sample_length(2) have "length ?b \<le> DEFAULT_MAX_BYTES"
    by (simp add: length_le_units le_bom_def DEFAULT_MAX_BYTES_def)
  from xml_round_trip_utf16[OF sample_env_ok sample_writable sample_texts b this
      sample_limits[OF a sample_length(2)]] b
  show ?thesis by blast
qed

text \<open>The exceptions of \<open>writable\<close> are real: these definitions are valid, yet read back as others.\<close>

definition reread :: "task_definition \<Rightarrow> task_definition result" where
  "reread d = definition_from_node (env_civil sample_env) (env_uuid sample_env) (dom (root_element sample_uuid d))"

definition basic_task :: task_definition where
  "basic_task = definition_new (Exec (exec_new ''run''))"

lemma zero_limit_becomes_unlimited:
  "let d = basic_task\<lparr>td_settings := task_settings_default\<lparr>ts_execution_time_limit := Finite (from_secs 0)\<rparr>\<rparr>
   in report_is_valid (validate_definition d) \<and>
      reread d = Inr (basic_task\<lparr>td_settings := task_settings_default\<lparr>ts_execution_time_limit := Unlimited\<rparr>\<rparr>)"
  by code_simp

lemma user_system_becomes_service:
  "let d = basic_task\<lparr>td_principal := principal_user ''SYSTEM''\<rparr>
   in report_is_valid (validate_definition d) \<and>
      map_err (\<lambda>_. ()) (bind_ok (reread d) (\<lambda>x. Inr (pr_identity (td_principal x)))) = Inr (ServiceAccount LocalSystem)"
  by code_simp

lemma group_logon_none_becomes_group:
  "let d = basic_task\<lparr>td_principal := (principal_group ''g'')\<lparr>pr_logon_type := LogonNone\<rparr>\<rparr>
   in report_is_valid (validate_definition d) \<and>
      map_err (\<lambda>_. ()) (bind_ok (reread d) (\<lambda>x. Inr (pr_logon_type (td_principal x)))) = Inr LogonGroup"
  by code_simp

end
