(* ===== verification/History.thy ===== *)
theory History
  imports Xml_Dom
begin

text \<open>
  Event history (\<open>history.rs\<close>): the events of the Task Scheduler channel and the decoder of their
  rendered XML. The XML reader, the entity decoder, the UUID parser, \<open>jiff::Timestamp::from_str\<close> and the
  range of the platform's \<open>SystemTime\<close> are parameters, gathered in \<open>event_env\<close>. A \<open>SystemTime\<close> is its distance
  from \<open>UNIX_EPOCH\<close> in nanoseconds.
\<close>

section \<open>Data\<close>

type_synonym system_time = int

definition OPERATIONAL_CHANNEL :: string where
  "OPERATIONAL_CHANNEL = ''Microsoft-Windows-TaskScheduler/Operational''"

definition MAX_EVENT_XML_BYTES :: nat where "MAX_EVENT_XML_BYTES = 1024 * 1024"

datatype history_event_kind =
    Registered
  | Deleted
  | LaunchRequested
  | Started
  | ActionStarted
  | ActionCompleted
  | Completed
  | Stopped
  | EventFailed
  | UnknownEvent u32

record history_event =
  he_record_id :: u64
  he_event_id :: u32
  he_kind :: history_event_kind
  he_timestamp :: system_time
  he_task_path :: "task_path option"
  he_instance_id :: "uuid option"
  he_result_code :: "i32 option"
  he_fields :: "(string, string) btree"
  he_message :: "string option"

record history_query =
  hq_task :: "task_path option"
  hq_instance_id :: "uuid option"
  hq_since :: "system_time option"
  hq_limit :: "nat option"
  hq_forward :: bool

definition history_query_default :: history_query where
  "history_query_default =
     \<lparr>hq_task = None, hq_instance_id = None, hq_since = None, hq_limit = None, hq_forward = False\<rparr>"

datatype result_confidence = Exact | PollingFallback

datatype fallback_reason = FallbackHistoryUnavailable | CompletionNotObserved

record run_outcome =
  ro_instance_id :: uuid
  ro_result_code :: i32
  ro_confidence :: result_confidence
  ro_fallback_reason :: "fallback_reason option"

definition event_kind :: "u32 \<Rightarrow> history_event_kind" where
  "event_kind event_id =
     (if event_id \<in> {106, 140} then Registered
      else if event_id = 141 then Deleted
      else if event_id \<in> {107, 110, 118, 119} then LaunchRequested
      else if event_id = 100 then Started
      else if event_id = 200 then ActionStarted
      else if event_id = 201 then ActionCompleted
      else if event_id = 102 then Completed
      else if event_id \<in> {111, 142} then Stopped
      else if event_id \<in> {101, 103, 104, 202, 203, 311} then EventFailed
      else UnknownEvent event_id)"

definition history_xml_error :: "message \<Rightarrow> error" where
  "history_xml_error m = with_operation ''parse Task Scheduler history event'' (new_error Xml m)"

section \<open>Result codes\<close>

text \<open>\<open>from_str_radix\<close> and \<open>from_str\<close> of a signed or unsigned integer type with \<open>w\<close> bits: an optional sign
  (minus only when signed), at least one digit, checked arithmetic from the left.\<close>

definition to_digit :: "nat \<Rightarrow> char \<Rightarrow> nat option" where
  "to_digit radix c =
     (let n = of_char c :: nat;
          d = (if is_ascii_digit c then n - 48
               else if is_ascii_lower c then n - 87
               else if is_ascii_upper c then n - 55
               else radix)
      in if d < radix then Some d else None)"

definition int_fits :: "bool \<Rightarrow> nat \<Rightarrow> int \<Rightarrow> bool" where
  "int_fits is_signed w v \<longleftrightarrow>
     (if is_signed then - (2 ^ (w - 1)) \<le> v \<and> v < 2 ^ (w - 1) else 0 \<le> v \<and> v < 2 ^ w)"

fun radix_loop :: "bool \<Rightarrow> nat \<Rightarrow> nat \<Rightarrow> bool \<Rightarrow> int \<Rightarrow> string \<Rightarrow> string + int" where
  "radix_loop is_signed w radix positive acc [] = Inr acc"
| "radix_loop is_signed w radix positive acc (c # cs) =
     (case to_digit radix c of
        None \<Rightarrow> Inl ''invalid digit found in string''
      | Some d \<Rightarrow>
          let shifted = acc * int radix;
              next_acc = (if positive then shifted + int d else shifted - int d)
          in if int_fits is_signed w shifted \<and> int_fits is_signed w next_acc
             then radix_loop is_signed w radix positive next_acc cs
             else Inl (if positive then ''number too large to fit in target type''
                       else ''number too small to fit in target type''))"

definition from_str_radix :: "bool \<Rightarrow> nat \<Rightarrow> nat \<Rightarrow> string \<Rightarrow> string + int" where
  "from_str_radix is_signed w radix s =
     (if s = [] then Inl ''cannot parse integer from empty string''
      else if s = ''+'' \<or> s = ''-'' then Inl ''invalid digit found in string''
      else if hd s = CHR ''+'' then radix_loop is_signed w radix True 0 (tl s)
      else if hd s = CHR ''-'' \<and> is_signed then radix_loop is_signed w radix False 0 (tl s)
      else radix_loop is_signed w radix True 0 s)"

definition parse_result_code :: "string \<Rightarrow> i32 result" where
  "parse_result_code raw =
     (let value = trim raw;
          invalid = (\<lambda>e. history_xml_error [Lit ''invalid result code '', Dbg value, Lit '': '', Dsp e])
      in case (case strip_prefix ''0x'' value of Some h \<Rightarrow> Some h | None \<Rightarrow> strip_prefix ''0X'' value) of
           Some hex \<Rightarrow> bind_ok (map_err invalid (from_str_radix False 32 16 hex)) (\<lambda>code. Inr (word_of_int code))
         | None \<Rightarrow>
             bind_ok (map_err invalid (from_str_radix True 64 10 value)) (\<lambda>code.
               if int_fits True 32 code then Inr (word_of_int code)
               else if int_fits False 32 code then Inr (word_of_int code)
               else Inl (history_xml_error [Lit ''result code '', Dbg value, Lit '' is out of range''])))"

section \<open>Timestamps and fields\<close>

record event_env =
  ee_reader :: reader
  ee_unescape :: unescaper
  ee_uuid :: uuid_parser
  ee_timestamp :: "string \<Rightarrow> string + int" \<comment> \<open>\<open>jiff::Timestamp::from_str\<close>, as nanoseconds\<close>
  ee_epoch_add :: "duration \<Rightarrow> system_time option" \<comment> \<open>\<open>UNIX_EPOCH.checked_add\<close>\<close>
  ee_epoch_sub :: "duration \<Rightarrow> system_time option" \<comment> \<open>\<open>UNIX_EPOCH.checked_sub\<close>\<close>

definition parse_system_time :: "event_env \<Rightarrow> string \<Rightarrow> system_time result" where
  "parse_system_time env value =
     bind_ok (map_err (\<lambda>e. history_xml_error [Lit ''invalid event timestamp '', Dbg value, Lit '': '', Dsp e])
       (ee_timestamp env value)) (\<lambda>total_nanoseconds.
       let magnitude = nat \<bar>total_nanoseconds\<bar>;
           seconds = magnitude div 10 ^ 9;
           d = \<lparr>dur_secs = of_nat seconds, dur_nanos = of_nat (magnitude mod 10 ^ 9)\<rparr>
       in if seconds \<ge> 2 ^ 64 then Inl (history_xml_error [Lit ''event timestamp exceeds SystemTime''])
          else if total_nanoseconds \<ge> 0 then
            ok_or (history_xml_error [Lit ''event timestamp exceeds SystemTime'']) (ee_epoch_add env d)
          else
            ok_or (history_xml_error [Lit ''event timestamp precedes SystemTime'']) (ee_epoch_sub env d))"

text \<open>The name after the last colon; only this part has to be UTF-8.\<close>

definition event_local_name :: "string \<Rightarrow> string result" where
  "event_local_name bytes =
     (let name = last (split_on (CHR '':'') bytes) in
      bind_ok (map_err (\<lambda>e. history_xml_error [Lit ''event XML name is not UTF-8: '', Dsp (utf8_error_text e)])
        (from_utf8 name)) (\<lambda>_. Inr name))"

fun attribute_value :: "attribute_event list \<Rightarrow> string \<Rightarrow> string option result" where
  "attribute_value [] wanted = Inr None"
| "attribute_value (Inl e # es) wanted = Inl (history_xml_error [Dsp e])"
| "attribute_value (Inr (key, value) # es) wanted =
     bind_ok (event_local_name key) (\<lambda>name.
       if name = wanted then
         bind_ok (map_err (\<lambda>e. history_xml_error [Dsp e]) value) (\<lambda>v. Inr (Some v))
       else attribute_value es wanted)"

fun field :: "(string, string) btree \<Rightarrow> string list \<Rightarrow> string option" where
  "field payload [] = None"
| "field payload (wanted # names) =
     (case find (\<lambda>(name, _). eq_ignore_ascii_case name wanted) payload of
        Some (_, value) \<Rightarrow> Some value
      | None \<Rightarrow> field payload names)"

section \<open>The decoder\<close>

record event_frame =
  ef_name :: string
  ef_data_name :: "string option"
  ef_text :: string

record event_state =
  es_event_id :: "u32 option"
  es_record_id :: "u64 option"
  es_timestamp :: "system_time option"
  es_fields :: "(string, string) btree"
  es_message :: "string option"
  es_unnamed_data :: nat
  es_stack :: "event_frame list" \<comment> \<open>the top first\<close>
  es_nodes :: nat

definition event_start :: event_state where
  "event_start =
     \<lparr>es_event_id = None, es_record_id = None, es_timestamp = None, es_fields = [], es_message = None,
      es_unnamed_data = 0, es_stack = [], es_nodes = 0\<rparr>"

definition read_time :: "event_env \<Rightarrow> string \<Rightarrow> attribute_event list \<Rightarrow> event_state \<Rightarrow> event_state result" where
  "read_time env name attributes st =
     (if name = ''TimeCreated'' then
        bind_ok (attribute_value attributes ''SystemTime'') (\<lambda>found.
          case found of
            None \<Rightarrow> Inr st
          | Some value \<Rightarrow> bind_ok (parse_system_time env value) (\<lambda>t. Inr (st\<lparr>es_timestamp := Some t\<rparr>)))
      else Inr st)"

fun push_frame_text :: "string \<Rightarrow> event_frame list \<Rightarrow> event_frame list" where
  "push_frame_text s [] = []"
| "push_frame_text s (f # rest) = f\<lparr>ef_text := ef_text f @ s\<rparr> # rest"

definition parse_event_number :: "string \<Rightarrow> string \<Rightarrow> 'w::len word result" where
  "parse_event_number name value =
     ok_or (history_xml_error [Lit ''invalid '', Lit name, Lit '' '', Dbg value, Lit '': '',
              Dsp (int_error LENGTH('w) value)])
       (map_option of_nat (parse_uint LENGTH('w) value))"

text \<open>The \<open>match frame.name\<close> of an end tag; the frame is already popped.\<close>

definition finish_frame :: "event_frame \<Rightarrow> event_state \<Rightarrow> event_state result" where
  "finish_frame frame st =
     (let value = trim (ef_text frame);
          parent_is_rendering = (case es_stack st of p # _ \<Rightarrow> ef_name p = ''RenderingInfo'' | [] \<Rightarrow> False)
      in if ef_name frame = ''EventID'' then
           bind_ok (parse_event_number ''EventID'' value) (\<lambda>n. Inr (st\<lparr>es_event_id := Some n\<rparr>))
         else if ef_name frame = ''EventRecordID'' then
           bind_ok (parse_event_number ''EventRecordID'' value) (\<lambda>n. Inr (st\<lparr>es_record_id := Some n\<rparr>))
         else if ef_name frame = ''Data'' then
           (case ef_data_name frame of
              Some key \<Rightarrow> Inr (st\<lparr>es_fields := btree_insert key value (es_fields st)\<rparr>)
            | None \<Rightarrow> Inr (st\<lparr>es_fields := btree_insert (''Data'' @ show_nat (es_unnamed_data st)) value (es_fields st),
                             es_unnamed_data := es_unnamed_data st + 1\<rparr>))
         else if ef_name frame = ''Message'' \<and> parent_is_rendering then
           Inr (st\<lparr>es_message := (if value = [] then None else Some value)\<rparr>)
         else Inr st)"

definition count_node :: "event_state \<Rightarrow> event_state result" where
  "count_node st =
     (if es_nodes st + 1 > 10000 then
        Inl (history_xml_error [Lit ''event XML element count exceeds 10,000''])
      else Inr (st\<lparr>es_nodes := es_nodes st + 1\<rparr>))"

fun event_step :: "event_env \<Rightarrow> event \<Rightarrow> event_state \<Rightarrow> event_state result" where
  "event_step env (StartEvent name attributes) st =
     bind_ok (count_node st) (\<lambda>st.
     if length (es_stack st) \<ge> 64 then Inl (history_xml_error [Lit ''event XML nesting exceeds 64 levels''])
     else
       bind_ok (event_local_name name) (\<lambda>n.
       bind_ok (attribute_value attributes ''Name'') (\<lambda>data_name.
       bind_ok (read_time env n attributes st) (\<lambda>st.
         Inr (st\<lparr>es_stack := \<lparr>ef_name = n, ef_data_name = data_name, ef_text = []\<rparr> # es_stack st\<rparr>)))))"
| "event_step env (EmptyEvent name attributes) st =
     bind_ok (count_node st) (\<lambda>st.
     bind_ok (event_local_name name) (\<lambda>n. read_time env n attributes st))"
| "event_step env (TextEvent content) st =
     bind_ok (map_err (\<lambda>e. history_xml_error [Dsp e]) content) (\<lambda>s.
     bind_ok (map_err (\<lambda>e. history_xml_error [Dsp e]) (ee_unescape env s)) (\<lambda>decoded.
       Inr (st\<lparr>es_stack := push_frame_text decoded (es_stack st)\<rparr>)))"
| "event_step env (CDataEvent content) st =
     (if es_stack st = [] then Inr st
      else bind_ok (map_err (\<lambda>e. history_xml_error [Dsp e]) content) (\<lambda>s.
        Inr (st\<lparr>es_stack := push_frame_text s (es_stack st)\<rparr>)))"
| "event_step env (EndEvent name) st =
     (case es_stack st of
        [] \<Rightarrow> Inl (history_xml_error [Lit ''unexpected event XML end element''])
      | frame # rest \<Rightarrow> finish_frame frame (st\<lparr>es_stack := rest\<rparr>))"
| "event_step env (GeneralRef name) st =
     bind_ok (map_err (\<lambda>e. history_xml_error (e_message e)) (resolve_reference (ee_unescape env) name)) (\<lambda>value.
       if es_stack st = [] then Inl (history_xml_error [Lit ''reference outside XML root''])
       else Inr (st\<lparr>es_stack := push_frame_text value (es_stack st)\<rparr>))"
| "event_step env DocType st =
     Inl (history_xml_error [Lit ''DTD declarations and entity references are not allowed''])"
| "event_step env _ st = Inr st"

fun event_loop :: "event_env \<Rightarrow> (string + event) list \<Rightarrow> event_state \<Rightarrow> event_state result" where
  "event_loop env [] st = Inr st"
| "event_loop env (Inl e # es) st = Inl (history_xml_error [Dsp e])"
| "event_loop env (Inr ev # es) st =
     (if ev = Eof then Inr st else bind_ok (event_step env ev st) (event_loop env es))"

text \<open>\<open>trim_matches(['{', '}'])\<close>\<close>

definition trim_braces :: "string \<Rightarrow> string" where
  "trim_braces s =
     (let brace = (\<lambda>c. c = CHR 0x7B \<or> c = CHR 0x7D) in rev (dropWhile brace (rev (dropWhile brace s))))"

definition non_empty :: "string option \<Rightarrow> string option" where
  "non_empty v = (case v of Some s \<Rightarrow> if s = [] then None else Some s | None \<Rightarrow> None)"

fun path_error_text :: "parse_path_error \<Rightarrow> message" where
  "path_error_text (ParsePathError m) = m"

text \<open>What follows the loop.\<close>

definition finish_event :: "event_env \<Rightarrow> event_state \<Rightarrow> history_event result" where
  "finish_event env st =
     bind_ok (ok_or (history_xml_error [Lit ''event XML has no EventID'']) (es_event_id st)) (\<lambda>event_id.
     bind_ok (ok_or (history_xml_error [Lit ''event XML has no EventRecordID'']) (es_record_id st)) (\<lambda>record_id.
     bind_ok (ok_or (history_xml_error [Lit ''event XML has no TimeCreated/SystemTime'']) (es_timestamp st)) (\<lambda>timestamp.
     bind_ok (map_err (\<lambda>e. history_xml_error (Lit ''invalid task path in event: '' # path_error_text e))
       (map_transpose task_from_str (non_empty (field (es_fields st) [''TaskName'', ''TaskPath''])))) (\<lambda>task_path.
     bind_ok (map_err (\<lambda>e. history_xml_error [Lit ''invalid instance GUID in event: '', Dsp e])
       (map_transpose (\<lambda>v. ee_uuid env (trim_braces v))
         (non_empty (field (es_fields st) [''InstanceId'', ''InstanceID'', ''InstanceGuid'', ''TaskInstanceId''])))) (\<lambda>instance_id.
     bind_ok (map_transpose parse_result_code
       (non_empty (field (es_fields st) [''ResultCode'', ''Result'', ''ErrorCode'', ''ActionResult'']))) (\<lambda>result_code.
       Inr \<lparr>he_record_id = record_id, he_event_id = event_id, he_kind = event_kind event_id,
            he_timestamp = timestamp, he_task_path = task_path, he_instance_id = instance_id,
            he_result_code = result_code, he_fields = es_fields st, he_message = es_message st\<rparr>))))))"

definition from_event_xml :: "event_env \<Rightarrow> string \<Rightarrow> history_event result" where
  "from_event_xml env xml =
     (if length xml > MAX_EVENT_XML_BYTES then
        Inl (history_xml_error [Lit ''rendered event exceeds the 1 MiB limit''])
      else
        bind_ok (event_loop env (ee_reader env xml) event_start) (\<lambda>st.
          if es_stack st \<noteq> [] then
            Inl (history_xml_error [Lit ''event XML ended before all elements closed''])
          else finish_event env st))"

section \<open>Numbers that survive\<close>

definition show_int :: "int \<Rightarrow> string" where
  "show_int v = (if v < 0 then ''-'' @ show_nat (nat (- v)) else show_nat (nat v))"

definition radix_val :: "nat \<Rightarrow> nat \<Rightarrow> string \<Rightarrow> nat" where
  "radix_val radix acc cs = foldl (\<lambda>a c. a * radix + the (to_digit radix c)) acc cs"

lemma radix_val_simps [simp]:
  "radix_val radix acc [] = acc"
  "radix_val radix acc (c # cs) = radix_val radix (acc * radix + the (to_digit radix c)) cs"
  by (simp_all add: radix_val_def)

lemma radix_val_append: "radix_val radix acc (xs @ ys) = radix_val radix (radix_val radix acc xs) ys"
  by (simp add: radix_val_def)

lemma radix_val_grows: "0 < radix \<Longrightarrow> acc \<le> radix_val radix acc cs"
proof (induction cs arbitrary: acc)
  case (Cons c cs)
  have "acc \<le> acc * radix + the (to_digit radix c)" using Cons.prems by (simp add: trans_le_add1)
  also have "\<dots> \<le> radix_val radix \<dots> cs" by (rule Cons.IH[OF Cons.prems])
  finally show ?case by simp
qed simp

lemma int_fits_between: "int_fits b w v \<Longrightarrow> 0 \<le> u \<and> u \<le> v \<or> v \<le> u \<and> u \<le> 0 \<Longrightarrow> int_fits b w u"
  by (auto simp: int_fits_def split: if_splits intro: le_less_trans)

definition signed_by :: "bool \<Rightarrow> nat \<Rightarrow> int" where
  "signed_by positive n = (if positive then int n else - int n)"

lemma signed_by_fits:
  "int_fits b w (signed_by positive n) \<Longrightarrow> m \<le> n \<Longrightarrow> int_fits b w (signed_by positive m)"
  by (erule int_fits_between) (auto simp: signed_by_def)

text \<open>The digit loop computes the number when the type can hold it, and fails otherwise.\<close>

lemma radix_loop_digits:
  assumes "list_all (\<lambda>c. \<exists>d. to_digit radix c = Some d) cs" and "0 < radix" and "int_fits b w (signed_by positive acc)"
  shows "radix_loop b w radix positive (signed_by positive acc) cs =
    (if int_fits b w (signed_by positive (radix_val radix acc cs)) then Inr (signed_by positive (radix_val radix acc cs))
     else Inl (if positive then ''number too large to fit in target type'' else ''number too small to fit in target type''))"
  using assms
proof (induction cs arbitrary: acc)
  case (Cons c cs)
  then obtain d where d: "to_digit radix c = Some d" by auto
  let ?next = "acc * radix + d"
  have step: "signed_by positive acc * int radix = signed_by positive (acc * radix)"
      "(if positive then signed_by positive (acc * radix) + int d else signed_by positive (acc * radix) - int d)
        = signed_by positive ?next"
    by (simp_all add: signed_by_def)
  have small: "int_fits b w (signed_by positive (acc * radix))" if "int_fits b w (signed_by positive ?next)"
    by (rule signed_by_fits[OF that]) simp
  have more: "int_fits b w (signed_by positive ?next)"
    if "int_fits b w (signed_by positive (radix_val radix ?next cs))"
    by (rule signed_by_fits[OF that radix_val_grows[OF Cons.prems(2)]])
  show ?case
  proof (cases "int_fits b w (signed_by positive ?next)")
    case True
    then show ?thesis using Cons d small by (simp add: step Let_def)
  next
    case False
    then show ?thesis using d small more by (auto simp: step Let_def)
  qed
qed simp

lemma to_digit_decimal: "is_ascii_digit c \<Longrightarrow> to_digit 10 c = Some (digit_val c)"
  by (auto simp: to_digit_def digit_val_def is_ascii_digit_def Let_def)

lemma radix_val_decimal: "list_all is_ascii_digit cs \<Longrightarrow> radix_val 10 acc cs = foldl (\<lambda>n c. 10 * n + digit_val c) acc cs"
  by (induction cs arbitrary: acc) (simp_all add: to_digit_decimal mult.commute)

lemma radix_val_show [simp]: "radix_val 10 0 (show_nat n) = n"
  by (simp add: radix_val_decimal flip: digits_val_def)

lemma hd_show_nat_digit: "is_ascii_digit (hd (show_nat n))"
  using show_nat_set[of "hd (show_nat n)" n] by simp

lemma zero_fits: "0 < w \<Longrightarrow> int_fits b w 0"
  by (simp add: int_fits_def)

lemma show_nat_to_digits: "list_all (\<lambda>c. \<exists>d. to_digit 10 c = Some d) (show_nat n)"
  using show_nat_digits[of n] by (auto simp: list_all_iff to_digit_decimal)

text \<open>\<open>from_str\<close> of a signed type reads every printed number that fits.\<close>

lemma from_str_show_int:
  assumes "0 < w"
  shows "from_str_radix True w 10 (show_int v) =
    (if int_fits True w v then Inr v
     else Inl (if 0 \<le> v then ''number too large to fit in target type'' else ''number too small to fit in target type''))"
proof (cases "v < 0")
  case True
  have "radix_loop True w 10 False (signed_by False 0) (show_nat (nat (- v))) =
    (if int_fits True w v then Inr v else Inl ''number too small to fit in target type'')"
    by (subst radix_loop_digits) (use True assms in \<open>auto simp: show_nat_to_digits signed_by_def zero_fits\<close>)
  then show ?thesis using True by (simp add: show_int_def from_str_radix_def signed_by_def)
next
  case False
  have hd: "hd (show_nat n) \<noteq> CHR ''+''" "hd (show_nat n) \<noteq> CHR ''-''" for n
    using hd_show_nat_digit[of n] by auto
  then have ne: "show_nat n \<noteq> ''+''" "show_nat n \<noteq> ''-''" for n
    by (metis list.sel(1))+
  have "radix_loop True w 10 True (signed_by True 0) (show_nat (nat v)) =
    (if int_fits True w v then Inr v else Inl ''number too large to fit in target type'')"
    by (subst radix_loop_digits) (use False assms in \<open>auto simp: show_nat_to_digits signed_by_def zero_fits\<close>)
  then show ?thesis using False hd ne by (simp add: show_int_def from_str_radix_def signed_by_def)
qed

lemma trim_plain:
  assumes "s \<noteq> []" and "33 \<le> (of_char (hd s) :: nat)" and "(of_char (hd s) :: nat) < 128"
    and "33 \<le> (of_char (last s) :: nat)" and "(of_char (last s) :: nat) < 128"
  shows "trim s = s"
proof -
  have edges: "\<forall>v \<in> set whitespace_encodings.
      \<not> (33 \<le> (of_char (hd v) :: nat) \<and> (of_char (hd v) :: nat) < 128)
      \<and> \<not> (33 \<le> (of_char (last v) :: nat) \<and> (of_char (last v) :: nat) < 128)"
    by (simp add: whitespace_encodings_def)
  have "hd v \<noteq> hd s \<and> last v \<noteq> last s" if "v \<in> set whitespace_encodings" for v
    using bspec[OF edges that] assms(2-) by auto
  moreover have "v \<noteq> []" if "v \<in> set whitespace_encodings" for v
    using that whitespace_encodings_not_Nil by auto
  ultimately have "leading_whitespace s = None" "trailing_whitespace s = None"
    unfolding leading_whitespace_def trailing_whitespace_def find_None_iff starts_with_iff ends_with_iff
    by (metis hd_append2, metis last_appendR)
  then show ?thesis by (simp add: trim_fixed)
qed

lemma digit_range: "is_ascii_digit c \<Longrightarrow> 33 \<le> (of_char c :: nat) \<and> (of_char c :: nat) < 128"
  by (simp add: is_ascii_digit_def)

lemma trim_show_int: "trim (show_int v) = show_int v"
  using digit_range[OF hd_show_nat_digit] digit_range[OF show_nat_set[OF last_in_set[OF show_nat_not_Nil]]]
  by (intro trim_plain) (auto simp: show_int_def)

lemma hex_digit_range: "d < 16 \<Longrightarrow> 33 \<le> (of_char (Errors.hex_digit d) :: nat) \<and> (of_char (Errors.hex_digit d) :: nat) < 128"
  by (auto simp: digit_char_def)

lemma to_digit_hex: "d < 16 \<Longrightarrow> to_digit 16 (Errors.hex_digit d) = Some d"
  by (auto simp: to_digit_def digit_char_def is_ascii_digit_def is_ascii_lower_def is_ascii_upper_def Let_def)

lemma radix_val_hex:
  "k \<le> 8 \<Longrightarrow> n < 16 ^ 8 \<Longrightarrow>
    radix_val 16 0 (map (\<lambda>i. Errors.hex_digit (n div 16 ^ (7 - i) mod 16)) [0..<k]) = n div 16 ^ (8 - k)"
proof (induction k)
  case (Suc k)
  have "n div 16 ^ (8 - k) = n div 16 ^ (7 - k) div 16"
  proof -
    have "8 - k = Suc (7 - k)" using Suc.prems(1) by simp
    then show ?thesis by (simp only: power_Suc2 div_mult2_eq)
  qed
  then show ?case using Suc by (simp add: radix_val_append to_digit_hex del: Errors.hex_digit.simps)
qed simp

lemma show_hex8_digits: "list_all (\<lambda>c. \<exists>d. to_digit 16 c = Some d) (show_hex8 w)"
  by (auto simp: list_all_iff show_hex8_def to_digit_hex simp del: Errors.hex_digit.simps)

lemma radix_val_show_hex8: "radix_val 16 0 (show_hex8 w) = unat w"
proof -
  have "unat w < 16 ^ 8" using unsigned_less[of w, where ?'a = nat] by simp
  then show ?thesis unfolding show_hex8_def using radix_val_hex[of 8 "unat w"] by simp
qed

lemma show_hex8_Cons: "\<exists>d rest. show_hex8 w = Errors.hex_digit d # rest \<and> d < 16"
  unfolding show_hex8_def by (subst upt_conv_Cons) (auto simp del: Errors.hex_digit.simps)

lemma from_str_show_hex8: "from_str_radix False 32 16 (show_hex8 w) = Inr (uint w)"
proof -
  obtain d rest where w: "show_hex8 w = Errors.hex_digit d # rest" "d < 16" using show_hex8_Cons by blast
  then have "Errors.hex_digit d \<noteq> CHR ''+''" "Errors.hex_digit d \<noteq> CHR ''-''"
    using to_digit_hex[of d] by (auto simp: to_digit_def is_ascii_digit_def is_ascii_lower_def is_ascii_upper_def Let_def
        simp del: Errors.hex_digit.simps)
  then have "from_str_radix False 32 16 (show_hex8 w) = radix_loop False 32 16 True (signed_by True 0) (show_hex8 w)"
    using w by (simp add: from_str_radix_def signed_by_def del: Errors.hex_digit.simps)
  also have "\<dots> = Inr (uint w)"
    by (subst radix_loop_digits)
      (use uint_lt2p[of w] in \<open>auto simp: show_hex8_digits radix_val_show_hex8 signed_by_def int_fits_def\<close>)
  finally show ?thesis .
qed

lemma trim_hex8: "trim (''0x'' @ show_hex8 w) = ''0x'' @ show_hex8 w"
proof -
  have "last (show_hex8 w) = Errors.hex_digit (unat w mod 16)"
    by (simp add: show_hex8_def upt_rec del: Errors.hex_digit.simps)
  then show ?thesis
    using hex_digit_range[of "unat w mod 16"] show_hex8_Cons[of w]
    by (intro trim_plain) (auto simp del: Errors.hex_digit.simps)
qed

lemma no_hex_prefix: "strip_prefix ''0x'' (show_int v) = None" "strip_prefix ''0X'' (show_int v) = None"
proof -
  have "is_ascii_digit c" if "c \<in> set (drop 1 (show_int v))" for c
  proof -
    have "c \<in> set (show_nat (nat (- v))) \<or> c \<in> set (show_nat (nat v))"
      using that by (auto simp: show_int_def split: if_splits dest: in_set_dropD)
    then show ?thesis by (auto simp: show_nat_set)
  qed
  then have "show_int v \<noteq> c # x # r" if "\<not> is_ascii_digit x" for c x r
    using that by (metis One_nat_def drop0 drop_Suc_Cons list.set_intros(1))
  moreover have "\<not> is_ascii_digit x" if "x \<in> {CHR ''x'', CHR ''X''}" for x
    using that by (auto simp: is_ascii_digit_def)
  ultimately have no_x: "show_int v \<noteq> c # x # r" if "x \<in> {CHR ''x'', CHR ''X''}" for c x r
    using that by blast
  show "strip_prefix ''0x'' (show_int v) = None" "strip_prefix ''0X'' (show_int v) = None"
    using no_x by (auto simp: ok_iff simp flip: not_Some_eq)
qed

section \<open>Properties\<close>

text \<open>Result codes keep all their bits. A decimal code, signed or unsigned, is accepted exactly when
  it fits a signed or unsigned 32-bit integer and then has the same bits; the hexadecimal text of
  any code, as errors display it, reads back as that code.\<close>

theorem result_code_exact:
  "(case parse_result_code (show_int v) of
      Inr decoded \<Rightarrow> - (2 ^ 31) \<le> v \<and> v < 2 ^ 32 \<and> decoded = word_of_int v
    | Inl e \<Rightarrow> e_kind e = Xml \<and> (v < - (2 ^ 31) \<or> 2 ^ 32 \<le> v))
   \<and> parse_result_code (''0x'' @ show_hex8 code) = Inr code"
proof -
  have "parse_result_code (''0x'' @ show_hex8 code) = Inr code"
    by (simp add: parse_result_code_def trim_hex8[simplified] from_str_show_hex8 strip_prefix_def)
  then show ?thesis
    using from_str_show_int[of 64 v]
    by (auto simp: parse_result_code_def trim_show_int no_hex_prefix int_fits_def history_xml_error_def
        with_operation_def new_error_def)
qed

end
