(* ===== verification/Loops.thy ===== *)
theory Loops
  imports Main
begin

text \<open>
  Loops over the world that may run for ever. A body either ends the loop with a result or gives the
  next local state. \<open>run_loop\<close> is \<open>None\<close> exactly when the loop does not end; an invariant describes how it
  ends, and a measure shows that it does.
\<close>

partial_function (option) run_loop :: "('s \<Rightarrow> 'w \<Rightarrow> ('r + 's) \<times> 'w) \<Rightarrow> 's \<Rightarrow> 'w \<Rightarrow> ('r \<times> 'w) option" where
  "run_loop body s w =
     (case body s w of
        (Inl r, w) \<Rightarrow> Some (r, w)
      | (Inr s, w) \<Rightarrow> run_loop body s w)"

lemma run_loop_rule:
  assumes "run_loop body s w = Some (r, w')" and "I s w"
    and kept: "\<And>s w s' w'. I s w \<Longrightarrow> body s w = (Inr s', w') \<Longrightarrow> I s' w'"
  shows "\<exists>t u. I t u \<and> body t u = (Inl r, w')"
proof -
  have "body' = body \<longrightarrow> I s w \<longrightarrow> (\<exists>t u. I t u \<and> body t u = (Inl (fst r), snd r))"
    if "run_loop body' s w = Some r" for body' s w r
  proof (rule run_loop.raw_induct[OF _ that])
    fix loop body' s w r
    assume IH: "\<And>body' s w r. loop body' s w = Some r \<Longrightarrow>
        body' = body \<longrightarrow> I s w \<longrightarrow> (\<exists>t u. I t u \<and> body t u = (Inl (fst r), snd r))"
      and step: "(case body' s w of (Inl r, w) \<Rightarrow> Some (r, w) | (Inr s, w) \<Rightarrow> loop body' s w) = Some r"
    show "body' = body \<longrightarrow> I s w \<longrightarrow> (\<exists>t u. I t u \<and> body t u = (Inl (fst r), snd r))"
    proof (intro impI)
      assume body: "body' = body" and inv: "I s w"
      obtain x v where x: "body s w = (x, v)" by fastforce
      show "\<exists>t u. I t u \<and> body t u = (Inl (fst r), snd r)"
      proof (cases x)
        case (Inl final)
        then show ?thesis using step body inv x by (intro exI[of _ s] exI[of _ w]) auto
      next
        case (Inr s')
        then show ?thesis using IH[of body s' v r] step body kept[OF inv] x by auto
      qed
    qed
  qed
  then show ?thesis using assms(1,2) by fastforce
qed

lemma run_loop_ends:
  assumes "I s w"
    and kept: "\<And>s w s' w'. I s w \<Longrightarrow> body s w = (Inr s', w') \<Longrightarrow> I s' w' \<and> (m s' w' :: nat) < m s w"
  shows "\<exists>r. run_loop body s w = Some r"
  using assms(1)
proof (induction "m s w" arbitrary: s w rule: less_induct)
  case less
  obtain x v where x: "body s w = (x, v)" by fastforce
  show ?case
  proof (cases x)
    case (Inl r)
    then show ?thesis using x by (subst run_loop.simps) simp
  next
    case (Inr s')
    then have "\<exists>r. run_loop body s' v = Some r" using less.hyps kept[OF less.prems] x by blast
    then show ?thesis using x Inr by (subst run_loop.simps) simp
  qed
qed

end
