(* ===== verification/Wait.thy ===== *)
theory Wait
  imports History Backend Loops
begin

text \<open>
  Waiting for a run (\<open>client/wait.rs\<close>): correlation of history events with one run, the bounded scan of
  the event log and the wait loop. The observer is the source's trait: history, running tasks, last
  result and a clock, each an operation on the world. A \<open>std::time::Duration\<close> is its number of
  nanoseconds, so that \<open>saturating_sub\<close> is subtraction on \<open>nat\<close>. The loop need not end when the clock
  stands still, so it is a \<open>run_loop\<close>; a clock that advances makes it return.
\<close>

type_synonym nanos = nat

section \<open>Correlation\<close>

record running_task =
  rt_path :: task_path
  rt_instance_id :: uuid
  rt_current_action :: "string option"
  rt_engine_process_id :: u32
  rt_state :: task_state

record run_handle =
  rh_instance_id :: uuid
  rh_path :: task_path
  rh_engine_process_id :: "u32 option"

record correlation =
  co_completed :: bool
  co_action :: "(u64 \<times> i32) option"
  co_terminal :: "i32 option"

definition correlation_default :: correlation where
  "correlation_default = \<lparr>co_completed = False, co_action = None, co_terminal = None\<rparr>"

text \<open>\<open>Option::or\<close>\<close>

definition opt_or :: "'a option \<Rightarrow> 'a option \<Rightarrow> 'a option" where
  "opt_or a b = (case a of Some x \<Rightarrow> Some x | None \<Rightarrow> b)"

definition correlated :: "run_handle \<Rightarrow> history_event \<Rightarrow> bool" where
  "correlated h e \<longleftrightarrow> he_instance_id e = Some (rh_instance_id h) \<and> he_task_path e = Some (rh_path h)"

definition ingest_event :: "run_handle \<Rightarrow> correlation \<Rightarrow> history_event \<Rightarrow> correlation" where
  "ingest_event h c e =
     (if \<not> correlated h e then c
      else case he_kind e of
          Completed \<Rightarrow> c\<lparr>co_completed := True, co_terminal := opt_or (he_result_code e) (co_terminal c)\<rparr>
        | Stopped \<Rightarrow> c\<lparr>co_terminal := Some (case he_result_code e of Some r \<Rightarrow> r | None \<Rightarrow> 0x00041306)\<rparr>
        | EventFailed \<Rightarrow>
            if he_event_id e \<in> {101, 103, 104, 311}
            then c\<lparr>co_terminal := opt_or (he_result_code e) (co_terminal c)\<rparr> else c
        | ActionCompleted \<Rightarrow>
            (case he_result_code e of
               None \<Rightarrow> c
             | Some code \<Rightarrow>
                 if (case co_action c of None \<Rightarrow> True | Some (record_id, _) \<Rightarrow> he_record_id e > record_id)
                 then c\<lparr>co_action := Some (he_record_id e, code)\<rparr> else c)
        | _ \<Rightarrow> c)"

definition correlation_outcome :: "correlation \<Rightarrow> i32 option" where
  "correlation_outcome c =
     opt_or (co_terminal c) (if co_completed c then map_option snd (co_action c) else None)"

definition ingest :: "run_handle \<Rightarrow> correlation \<Rightarrow> history_event list \<Rightarrow> i32 option \<times> correlation" where
  "ingest h c events =
     (let c = foldl (ingest_event h) c events in (correlation_outcome c, c))"

section \<open>The bounded scan\<close>

text \<open>The filter of a query, as \<open>scan_history\<close> and \<open>read_page\<close> apply it.\<close>

definition query_matches :: "history_query \<Rightarrow> history_event \<Rightarrow> bool" where
  "query_matches query e \<longleftrightarrow>
     (case hq_task query of Some p \<Rightarrow> he_task_path e = Some p | None \<Rightarrow> True)
     \<and> (case hq_instance_id query of Some i \<Rightarrow> he_instance_id e = Some i | None \<Rightarrow> True)
     \<and> (case hq_since query of Some t \<Rightarrow> t \<le> he_timestamp e | None \<Rightarrow> True)"

fun scan_loop ::
  "history_query \<Rightarrow> nat \<Rightarrow> run_handle option \<Rightarrow> ('w, history_event option) effect \<Rightarrow> nat
     \<Rightarrow> correlation \<Rightarrow> history_event list \<Rightarrow> ('w, history_event list) effect" where
  "scan_loop query wanted handle next 0 c found w =
     (Inl (new_error QueryLimit [Lit ''history query reached its scan limit; narrow the query'']), w)"
| "scan_loop query wanted handle next (Suc left) c found w =
     (if length found = wanted then (Inr found, w)
      else case next w of
          (Inl e, w) \<Rightarrow> (Inl e, w)
        | (Inr None, w) \<Rightarrow> (Inr found, w)
        | (Inr (Some event), w) \<Rightarrow>
            if \<not> query_matches query event then scan_loop query wanted handle next left c found w
            else
              let (code, c) = (case handle of None \<Rightarrow> (None, c) | Some h \<Rightarrow> ingest h c [event]);
                  found = found @ [event]
              in if code \<noteq> None \<or> length found = wanted then (Inr found, w)
                 else scan_loop query wanted handle next left c found w)"

definition scan_history ::
  "history_query \<Rightarrow> bool \<Rightarrow> nat \<Rightarrow> ('w, history_event option) effect \<Rightarrow> ('w, history_event list) effect" where
  "scan_history query exact maximum next w =
     (let wanted = (case hq_limit query of Some n \<Rightarrow> n | None \<Rightarrow> 256);
          handle = (case (exact, hq_task query, hq_instance_id query) of
              (True, Some path, Some i) \<Rightarrow>
                Some \<lparr>rh_instance_id = i, rh_path = path, rh_engine_process_id = None\<rparr>
            | _ \<Rightarrow> None)
      in scan_loop query wanted handle next maximum correlation_default [] w)"

section \<open>The wait loop\<close>

record 'w observer =
  ob_history :: "history_query \<Rightarrow> ('w, history_event list) effect"
  ob_running :: "('w, running_task list) effect"
  ob_last_result :: "task_path \<Rightarrow> ('w, i32) effect"
  ob_elapsed :: "'w \<Rightarrow> nanos \<times> 'w"
  ob_now :: "'w \<Rightarrow> system_time \<times> 'w"
  ob_sleep :: "nanos \<Rightarrow> 'w \<Rightarrow> 'w"

record wait_options =
  wo_timeout :: nanos
  wo_poll_interval :: nanos
  wo_history_grace :: nanos
  wo_allow_polling_fallback :: bool

definition one_second :: nanos where "one_second = 10 ^ 9"

definition wait_options_default :: wait_options where
  "wait_options_default =
     \<lparr>wo_timeout = 5 * 60 * one_second, wo_poll_interval = 250 * 10 ^ 6,
      wo_history_grace = 2 * one_second, wo_allow_polling_fallback = False\<rparr>"

record wait_state =
  ws_history_error :: "error_kind option"
  ws_history_read :: bool
  ws_running_read :: bool
  ws_observed_running :: bool
  ws_last_running :: bool
  ws_absent_since :: "nanos option"
  ws_correlation :: correlation

definition wait_start :: wait_state where
  "wait_start =
     \<lparr>ws_history_error = None, ws_history_read = False, ws_running_read = False,
      ws_observed_running = False, ws_last_running = False, ws_absent_since = None,
      ws_correlation = correlation_default\<rparr>"

text \<open>\<open>Debug\<close> of an error kind and \<open>to_string\<close> of a boolean\<close>

fun error_kind_debug :: "error_kind \<Rightarrow> string" where
  "error_kind_debug UnsupportedPlatform = ''UnsupportedPlatform''"
| "error_kind_debug InvalidPath = ''InvalidPath''"
| "error_kind_debug InvalidDefinition = ''InvalidDefinition''"
| "error_kind_debug Xml = ''Xml''"
| "error_kind_debug Serialization = ''Serialization''"
| "error_kind_debug SchedulerUnavailable = ''SchedulerUnavailable''"
| "error_kind_debug AccessDenied = ''AccessDenied''"
| "error_kind_debug Authentication = ''Authentication''"
| "error_kind_debug NotFound = ''NotFound''"
| "error_kind_debug AlreadyExists = ''AlreadyExists''"
| "error_kind_debug Capability = ''Capability''"
| "error_kind_debug Com = ''Com''"
| "error_kind_debug Win32 = ''Win32''"
| "error_kind_debug Cancelled = ''Cancelled''"
| "error_kind_debug Timeout = ''Timeout''"
| "error_kind_debug HistoryUnavailable = ''HistoryUnavailable''"
| "error_kind_debug HistoryGap = ''HistoryGap''"
| "error_kind_debug QueryLimit = ''QueryLimit''"
| "error_kind_debug Conflict = ''Conflict''"
| "error_kind_debug Irreversible = ''Irreversible''"
| "error_kind_debug WorkerStopped = ''WorkerStopped''"
| "error_kind_debug OtherKind = ''Other''"

definition show_bool :: "bool \<Rightarrow> string" where
  "show_bool b = (if b then ''true'' else ''false'')"

definition cancelled_error :: "(uuid \<Rightarrow> string) \<Rightarrow> run_handle \<Rightarrow> error" where
  "cancelled_error ut h =
     with_target (ut (rh_instance_id h)) (new_error Cancelled [Lit ''run wait was cancelled''])"

definition timeout_error :: "(uuid \<Rightarrow> string) \<Rightarrow> run_handle \<Rightarrow> nat \<Rightarrow> wait_state \<Rightarrow> error" where
  "timeout_error ut h started_at st =
     with_context ''history''
       (case ws_history_error st of
          None \<Rightarrow> if ws_history_read st then ''readable_no_completion'' else ''not_probed''
        | Some kind \<Rightarrow> error_kind_debug kind)
     (with_context ''last_running''
       (if ws_running_read st then show_bool (ws_last_running st) else ''not_probed'')
     (with_context ''observed_running'' (show_bool (ws_observed_running st))
     (with_context ''wait_started_unix_seconds'' (show_nat started_at)
     (with_target (ut (rh_instance_id h))
       (new_error Timeout [Lit ''task run wait elapsed; exact completion is unconfirmed''])))))"

definition run_query :: "run_handle \<Rightarrow> history_query" where
  "run_query h =
     \<lparr>hq_task = Some (rh_path h), hq_instance_id = Some (rh_instance_id h), hq_since = None,
      hq_limit = Some 256, hq_forward = False\<rparr>"

text \<open>The history part of a round: a result of the wait, or the next state.\<close>

definition probe_history ::
  "'w observer \<Rightarrow> run_handle \<Rightarrow> wait_options \<Rightarrow> wait_state \<Rightarrow> 'w \<Rightarrow> (run_outcome result + wait_state) \<times> 'w" where
  "probe_history ob h opts st w =
     (if ws_history_error st \<noteq> None then (Inr st, w)
      else case ob_history ob (run_query h) w of
          (Inr events, w) \<Rightarrow>
            (case ingest h (ws_correlation st) events of
               (Some code, _) \<Rightarrow>
                 (Inl (Inr \<lparr>ro_instance_id = rh_instance_id h, ro_result_code = code, ro_confidence = Exact,
                          ro_fallback_reason = None\<rparr>), w)
             | (None, c) \<Rightarrow> (Inr (st\<lparr>ws_history_read := True, ws_correlation := c\<rparr>), w))
        | (Inl e, w) \<Rightarrow>
            if wo_allow_polling_fallback opts then (Inr (st\<lparr>ws_history_error := Some (e_kind e)\<rparr>), w)
            else (Inl (Inl (with_context ''completion'' ''unconfirmed'' e)), w))"

definition probe_running :: "'w observer \<Rightarrow> run_handle \<Rightarrow> wait_state \<Rightarrow> ('w, wait_state) effect" where
  "probe_running ob h st w =
     (case ob_running ob w of
        (Inl e, w) \<Rightarrow> (Inl e, w)
      | (Inr runs, w) \<Rightarrow>
          let last = list_ex (\<lambda>r. rt_instance_id r = rh_instance_id h) runs;
              st = st\<lparr>ws_last_running := last, ws_running_read := True\<rparr>
          in if last then (Inr (st\<lparr>ws_observed_running := True, ws_absent_since := None\<rparr>), w)
             else (case ob_elapsed ob w of (t, w) \<Rightarrow>
               (Inr (st\<lparr>ws_absent_since := Some (case ws_absent_since st of Some s \<Rightarrow> s | None \<Rightarrow> t)\<rparr>), w)))"

text \<open>The condition of the fallback, with its reads of the clock in their order.\<close>

definition grace_over :: "'w observer \<Rightarrow> wait_options \<Rightarrow> wait_state \<Rightarrow> 'w \<Rightarrow> bool \<times> 'w" where
  "grace_over ob opts st w =
     (if \<not> wo_allow_polling_fallback opts then (False, w)
      else case ws_absent_since st of
          None \<Rightarrow> (False, w)
        | Some since \<Rightarrow>
            (case ob_elapsed ob w of (t, w) \<Rightarrow>
               if \<not> t - since \<ge> wo_history_grace opts then (False, w)
               else if ws_observed_running st then (True, w)
               else (case ob_elapsed ob w of (t, w) \<Rightarrow> (t \<ge> wo_history_grace opts, w))))"

definition fall_back :: "'w observer \<Rightarrow> run_handle \<Rightarrow> wait_state \<Rightarrow> ('w, run_outcome) effect" where
  "fall_back ob h st w =
     (case ob_last_result ob (rh_path h) w of
        (Inl e, w) \<Rightarrow> (Inl e, w)
      | (Inr code, w) \<Rightarrow>
          (Inr \<lparr>ro_instance_id = rh_instance_id h, ro_result_code = code, ro_confidence = PollingFallback,
             ro_fallback_reason = Some (if ws_history_error st \<noteq> None then FallbackHistoryUnavailable
               else CompletionNotObserved)\<rparr>, w))"

definition pause :: "'w observer \<Rightarrow> wait_options \<Rightarrow> 'w \<Rightarrow> 'w" where
  "pause ob opts w =
     (case ob_elapsed ob w of (t, w) \<Rightarrow>
        ob_sleep ob (min (min (wo_poll_interval opts) (wo_timeout opts - t)) one_second) w)"

text \<open>One round of the loop. The cancellation flag is read from the world.\<close>

definition wait_round ::
  "(uuid \<Rightarrow> string) \<Rightarrow> 'w observer \<Rightarrow> run_handle \<Rightarrow> wait_options \<Rightarrow> ('w \<Rightarrow> bool) option \<Rightarrow> nat
     \<Rightarrow> wait_state \<Rightarrow> 'w \<Rightarrow> (run_outcome result + wait_state) \<times> 'w" where
  "wait_round ut ob h opts cancelled started_at st w =
     (if (case cancelled of Some flag \<Rightarrow> flag w | None \<Rightarrow> False) then (Inl (Inl (cancelled_error ut h)), w)
      else case ob_elapsed ob w of (t, w) \<Rightarrow>
        if t \<ge> wo_timeout opts then (Inl (Inl (timeout_error ut h started_at st)), w)
        else case probe_history ob h opts st w of
            (Inl r, w) \<Rightarrow> (Inl r, w)
          | (Inr st, w) \<Rightarrow>
              (case probe_running ob h st w of
                 (Inl e, w) \<Rightarrow> (Inl (Inl e), w)
               | (Inr st, w) \<Rightarrow>
                   (case grace_over ob opts st w of
                      (True, w) \<Rightarrow> (case fall_back ob h st w of (r, w) \<Rightarrow> (Inl r, w))
                    | (False, w) \<Rightarrow> (Inr st, pause ob opts w))))"

definition wait_loop ::
  "(uuid \<Rightarrow> string) \<Rightarrow> 'w observer \<Rightarrow> run_handle \<Rightarrow> wait_options \<Rightarrow> ('w \<Rightarrow> bool) option \<Rightarrow> nat
     \<Rightarrow> wait_state \<Rightarrow> 'w \<Rightarrow> (run_outcome result \<times> 'w) option" where
  "wait_loop ut ob h opts cancelled started_at = run_loop (wait_round ut ob h opts cancelled started_at)"

definition observe_run ::
  "(uuid \<Rightarrow> string) \<Rightarrow> 'w observer \<Rightarrow> run_handle \<Rightarrow> wait_options \<Rightarrow> ('w \<Rightarrow> bool) option \<Rightarrow> 'w
     \<Rightarrow> (run_outcome result \<times> 'w) option" where
  "observe_run ut ob h opts cancelled w =
     (if wo_poll_interval opts = 0 then
        Some (Inl (new_error InvalidDefinition [Lit ''run wait poll interval must be non-zero'']), w)
      else case ob_now ob w of (now, w) \<Rightarrow>
        wait_loop ut ob h opts cancelled (if now \<ge> 0 then nat now div one_second else 0) wait_start w)"

text \<open>The event source of a scan, over the readings of a log: events, and failures to read one.\<close>

fun pop_reading :: "((error + history_event) list, history_event option) effect" where
  "pop_reading [] = (Inr None, [])"
| "pop_reading (Inl e # readings) = (Inl e, readings)"
| "pop_reading (Inr event # readings) = (Inr (Some event), readings)"

section \<open>What correlation establishes\<close>

definition terminal_code :: "history_event \<Rightarrow> i32 option" where
  "terminal_code e =
     (case he_kind e of
        Completed \<Rightarrow> he_result_code e
      | Stopped \<Rightarrow> Some (case he_result_code e of Some r \<Rightarrow> r | None \<Rightarrow> 0x00041306)
      | EventFailed \<Rightarrow> if he_event_id e \<in> {101, 103, 104, 311} then he_result_code e else None
      | _ \<Rightarrow> None)"

definition action_code :: "history_event \<Rightarrow> i32 option" where
  "action_code e = (if he_kind e = ActionCompleted then he_result_code e else None)"

text \<open>The result of a run as a set of events tells it, without the incremental state: the code of the
  last terminal event of the run; when the run completed without one, the code of its latest action.\<close>

definition run_result :: "run_handle \<Rightarrow> history_event list \<Rightarrow> i32 \<Rightarrow> bool" where
  "run_result h events code \<longleftrightarrow>
     (\<exists>before e later. events = before @ e # later \<and> correlated h e \<and> terminal_code e = Some code
        \<and> (\<forall>x \<in> set later. correlated h x \<longrightarrow> terminal_code x = None))
     \<or> (\<forall>x \<in> set events. correlated h x \<longrightarrow> terminal_code x = None)
        \<and> (\<exists>x \<in> set events. correlated h x \<and> he_kind x = Completed)
        \<and> (\<exists>e \<in> set events. correlated h e \<and> action_code e = Some code
             \<and> (\<forall>x \<in> set events. correlated h x \<and> action_code x \<noteq> None \<longrightarrow> he_record_id x \<le> he_record_id e))"

definition ingest_all :: "run_handle \<Rightarrow> history_event list \<Rightarrow> correlation" where
  "ingest_all h events = foldl (ingest_event h) correlation_default events"

lemma ingest_all_simps [simp]:
  "ingest_all h [] = correlation_default"
  "ingest_all h (events @ [e]) = ingest_event h (ingest_all h events) e"
  by (simp_all add: ingest_all_def)

lemma ingest_event_effect:
  "co_terminal (ingest_event h c e) =
     (if correlated h e \<and> terminal_code e \<noteq> None then terminal_code e else co_terminal c)"
  "co_completed (ingest_event h c e) \<longleftrightarrow> co_completed c \<or> correlated h e \<and> he_kind e = Completed"
  "co_action (ingest_event h c e) =
     (case action_code e of
        Some code \<Rightarrow>
          if correlated h e \<and> (case co_action c of None \<Rightarrow> True | Some (r, _) \<Rightarrow> r < he_record_id e)
          then Some (he_record_id e, code) else co_action c
      | None \<Rightarrow> co_action c)"
  by (auto simp: ingest_event_def terminal_code_def action_code_def opt_or_def
      split: history_event_kind.split option.split)

lemma ingest_all_completed:
  "co_completed (ingest_all h events) \<longleftrightarrow> (\<exists>x \<in> set events. correlated h x \<and> he_kind x = Completed)"
  by (induction events rule: rev_induct) (auto simp: ingest_event_effect correlation_default_def)

lemma ingest_all_terminal_None:
  "co_terminal (ingest_all h events) = None \<longleftrightarrow>
     (\<forall>x \<in> set events. correlated h x \<longrightarrow> terminal_code x = None)"
  by (induction events rule: rev_induct) (auto simp: ingest_event_effect correlation_default_def)

lemma ingest_all_terminal_Some:
  "co_terminal (ingest_all h events) = Some code \<Longrightarrow>
     \<exists>before e later. events = before @ e # later \<and> correlated h e \<and> terminal_code e = Some code
        \<and> (\<forall>x \<in> set later. correlated h x \<longrightarrow> terminal_code x = None)"
proof (induction events rule: rev_induct)
  case (snoc e events)
  show ?case
  proof (cases "correlated h e \<and> terminal_code e \<noteq> None")
    case True
    then show ?thesis using snoc.prems by (intro exI[of _ events] exI[of _ e] exI[of _ "[]"]) (simp add: ingest_event_effect)
  next
    case False
    then obtain before x later where "events = before @ x # later" "correlated h x" "terminal_code x = Some code"
        "\<forall>y \<in> set later. correlated h y \<longrightarrow> terminal_code y = None"
      using snoc by (auto simp: ingest_event_effect)
    then show ?thesis using False
      by (intro exI[of _ before] exI[of _ x] exI[of _ "later @ [e]"]) auto
  qed
qed (simp add: correlation_default_def)

text \<open>The recorded action is the latest one with a code.\<close>

lemma ingest_all_action:
  "case co_action (ingest_all h events) of
     None \<Rightarrow> \<forall>x \<in> set events. correlated h x \<longrightarrow> action_code x = None
   | Some (r, code) \<Rightarrow>
       (\<exists>e \<in> set events. correlated h e \<and> action_code e = Some code \<and> he_record_id e = r)
       \<and> (\<forall>x \<in> set events. correlated h x \<and> action_code x \<noteq> None \<longrightarrow> he_record_id x \<le> r)"
proof (induction events rule: rev_induct)
  case (snoc e events)
  then show ?case
    by (auto simp: ingest_event_effect split: option.splits if_splits)
qed (simp add: correlation_default_def)

lemma correlation_outcome_result:
  assumes "correlation_outcome (ingest_all h events) = Some code"
  shows "run_result h events code"
proof (cases "co_terminal (ingest_all h events)")
  case (Some c)
  then have "c = code" using assms by (simp add: correlation_outcome_def opt_or_def)
  then show ?thesis using ingest_all_terminal_Some[of h events code] Some by (simp add: run_result_def)
next
  case None
  then obtain r where "co_completed (ingest_all h events)" "co_action (ingest_all h events) = Some (r, code)"
    using assms by (auto simp: correlation_outcome_def opt_or_def split: if_splits)
  then show ?thesis
    using ingest_all_action[where h = h and events = events] None
    unfolding run_result_def ingest_all_completed ingest_all_terminal_None by auto
qed

section \<open>Runs of the wait loop\<close>

text \<open>The events that the history part of a round reads.\<close>

definition round_events :: "'w observer \<Rightarrow> run_handle \<Rightarrow> wait_state \<Rightarrow> 'w \<Rightarrow> history_event list" where
  "round_events ob h st w =
     (if ws_history_error st \<noteq> None then []
      else case fst (ob_history ob (run_query h) (snd (ob_elapsed ob w))) of
          Inr events \<Rightarrow> events
        | Inl _ \<Rightarrow> [])"

text \<open>The states a wait can be in at the top of its loop, with all events it has read so far.\<close>

inductive wait_reaches ::
  "(uuid \<Rightarrow> string) \<Rightarrow> 'w observer \<Rightarrow> run_handle \<Rightarrow> wait_options \<Rightarrow> ('w \<Rightarrow> bool) option \<Rightarrow> 'w
     \<Rightarrow> history_event list \<Rightarrow> wait_state \<Rightarrow> 'w \<Rightarrow> bool"
  for ut ob h opts cancelled w0 where
  start: "wait_reaches ut ob h opts cancelled w0 [] wait_start (snd (ob_now ob w0))"
| round: "wait_reaches ut ob h opts cancelled w0 events st w \<Longrightarrow>
    wait_round ut ob h opts cancelled started_at st w = (Inr st', w') \<Longrightarrow>
    wait_reaches ut ob h opts cancelled w0 (events @ round_events ob h st w) st' w'"

lemma probe_history_continues:
  assumes "probe_history ob h opts st w = (Inr st', w')"
  shows "ws_correlation st' = foldl (ingest_event h) (ws_correlation st)
    (if ws_history_error st \<noteq> None then []
     else case fst (ob_history ob (run_query h) w) of Inr events \<Rightarrow> events | Inl _ \<Rightarrow> [])"
  using assms by (auto simp: probe_history_def ingest_def Let_def split: if_splits prod.splits sum.splits option.splits)

lemma probe_running_correlation:
  "probe_running ob h st w = (Inr st', w') \<Longrightarrow> ws_correlation st' = ws_correlation st"
  by (auto simp: probe_running_def Let_def split: if_splits prod.splits sum.splits)

lemma wait_round_Inr:
  assumes "wait_round ut ob h opts cancelled started_at st w = (Inr st', w')"
  obtains t u st1 v x y where "ob_elapsed ob w = (t, u)" "t < wo_timeout opts"
    "probe_history ob h opts st u = (Inr st1, v)" "probe_running ob h st1 v = (Inr st', x)"
    "grace_over ob opts st' x = (False, y)" "w' = pause ob opts y"
  using assms unfolding wait_round_def by (auto split: if_splits prod.splits sum.splits bool.splits)

lemma wait_round_continues:
  assumes "wait_round ut ob h opts cancelled started_at st w = (Inr st', w')"
  shows "ws_correlation st' = foldl (ingest_event h) (ws_correlation st) (round_events ob h st w)"
proof -
  obtain t u st1 v x where "ob_elapsed ob w = (t, u)" "probe_history ob h opts st u = (Inr st1, v)"
      "probe_running ob h st1 v = (Inr st', x)"
    using assms by (rule wait_round_Inr)
  then show ?thesis
    using probe_history_continues[of ob h opts st u st1 v] probe_running_correlation[of ob h st1 v st' x]
    by (simp add: round_events_def)
qed

lemma wait_reaches_correlation:
  "wait_reaches ut ob h opts cancelled w0 events st w \<Longrightarrow> ws_correlation st = ingest_all h events"
proof (induction rule: wait_reaches.induct)
  case start
  then show ?case by (simp add: wait_start_def)
next
  case (round events st w started_at st' w')
  then show ?case using wait_round_continues by (fastforce simp: ingest_all_def)
qed

text \<open>What a result of the wait rests on.\<close>

definition outcome_justified ::
  "(uuid \<Rightarrow> string) \<Rightarrow> 'w observer \<Rightarrow> run_handle \<Rightarrow> wait_options \<Rightarrow> ('w \<Rightarrow> bool) option \<Rightarrow> 'w \<Rightarrow> run_outcome \<Rightarrow> bool" where
  "outcome_justified ut ob h opts cancelled w0 o' \<longleftrightarrow>
     ro_instance_id o' = rh_instance_id h
     \<and> (case ro_confidence o' of
          Exact \<Rightarrow> ro_fallback_reason o' = None
            \<and> (\<exists>events st w. wait_reaches ut ob h opts cancelled w0 events st w
                 \<and> run_result h (events @ round_events ob h st w) (ro_result_code o'))
        | PollingFallback \<Rightarrow> wo_allow_polling_fallback opts \<and> ro_fallback_reason o' \<noteq> None
            \<and> (\<exists>u. fst (ob_last_result ob (rh_path h) u) = Inr (ro_result_code o')))"

lemma wait_round_result:
  assumes "wait_reaches ut ob h opts cancelled w0 events st w"
    and "wait_round ut ob h opts cancelled started_at st w = (Inl (Inr o'), w')"
  shows "outcome_justified ut ob h opts cancelled w0 o'"
proof -
  obtain t u where t: "ob_elapsed ob w = (t, u)" by fastforce
  note round = assms(2)[unfolded wait_round_def t prod.case]
  show ?thesis
  proof (cases "probe_history ob h opts st u")
    case (Pair r v)
    show ?thesis
    proof (cases r)
      case (Inl final)
      then have final: "final = Inr o'" using round Pair by (auto split: if_splits)
      then obtain evs code c where evs: "ob_history ob (run_query h) u = (Inr evs, v)" "ws_history_error st = None"
          "ingest h (ws_correlation st) evs = (Some code, c)"
          "o' = \<lparr>ro_instance_id = rh_instance_id h, ro_result_code = code, ro_confidence = Exact, ro_fallback_reason = None\<rparr>"
        using Pair Inl by (auto simp: probe_history_def split: if_splits prod.splits sum.splits option.splits)
      then have "correlation_outcome (ingest_all h (events @ round_events ob h st w)) = Some code"
        by (auto simp: round_events_def t ingest_all_def ingest_def Let_def
            wait_reaches_correlation[OF assms(1)])
      then have "run_result h (events @ round_events ob h st w) code" by (rule correlation_outcome_result)
      then show ?thesis using assms(1) evs(4) by (auto simp: outcome_justified_def)
    next
      case (Inr st1)
      then obtain st2 v2 v3 v4 where "grace_over ob opts st2 v2 = (True, v3)"
          "fall_back ob h st2 v3 = (Inr o', v4)"
        using round Pair by (auto split: if_splits prod.splits sum.splits bool.splits)
      then show ?thesis
        by (auto simp: outcome_justified_def grace_over_def fall_back_def split: if_splits prod.splits sum.splits)
          (metis fst_conv)+
    qed
  qed
qed

lemma wait_loop_result:
  assumes "wait_loop ut ob h opts cancelled started_at st w = Some (Inr o', w')"
    and "wait_reaches ut ob h opts cancelled w0 events st w"
  shows "outcome_justified ut ob h opts cancelled w0 o'"
proof -
  let ?I = "\<lambda>st w. \<exists>events. wait_reaches ut ob h opts cancelled w0 events st w"
  have "?I st w" using assms(2) by blast
  then have "\<exists>t u. ?I t u \<and> wait_round ut ob h opts cancelled started_at t u = (Inl (Inr o'), w')"
    by (rule run_loop_rule[OF assms(1)[unfolded wait_loop_def]]) (blast intro: wait_reaches.round)
  then obtain t u evs where "wait_reaches ut ob h opts cancelled w0 evs t u"
      "wait_round ut ob h opts cancelled started_at t u = (Inl (Inr o'), w')"
    by blast
  then show ?thesis by (rule wait_round_result)
qed

section \<open>Clocks\<close>

text \<open>What the loop needs of an observer to return: the clock it reads never goes back, and a sleep
  advances it by at least the time asked for.\<close>

locale advancing_clock =
  fixes ob :: "'w observer" and clock :: "'w \<Rightarrow> nanos"
  assumes elapsed: "fst (ob_elapsed ob w) = clock w" "clock w \<le> clock (snd (ob_elapsed ob w))"
    and history: "clock w \<le> clock (snd (ob_history ob query w))"
    and running: "clock w \<le> clock (snd (ob_running ob w))"
    and sleep: "clock w + d \<le> clock (ob_sleep ob d w)"

context advancing_clock begin

lemma elapsedD: "ob_elapsed ob w = (t, w') \<Longrightarrow> t = clock w \<and> clock w \<le> clock w'"
  using elapsed[of w] by simp

lemma probe_history_clock: "probe_history ob h opts st w = (r, w') \<Longrightarrow> clock w \<le> clock w'"
  using history[of w "run_query h"]
  by (auto simp: probe_history_def split: if_splits prod.splits sum.splits option.splits)

lemma probe_running_clock: "probe_running ob h st w = (r, w') \<Longrightarrow> clock w \<le> clock w'"
  using running[of w]
  by (auto simp: probe_running_def Let_def split: if_splits prod.splits sum.splits dest!: elapsedD)

lemma grace_over_clock: "grace_over ob opts st w = (r, w') \<Longrightarrow> clock w \<le> clock w'"
  by (auto simp: grace_over_def split: if_splits prod.splits option.splits dest!: elapsedD)

lemma pause_clock:
  assumes "0 < wo_poll_interval opts"
  shows "clock w < clock (pause ob opts w) \<or> wo_timeout opts \<le> clock (pause ob opts w)"
    and "clock w \<le> clock (pause ob opts w)"
proof -
  obtain t u where t: "ob_elapsed ob w = (t, u)" by fastforce
  let ?d = "min (min (wo_poll_interval opts) (wo_timeout opts - t)) one_second"
  have "clock w + ?d \<le> clock (pause ob opts w)"
    using sleep[of u ?d] elapsedD[OF t] by (simp add: pause_def t)
  then show "clock w < clock (pause ob opts w) \<or> wo_timeout opts \<le> clock (pause ob opts w)"
    and "clock w \<le> clock (pause ob opts w)"
    using assms elapsedD[OF t] by (auto simp: one_second_def min_def split: if_splits)
qed

text \<open>Each round that goes on brings the timeout nearer.\<close>

lemma wait_round_clock:
  assumes "wait_round ut ob h opts cancelled started_at st w = (Inr st', w')" and "0 < wo_poll_interval opts"
  shows "wo_timeout opts - clock w' < wo_timeout opts - clock w"
proof -
  obtain t u st1 v x y where r: "ob_elapsed ob w = (t, u)" "t < wo_timeout opts"
      "probe_history ob h opts st u = (Inr st1, v)" "probe_running ob h st1 v = (Inr st', x)"
      "grace_over ob opts st' x = (False, y)" "w' = pause ob opts y"
    using assms(1) by (rule wait_round_Inr)
  have "clock w \<le> clock y" "clock w < wo_timeout opts"
    using elapsedD[OF r(1)] r(2) probe_history_clock[OF r(3)] probe_running_clock[OF r(4)] grace_over_clock[OF r(5)]
    by auto
  then show ?thesis using pause_clock[OF assms(2), of y] r(6) by auto
qed

lemma wait_loop_returns:
  assumes "0 < wo_poll_interval opts"
  shows "\<exists>r. wait_loop ut ob h opts cancelled started_at st w = Some r"
  unfolding wait_loop_def
  by (rule run_loop_ends[where I = "\<lambda>_ _. True" and m = "\<lambda>_ w. wo_timeout opts - clock w"])
    (auto intro: wait_round_clock[OF _ assms])

lemma observe_run_returns: "\<exists>r. observe_run ut ob h opts cancelled w = Some r"
  by (cases "ob_now ob w") (simp add: observe_run_def wait_loop_returns del: split_paired_Ex)

end

section \<open>The observer of the tests\<close>

text \<open>The in-memory observer of the unit tests: history completes at a set time, sleeping advances the
  clock. Its check that queries have no \<open>since\<close> holds for every query of the loop.\<close>

record run_fixture =
  fx_elapsed :: nanos
  fx_fail_history :: bool
  fx_completion_at :: "nanos option"
  fx_instance :: uuid
  fx_last_result_reads :: nat

definition fixture_path :: task_path where
  "fixture_path = TaskPath (CHR 0x5C # ''Test'' @ CHR 0x5C # ''Run'')"

definition fixture_now :: "run_fixture \<Rightarrow> system_time" where
  "fixture_now w = int (100 * one_second + fx_elapsed w)"

definition fixture_history :: "history_query \<Rightarrow> (run_fixture, history_event list) effect" where
  "fixture_history query w =
     (if fx_fail_history w then (Inl (new_error AccessDenied [Lit ''history denied'']), w)
      else if (case fx_completion_at w of Some t \<Rightarrow> fx_elapsed w \<ge> t | None \<Rightarrow> False) then
        (Inr [\<lparr>he_record_id = 1, he_event_id = 102, he_kind = Completed, he_timestamp = fixture_now w,
               he_task_path = Some fixture_path, he_instance_id = Some (fx_instance w),
               he_result_code = Some 7, he_fields = [], he_message = None\<rparr>], w)
      else (Inr [], w))"

definition fixture_observer :: "run_fixture observer" where
  "fixture_observer =
     \<lparr>ob_history = fixture_history,
      ob_running = (\<lambda>w. (Inr [], w)),
      ob_last_result = (\<lambda>_ w. (Inr 99, w\<lparr>fx_last_result_reads := fx_last_result_reads w + 1\<rparr>)),
      ob_elapsed = (\<lambda>w. (fx_elapsed w, w)),
      ob_now = (\<lambda>w. (fixture_now w, w)),
      ob_sleep = (\<lambda>d w. w\<lparr>fx_elapsed := fx_elapsed w + d\<rparr>)\<rparr>"

interpretation fixture_clock: advancing_clock fixture_observer fx_elapsed
  by unfold_locales (auto simp: fixture_observer_def fixture_history_def)

section \<open>What a scan finds\<close>

definition scan_wanted :: "history_query \<Rightarrow> nat" where
  "scan_wanted query = (case hq_limit query of Some n \<Rightarrow> n | None \<Rightarrow> 256)"

definition scan_hits :: "history_query \<Rightarrow> (error + history_event) list \<Rightarrow> history_event list" where
  "scan_hits query readings =
     filter (query_matches query) (List.map_filter (case_sum (\<lambda>_. None) Some) readings)"

text \<open>A scan has what it looks for: as many matches as wanted, or, in exact mode, the result of the run.\<close>

definition scan_satisfied :: "history_query \<Rightarrow> bool \<Rightarrow> (error + history_event) list \<Rightarrow> bool" where
  "scan_satisfied query exact readings \<longleftrightarrow>
     scan_wanted query \<le> length (scan_hits query readings)
     \<or> exact \<and> (\<exists>path i code. hq_task query = Some path \<and> hq_instance_id query = Some i
         \<and> run_result \<lparr>rh_instance_id = i, rh_path = path, rh_engine_process_id = None\<rparr> (scan_hits query readings) code)"

text \<open>\<open>k\<close> is the number of events the scan reads.\<close>

definition scan_outcome :: "history_query \<Rightarrow> bool \<Rightarrow> nat \<Rightarrow> (error + history_event) list \<Rightarrow> history_event list result \<Rightarrow> bool" where
  "scan_outcome query exact maximum readings r \<longleftrightarrow>
     (\<exists>k \<le> min maximum (length readings).
        (\<forall>j < k. (\<exists>event. readings ! j = Inr event) \<and> \<not> scan_satisfied query exact (take j readings))
        \<and> (if 0 < maximum \<and> scan_satisfied query exact (take k readings) then r = Inr (scan_hits query (take k readings))
           else if k = maximum then
             r = Inl (new_error QueryLimit [Lit ''history query reached its scan limit; narrow the query''])
           else if k = length readings then r = Inr (scan_hits query readings)
           else \<exists>e. readings ! k = Inl e \<and> r = Inl e))"

lemma scan_hits_append [simp]:
  "scan_hits query [] = []"
  "scan_hits query (readings @ [Inr e]) =
     scan_hits query readings @ (if query_matches query e then [e] else [])"
  by (simp_all add: scan_hits_def List.map_filter_def)

lemma outcome_iff_result:
  "correlation_outcome (ingest_all h events) \<noteq> None \<longleftrightarrow> (\<exists>code. run_result h events code)"
proof
  assume "\<exists>code. run_result h events code"
  then show "correlation_outcome (ingest_all h events) \<noteq> None"
    using ingest_all_terminal_None[of h events] ingest_all_completed[of h events]
      ingest_all_action[where h = h and events = events]
    unfolding run_result_def correlation_outcome_def opt_or_def
    by (auto split: option.splits prod.splits if_splits)
qed (auto dest: correlation_outcome_result)

definition scan_handle :: "history_query \<Rightarrow> bool \<Rightarrow> run_handle option" where
  "scan_handle query exact = (case (exact, hq_task query, hq_instance_id query) of
     (True, Some path, Some i) \<Rightarrow> Some \<lparr>rh_instance_id = i, rh_path = path, rh_engine_process_id = None\<rparr>
   | _ \<Rightarrow> None)"

lemma scan_satisfied_iff:
  "scan_satisfied query exact readings \<longleftrightarrow> scan_wanted query \<le> length (scan_hits query readings)
     \<or> (case scan_handle query exact of
          Some h \<Rightarrow> correlation_outcome (ingest_all h (scan_hits query readings)) \<noteq> None | None \<Rightarrow> False)"
  unfolding outcome_iff_result
  by (auto simp: scan_satisfied_def scan_handle_def split: option.splits bool.splits)

lemma scan_satisfied_start: "scan_satisfied query exact [] \<Longrightarrow> scan_wanted query = 0"
  by (auto simp: scan_satisfied_def run_result_def)

lemma scan_loop_outcome:
  assumes "\<forall>j < length seen. (\<exists>event. seen ! j = Inr event) \<and> \<not> scan_satisfied query exact (take j seen)"
    and "scan_satisfied query exact seen \<Longrightarrow> seen = []"
    and "\<And>h. scan_handle query exact = Some h \<Longrightarrow> c = ingest_all h (scan_hits query seen)"
  shows "scan_outcome query exact (length seen + left) (seen @ readings)
    (fst (scan_loop query (scan_wanted query) (scan_handle query exact) pop_reading left c (scan_hits query seen) readings))"
  using assms
proof (induction left arbitrary: seen c readings)
  case 0
  then show ?case unfolding scan_outcome_def
    by (intro exI[of _ "length seen"]) (auto simp: nth_append)
next
  case (Suc left)
  show ?case
  proof (cases "length (scan_hits query seen) = scan_wanted query")
    case True
    then have "scan_satisfied query exact seen" by (simp add: scan_satisfied_def)
    then show ?thesis using Suc.prems(2) True unfolding scan_outcome_def
      by (intro exI[of _ 0]) auto
  next
    case False
    then have open_seen: "\<not> scan_satisfied query exact seen"
      using Suc.prems(2) scan_satisfied_start[of query exact] by auto
    then have few: "length (scan_hits query seen) < scan_wanted query" by (simp add: scan_satisfied_def)
    show ?thesis
    proof (cases readings rule: pop_reading.cases)
      case 1
      then show ?thesis using Suc.prems(1) False open_seen unfolding scan_outcome_def
        by (intro exI[of _ "length seen"]) auto
    next
      case (2 e rest)
      then show ?thesis using Suc.prems(1) False open_seen unfolding scan_outcome_def
        by (intro exI[of _ "length seen"]) (auto simp: nth_append)
    next
      case (3 event rest)
      let ?seen = "seen @ [Inr event]"
      have before: "\<forall>j < length ?seen. (\<exists>event. ?seen ! j = Inr event) \<and> \<not> scan_satisfied query exact (take j ?seen)"
        using Suc.prems(1) open_seen by (auto simp: nth_append less_Suc_eq)
      define c' where "c' = (case scan_handle query exact of None \<Rightarrow> c | Some h \<Rightarrow> ingest_event h c event)"
      have step: "scan_loop query (scan_wanted query) (scan_handle query exact) pop_reading (Suc left) c (scan_hits query seen) readings
        = (if query_matches query event \<and> scan_satisfied query exact ?seen then (Inr (scan_hits query ?seen), rest)
           else scan_loop query (scan_wanted query) (scan_handle query exact) pop_reading left
             (if query_matches query event then c' else c) (scan_hits query ?seen) rest)"
        using False few Suc.prems(3) unfolding 3 scan_satisfied_iff[of query exact ?seen]
        by (auto simp: ingest_def Let_def c'_def split: option.split)
      have same: "scan_satisfied query exact ?seen \<longleftrightarrow> scan_satisfied query exact seen" if "\<not> query_matches query event"
        using that by (simp add: scan_satisfied_def)
      show ?thesis
      proof (cases "scan_satisfied query exact ?seen")
        case True
        then have "query_matches query event" using same open_seen by blast
        then show ?thesis using True before unfolding step unfolding scan_outcome_def 3
          by (intro exI[of _ "length ?seen"]) (auto simp: nth_append less_Suc_eq)
      next
        case open': False
        have "scan_outcome query exact (length ?seen + left) (?seen @ rest)
          (fst (scan_loop query (scan_wanted query) (scan_handle query exact) pop_reading left
            (if query_matches query event then c' else c) (scan_hits query ?seen) rest))"
        proof (rule Suc.IH[OF before])
          show "(if query_matches query event then c' else c) = ingest_all h (scan_hits query ?seen)"
            if "scan_handle query exact = Some h" for h
            using Suc.prems(3)[OF that] that by (simp add: c'_def)
        qed (use open' in blast)
        then show ?thesis using open' unfolding step by (simp add: 3)
      qed
    qed
  qed
qed

section \<open>Properties\<close>

text \<open>C20. The result of a wait is justified. It names the run that was asked for. An exact result is the
  code that the events read by this wait establish: the code of the last terminal event of the run
  (completed, stopped or failed to launch), or after a completion without code that of its latest action;
  events of other runs never count. An estimate is only returned when the options permit it, and says why.\<close>

theorem run_outcome_justified:
  assumes "observe_run ut ob h opts cancelled w = Some (Inr o', w')"
  shows "outcome_justified ut ob h opts cancelled w o'"
proof -
  obtain now u where now: "ob_now ob w = (now, u)" by fastforce
  have "wait_reaches ut ob h opts cancelled w [] wait_start u"
    using wait_reaches.start[of ut ob h opts cancelled w] by (simp add: now)
  then show ?thesis using assms wait_loop_result by (auto simp: observe_run_def now split: if_splits)
qed

definition sample_run :: run_fixture where
  "sample_run = \<lparr>fx_elapsed = 0, fx_fail_history = False, fx_completion_at = Some 0, fx_instance = 0,
     fx_last_result_reads = 0\<rparr>"

definition sample_handle :: run_handle where
  "sample_handle = \<lparr>rh_instance_id = 0, rh_path = fixture_path, rh_engine_process_id = None\<rparr>"

lemma run_outcome_justified_witness:
  "outcome_justified (\<lambda>_. []) fixture_observer sample_handle wait_options_default None sample_run
     \<lparr>ro_instance_id = 0, ro_result_code = 7, ro_confidence = Exact, ro_fallback_reason = None\<rparr>"
  by (rule run_outcome_justified[of _ _ _ _ _ _ _ sample_run])
    (simp add: observe_run_def wait_loop_def run_loop.simps wait_round_def probe_history_def fixture_observer_def
      fixture_history_def sample_run_def sample_handle_def wait_options_default_def one_second_def wait_start_def
      ingest_def ingest_event_def correlated_def correlation_outcome_def correlation_default_def opt_or_def)

text \<open>C21. Waiting always returns. With an observer whose clock never goes back and advances by at least
  the time slept, \<open>observe_run\<close> returns for every handle and all options, also without a completion, with
  unreadable history and when the run never ends.\<close>

theorem wait_returns:
  assumes "advancing_clock ob clock"
  shows "\<exists>result w'. observe_run ut ob h opts cancelled w = Some (result, w')"
  using advancing_clock.observe_run_returns[OF assms, of ut h opts cancelled w] by auto

lemma wait_returns_witness:
  "\<exists>result w'. observe_run (\<lambda>_. []) fixture_observer sample_handle wait_options_default None
     (sample_run\<lparr>fx_completion_at := None\<rparr>) = Some (result, w')"
  by (rule wait_returns[OF fixture_clock.advancing_clock_axioms])

text \<open>C22. The bounded scan is exact, in both of its modes and over any sequence of readings, failed ones
  included. It reads events one after another until it has as many matches as the query's limit or, in exact
  mode for one run, matches that tell the result of that run, and then returns the matches so far: it stops at
  the first such event. A failure to read before that is its result; the end of the log before that gives all
  matches; and the scan limit is reported exactly when the maximum number of events was read without any of
  these.\<close>

theorem scan_history_exact:
  "scan_outcome query exact maximum readings (fst (scan_history query exact maximum pop_reading readings))"
  using scan_loop_outcome[of "[]" query exact correlation_default maximum readings]
  by (simp add: scan_history_def scan_wanted_def scan_handle_def ingest_all_def Let_def)

end
