(* ===== verification/Watch.thy ===== *)
theory Watch
  imports Wait
begin

text \<open>
  Watching the event log (\<open>client/watch.rs\<close> and \<open>watch_history\<close> of \<open>client/mod.rs\<close>): bounded pages that
  continue at a verified anchor, and their delivery through a bounded channel. The native source is the
  source's trait \<open>PageSource\<close>, operations on a state. Delivery runs beside its consumer and never has to
  end, so it is a step relation: the program points of \<open>deliver\<close> and \<open>send\<close>, and the moves of the consumer
  and of the log between them.
\<close>

section \<open>Pages\<close>

record cursor =
  cu_bookmark :: string
  cu_record_id :: u64
  cu_timestamp :: system_time

record page =
  pg_events :: "history_event list"
  pg_cursor :: "cursor option"
  pg_more :: bool

text \<open>\<open>jiff::Timestamp::try_from\<close> with its \<open>Display\<close> is the parameter \<open>timestamp\<close>; \<open>None\<close> is out of range.\<close>

definition history_xpath :: "(system_time \<Rightarrow> string option) \<Rightarrow> system_time option \<Rightarrow> string result" where
  "history_xpath timestamp since =
     (case since of
        None \<Rightarrow> Inr ''*''
      | Some t \<Rightarrow>
          (case timestamp t of
             None \<Rightarrow> Inl (new_error InvalidDefinition [Lit ''history start time is outside the supported range''])
           | Some s \<Rightarrow> Inr (''*[System[TimeCreated[@SystemTime >= '' @ [CHR 0x27] @ s @ [CHR 0x27] @ '']]]'')))"

record ('s, 'h) page_source =
  ps_seek :: "cursor \<Rightarrow> ('s, unit) effect"
  ps_next :: "nat \<Rightarrow> ('s, 'h list) effect"
  ps_render :: "'h \<Rightarrow> ('s, history_event) effect"
  ps_bookmark :: "'h \<Rightarrow> ('s, string) effect"

definition gap :: error where
  "gap = with_operation ''history.resume''
     (new_error HistoryGap [Lit ''history continuation anchor is missing or changed''])"

text \<open>The anchor of a continuation is read again and compared before anything after it is read.\<close>

definition check_anchor :: "('s, 'h) page_source \<Rightarrow> cursor option \<Rightarrow> ('s, unit) effect" where
  "check_anchor src cur =
     (case cur of
        None \<Rightarrow> done_with ()
      | Some c \<Rightarrow>
          and_then (ps_seek src c) (\<lambda>_.
          and_then (ps_next src 1) (\<lambda>handles.
            case handles of
              [] \<Rightarrow> fail_with gap
            | anchor # _ \<Rightarrow>
                and_then (ps_render src anchor) (\<lambda>e.
                  if he_record_id e \<noteq> cu_record_id c \<or> he_timestamp e \<noteq> cu_timestamp c
                  then fail_with gap else done_with ()))))"

fun read_events ::
  "('s, 'h) page_source \<Rightarrow> history_query \<Rightarrow> 'h list \<Rightarrow> cursor option \<Rightarrow> history_event list
     \<Rightarrow> ('s, cursor option \<times> history_event list) effect" where
  "read_events src query [] cur events = done_with (cur, events)"
| "read_events src query (handle # handles) cur events =
     and_then (ps_render src handle) (\<lambda>e.
     and_then (ps_bookmark src handle) (\<lambda>b.
       let cur = Some \<lparr>cu_bookmark = b, cu_record_id = he_record_id e, cu_timestamp = he_timestamp e\<rparr>
       in if \<not> query_matches query e then read_events src query handles cur events
          else read_events src query handles cur (events @ [e])))"

definition read_page :: "('s, 'h) page_source \<Rightarrow> history_query \<Rightarrow> cursor option \<Rightarrow> ('s, page) effect" where
  "read_page src query cur =
     and_then (check_anchor src cur) (\<lambda>_.
     and_then (ps_next src 256) (\<lambda>handles.
     and_then (read_events src query handles cur []) (\<lambda>(next_cursor, events).
       done_with \<lparr>pg_events = events, pg_cursor = next_cursor, pg_more = (length handles = 256)\<rparr>)))"

text \<open>One fetch of the native session (\<open>EventAccess::page\<close>): a new query of the channel, then a page of it.\<close>

definition history_page ::
  "(system_time \<Rightarrow> string option) \<Rightarrow> (string \<Rightarrow> cursor option \<Rightarrow> ('s, unit) effect) \<Rightarrow> ('s, 'h) page_source
     \<Rightarrow> history_query \<Rightarrow> cursor option \<Rightarrow> ('s, page) effect" where
  "history_page timestamp open_query src query cur =
     and_then (lift_result (history_xpath timestamp (hq_since query))) (\<lambda>xpath.
     and_then (open_query xpath cur) (\<lambda>_. read_page src query cur))"

section \<open>Delivery\<close>

text \<open>The program points of \<open>deliver\<close>: the top of its loop, the events of a page still to be sent (with the
  flag \<open>more\<close>), the error to be sent, the wait for the interval, and its end.\<close>

datatype watch_point =
    Polling
  | Sending "history_event list" bool
  | Failing error
  | Idle
  | Finished

record 's watcher =
  wa_point :: watch_point
  wa_cursor :: "cursor option"
  wa_queue :: "history_event result list" \<comment> \<open>the bounded channel, oldest first\<close>
  wa_connected :: bool \<comment> \<open>the receiver exists\<close>
  wa_stop :: bool \<comment> \<open>a stop was sent or its sender dropped\<close>
  wa_received :: "history_event result list" \<comment> \<open>what the iterator has returned\<close>
  wa_source :: 's

text \<open>Steps of the delivery thread, then those of the \<open>HistoryWatcher\<close> and of the log.\<close>

inductive watch_step ::
  "(cursor option \<Rightarrow> ('s, page) effect) \<Rightarrow> nat \<Rightarrow> ('s \<Rightarrow> 's \<Rightarrow> bool) \<Rightarrow> 's watcher \<Rightarrow> 's watcher \<Rightarrow> bool"
  for fetch capacity evolves where
  stop_polling: "wa_point W = Polling \<Longrightarrow> wa_stop W \<Longrightarrow>
    watch_step fetch capacity evolves W (W\<lparr>wa_point := Finished\<rparr>)"
| fetched: "wa_point W = Polling \<Longrightarrow> \<not> wa_stop W \<Longrightarrow> fetch (wa_cursor W) (wa_source W) = (Inr page, s) \<Longrightarrow>
    watch_step fetch capacity evolves W
      (W\<lparr>wa_point := Sending (pg_events page) (pg_more page), wa_cursor := pg_cursor page, wa_source := s\<rparr>)"
| fetch_timeout: "wa_point W = Polling \<Longrightarrow> \<not> wa_stop W \<Longrightarrow> fetch (wa_cursor W) (wa_source W) = (Inl e, s) \<Longrightarrow>
    e_kind e = Timeout \<Longrightarrow> watch_step fetch capacity evolves W (W\<lparr>wa_point := Idle, wa_source := s\<rparr>)"
| fetch_failed: "wa_point W = Polling \<Longrightarrow> \<not> wa_stop W \<Longrightarrow> fetch (wa_cursor W) (wa_source W) = (Inl e, s) \<Longrightarrow>
    e_kind e \<noteq> Timeout \<Longrightarrow> watch_step fetch capacity evolves W (W\<lparr>wa_point := Failing e, wa_source := s\<rparr>)"
| send_event: "wa_point W = Sending (e # es) again \<Longrightarrow> wa_connected W \<Longrightarrow> length (wa_queue W) < capacity \<Longrightarrow>
    watch_step fetch capacity evolves W
      (W\<lparr>wa_point := Sending es again, wa_queue := wa_queue W @ [Inr e]\<rparr>)"
| send_error: "wa_point W = Failing e \<Longrightarrow> wa_connected W \<Longrightarrow> length (wa_queue W) < capacity \<Longrightarrow>
    watch_step fetch capacity evolves W (W\<lparr>wa_point := Finished, wa_queue := wa_queue W @ [Inl e]\<rparr>)"
| send_disconnected: "wa_point W = Sending (e # es) again \<or> wa_point W = Failing e' \<Longrightarrow> \<not> wa_connected W \<Longrightarrow>
    watch_step fetch capacity evolves W (W\<lparr>wa_point := Finished\<rparr>)"
| send_stopped: "wa_point W = Sending (e # es) again \<or> wa_point W = Failing e' \<Longrightarrow> wa_connected W \<Longrightarrow>
    capacity \<le> length (wa_queue W) \<Longrightarrow> wa_stop W \<Longrightarrow>
    watch_step fetch capacity evolves W (W\<lparr>wa_point := Finished\<rparr>)"
| page_sent: "wa_point W = Sending [] again \<Longrightarrow>
    watch_step fetch capacity evolves W (W\<lparr>wa_point := (if again then Polling else Idle)\<rparr>)"
| idle_stopped: "wa_point W = Idle \<Longrightarrow> wa_stop W \<Longrightarrow>
    watch_step fetch capacity evolves W (W\<lparr>wa_point := Finished\<rparr>)"
| idle_over: "wa_point W = Idle \<Longrightarrow> \<not> wa_stop W \<Longrightarrow>
    watch_step fetch capacity evolves W (W\<lparr>wa_point := Polling\<rparr>)"
| receive: "wa_connected W \<Longrightarrow> wa_queue W = r # rest \<Longrightarrow>
    watch_step fetch capacity evolves W (W\<lparr>wa_queue := rest, wa_received := wa_received W @ [r]\<rparr>)"
| request_stop: "watch_step fetch capacity evolves W (W\<lparr>wa_stop := True\<rparr>)"
| drop_watcher: "watch_step fetch capacity evolves W (W\<lparr>wa_stop := True, wa_connected := False\<rparr>)"
| log_changes: "evolves (wa_source W) s \<Longrightarrow> watch_step fetch capacity evolves W (W\<lparr>wa_source := s\<rparr>)"

definition watch_start :: "'s \<Rightarrow> 's watcher" where
  "watch_start s =
     \<lparr>wa_point = Polling, wa_cursor = None, wa_queue = [], wa_connected = True, wa_stop = False,
      wa_received = [], wa_source = s\<rparr>"

inductive watch_reachable ::
  "(cursor option \<Rightarrow> ('s, page) effect) \<Rightarrow> nat \<Rightarrow> ('s \<Rightarrow> 's \<Rightarrow> bool) \<Rightarrow> 's \<Rightarrow> 's watcher \<Rightarrow> bool"
  for fetch capacity evolves s0 where
  start: "watch_reachable fetch capacity evolves s0 (watch_start s0)"
| step: "watch_reachable fetch capacity evolves s0 W \<Longrightarrow> watch_step fetch capacity evolves W W' \<Longrightarrow>
    watch_reachable fetch capacity evolves s0 W'"

text \<open>\<open>watch_history\<close>: the checks and the query that the delivery thread gets.\<close>

definition WATCH_CAPACITY :: nat where "WATCH_CAPACITY = 256"

definition watch_query :: "system_time \<Rightarrow> history_query \<Rightarrow> nanos \<Rightarrow> history_query result" where
  "watch_query now query poll_interval =
     (if poll_interval = 0 then
        Inl (new_error InvalidDefinition [Lit ''history watch poll interval must be non-zero''])
      else Inr (query\<lparr>hq_forward := True,
        hq_since := Some (case hq_since query of Some t \<Rightarrow> t | None \<Rightarrow> now)\<rparr>))"

section \<open>The contract of the event log\<close>

text \<open>A page source reads the results of a channel query, oldest first. Reading never changes them; \<open>next\<close>
  hands out what follows the position, whatever \<open>seek\<close> did to it; a handle renders as its event.\<close>

definition event_key :: "history_event \<Rightarrow> u64 \<times> system_time" where
  "event_key e = (he_record_id e, he_timestamp e)"

locale event_log =
  fixes src :: "('s, 'h) page_source" and log :: "'s \<Rightarrow> history_event list" and pos :: "'s \<Rightarrow> nat"
    and event_of :: "'h \<Rightarrow> history_event"
  assumes seek_log: "log (snd (ps_seek src c s)) = log s"
    and next_log: "log (snd (ps_next src n s)) = log s"
    and next_events: "ps_next src n s = (Inr handles, s') \<Longrightarrow>
      map event_of handles = take n (drop (pos s) (log s)) \<and> pos s' = pos s + length handles"
    and render_log: "log (snd (ps_render src h s)) = log s" "pos (snd (ps_render src h s)) = pos s"
    and render_event: "ps_render src h s = (Inr e, s') \<Longrightarrow> e = event_of h"
    and bookmark_log: "log (snd (ps_bookmark src h s)) = log s" "pos (snd (ps_bookmark src h s)) = pos s"

text \<open>The position after a cursor: behind the one event with the cursor's identity.\<close>

definition positioned :: "history_event list \<Rightarrow> cursor option \<Rightarrow> nat \<Rightarrow> bool" where
  "positioned L cur p \<longleftrightarrow>
     (case cur of
        None \<Rightarrow> p = 0
      | Some c \<Rightarrow> \<exists>i. p = Suc i \<and> i < length L \<and> event_key (L ! i) = (cu_record_id c, cu_timestamp c))"

lemma positionedI:
  "p = Suc i \<Longrightarrow> i < length L \<Longrightarrow> event_key (L ! i) = (cu_record_id c, cu_timestamp c) \<Longrightarrow> positioned L (Some c) p"
  by (simp add: positioned_def)

lemma positioned_append: "positioned L cur p \<Longrightarrow> prefix L L' \<Longrightarrow> positioned L' cur p"
  by (auto simp: positioned_def prefix_def nth_append split: option.splits)

lemma positioned_le: "positioned L cur p \<Longrightarrow> p \<le> length L"
  by (auto simp: positioned_def split: option.splits)

lemma prefix_take: "prefix L L' \<Longrightarrow> p \<le> length L \<Longrightarrow> take p L' = take p L"
  by (auto simp: prefix_def)

context event_log begin

lemma seekD: "ps_seek src c s = (r, s') \<Longrightarrow> log s' = log s"
  using seek_log[of c s] by simp

lemma nextD: "ps_next src n s = (r, s') \<Longrightarrow> log s' = log s"
  using next_log[of n s] by simp

lemma renderD: "ps_render src h s = (r, s') \<Longrightarrow> log s' = log s \<and> pos s' = pos s"
  using render_log[of h s] by simp

lemma bookmarkD: "ps_bookmark src h s = (r, s') \<Longrightarrow> log s' = log s \<and> pos s' = pos s"
  using bookmark_log[of h s] by simp

lemma check_anchor_log: "check_anchor src cur s = (r, s') \<Longrightarrow> log s' = log s"
  by (auto simp: check_anchor_def effect_defs split: option.splits prod.splits sum.splits list.splits if_splits
      dest!: seekD nextD renderD)

text \<open>A verified anchor leaves the source right behind the cursor, wherever \<open>seek\<close> went.\<close>

lemma check_anchor_position:
  assumes "check_anchor src cur s = (Inr (), s')" and "distinct (map event_key (log s))"
    and "positioned (log s) cur p" and "pos s = 0"
  shows "pos s' = p"
proof (cases cur)
  case None
  then show ?thesis using assms by (simp add: check_anchor_def positioned_def effect_defs)
next
  case (Some c)
  then obtain u1 u2 anchor rest e where seek: "ps_seek src c s = (Inr (), u1)"
      and next1: "ps_next src 1 u1 = (Inr (anchor # rest), u2)"
      and render: "ps_render src anchor u2 = (Inr e, s')"
      and key: "event_key e = (cu_record_id c, cu_timestamp c)"
    using assms(1) by (auto simp: check_anchor_def effect_defs event_key_def
        split: prod.splits sum.splits list.splits if_splits)
  have log: "log u1 = log s" by (rule seekD[OF seek])
  have taken: "map event_of (anchor # rest) = take 1 (drop (pos u1) (log s))"
      "pos u2 = pos u1 + length (anchor # rest)"
    using next_events[OF next1] by (simp_all only: log)
  have j: "pos u1 < length (log s)" "rest = []"
    using arg_cong[OF taken(1), of length] by (cases rest; simp add: min_def split: if_splits)+
  have anchor: "event_of anchor = log s ! pos u1"
    using arg_cong[OF taken(1), of hd] j(1) by (simp add: hd_drop_conv_nth)
  obtain i where i: "p = Suc i" "i < length (log s)" "event_key (log s ! i) = (cu_record_id c, cu_timestamp c)"
    using assms(3) Some by (auto simp: positioned_def)
  have "map event_key (log s) ! pos u1 = map event_key (log s) ! i"
    using i j anchor render_event[OF render] key by simp
  then have "pos u1 = i" using i(2) j(1) nth_eq_iff_index_eq[OF assms(2), of "pos u1" i] by simp
  then show ?thesis using taken(2) j(2) i(1) renderD[OF render] by simp
qed

lemma read_events_log: "read_events src query handles cur events s = (r, s') \<Longrightarrow> log s' = log s"
proof (induction handles arbitrary: cur events s)
  case (Cons h handles)
  then show ?case
    by (auto simp: effect_defs Let_def split: prod.splits sum.splits if_splits dest!: renderD bookmarkD)
qed (simp add: effect_defs)

lemma read_events_ok:
  "read_events src query handles cur events s = (Inr (cur', events'), s') \<Longrightarrow>
     events' = events @ filter (query_matches query) (map event_of handles)
     \<and> (if handles = [] then cur' = cur
         else \<exists>c. cur' = Some c \<and> event_key (event_of (last handles)) = (cu_record_id c, cu_timestamp c))"
proof (induction handles arbitrary: cur events s)
  case (Cons h handles)
  then obtain e u b v where h: "ps_render src h s = (Inr e, u)" "ps_bookmark src h u = (Inr b, v)"
      and rest: "read_events src query handles
        (Some \<lparr>cu_bookmark = b, cu_record_id = he_record_id e, cu_timestamp = he_timestamp e\<rparr>)
        (if query_matches query e then events @ [e] else events) v = (Inr (cur', events'), s')"
    by (auto simp: effect_defs Let_def split: prod.splits sum.splits if_splits)
  have "e = event_of h" by (rule render_event[OF h(1)])
  then show ?case using Cons.IH[OF rest] by (auto simp: event_key_def split: if_splits)
qed (simp add: effect_defs)

lemma read_page_log: "read_page src query cur s = (r, s') \<Longrightarrow> log s' = log s"
  by (auto simp: read_page_def effect_defs split: prod.splits sum.splits
      dest!: check_anchor_log nextD read_events_log)

text \<open>A page holds the matches among what directly follows its cursor, and its own cursor follows them.\<close>

lemma read_page_ok:
  assumes "read_page src query cur s = (Inr page, s')" and "distinct (map event_key (log s))"
    and "positioned (log s) cur p" and "pos s = 0"
  obtains k where "pg_events page = filter (query_matches query) (take k (drop p (log s)))"
    "positioned (log s) (pg_cursor page) (p + k)" "pg_more page \<longleftrightarrow> k = 256"
    "k = min 256 (length (log s) - p)"
proof -
  obtain u v handles cur' events where anchor: "check_anchor src cur s = (Inr (), u)"
      and next1: "ps_next src 256 u = (Inr handles, v)"
      and events: "read_events src query handles cur [] v = (Inr (cur', events), s')"
      and page: "page = \<lparr>pg_events = events, pg_cursor = cur', pg_more = (length handles = 256)\<rparr>"
    using assms(1) by (auto simp: read_page_def effect_defs split: prod.splits sum.splits)
  have pos: "pos u = p" by (rule check_anchor_position[OF anchor assms(2-4)])
  have taken: "map event_of handles = take 256 (drop p (log s))"
    using next_events[OF next1] by (simp add: pos check_anchor_log[OF anchor])
  have k: "length handles = min 256 (length (log s) - p)" using arg_cong[OF taken, of length] by (simp add: min.commute)
  then have same: "map event_of handles = take (length handles) (drop p (log s))"
    using taken by (simp add: min_def split: if_splits)
  note ok = read_events_ok[OF events]
  have "positioned (log s) cur' (p + length handles)"
  proof (cases "handles = []")
    case True
    then show ?thesis using ok assms(3) by simp
  next
    case False
    then have n: "length handles - 1 < length handles" by simp
    have "event_of (handles ! (length handles - 1)) = log s ! (p + (length handles - 1))"
      using arg_cong[OF same, of "\<lambda>es. es ! (length handles - 1)"] n positioned_le[OF assms(3)]
      by (simp only: nth_map nth_take) (simp add: k)
    then have last: "event_of (last handles) = log s ! (p + length handles - 1)"
      using False n by (simp add: last_conv_nth)
    have bounds: "p + length handles = Suc (p + length handles - 1)" "p + length handles - 1 < length (log s)"
      using n k by linarith+
    obtain c where c: "cur' = Some c" "event_key (event_of (last handles)) = (cu_record_id c, cu_timestamp c)"
      using ok False by auto
    show ?thesis unfolding c(1) by (rule positionedI[OF bounds]) (use c(2) last in simp)
  qed
  then show ?thesis using that[of "length handles"] ok k same page by simp
qed

end

section \<open>Delivery in order\<close>

text \<open>What has been handed over so far agrees with the log up to the cursor; the events of a page still to
  be sent come next; at most one error ends the sequence.\<close>

definition sent_up_to :: "history_query \<Rightarrow> history_event list \<Rightarrow> 's watcher \<Rightarrow> history_event list \<Rightarrow> bool" where
  "sent_up_to query L W unsent \<longleftrightarrow>
     (\<exists>sent p. wa_received W @ wa_queue W = map Inr sent \<and> positioned L (wa_cursor W) p
        \<and> sent @ unsent = filter (query_matches query) (take p L))"

definition sent_in_order :: "history_query \<Rightarrow> history_event list \<Rightarrow> 's watcher \<Rightarrow> bool" where
  "sent_in_order query L W \<longleftrightarrow>
     (\<exists>sent errors. wa_received W @ wa_queue W = map Inr sent @ map Inl errors \<and> length errors \<le> 1
        \<and> (errors \<noteq> [] \<longrightarrow> wa_point W = Finished) \<and> prefix sent (filter (query_matches query) L))"

fun point_inv :: "history_query \<Rightarrow> history_event list \<Rightarrow> 's watcher \<Rightarrow> watch_point \<Rightarrow> bool" where
  "point_inv query L W (Sending es again) = sent_up_to query L W es"
| "point_inv query L W Finished = sent_in_order query L W"
| "point_inv query L W _ = sent_up_to query L W []"

definition watch_inv :: "history_query \<Rightarrow> nat \<Rightarrow> history_event list \<Rightarrow> 's watcher \<Rightarrow> bool" where
  "watch_inv query capacity L W \<longleftrightarrow>
     distinct (map event_key L) \<and> length (wa_queue W) \<le> capacity \<and> point_inv query L W (wa_point W)"

lemma prefix_filter: "prefix xs ys \<Longrightarrow> prefix (filter P xs) (filter P ys)"
  by (auto simp: prefix_def)

lemma sent_up_to_prefix:
  assumes "sent_up_to query L W unsent"
  obtains sent where "wa_received W @ wa_queue W = map Inr sent" "prefix sent (filter (query_matches query) L)"
proof -
  obtain sent p where sent: "wa_received W @ wa_queue W = map Inr sent"
      "sent @ unsent = filter (query_matches query) (take p L)"
    using assms by (auto simp: sent_up_to_def)
  have "prefix sent (filter (query_matches query) (take p L))" using sent(2) by (metis prefixI)
  then show ?thesis using that sent(1) prefix_filter[OF take_is_prefix] prefix_order.trans by metis
qed

lemma sent_up_to_in_order:
  assumes "sent_up_to query L W unsent"
  shows "sent_in_order query L W"
  using assms
proof (rule sent_up_to_prefix)
  fix sent assume "wa_received W @ wa_queue W = map Inr sent" "prefix sent (filter (query_matches query) L)"
  then show ?thesis unfolding sent_in_order_def by (intro exI[of _ sent] exI[of _ "[]"]) simp
qed

lemma point_inv_in_order: "point_inv query L W pt \<Longrightarrow> sent_in_order query L W"
  by (cases pt) (auto intro: sent_up_to_in_order)

text \<open>The state of the channel enters these facts only through the whole sequence.\<close>

lemma sent_up_to_cong:
  "wa_received W' @ wa_queue W' = wa_received W @ wa_queue W \<Longrightarrow> wa_cursor W' = wa_cursor W \<Longrightarrow>
     sent_up_to query L W' unsent = sent_up_to query L W unsent"
  by (simp add: sent_up_to_def)

lemma sent_in_order_finished:
  "sent_in_order query L W \<Longrightarrow> wa_received W' @ wa_queue W' = wa_received W @ wa_queue W \<Longrightarrow>
     wa_point W' = Finished \<Longrightarrow> sent_in_order query L W'"
  unfolding sent_in_order_def by auto

lemma finish_inv: "watch_inv query capacity L W \<Longrightarrow> watch_inv query capacity L (W\<lparr>wa_point := Finished\<rparr>)"
  using point_inv_in_order[of query L W "wa_point W"] sent_in_order_finished[of query L W "W\<lparr>wa_point := Finished\<rparr>"]
  by (simp add: watch_inv_def)

lemma point_inv_cong:
  assumes "wa_received W' @ wa_queue W' = wa_received W @ wa_queue W" "wa_cursor W' = wa_cursor W"
    "wa_point W' = wa_point W"
  shows "point_inv query L W' pt = point_inv query L W pt"
  using assms by (cases pt) (simp_all add: sent_up_to_def sent_in_order_def)

lemma sent_up_to_grows: "sent_up_to query L W unsent \<Longrightarrow> prefix L L' \<Longrightarrow> sent_up_to query L' W unsent"
  unfolding sent_up_to_def by (metis positioned_append positioned_le prefix_take)

lemma sent_in_order_grows: "sent_in_order query L W \<Longrightarrow> prefix L L' \<Longrightarrow> sent_in_order query L' W"
  unfolding sent_in_order_def using prefix_order.trans[OF _ prefix_filter[of L L']] by blast

lemma point_inv_grows: "point_inv query L W pt \<Longrightarrow> prefix L L' \<Longrightarrow> point_inv query L' W pt"
  by (cases pt) (auto intro: sent_up_to_grows sent_in_order_grows)

lemma sent_event:
  assumes "sent_up_to query L W (e # es)"
  shows "sent_up_to query L (W\<lparr>wa_point := pt, wa_queue := wa_queue W @ [Inr e]\<rparr>) es"
proof -
  obtain sent p where sent: "wa_received W @ wa_queue W = map Inr sent" "positioned L (wa_cursor W) p"
      "sent @ e # es = filter (query_matches query) (take p L)"
    using assms by (auto simp: sent_up_to_def)
  then have "wa_received W @ wa_queue W @ [Inr e] = map Inr (sent @ [e])" by (metis append.assoc list.simps(8,9) map_append)
  then show ?thesis unfolding sent_up_to_def using sent by (intro exI[of _ "sent @ [e]"] exI[of _ p]) simp
qed

lemma sent_error:
  assumes "sent_up_to query L W unsent"
  shows "sent_in_order query L (W\<lparr>wa_point := Finished, wa_queue := wa_queue W @ [Inl e]\<rparr>)"
proof -
  obtain sent where sent: "wa_received W @ wa_queue W = map Inr sent" "prefix sent (filter (query_matches query) L)"
    using assms by (rule sent_up_to_prefix)
  then have "wa_received W @ wa_queue W @ [Inl e] = map Inr sent @ map Inl [e]" by (simp flip: append_assoc)
  then show ?thesis unfolding sent_in_order_def using sent(2) by (intro exI[of _ sent] exI[of _ "[e]"]) simp
qed

text \<open>Opening a query starts at its first event and changes nothing; between the steps of the thread the
  log only grows, and the identities of its events stay unique.\<close>

locale watched_log = event_log src log pos event_of
  for src :: "('s, 'h) page_source" and log :: "'s \<Rightarrow> history_event list" and pos :: "'s \<Rightarrow> nat"
    and event_of :: "'h \<Rightarrow> history_event" +
  fixes open_query :: "string \<Rightarrow> cursor option \<Rightarrow> ('s, unit) effect" and evolves :: "'s \<Rightarrow> 's \<Rightarrow> bool"
  assumes open_log: "log (snd (open_query xpath cur s)) = log s"
    and open_position: "open_query xpath cur s = (Inr (), s') \<Longrightarrow> pos s' = 0"
    and evolves_grows: "evolves s s' \<Longrightarrow> prefix (log s) (log s')"
    and evolves_distinct: "evolves s s' \<Longrightarrow> distinct (map event_key (log s)) \<Longrightarrow> distinct (map event_key (log s'))"

context watched_log begin

lemma openD: "open_query xpath cur s = (r, s') \<Longrightarrow> log s' = log s"
  using open_log[of xpath cur s] by simp

lemma history_page_log: "history_page timestamp open_query src query cur s = (r, s') \<Longrightarrow> log s' = log s"
  by (auto simp: history_page_def effect_defs split: prod.splits sum.splits dest!: openD read_page_log)

lemma history_page_sent:
  assumes "history_page timestamp open_query src query (wa_cursor W) (wa_source W) = (Inr page, s)"
    and "distinct (map event_key (log (wa_source W)))" and "sent_up_to query (log (wa_source W)) W []"
  shows "sent_up_to query (log (wa_source W))
    (W\<lparr>wa_point := pt, wa_cursor := pg_cursor page, wa_source := s\<rparr>) (pg_events page)"
proof -
  let ?L = "log (wa_source W)"
  obtain xpath u where u: "open_query xpath (wa_cursor W) (wa_source W) = (Inr (), u)"
      "read_page src query (wa_cursor W) u = (Inr page, s)"
    using assms(1) by (auto simp: history_page_def effect_defs split: prod.splits sum.splits)
  have L: "log u = ?L" by (rule openD[OF u(1)])
  obtain sent p where sent: "wa_received W @ wa_queue W = map Inr sent" "positioned ?L (wa_cursor W) p"
      "sent = filter (query_matches query) (take p ?L)"
    using assms(3) by (auto simp: sent_up_to_def)
  obtain k where "pg_events page = filter (query_matches query) (take k (drop p ?L))"
      "positioned ?L (pg_cursor page) (p + k)"
    by (rule read_page_ok[OF u(2), unfolded L, OF assms(2) sent(2) open_position[OF u(1)]])
  then show ?thesis using sent by (simp add: sent_up_to_def) (metis filter_append take_add)
qed

lemma watch_step_inv:
  assumes "watch_step (history_page timestamp open_query src query) capacity evolves W W'"
    and "watch_inv query capacity (log (wa_source W)) W"
  shows "watch_inv query capacity (log (wa_source W')) W'"
  using assms
proof (cases rule: watch_step.cases)
  case (fetched page s)
  then show ?thesis
    using assms(2) history_page_sent[of timestamp query W page s "Sending (pg_events page) (pg_more page)"]
    by (auto simp: watch_inv_def history_page_log[OF fetched(4)])
next
  case (fetch_timeout e s)
  then show ?thesis using assms(2) by (auto simp: watch_inv_def history_page_log[OF fetch_timeout(4)] sent_up_to_def)
next
  case (fetch_failed e s)
  then show ?thesis using assms(2) by (auto simp: watch_inv_def history_page_log[OF fetch_failed(4)] sent_up_to_def)
next
  case (send_event e es again)
  then show ?thesis using assms(2) sent_event by (auto simp: watch_inv_def)
next
  case (send_error e)
  then show ?thesis using assms(2) sent_error by (auto simp: watch_inv_def)
next
  case (receive r rest)
  then show ?thesis using assms(2) point_inv_cong[of W' W query] by (auto simp: watch_inv_def)
next
  case request_stop
  then show ?thesis using assms(2) point_inv_cong[of W' W query] by (auto simp: watch_inv_def)
next
  case drop_watcher
  then show ?thesis using assms(2) point_inv_cong[of W' W query] by (auto simp: watch_inv_def)
next
  case (log_changes s)
  then show ?thesis
    using assms(2) point_inv_cong[of W' W query] evolves_distinct
      point_inv_grows[OF _ evolves_grows[OF log_changes(2)]]
    by (auto simp: watch_inv_def)
next
  case (page_sent again)
  then show ?thesis using assms(2) by (simp add: watch_inv_def sent_up_to_def)
next
  case idle_over
  then show ?thesis using assms(2) by (simp add: watch_inv_def sent_up_to_def)
qed (use assms(2) finish_inv in simp_all)

lemma watch_reachable_inv:
  assumes "watch_reachable (history_page timestamp open_query src query) capacity evolves s0 W" and "distinct (map event_key (log s0))"
  shows "watch_inv query capacity (log (wa_source W)) W"
  using assms(1)
proof (induction rule: watch_reachable.induct)
  case start
  then show ?case using assms(2)
    by (auto simp: watch_inv_def watch_start_def sent_up_to_def positioned_def)
next
  case (step W W')
  then show ?case using watch_step_inv by blast
qed

end

section \<open>The source of the tests\<close>

text \<open>The in-memory source of the unit tests with its injected failures; its handles are the events. Its
  bookmarks are record ids; the tests' panic on another bookmark is the error \<open>gap\<close> here. Opening a query
  goes back to its first event.\<close>

record test_source =
  so_events :: "history_event list"
  so_position :: nat
  so_parse_failure :: "u64 option"
  so_bookmark_failure :: "u64 option"
  so_seek_failure :: "error_kind option"

definition test_seek :: "cursor \<Rightarrow> (test_source, unit) effect" where
  "test_seek c s =
     (case so_seek_failure s of
        Some kind \<Rightarrow> (Inl (new_error kind [Lit ''injected seek failure'']), s)
      | None \<Rightarrow>
          (case parse_uint 64 (cu_bookmark c) of
             None \<Rightarrow> (Inl gap, s)
           | Some n \<Rightarrow>
               let i = length (takeWhile (\<lambda>e. unat (he_record_id e) \<noteq> n) (so_events s))
               in if i < length (so_events s) then (Inr (), s\<lparr>so_position := i\<rparr>) else (Inl gap, s)))"

definition test_next :: "nat \<Rightarrow> (test_source, history_event list) effect" where
  "test_next n s =
     (let handles = take n (drop (so_position s) (so_events s))
      in (Inr handles, s\<lparr>so_position := so_position s + length handles\<rparr>))"

definition test_render :: "history_event \<Rightarrow> (test_source, history_event) effect" where
  "test_render h s =
     (if so_parse_failure s = Some (he_record_id h) then
        (Inl (new_error Serialization [Lit ''injected event parse failure'']), s)
      else (Inr h, s))"

definition test_bookmark :: "history_event \<Rightarrow> (test_source, string) effect" where
  "test_bookmark h s =
     (if so_bookmark_failure s = Some (he_record_id h) then
        (Inl (new_error HistoryUnavailable [Lit ''injected bookmark failure'']), s)
      else (Inr (show_nat (unat (he_record_id h))), s))"

definition test_page_source :: "(test_source, history_event) page_source" where
  "test_page_source =
     \<lparr>ps_seek = test_seek, ps_next = test_next, ps_render = test_render, ps_bookmark = test_bookmark\<rparr>"

definition test_open :: "string \<Rightarrow> cursor option \<Rightarrow> (test_source, unit) effect" where
  "test_open xpath cur s = (Inr (), s\<lparr>so_position := 0\<rparr>)"

definition test_evolves :: "test_source \<Rightarrow> test_source \<Rightarrow> bool" where
  "test_evolves s s' \<longleftrightarrow> prefix (so_events s) (so_events s') \<and> distinct (map event_key (so_events s'))"

interpretation test_log: watched_log test_page_source so_events so_position "\<lambda>e. e" test_open test_evolves
  by unfold_locales
    (auto simp: test_page_source_def test_seek_def test_next_def test_render_def test_bookmark_def test_open_def
      test_evolves_def Let_def split: option.splits if_splits)

section \<open>Properties\<close>

text \<open>C23. Watching loses, repeats and reorders nothing. Whatever the interleaving of the delivery thread,
  the consumer and the growing log, also when sources fail and the watch is stopped or dropped at any
  point: what the iterator has returned and what the channel still holds are, in order, the first matches
  of the log, followed by at most one error, which ends the delivery; the channel never exceeds its bound.\<close>

theorem watch_in_order:
  assumes "watched_log src log pos event_of open_query evolves"
    and "distinct (map event_key (log s0))"
    and "watch_reachable (history_page timestamp open_query src query) capacity evolves s0 W"
  shows "length (wa_queue W) \<le> capacity \<and>
    (\<exists>sent errors. wa_received W @ wa_queue W = map Inr sent @ map Inl errors
       \<and> prefix sent (filter (query_matches query) (log (wa_source W)))
       \<and> length errors \<le> 1 \<and> (errors \<noteq> [] \<longrightarrow> wa_point W = Finished))"
proof -
  have inv: "watch_inv query capacity (log (wa_source W)) W"
    by (rule watched_log.watch_reachable_inv[OF assms(1,3,2)])
  then show ?thesis
    using point_inv_in_order[of query "log (wa_source W)" W "wa_point W"]
    by (auto simp: watch_inv_def sent_in_order_def)
qed

definition sample_event :: history_event where
  "sample_event = \<lparr>he_record_id = 1, he_event_id = 102, he_kind = Completed, he_timestamp = 0,
     he_task_path = None, he_instance_id = None, he_result_code = Some 0, he_fields = [], he_message = None\<rparr>"

definition sample_source :: test_source where
  "sample_source = \<lparr>so_events = [sample_event], so_position = 0, so_parse_failure = None,
     so_bookmark_failure = None, so_seek_failure = None\<rparr>"

abbreviation sample_fetch :: "cursor option \<Rightarrow> (test_source, page) effect" where
  "sample_fetch \<equiv> history_page (\<lambda>_. None) test_open test_page_source history_query_default"

lemma show_one: "show_nat 1 = ''1''"
  by code_simp

lemma sample_fetch_page:
  "sample_fetch None sample_source =
     (Inr \<lparr>pg_events = [sample_event],
        pg_cursor = Some \<lparr>cu_bookmark = ''1'', cu_record_id = 1, cu_timestamp = 0\<rparr>, pg_more = False\<rparr>,
      sample_source\<lparr>so_position := 1\<rparr>)"
  by (simp add: history_page_def history_xpath_def history_query_default_def read_page_def check_anchor_def
      test_open_def test_page_source_def test_next_def test_render_def test_bookmark_def sample_source_def
      sample_event_def query_matches_def effect_defs show_one[unfolded One_nat_def] Let_def)

lemma sample_delivery:
  "\<exists>W. watch_reachable sample_fetch WATCH_CAPACITY test_evolves sample_source W
     \<and> wa_queue W = [Inr sample_event]"
proof -
  let ?W0 = "watch_start sample_source"
  let ?W1 = "?W0\<lparr>wa_point := Sending [sample_event] False,
      wa_cursor := Some \<lparr>cu_bookmark = ''1'', cu_record_id = 1, cu_timestamp = 0\<rparr>,
      wa_source := sample_source\<lparr>so_position := 1\<rparr>\<rparr>"
  let ?W2 = "?W1\<lparr>wa_point := Sending [] False, wa_queue := [Inr sample_event]\<rparr>"
  have "watch_step sample_fetch WATCH_CAPACITY test_evolves ?W0 ?W1"
    using watch_step.fetched[of ?W0 sample_fetch] sample_fetch_page by (fastforce simp: watch_start_def)
  moreover have "watch_step sample_fetch WATCH_CAPACITY test_evolves ?W1 ?W2"
    using watch_step.send_event[of ?W1 sample_event "[]" False WATCH_CAPACITY sample_fetch test_evolves]
    by (simp add: watch_start_def WATCH_CAPACITY_def)
  ultimately have "watch_reachable sample_fetch WATCH_CAPACITY test_evolves sample_source ?W2"
    by (blast intro: watch_reachable.start watch_reachable.step)
  then show ?thesis by (intro exI[of _ ?W2]) simp
qed

lemma watch_in_order_witness:
  "\<exists>W. watch_reachable sample_fetch WATCH_CAPACITY test_evolves sample_source W
     \<and> wa_queue W = [Inr sample_event]
     \<and> (\<exists>sent errors. wa_received W @ wa_queue W = map Inr sent @ map Inl errors
          \<and> prefix sent (filter (query_matches history_query_default) (so_events (wa_source W))))"
proof -
  have "distinct (map event_key (so_events sample_source))" by (simp add: sample_source_def)
  then show ?thesis
    using sample_delivery watch_in_order[OF test_log.watched_log_axioms] by blast
qed

text \<open>C24. A stop always ends the delivery. After a stop was requested the delivery thread is never
  blocked, not even on a full channel that nobody reads, and each of its steps brings its end nearer;
  the steps of the others do not move it.\<close>

fun steps_left :: "watch_point \<Rightarrow> nat" where
  "steps_left (Sending es again) = length es + 2"
| "steps_left Finished = 0"
| "steps_left _ = 1"

theorem stop_ends_delivery:
  assumes "wa_stop W" and "wa_point W \<noteq> Finished"
  shows "(\<exists>W'. watch_step fetch capacity evolves W W' \<and> wa_point W' \<noteq> wa_point W)
    \<and> (\<forall>W'. watch_step fetch capacity evolves W W' \<longrightarrow>
          wa_stop W' \<and> (wa_point W' = wa_point W \<or> steps_left (wa_point W') < steps_left (wa_point W)))"
proof
  show "\<exists>W'. watch_step fetch capacity evolves W W' \<and> wa_point W' \<noteq> wa_point W"
  proof (cases "wa_point W")
    case Polling
    then show ?thesis using watch_step.stop_polling[where fetch = fetch and capacity = capacity and evolves = evolves, OF _ assms(1)] by fastforce
  next
    case (Sending es again)
    show ?thesis
    proof (cases es)
      case Nil
      then show ?thesis using Sending watch_step.page_sent[where fetch = fetch and capacity = capacity and evolves = evolves, of W again]
        by (intro exI[of _ "W\<lparr>wa_point := (if again then Polling else Idle)\<rparr>"]) auto
    next
      case (Cons e rest)
      then consider "\<not> wa_connected W" | "wa_connected W" "length (wa_queue W) < capacity"
        | "wa_connected W" "capacity \<le> length (wa_queue W)" by linarith
      then show ?thesis
        using Sending Cons assms watch_step.send_event[where fetch = fetch and capacity = capacity and evolves = evolves, of W e rest again]
          watch_step.send_disconnected[where fetch = fetch and capacity = capacity and evolves = evolves, of W e rest again] watch_step.send_stopped[where fetch = fetch and capacity = capacity and evolves = evolves, of W e rest again]
        by cases fastforce+
    qed
  next
    case (Failing e)
    then consider "\<not> wa_connected W" | "wa_connected W" "length (wa_queue W) < capacity"
      | "wa_connected W" "capacity \<le> length (wa_queue W)" by linarith
    then show ?thesis
      using Failing assms watch_step.send_error[where fetch = fetch and capacity = capacity and evolves = evolves, of W e] watch_step.send_disconnected[where fetch = fetch and capacity = capacity and evolves = evolves and e' = e, of W]
        watch_step.send_stopped[where fetch = fetch and capacity = capacity and evolves = evolves and e' = e, of W]
      by cases fastforce+
  next
    case Idle
    then show ?thesis using watch_step.idle_stopped[where fetch = fetch and capacity = capacity and evolves = evolves, OF _ assms(1)] by fastforce
  qed (use assms(2) in simp)
  show "\<forall>W'. watch_step fetch capacity evolves W W' \<longrightarrow>
      wa_stop W' \<and> (wa_point W' = wa_point W \<or> steps_left (wa_point W') < steps_left (wa_point W))"
    using assms by (auto elim!: watch_step.cases split: if_splits)
qed

lemma stop_ends_delivery_witness:
  "\<exists>W'. watch_step sample_fetch 0 test_evolves
     ((watch_start sample_source)\<lparr>wa_point := Sending [sample_event] True, wa_stop := True\<rparr>) W'
     \<and> wa_point W' \<noteq> Sending [sample_event] True"
  using stop_ends_delivery[of "(watch_start sample_source)\<lparr>wa_point := Sending [sample_event] True, wa_stop := True\<rparr>"
      sample_fetch 0 test_evolves]
  by simp

end
