(* ===== verification/Worker.thy ===== *)
theory Worker
  imports Backend
begin

text \<open>
  The session worker (\<open>client/mod.rs\<close>): one thread owns the COM session and runs the jobs of a queue;
  blocking calls wait for their answer, asynchronous ones give a future that can be dropped. Operations
  are numbered in the order of their calls. What an operation does to the session is the parameter \<open>op\<close>;
  \<open>None\<close> is a panic. The steps are those of the callers, the futures and the worker thread.
\<close>

section \<open>The claim of an operation\<close>

definition OPERATION_QUEUED :: u8 where "OPERATION_QUEUED = 0"
definition OPERATION_STARTED :: u8 where "OPERATION_STARTED = 1"
definition OPERATION_CANCELLED :: u8 where "OPERATION_CANCELLED = 2"

lemmas operation_states = OPERATION_QUEUED_def OPERATION_STARTED_def OPERATION_CANCELLED_def

text \<open>\<open>AtomicU8::compare_exchange\<close>: whether it succeeded, and the value afterwards.\<close>

definition compare_exchange :: "u8 \<Rightarrow> u8 \<Rightarrow> u8 \<Rightarrow> bool \<times> u8" where
  "compare_exchange expected replacement state =
     (if state = expected then (True, replacement) else (False, state))"

definition begin_operation :: "u8 \<Rightarrow> bool \<times> u8" where
  "begin_operation state = compare_exchange OPERATION_QUEUED OPERATION_STARTED state"

definition cancel_operation :: "u8 \<Rightarrow> u8" where
  "cancel_operation state = snd (compare_exchange OPERATION_QUEUED OPERATION_CANCELLED state)"

definition has_started :: "u8 \<Rightarrow> bool" where
  "has_started state \<longleftrightarrow> state = OPERATION_STARTED"

section \<open>The worker\<close>

definition worker_stopped :: error where
  "worker_stopped = new_error WorkerStopped [Lit ''Task Scheduler COM worker is unavailable'']"

definition operation_cancelled :: error where
  "operation_cancelled = new_error Cancelled [Lit ''operation was cancelled before it started'']"

datatype job = BlockingJob (job_id: nat) | AsyncJob (job_id: nat)

datatype worker_thread = Alive | Ended | Panicked

record ('s, 'a) worker =
  wk_open :: bool \<comment> \<open>the queue's sender has not been taken\<close>
  wk_jobs :: "job list" \<comment> \<open>oldest first\<close>
  wk_running :: "nat option"
  wk_cells :: "nat \<Rightarrow> u8 option" \<comment> \<open>the state shared by a future and its job\<close>
  wk_responses :: "nat \<Rightarrow> 'a result option"
  wk_session :: 's
  wk_thread :: worker_thread
  wk_join :: bool \<comment> \<open>the join handle has not been taken\<close>
  wk_owned :: bool \<comment> \<open>the \<open>Worker\<close> has not been dropped: somebody can still call it\<close>
  wk_next :: nat
  wk_accepted :: "nat list" \<comment> \<open>operations that entered the queue\<close>
  wk_executed :: "nat list" \<comment> \<open>operations that ran to their end, in that order\<close>

definition accepting :: "('s, 'a) worker \<Rightarrow> bool" where
  "accepting W \<longleftrightarrow> wk_open W \<and> wk_thread W = Alive"

definition enqueue :: "job \<Rightarrow> ('s, 'a) worker \<Rightarrow> ('s, 'a) worker" where
  "enqueue j W = W\<lparr>wk_jobs := wk_jobs W @ [j], wk_next := wk_next W + 1,
     wk_accepted := wk_accepted W @ [job_id j]\<rparr>"

definition refuse :: "('s, 'a) worker \<Rightarrow> ('s, 'a) worker" where
  "refuse W = W\<lparr>wk_responses := (wk_responses W)(wk_next W \<mapsto> Inl worker_stopped), wk_next := wk_next W + 1\<rparr>"

inductive worker_step ::
  "(nat \<Rightarrow> 's \<Rightarrow> ('a result \<times> 's) option) \<Rightarrow> ('s, 'a) worker \<Rightarrow> ('s, 'a) worker \<Rightarrow> bool"
  for op where
  \<comment> \<open>callers\<close>
  call: "accepting W \<Longrightarrow> worker_step op W (enqueue (BlockingJob (wk_next W)) W)"
| call_async: "accepting W \<Longrightarrow> worker_step op W
    ((enqueue (AsyncJob (wk_next W)) W)\<lparr>wk_cells := (wk_cells W)(wk_next W \<mapsto> OPERATION_QUEUED)\<rparr>)"
| call_refused: "\<not> accepting W \<Longrightarrow> worker_step op W (refuse W)"
| call_async_refused: "\<not> accepting W \<Longrightarrow> worker_step op W
    ((refuse W)\<lparr>wk_cells := (wk_cells W)(wk_next W \<mapsto> OPERATION_QUEUED)\<rparr>)"
| drop_future: "wk_cells W n = Some state \<Longrightarrow> worker_step op W
    (W\<lparr>wk_cells := (wk_cells W)(n \<mapsto> cancel_operation state)\<rparr>)"
| close_queue: "worker_step op W (W\<lparr>wk_open := False\<rparr>)"
| join_thread: "wk_thread W \<noteq> Alive \<Longrightarrow> \<not> wk_open W \<Longrightarrow> worker_step op W (W\<lparr>wk_join := False\<rparr>)" \<comment> \<open>\<open>shutdown\<close>\<close>
| drop_worker: "worker_step op W (W\<lparr>wk_open := False, wk_join := False, wk_owned := False\<rparr>)"
  \<comment> \<open>the worker thread\<close>
| start_blocking: "wk_thread W = Alive \<Longrightarrow> wk_running W = None \<Longrightarrow> wk_jobs W = BlockingJob n # rest \<Longrightarrow>
    worker_step op W (W\<lparr>wk_jobs := rest, wk_running := Some n\<rparr>)"
| start_async: "wk_thread W = Alive \<Longrightarrow> wk_running W = None \<Longrightarrow> wk_jobs W = AsyncJob n # rest \<Longrightarrow>
    wk_cells W n = Some state \<Longrightarrow> begin_operation state = (True, state') \<Longrightarrow>
    worker_step op W (W\<lparr>wk_jobs := rest, wk_running := Some n, wk_cells := (wk_cells W)(n \<mapsto> state')\<rparr>)"
| skip_async: "wk_thread W = Alive \<Longrightarrow> wk_running W = None \<Longrightarrow> wk_jobs W = AsyncJob n # rest \<Longrightarrow>
    wk_cells W n = Some state \<Longrightarrow> begin_operation state = (False, state') \<Longrightarrow>
    worker_step op W (W\<lparr>wk_jobs := rest, wk_responses := (wk_responses W)(n \<mapsto> Inl operation_cancelled)\<rparr>)"
| finish_job: "wk_running W = Some n \<Longrightarrow> op n (wk_session W) = Some (r, s) \<Longrightarrow>
    worker_step op W (W\<lparr>wk_running := None, wk_session := s, wk_responses := (wk_responses W)(n \<mapsto> r),
      wk_executed := wk_executed W @ [n]\<rparr>)"
| job_panics: "wk_running W = Some n \<Longrightarrow> op n (wk_session W) = None \<Longrightarrow>
    worker_step op W (W\<lparr>wk_running := None, wk_jobs := [], wk_thread := Panicked\<rparr>)"
| thread_ends: "wk_thread W = Alive \<Longrightarrow> wk_running W = None \<Longrightarrow> wk_jobs W = [] \<Longrightarrow> \<not> wk_open W \<Longrightarrow>
    worker_step op W (W\<lparr>wk_thread := Ended\<rparr>)"

definition worker_start :: "'s \<Rightarrow> ('s, 'a) worker" where
  "worker_start s =
     \<lparr>wk_open = True, wk_jobs = [], wk_running = None, wk_cells = Map.empty, wk_responses = Map.empty,
      wk_session = s, wk_thread = Alive, wk_join = True, wk_owned = True, wk_next = 0, wk_accepted = [], wk_executed = []\<rparr>"

inductive worker_reachable ::
  "(nat \<Rightarrow> 's \<Rightarrow> ('a result \<times> 's) option) \<Rightarrow> 's \<Rightarrow> ('s, 'a) worker \<Rightarrow> bool"
  for op s0 where
  start: "worker_reachable op s0 (worker_start s0)"
| step: "worker_reachable op s0 W \<Longrightarrow> worker_step op W W' \<Longrightarrow> worker_reachable op s0 W'"

text \<open>What the caller of an operation receives: its answer, nothing yet, or the loss of the worker once its
  job is gone without an answer.\<close>

definition poll_operation :: "('s, 'a) worker \<Rightarrow> nat \<Rightarrow> 'a result option" where
  "poll_operation W n =
     (case wk_responses W n of
        Some r \<Rightarrow> Some r
      | None \<Rightarrow>
          if wk_running W = Some n \<or> n \<in> job_id ` set (wk_jobs W) then None else Some (Inl worker_stopped))"

text \<open>One look of \<open>shutdown\<close> at the thread, after the queue was closed: the result, when it returns, and
  whether the join handle is still there. Without a handle an earlier call has joined or dropped it.\<close>

definition shutdown_look :: "('s, 'a) worker \<Rightarrow> nat \<Rightarrow> nat \<Rightarrow> unit result option \<times> bool" where
  "shutdown_look W timeout waited =
     (if \<not> wk_join W then (Some (Inr ()), False)
      else if wk_thread W \<noteq> Alive then
        (Some (if wk_thread W = Panicked then Inl worker_stopped else Inr ()), False)
      else if waited \<ge> timeout then
        (Some (Inl (with_operation ''shutdown''
          (new_error Timeout [Lit ''COM worker shutdown is not yet confirmed'']))), True)
      else (None, True))"

text \<open>\<open>Scheduler::connect\<close>: the thread may not start, it may go away before it reports, or it reports the
  failure of the session or of its description; otherwise the queue opens on the session.\<close>

definition connect_session ::
  "string option \<Rightarrow> string option \<Rightarrow> ('s result \<times> ('s \<Rightarrow> 'i result)) option \<Rightarrow> (('s, 'a) worker \<times> 'i) result" where
  "connect_session target spawned reported =
     (case spawned of
        Some message \<Rightarrow> Inl (new_error WorkerStopped [Lit ''cannot start COM worker: '', Dsp message])
      | None \<Rightarrow>
          (case reported of
             None \<Rightarrow> Inl (with_target (case target of Some t \<Rightarrow> t | None \<Rightarrow> ''local'')
               (new_error WorkerStopped [Lit ''COM worker stopped before reporting connection status'']))
           | Some (Inl e, _) \<Rightarrow> Inl e
           | Some (Inr session, describe) \<Rightarrow>
               (case describe session of Inl e \<Rightarrow> Inl e | Inr info \<Rightarrow> Inr (worker_start session, info))))"

section \<open>Serial execution\<close>

text \<open>The sequential meaning of a list of operations: their answers and the session they leave.\<close>

fun serial :: "(nat \<Rightarrow> 's \<Rightarrow> ('a result \<times> 's) option) \<Rightarrow> nat list \<Rightarrow> 's \<Rightarrow> ((nat \<times> 'a result) list \<times> 's) option" where
  "serial op [] s = Some ([], s)"
| "serial op (n # ns) s =
     (case op n s of
        None \<Rightarrow> None
      | Some (r, s) \<Rightarrow> map_option (\<lambda>(rs, s). ((n, r) # rs, s)) (serial op ns s))"

lemma serial_snoc:
  "serial op ns s = Some (rs, u) \<Longrightarrow> op n u = Some (r, v) \<Longrightarrow> serial op (ns @ [n]) s = Some (rs @ [(n, r)], v)"
  by (induction ns arbitrary: s rs) (auto split: option.splits prod.splits)

lemma serial_ids: "serial op ns s = Some (rs, u) \<Longrightarrow> map fst rs = ns"
  by (induction ns arbitrary: s rs) (auto split: option.splits prod.splits)

definition running_list :: "('s, 'a) worker \<Rightarrow> nat list" where
  "running_list W = (case wk_running W of Some n \<Rightarrow> [n] | None \<Rightarrow> [])"

text \<open>The invariant, in four parts: the numbers and their order, the claims, the answers, and where the
  accepted operations are.\<close>

definition in_order :: "('s, 'a) worker \<Rightarrow> bool" where
  "in_order W \<longleftrightarrow>
     sorted_wrt (<) (wk_executed W @ running_list W @ map job_id (wk_jobs W))
     \<and> set (wk_executed W @ running_list W @ map job_id (wk_jobs W)) \<subseteq> set (wk_accepted W)
     \<and> (\<forall>n \<in> set (wk_accepted W). n < wk_next W)
     \<and> (wk_thread W \<noteq> Alive \<longrightarrow> wk_running W = None \<and> wk_jobs W = [])"

definition claims_ok :: "('s, 'a) worker \<Rightarrow> bool" where
  "claims_ok W \<longleftrightarrow>
     (\<forall>n. wk_cells W n \<noteq> None \<longrightarrow> n < wk_next W)
     \<and> (\<forall>n. AsyncJob n \<in> set (wk_jobs W) \<longrightarrow> wk_cells W n \<in> {Some OPERATION_QUEUED, Some OPERATION_CANCELLED})
     \<and> (\<forall>n. BlockingJob n \<in> set (wk_jobs W) \<longrightarrow> wk_cells W n = None)
     \<and> (\<forall>n \<in> set (wk_executed W @ running_list W). wk_cells W n \<in> {None, Some OPERATION_STARTED})"

definition answers_ok :: "(nat \<Rightarrow> 's \<Rightarrow> ('a result \<times> 's) option) \<Rightarrow> 's \<Rightarrow> ('s, 'a) worker \<Rightarrow> bool" where
  "answers_ok op s0 W \<longleftrightarrow>
     (\<exists>rs. serial op (wk_executed W) s0 = Some (rs, wk_session W) \<and> (\<forall>(n, r) \<in> set rs. wk_responses W n = Some r))"

definition all_placed :: "('s, 'a) worker \<Rightarrow> bool" where
  "all_placed W \<longleftrightarrow>
     (wk_thread W \<noteq> Panicked \<longrightarrow> (\<forall>n \<in> set (wk_accepted W).
        n \<in> set (wk_executed W @ running_list W @ map job_id (wk_jobs W))
        \<or> wk_cells W n = Some OPERATION_CANCELLED \<and> wk_responses W n = Some (Inl operation_cancelled)))"

lemmas worker_parts = in_order_def claims_ok_def answers_ok_def all_placed_def

lemmas worker_moves = running_list_def enqueue_def refuse_def accepting_def begin_operation_def cancel_operation_def
  compare_exchange_def operation_states

lemma in_order_step: "worker_step op W W' \<Longrightarrow> in_order W \<Longrightarrow> in_order W'"
  by (erule worker_step.cases)
    (auto simp: in_order_def worker_moves sorted_wrt_append less_Suc_eq split: option.splits)

lemma claims_ok_step:
  assumes "worker_step op W W'" and "in_order W" and "claims_ok W"
  shows "claims_ok W'"
proof -
  note order = assms(2)[unfolded in_order_def] and claims = assms(3)[unfolded claims_ok_def]
  have below: "n < wk_next W" if "n \<in> set (wk_executed W) \<union> set (running_list W) \<union> job_id ` set (wk_jobs W)" for n
    using order that by auto
  have fresh: "wk_cells W (wk_next W) = None" using claims by blast
  from assms(1) show ?thesis
  proof (cases rule: worker_step.cases)
    case call
    then show ?thesis using claims fresh by (auto simp: claims_ok_def worker_moves less_Suc_eq)
  next
    case call_async
    then show ?thesis using claims below
      by (simp add: claims_ok_def worker_moves less_Suc_eq) (fastforce split: option.splits)
  next
    case call_refused
    then show ?thesis using claims by (auto simp: claims_ok_def worker_moves less_Suc_eq)
  next
    case call_async_refused
    then show ?thesis using claims below
      by (simp add: claims_ok_def worker_moves less_Suc_eq) (fastforce split: option.splits)
  next
    case (start_async n rest state state')
    then show ?thesis using claims order
      by (auto simp: claims_ok_def worker_moves sorted_wrt_append split: if_splits)
  next
    case (drop_future n state)
    have "wk_cells W n \<in> {None, Some OPERATION_STARTED}" if "n \<in> set (wk_executed W @ running_list W)"
      using claims that by blast
    then have "state = OPERATION_STARTED" if "n \<in> set (wk_executed W @ running_list W)"
      using drop_future that by auto
    then show ?thesis using claims drop_future by (auto simp: claims_ok_def worker_moves)
  qed (use claims in \<open>simp_all add: claims_ok_def worker_moves\<close>)
qed

lemma answers_ok_step:
  assumes "worker_step op W W'" and "in_order W" and "answers_ok op s0 W"
  shows "answers_ok op s0 W'"
proof -
  obtain rs where rs: "serial op (wk_executed W) s0 = Some (rs, wk_session W)"
      "\<forall>(n, r) \<in> set rs. wk_responses W n = Some r"
    using assms(3) by (auto simp: answers_ok_def)
  have kept: "\<forall>(m, r) \<in> set rs. ((wk_responses W)(n := x)) m = Some r" if "n \<notin> set (wk_executed W)" for n x
  proof -
    have "m \<in> set (wk_executed W)" if "(m, r) \<in> set rs" for m r
      unfolding serial_ids[OF rs(1), symmetric] using that by (auto intro: rev_image_eqI)
    then show ?thesis using rs(2) that by auto
  qed
  note order = assms(2)[unfolded in_order_def]
  have fresh: "wk_next W \<notin> set (wk_executed W)" using order by auto
  from assms(1) show ?thesis
  proof (cases rule: worker_step.cases)
    case (finish_job n r s)
    then have "n \<notin> set (wk_executed W)" using order by (auto simp: worker_moves sorted_wrt_append)
    then show ?thesis
      using finish_job serial_snoc[OF rs(1) finish_job(3)] kept[of n "Some r"] by (auto simp: answers_ok_def)
  next
    case call_refused
    then show ?thesis using rs kept[OF fresh, of "Some (Inl worker_stopped)"]
      by (simp add: answers_ok_def refuse_def)
  next
    case call_async_refused
    then show ?thesis using rs kept[OF fresh, of "Some (Inl worker_stopped)"]
      by (simp add: answers_ok_def refuse_def)
  next
    case (skip_async n rest state state')
    then have "n \<notin> set (wk_executed W)" using order by (auto simp: sorted_wrt_append)
    then show ?thesis using skip_async rs kept[of n] by (auto simp: answers_ok_def)
  qed (use rs in \<open>auto simp: answers_ok_def worker_moves\<close>)
qed

lemma all_placed_step:
  "worker_step op W W' \<Longrightarrow> in_order W \<Longrightarrow> claims_ok W \<Longrightarrow> all_placed W \<Longrightarrow> all_placed W'"
  by (erule worker_step.cases)
    (force simp: in_order_def claims_ok_def all_placed_def worker_moves split: option.splits if_splits)+

definition refusals_ok :: "('s, 'a) worker \<Rightarrow> bool" where
  "refusals_ok W \<longleftrightarrow>
     (\<forall>n r. wk_responses W n = Some r \<longrightarrow> n \<in> set (wk_executed W) \<or> r \<in> {Inl worker_stopped, Inl operation_cancelled})"

lemma refusals_ok_step: "worker_step op W W' \<Longrightarrow> refusals_ok W \<Longrightarrow> refusals_ok W'"
  by (erule worker_step.cases) (auto simp: refusals_ok_def enqueue_def refuse_def split: if_splits)

lemma worker_reachable_inv:
  assumes "worker_reachable op s0 W"
  shows "in_order W" "claims_ok W" "answers_ok op s0 W" "all_placed W" "refusals_ok W"
proof -
  have "in_order W \<and> claims_ok W \<and> answers_ok op s0 W \<and> all_placed W \<and> refusals_ok W"
    using assms
  proof (induction rule: worker_reachable.induct)
    case start
    then show ?case by (simp add: worker_parts refusals_ok_def worker_start_def running_list_def)
  next
    case (step W W')
    then show ?case
      using in_order_step claims_ok_step answers_ok_step all_placed_step refusals_ok_step by metis
  qed
  then show "in_order W" "claims_ok W" "answers_ok op s0 W" "all_placed W" "refusals_ok W" by simp_all
qed

lemma cancelled_stays:
  assumes "worker_step op W W'" and "claims_ok W" and "wk_cells W n = Some OPERATION_CANCELLED"
  shows "wk_cells W' n = Some OPERATION_CANCELLED"
proof -
  have "n < wk_next W" using assms(2,3) by (auto simp: claims_ok_def)
  with assms(1,3) show ?thesis by (cases rule: worker_step.cases) (auto simp: worker_moves split: if_splits)
qed

lemma worker_run:
  assumes "(worker_step op)\<^sup>*\<^sup>* W W'" and "worker_reachable op s0 W"
  shows "worker_reachable op s0 W'"
  using assms by (induction rule: rtranclp_induct) (auto intro: worker_reachable.step)

lemma cancelled_forever:
  assumes "(worker_step op)\<^sup>*\<^sup>* W W'" and "worker_reachable op s0 W" and "wk_cells W n = Some OPERATION_CANCELLED"
  shows "wk_cells W' n = Some OPERATION_CANCELLED"
  using assms
proof (induction rule: rtranclp_induct)
  case (step V V')
  then show ?case using cancelled_stays worker_reachable_inv(2)[OF worker_run[OF step(1) assms(2)]] by blast
qed simp

text \<open>The join handle of a worker that is still owned is only gone once the thread is.\<close>

definition joined_ok :: "('s, 'a) worker \<Rightarrow> bool" where
  "joined_ok W \<longleftrightarrow> (wk_owned W \<and> \<not> wk_join W \<longrightarrow> wk_thread W \<noteq> Alive)"

lemma joined_ok_reachable: "worker_reachable op s0 W \<Longrightarrow> joined_ok W"
proof (induction rule: worker_reachable.induct)
  case start
  then show ?case by (simp add: joined_ok_def worker_start_def)
next
  case (step W W')
  from step(2,3) show ?case
    by (cases rule: worker_step.cases) (auto simp: joined_ok_def enqueue_def refuse_def)
qed

text \<open>After the thread has ended, by itself or by a panic, nothing runs any more.\<close>

lemma ended_step:
  assumes "worker_step op W W'" and "in_order W" and "wk_thread W \<noteq> Alive"
  shows "wk_thread W' = wk_thread W \<and> wk_executed W' = wk_executed W \<and> wk_session W' = wk_session W
    \<and> wk_accepted W' = wk_accepted W"
  using assms by (cases rule: worker_step.cases) (auto simp: in_order_def worker_moves)

lemma ended_forever:
  assumes "(worker_step op)\<^sup>*\<^sup>* W W'" and "worker_reachable op s0 W" and "wk_thread W \<noteq> Alive"
  shows "wk_thread W' = wk_thread W \<and> wk_executed W' = wk_executed W \<and> wk_session W' = wk_session W
    \<and> wk_accepted W' = wk_accepted W"
  using assms
proof (induction rule: rtranclp_induct)
  case (step V V')
  then show ?case
    using ended_step[OF step(2) worker_reachable_inv(1)[OF worker_run[OF step(1) assms(2)]]] by simp
qed simp

section \<open>A run\<close>

text \<open>A blocking and an asynchronous operation on a counter; the future of the second is dropped while it
  waits. The states of the run, and that it is one.\<close>

definition count_up :: "nat \<Rightarrow> nat \<Rightarrow> (nat result \<times> nat) option" where
  "count_up n s = Some (Inr (s + n), s + 1)"

definition both_queued :: "(nat, nat) worker" where
  "both_queued = (worker_start 5)\<lparr>wk_jobs := [BlockingJob 0, AsyncJob 1], wk_next := 2, wk_accepted := [0, 1],
     wk_cells := [1 \<mapsto> OPERATION_QUEUED]\<rparr>"

definition one_dropped :: "(nat, nat) worker" where
  "one_dropped = both_queued\<lparr>wk_cells := [1 \<mapsto> OPERATION_CANCELLED]\<rparr>"

definition both_done :: "(nat, nat) worker" where
  "both_done = one_dropped\<lparr>wk_jobs := [], wk_executed := [0], wk_session := 6,
     wk_responses := [0 \<mapsto> Inr 5, 1 \<mapsto> Inl operation_cancelled]\<rparr>"

definition thread_gone :: "(nat, nat) worker" where
  "thread_gone = both_done\<lparr>wk_open := False, wk_thread := Ended\<rparr>"

lemmas run_states = both_queued_def one_dropped_def both_done_def thread_gone_def worker_start_def worker_moves
  count_up_def numeral_2_eq_2

lemma both_queued_reachable: "worker_reachable count_up 5 both_queued"
proof -
  let ?W = "enqueue (BlockingJob 0) (worker_start 5) :: (nat, nat) worker"
  have "worker_reachable count_up 5 ?W"
    using worker_reachable.step[OF worker_reachable.start worker_step.call[of "worker_start 5" count_up]]
    by (simp add: run_states)
  from worker_reachable.step[OF this worker_step.call_async[of ?W count_up]] show ?thesis
    by (simp add: run_states)
qed

lemma one_dropped_step: "worker_step count_up both_queued one_dropped"
  using worker_step.drop_future[of both_queued 1 OPERATION_QUEUED count_up] by (simp add: run_states)

lemma both_done_run: "(worker_step count_up)\<^sup>*\<^sup>* one_dropped both_done"
proof -
  let ?A = "one_dropped\<lparr>wk_jobs := [AsyncJob 1], wk_running := Some 0\<rparr>"
  let ?B = "?A\<lparr>wk_running := None, wk_session := 6, wk_responses := [0 \<mapsto> Inr 5], wk_executed := [0]\<rparr>"
  have "(worker_step count_up)\<^sup>*\<^sup>* one_dropped ?A"
    by (rule r_into_rtranclp) (use worker_step.start_blocking[of one_dropped 0 "[AsyncJob 1]" count_up] in \<open>simp add: run_states\<close>)
  also have "worker_step count_up ?A ?B"
    using worker_step.finish_job[of ?A 0 count_up "Inr 5" 6] by (simp add: run_states)
  also have "worker_step count_up ?B both_done"
    using worker_step.skip_async[of ?B 1 "[]" OPERATION_CANCELLED OPERATION_CANCELLED count_up]
    by (simp add: run_states)
  finally show ?thesis .
qed

lemma both_done_reachable: "worker_reachable count_up 5 both_done"
  by (rule worker_run[OF both_done_run worker_reachable.step[OF both_queued_reachable one_dropped_step]])

lemma thread_gone_reachable: "worker_reachable count_up 5 thread_gone"
proof -
  let ?W = "both_done\<lparr>wk_open := False\<rparr>"
  have "worker_reachable count_up 5 ?W"
    by (rule worker_reachable.step[OF both_done_reachable worker_step.close_queue])
  from worker_reachable.step[OF this worker_step.thread_ends[of ?W count_up]] show ?thesis
    by (simp add: run_states)
qed

section \<open>Properties\<close>

text \<open>C25. The worker serializes the session. However callers, dropped futures and the thread interleave,
  the operations that ran did so once each, in the order of their calls; the session is what running them
  one after the other gives, their callers receive exactly the answers of that sequential run, and an
  operation that did not run only ever answers that it was cancelled or that the worker is gone.\<close>

theorem worker_serializes:
  assumes "worker_reachable op s0 W"
  shows "sorted_wrt (<) (wk_executed W)
    \<and> (\<exists>rs. serial op (wk_executed W) s0 = Some (rs, wk_session W)
      \<and> list_all (\<lambda>(n, r). poll_operation W n = Some r) rs)
    \<and> (n \<in> set (wk_executed W) \<or>
        poll_operation W n \<in> {None, Some (Inl worker_stopped), Some (Inl operation_cancelled)})"
proof (intro conjI)
  note inv = worker_reachable_inv[OF assms]
  show "sorted_wrt (<) (wk_executed W)" using inv(1) by (simp add: in_order_def sorted_wrt_append)
  show "\<exists>rs. serial op (wk_executed W) s0 = Some (rs, wk_session W)
      \<and> list_all (\<lambda>(n, r). poll_operation W n = Some r) rs"
    using inv(3) by (fastforce simp: answers_ok_def poll_operation_def list_all_iff)
  show "n \<in> set (wk_executed W) \<or>
      poll_operation W n \<in> {None, Some (Inl worker_stopped), Some (Inl operation_cancelled)}"
    using inv(5) by (auto simp: refusals_ok_def poll_operation_def split: option.splits if_splits)
qed

lemma worker_serializes_witness:
  "\<exists>W. worker_reachable count_up 5 W \<and> wk_executed W = [0] \<and> wk_session W = 6 \<and> poll_operation W 0 = Some (Inr 5)"
  using worker_serializes[OF both_done_reachable, of 1] both_done_reachable
  by (intro exI[of _ both_done]) (simp add: run_states)

text \<open>C26. An operation whose future was dropped while it was queued never runs, at no later time, and
  nobody ever receives a result of it.\<close>

theorem cancelled_never_runs:
  assumes "worker_reachable op s0 W" and "wk_cells W n = Some OPERATION_QUEUED"
    and "worker_step op W V" and "wk_cells V n = Some (cancel_operation OPERATION_QUEUED)"
    and "(worker_step op)\<^sup>*\<^sup>* V W'"
  shows "n \<notin> set (wk_executed W') \<and> wk_running W' \<noteq> Some n
    \<and> poll_operation W' n \<in> {None, Some (Inl operation_cancelled), Some (Inl worker_stopped)}"
proof -
  have V: "worker_reachable op s0 V" using assms(1,3) by (rule worker_reachable.step)
  have cancelled: "wk_cells W' n = Some OPERATION_CANCELLED"
    by (rule cancelled_forever[OF assms(5) V]) (use assms(4) in \<open>simp add: worker_moves\<close>)
  note inv = worker_reachable_inv[OF worker_run[OF assms(5) V]]
  have "wk_cells W' m \<in> {None, Some OPERATION_STARTED}" if "m \<in> set (wk_executed W' @ running_list W')" for m
    using inv(2) that unfolding claims_ok_def by blast
  from this[of n] cancelled have "n \<notin> set (wk_executed W' @ running_list W')"
    by (auto simp: operation_states)
  then show ?thesis
    using inv(5) by (auto simp: running_list_def refusals_ok_def poll_operation_def split: option.splits)
qed

lemma cancelled_never_runs_witness:
  "worker_reachable count_up 5 both_queued \<and> worker_step count_up both_queued one_dropped
    \<and> (worker_step count_up)\<^sup>*\<^sup>* one_dropped both_done \<and> 1 \<notin> set (wk_executed both_done)"
  using cancelled_never_runs[OF both_queued_reachable _ one_dropped_step _ both_done_run, of 1]
    both_queued_reachable one_dropped_step both_done_run by (simp add: run_states)

text \<open>C27. A confirmed shutdown has drained the queue. When \<open>shutdown\<close> reports success to a caller (who still
  holds the worker), whatever happens afterwards neither runs anything nor changes the session, and every operation
  that was accepted has run or was cancelled before it started. The one exception: a job panicked, an earlier
  \<open>shutdown\<close> took the join handle and reported the loss, and this later one only finds no handle;
  operations that were queued behind the panic have then neither run nor been cancelled.\<close>

theorem shutdown_drains:
  assumes "worker_reachable op s0 W" and "wk_owned W"
    and "shutdown_look W timeout waited = (Some (Inr ()), joined)"
    and "(worker_step op)\<^sup>*\<^sup>* W W'" and "n \<in> set (wk_accepted W')"
  shows "(n \<in> set (wk_executed W') \<or> wk_cells W' n = Some OPERATION_CANCELLED
      \<or> wk_thread W = Panicked \<and> \<not> wk_join W)
    \<and> wk_executed W' = wk_executed W \<and> wk_session W' = wk_session W \<and> \<not> accepting W'"
proof -
  have thread: "wk_thread W \<noteq> Alive" "wk_join W \<Longrightarrow> wk_thread W = Ended"
    using assms(2,3) joined_ok_reachable[OF assms(1)]
    by (auto simp: shutdown_look_def joined_ok_def split: if_splits intro: worker_thread.exhaust[of "wk_thread W"])
  note ended = ended_forever[OF assms(4,1) thread(1)]
  note inv = worker_reachable_inv[OF worker_run[OF assms(4,1)]]
  have "n \<in> set (wk_executed W') \<or> wk_cells W' n = Some OPERATION_CANCELLED" if "wk_thread W = Ended"
    using ended inv(1,4) assms(5) that by (auto simp: in_order_def all_placed_def running_list_def)
  then show ?thesis
    using ended thread by (cases "wk_thread W") (auto simp: accepting_def)
qed

lemma shutdown_drains_witness:
  "worker_reachable count_up 5 thread_gone \<and> shutdown_look thread_gone 0 0 = (Some (Inr ()), False)
    \<and> wk_executed thread_gone = [0] \<and> wk_cells thread_gone 1 = Some OPERATION_CANCELLED"
  using shutdown_drains[OF thread_gone_reachable _ _ rtranclp.rtrancl_refl, of 0 0 False 1] thread_gone_reachable
  by (simp add: run_states shutdown_look_def poll_operation_def)

text \<open>The exception occurs: two operations are accepted, the first panics, and the second shutdown after that
  reports success.\<close>

definition panics :: "nat \<Rightarrow> nat \<Rightarrow> (nat result \<times> nat) option" where
  "panics n s = None"

definition lost_worker :: "(nat, nat) worker" where
  "lost_worker = (worker_start 5)\<lparr>wk_next := 2, wk_accepted := [0, 1], wk_thread := Panicked, wk_open := False,
     wk_join := False\<rparr>"

lemma second_shutdown_after_panic:
  "worker_reachable panics 5 lost_worker \<and> wk_owned lost_worker \<and> shutdown_look lost_worker 0 0 = (Some (Inr ()), False)
    \<and> 1 \<in> set (wk_accepted lost_worker) \<and> wk_executed lost_worker = [] \<and> wk_cells lost_worker 1 = None"
proof -
  let ?W0 = "worker_start 5 :: (nat, nat) worker"
  let ?W1 = "enqueue (BlockingJob 0) ?W0"
  let ?W2 = "enqueue (BlockingJob 1) ?W1"
  let ?W3 = "?W2\<lparr>wk_jobs := [BlockingJob 1], wk_running := Some 0\<rparr>"
  let ?W4 = "?W3\<lparr>wk_running := None, wk_jobs := [], wk_thread := Panicked\<rparr>"
  let ?W5 = "?W4\<lparr>wk_open := False\<rparr>"
  have "worker_step panics ?W0 ?W1" using worker_step.call[of ?W0 panics] by (simp add: run_states)
  moreover have "worker_step panics ?W1 ?W2" using worker_step.call[of ?W1 panics] by (simp add: run_states)
  moreover have "worker_step panics ?W2 ?W3"
    using worker_step.start_blocking[of ?W2 0 "[BlockingJob 1]" panics] by (simp add: run_states)
  moreover have "worker_step panics ?W3 ?W4" by (rule worker_step.job_panics) (simp_all add: run_states panics_def)
  moreover have "worker_step panics ?W4 ?W5" by (rule worker_step.close_queue)
  moreover have "worker_step panics ?W5 lost_worker"
    using worker_step.join_thread[of ?W5 panics] by (simp add: lost_worker_def run_states)
  ultimately have "worker_reachable panics 5 lost_worker"
    using worker_reachable.start[of panics 5] worker_reachable.step[of panics 5] by metis
  then show ?thesis by (simp add: lost_worker_def run_states shutdown_look_def)
qed

end
