(* ===== verification/Native_Error.thy ===== *)
theory Native_Error
  imports Errors
begin

text \<open>
  Failures of native calls (\<open>native_error\<close> and its helpers in \<open>client/sys.rs\<close>): an error of the windows crate
  is its message and its code, and the code decides how the library classifies it.
\<close>

type_synonym hresult = i32
type_synonym windows_error = "string \<times> hresult" \<comment> \<open>message and code\<close>

text \<open>A native call on the world.\<close>

type_synonym ('w, 'a) native = "'w \<Rightarrow> (windows_error + 'a) \<times> 'w"

definition access_denied_codes :: "u32 list" where "access_denied_codes = [0x80070005]"
definition timeout_codes :: "u32 list" where "timeout_codes = [0x800705B4]"
definition not_found_codes :: "u32 list" where "not_found_codes = [0x80070002, 0x80070003, 0x80041309, 0x8004130D]"
definition already_exists_codes :: "u32 list" where "already_exists_codes = [0x800700B7]"
definition authentication_codes :: "u32 list" where
  "authentication_codes =
     [0x80070056, 0x8007052E, 0x8004130F, 0x80041310, 0x80041311, 0x80041312, 0x80041320]"
definition unavailable_codes :: "u32 list" where
  "unavailable_codes =
     [0x800706BA, 0x800706BE, 0x800706BF, 0x8004130C, 0x80041315, 0x80041322, 0x80041323]"
definition invalid_definition_codes :: "u32 list" where
  "invalid_definition_codes =
     [0x8004130E, 0x80041316, 0x80041317, 0x80041318, 0x80041319, 0x8004131A, 0x8004131D, 0x8004131E, 0x80041321]"
definition capability_codes :: "u32 list" where
  "capability_codes = [0x80041313, 0x80041314, 0x80041327, 0x80041329, 0x80041330]"
definition conflict_codes :: "u32 list" where "conflict_codes = [0x8004131F, 0x80041326, 0x80041328]"

definition native_error_kind :: "u32 \<Rightarrow> error_kind" where
  "native_error_kind code =
     (if code \<in> set access_denied_codes then AccessDenied
      else if code \<in> set timeout_codes then Timeout
      else if code \<in> set not_found_codes then NotFound
      else if code \<in> set already_exists_codes then AlreadyExists
      else if code \<in> set authentication_codes then Authentication
      else if code \<in> set unavailable_codes then SchedulerUnavailable
      else if code \<in> set invalid_definition_codes then InvalidDefinition
      else if code \<in> set capability_codes then Capability
      else if code \<in> set conflict_codes then Conflict
      else Com)"

definition native_error :: "string \<Rightarrow> string option \<Rightarrow> windows_error \<Rightarrow> error" where
  "native_error operation target e =
     (let r = with_native_code (snd e) (with_operation operation (new_error (native_error_kind (snd e)) [Dsp (fst e)]))
      in case target of Some t \<Rightarrow> with_target t r | None \<Rightarrow> r)"

text \<open>A native call whose failure becomes an error of the library.\<close>

definition checked :: "(windows_error \<Rightarrow> error) \<Rightarrow> ('w, 'a) native \<Rightarrow> 'w \<Rightarrow> 'a result \<times> 'w" where
  "checked f m w = (case m w of (Inl e, w) \<Rightarrow> (Inl (f e), w) | (Inr x, w) \<Rightarrow> (Inr x, w))"

lemma native_error_fields [simp]:
  "e_kind (native_error operation target e) = native_error_kind (snd e)"
  "e_operation (native_error operation target e) = Some operation"
  "e_target (native_error operation target e) = target"
  "e_native_code (native_error operation target e) = Some (snd e)"
  "e_context (native_error operation target e) = []"
  by (simp_all add: native_error_def Let_def error_defs split: option.splits)

text \<open>The classes are disjoint, so the order of the tests does not matter.\<close>

lemma native_code_classes_disjoint:
  "distinct (access_denied_codes @ timeout_codes @ not_found_codes @ already_exists_codes @ authentication_codes
     @ unavailable_codes @ invalid_definition_codes @ capability_codes @ conflict_codes)"
  by code_simp

end
