(* ===== verification/Handler.thy ===== *)
theory Handler
  imports Native_Error
begin

text \<open>
  Task handlers (\<open>handler.rs\<close>): the pause/stop control, the progress reporter, and one invocation of a
  handler. Its status worker owns the native status object and serves the commands of the reporter's clones
  and the end of the user's run; the steps of all threads interleave. \<open>status\<close> is the native object: the
  failure, if any, of its n-th call. Traces and the injected failures of the tests are left out.
\<close>

section \<open>Control\<close>

type_synonym control = u8

definition is_cancelled :: "control \<Rightarrow> bool" where "is_cancelled state \<longleftrightarrow> state = 2"
definition is_paused :: "control \<Rightarrow> bool" where "is_paused state \<longleftrightarrow> state = 1"

definition request_pause :: "control \<Rightarrow> control" where
  "request_pause state = (if state = 0 then 1 else state)"

definition request_resume :: "control \<Rightarrow> control" where
  "request_resume state = (if state = 1 then 0 else state)"

definition request_stop :: "control \<Rightarrow> control" where
  "request_stop state = 2"

lemmas control_defs = is_cancelled_def is_paused_def request_pause_def request_resume_def request_stop_def

section \<open>The progress reporter\<close>

record reporter =
  rp_poisoned :: bool \<comment> \<open>a thread panicked while it held the operation lock\<close>
  rp_completed :: bool
  rp_progress :: u8
  rp_native :: bool

definition reporter_default :: reporter where
  "reporter_default = \<lparr>rp_poisoned = False, rp_completed = False, rp_progress = 0, rp_native = False\<rparr>"

definition reporter_poisoned :: error where
  "reporter_poisoned = new_error WorkerStopped [Lit ''handler reporter poisoned'']"

text \<open>A call under the lock is answered at once or needs the native object.\<close>

datatype begun = Answered "unit result" | NeedsNative

definition report_begin :: "u8 \<Rightarrow> reporter \<Rightarrow> begun \<times> reporter" where
  "report_begin percent R =
     (if rp_poisoned R then (Answered (Inl reporter_poisoned), R)
      else if percent > 100 then
        (Answered (Inl (new_error InvalidDefinition [Lit ''handler progress must be between 0 and 100''])), R)
      else if rp_completed R then
        (Answered (Inl (new_error Conflict [Lit ''handler already completed''])), R)
      else if rp_native R \<and> percent > rp_progress R then (NeedsNative, R)
      else (Answered (Inr ()), R\<lparr>rp_progress := max (rp_progress R) percent\<rparr>))"

definition report_end :: "u8 \<Rightarrow> unit result \<Rightarrow> reporter \<Rightarrow> reporter" where
  "report_end percent r R =
     (case r of Inl _ \<Rightarrow> R | Inr _ \<Rightarrow> R\<lparr>rp_progress := max (rp_progress R) percent\<rparr>)"

definition complete_begin :: "reporter \<Rightarrow> begun \<times> reporter" where
  "complete_begin R =
     (if rp_poisoned R then (Answered (Inl reporter_poisoned), R)
      else if rp_completed R then
        (Answered (Inl (new_error Conflict [Lit ''handler completion was already reported''])), R)
      else if rp_native R then (NeedsNative, R\<lparr>rp_completed := True\<rparr>)
      else (Answered (Inr ()), R\<lparr>rp_completed := True\<rparr>))"

definition complete_end :: "unit result \<Rightarrow> reporter \<Rightarrow> reporter" where
  "complete_end r R = (case r of Inl _ \<Rightarrow> R\<lparr>rp_completed := False\<rparr> | Inr _ \<Rightarrow> R)"

lemmas reporter_defs = report_begin_def report_end_def complete_begin_def complete_end_def

section \<open>Native notifications\<close>

definition S_OK :: hresult where "S_OK = 0"
definition S_FALSE :: hresult where "S_FALSE = 1"
definition E_FAIL :: hresult where "E_FAIL = 0x80004005"

datatype native_call = UpdateStatus u8 string | TaskCompleted hresult

type_synonym journal = "(native_call \<times> bool) list" \<comment> \<open>the calls made and whether they succeeded\<close>
type_synonym status = "nat \<Rightarrow> native_call \<Rightarrow> windows_error option"

definition reporter_stopped :: error where
  "reporter_stopped = new_error WorkerStopped [Lit ''Task Scheduler handler status worker stopped'']"

definition status_error :: "string \<Rightarrow> windows_error \<Rightarrow> error" where
  "status_error op e = with_native_code (snd e) (with_operation op (new_error Com [Dsp (fst e)]))"

definition native_call :: "status \<Rightarrow> string \<Rightarrow> native_call \<Rightarrow> journal \<Rightarrow> unit result \<times> journal" where
  "native_call status op call J =
     (case status (length J) call of
        None \<Rightarrow> (Inr (), J @ [(call, True)])
      | Some e \<Rightarrow> (Inl (status_error op e), J @ [(call, False)]))"

definition notify_completed :: "status \<Rightarrow> hresult \<Rightarrow> journal \<Rightarrow> unit result \<times> journal" where
  "notify_completed status code = native_call status ''complete handler task'' (TaskCompleted code)"

definition notify_terminal_completed :: "status \<Rightarrow> hresult \<Rightarrow> journal \<Rightarrow> unit result \<times> journal" where
  "notify_terminal_completed status code J =
     (case notify_completed status code J of
        (Inr _, J) \<Rightarrow> (Inr (), J)
      | (Inl _, J) \<Rightarrow> notify_completed status code J)"

definition exit_code :: "unit result \<Rightarrow> hresult" where
  "exit_code r =
     (case r of
        Inr _ \<Rightarrow> S_OK
      | Inl e \<Rightarrow> (case e_native_code e of Some c \<Rightarrow> if sint c < 0 then c else E_FAIL | None \<Rightarrow> E_FAIL))"

section \<open>One invocation\<close>

datatype call = Reporting u8 string | Completing
datatype call_phase = Claimed | Sent | Replied "unit result"
datatype status_command = Update u8 string | Complete | HandlerDone "unit result"

text \<open>The user's thread: it runs, has queued its result (a caught panic is a result), or was lost while the
  payload of a panic was dropped.\<close>

datatype user_thread = UserRuns | UserReturned "unit result" | UserLost

text \<open>The status worker: in its loop, about to notify the end of the run, joining the user's thread (with
  \<open>received_handler_done\<close>), about to notify in place of the user, gone.\<close>

datatype stage = Serving | Notifying hresult | Joining bool | Replacing | Gone

fun returned :: "user_thread \<Rightarrow> bool" where
  "returned (UserReturned _) = True"
| "returned _ = False"

record invocation =
  iv_reporter :: reporter
  iv_call :: "(call \<times> call_phase) option" \<comment> \<open>the reporter call that holds the operation lock\<close>
  iv_clones :: bool \<comment> \<open>a clone of the reporter is alive\<close>
  iv_queue :: "status_command list"
  iv_user :: user_thread
  iv_stage :: stage
  iv_journal :: journal
  iv_late :: bool \<comment> \<open>a completion was claimed but not queued before the end of the run was\<close>

text \<open>\<open>handler_worker\<close> once it has unmarshalled the status object (a failure to do so ends the worker with nobody
  to notify): without a user thread the failure is notified at once.\<close>

definition invocation_start :: "status \<Rightarrow> bool \<Rightarrow> invocation" where
  "invocation_start status spawned =
     (let R = reporter_default\<lparr>rp_native := True\<rparr>;
          I = \<lparr>iv_reporter = R, iv_call = None, iv_clones = True, iv_queue = [], iv_user = UserRuns,
               iv_stage = Serving, iv_journal = [], iv_late = False\<rparr>
      in if spawned then I
         else I\<lparr>iv_clones := False, iv_user := UserLost, iv_stage := Gone,
                iv_journal := snd (notify_terminal_completed status E_FAIL [])\<rparr>)"

fun command_of :: "call \<Rightarrow> status_command" where
  "command_of (Reporting percent message) = Update percent message"
| "command_of Completing = Complete"

definition reply :: "unit result \<Rightarrow> invocation \<Rightarrow> invocation" where
  "reply r I =
     (case iv_call I of
        Some (c, Sent) \<Rightarrow> I\<lparr>iv_call := Some (c, Replied r)\<rparr>
      | _ \<Rightarrow> I)"

definition set_completed :: "bool \<Rightarrow> invocation \<Rightarrow> invocation" where
  "set_completed b I = I\<lparr>iv_reporter := (iv_reporter I)\<lparr>rp_completed := b\<rparr>\<rparr>"

text \<open>One turn of the worker's loop; the answer of \<open>HandlerDone\<close> is notified by the next step.\<close>

fun serve :: "status \<Rightarrow> status_command \<Rightarrow> invocation \<Rightarrow> invocation" where
  "serve status (Update percent message) I =
     (let (r, J) = native_call status ''update handler status'' (UpdateStatus percent message) (iv_journal I)
      in reply r (I\<lparr>iv_journal := J\<rparr>))"
| "serve status Complete I =
     (let (r, J) = notify_completed status S_OK (iv_journal I); I = I\<lparr>iv_journal := J\<rparr>
      in reply r (case r of Inl _ \<Rightarrow> set_completed False I | Inr _ \<Rightarrow> I))"
| "serve status (HandlerDone result) I =
     (if rp_completed (iv_reporter I) then I\<lparr>iv_stage := Joining True\<rparr>
      else (set_completed True I)\<lparr>iv_stage := Notifying (exit_code result)\<rparr>)"

definition notify_end :: "status \<Rightarrow> hresult \<Rightarrow> invocation \<Rightarrow> invocation" where
  "notify_end status code I =
     (let (r, J) = notify_terminal_completed status code (iv_journal I); I = I\<lparr>iv_journal := J\<rparr>
      in case r of Inl _ \<Rightarrow> set_completed False I | Inr _ \<Rightarrow> I)"

definition take_call :: "call \<Rightarrow> invocation \<Rightarrow> invocation" where
  "take_call c I =
     (let (b, R) = (case c of Reporting percent _ \<Rightarrow> report_begin percent (iv_reporter I)
                    | Completing \<Rightarrow> complete_begin (iv_reporter I))
      in I\<lparr>iv_reporter := R,
           iv_call := (if b = NeedsNative then Some (c, Claimed) else None),
           iv_late := (iv_late I \<or> c = Completing \<and> b = NeedsNative \<and> returned (iv_user I))\<rparr>)"

definition end_call :: "call \<Rightarrow> unit result \<Rightarrow> invocation \<Rightarrow> invocation" where
  "end_call c r I = I\<lparr>iv_call := None,
     iv_reporter := (case c of Reporting percent _ \<Rightarrow> report_end percent r (iv_reporter I)
                     | Completing \<Rightarrow> complete_end r (iv_reporter I))\<rparr>"

inductive handler_step :: "status \<Rightarrow> invocation \<Rightarrow> invocation \<Rightarrow> bool" for status where
  \<comment> \<open>the threads that hold a clone of the reporter\<close>
  take: "iv_call I = None \<Longrightarrow> iv_clones I \<Longrightarrow> handler_step status I (take_call c I)"
| send: "iv_call I = Some (c, Claimed) \<Longrightarrow> iv_stage I \<noteq> Gone \<Longrightarrow>
    handler_step status I (I\<lparr>iv_call := Some (c, Sent), iv_queue := iv_queue I @ [command_of c]\<rparr>)"
| send_fails: "iv_call I = Some (c, Claimed) \<Longrightarrow> iv_stage I = Gone \<Longrightarrow>
    handler_step status I (I\<lparr>iv_call := Some (c, Replied (Inl reporter_stopped))\<rparr>)"
| reply_lost: "iv_call I = Some (c, Sent) \<Longrightarrow> iv_stage I = Gone \<Longrightarrow>
    handler_step status I (I\<lparr>iv_call := Some (c, Replied (Inl reporter_stopped))\<rparr>)"
| finish_call: "iv_call I = Some (c, Replied r) \<Longrightarrow> handler_step status I (end_call c r I)"
| drop_clones: "iv_call I = None \<Longrightarrow>
    handler_step status I (I\<lparr>iv_clones := False\<rparr>)"
  \<comment> \<open>the user's thread\<close>
| user_returns: "iv_user I = UserRuns \<Longrightarrow>
    handler_step status I (I\<lparr>iv_user := UserReturned r, iv_queue := iv_queue I @ [HandlerDone r],
      iv_late := (iv_late I \<or> iv_call I = Some (Completing, Claimed))\<rparr>)"
| user_lost: "iv_user I = UserRuns \<Longrightarrow> handler_step status I (I\<lparr>iv_user := UserLost\<rparr>)"
  \<comment> \<open>the status worker\<close>
| serve_command: "iv_stage I = Serving \<Longrightarrow> iv_queue I = command # rest \<Longrightarrow>
    handler_step status I (serve status command (I\<lparr>iv_queue := rest\<rparr>))"
| disconnected: "iv_stage I = Serving \<Longrightarrow> iv_queue I = [] \<Longrightarrow> \<not> iv_clones I \<Longrightarrow> iv_user I \<noteq> UserRuns \<Longrightarrow>
    handler_step status I (I\<lparr>iv_stage := Joining False\<rparr>)"
| notify: "iv_stage I = Notifying code \<Longrightarrow>
    handler_step status I ((notify_end status code I)\<lparr>iv_stage := Joining True\<rparr>)"
| join_done: "iv_stage I = Joining True \<Longrightarrow> handler_step status I (I\<lparr>iv_stage := Gone, iv_queue := []\<rparr>)"
| join_completed: "iv_stage I = Joining False \<Longrightarrow> rp_completed (iv_reporter I) \<Longrightarrow>
    handler_step status I (I\<lparr>iv_stage := Gone, iv_queue := []\<rparr>)"
| join_open: "iv_stage I = Joining False \<Longrightarrow> \<not> rp_completed (iv_reporter I) \<Longrightarrow>
    handler_step status I ((set_completed True I)\<lparr>iv_stage := Replacing\<rparr>)"
| replace: "iv_stage I = Replacing \<Longrightarrow>
    handler_step status I ((notify_end status E_FAIL I)\<lparr>iv_stage := Gone, iv_queue := []\<rparr>)"

inductive handler_reachable :: "status \<Rightarrow> bool \<Rightarrow> invocation \<Rightarrow> bool" for status spawned where
  start: "handler_reachable status spawned (invocation_start status spawned)"
| step: "handler_reachable status spawned I \<Longrightarrow> handler_step status I I' \<Longrightarrow> handler_reachable status spawned I'"

section \<open>Journals\<close>

definition reported :: "journal \<Rightarrow> bool" where
  "reported J \<longleftrightarrow> (\<exists>code. (TaskCompleted code, True) \<in> set J)"

fun percents :: "journal \<Rightarrow> u8 list" where
  "percents [] = []"
| "percents ((UpdateStatus percent _, True) # J) = percent # percents J"
| "percents (_ # J) = percents J"

lemma percents_append [simp]: "percents (J @ K) = percents J @ percents K"
  by (induction J rule: percents.induct) auto

lemma reported_append [simp]: "reported (J @ K) \<longleftrightarrow> reported J \<or> reported K"
  and reported_Nil [simp]: "\<not> reported []"
  by (auto simp: reported_def)

lemma reported_single [simp]: "reported [(call, b)] \<longleftrightarrow> b \<and> (\<exists>code. call = TaskCompleted code)"
  by (auto simp: reported_def)

text \<open>Nothing follows a reported completion, and how a journal ends when the end of the run was told.\<close>

definition sealed :: "journal \<Rightarrow> bool" where
  "sealed J \<longleftrightarrow> \<not> reported (butlast J)"

definition ended :: "hresult \<Rightarrow> journal \<Rightarrow> bool" where
  "ended code J \<longleftrightarrow>
     (\<exists>K. J = K @ [(TaskCompleted code, True)] \<or> J = K @ [(TaskCompleted code, False), (TaskCompleted code, False)])"

lemma native_call_cases:
  obtains "native_call status op call J = (Inr (), J @ [(call, True)])"
  | e where "native_call status op call J = (Inl e, J @ [(call, False)])"
  by (cases "status (length J) call") (auto simp: native_call_def)

lemma native_call_result: "\<exists>r. native_call status op call J = (r, J @ [(call, r = Inr ())])"
  by (rule native_call_cases[of status op call J]) auto

lemma notify_terminal_cases:
  obtains "notify_terminal_completed status code J = (Inr (), J @ [(TaskCompleted code, True)])"
  | "notify_terminal_completed status code J = (Inr (), J @ [(TaskCompleted code, False), (TaskCompleted code, True)])"
  | e where "notify_terminal_completed status code J =
      (Inl e, J @ [(TaskCompleted code, False), (TaskCompleted code, False)])"
  by (cases "status (length J) (TaskCompleted code)"; cases "status (Suc (length J)) (TaskCompleted code)")
    (auto simp: notify_terminal_completed_def notify_completed_def native_call_def)

text \<open>What the terminal notification adds: it is sealed, it ends, and it reports no progress.\<close>

lemma notify_terminal_journal:
  assumes "\<not> reported J"
  shows "sealed (snd (notify_terminal_completed status code J))"
    "ended code (snd (notify_terminal_completed status code J))"
    "percents (snd (notify_terminal_completed status code J)) = percents J"
    using assms by (cases rule: notify_terminal_cases[of status code J];
      auto simp: sealed_def ended_def butlast_append)+

lemma reported_sealed_last:
  assumes "reported J" and "sealed J"
  obtains code K where "J = K @ [(TaskCompleted code, True)]"
  using assms by (cases J rule: rev_cases) (auto simp: sealed_def reported_def)

section \<open>The invariant\<close>

definition is_done :: "status_command \<Rightarrow> bool" where
  "is_done command \<longleftrightarrow> (\<exists>r. command = HandlerDone r)"

lemma is_done_simps [simp]:
  "is_done (HandlerDone r)" "\<not> is_done (Update percent message)" "\<not> is_done Complete" "\<not> is_done (command_of c)"
  by (cases c; simp add: is_done_def)+

definition claiming :: "invocation \<Rightarrow> bool" where
  "claiming I \<longleftrightarrow> iv_call I \<in> {Some (Completing, Claimed), Some (Completing, Sent)}"

text \<open>While it is served the queue holds the command of the waiting call, and the end of the run.\<close>

fun waiting_command :: "(call \<times> call_phase) option \<Rightarrow> status_command list" where
  "waiting_command (Some (c, Sent)) = [command_of c]"
| "waiting_command _ = []"

fun end_command :: "user_thread \<Rightarrow> status_command list" where
  "end_command (UserReturned r) = [HandlerDone r]"
| "end_command _ = []"

definition queue_inv :: "invocation \<Rightarrow> bool" where
  "queue_inv I \<longleftrightarrow>
     rp_native (iv_reporter I)
     \<and> (iv_stage I = Serving \<longrightarrow> filter (\<lambda>c. \<not> is_done c) (iv_queue I) = waiting_command (iv_call I))
     \<and> (iv_stage I = Serving \<longrightarrow> filter is_done (iv_queue I) = end_command (iv_user I))
     \<and> (iv_call I = None \<or> iv_clones I)"

definition stage_inv :: "invocation \<Rightarrow> bool" where
  "stage_inv I \<longleftrightarrow>
     (\<forall>code. iv_stage I = Notifying code \<longrightarrow> (\<exists>r. iv_user I = UserReturned r \<and> code = exit_code r))
     \<and> (iv_stage I = Joining True \<longrightarrow> (\<exists>r. iv_user I = UserReturned r))
     \<and> (iv_stage I \<in> {Joining False, Replacing} \<longrightarrow> iv_user I = UserLost \<and> iv_call I = None \<and> \<not> iv_clones I)
     \<and> (iv_stage I = Gone \<longrightarrow> iv_user I \<noteq> UserRuns)"

text \<open>The flag says whether completion was reported, but for the completion just being claimed.\<close>

definition flag_inv :: "invocation \<Rightarrow> bool" where
  "flag_inv I \<longleftrightarrow>
     sealed (iv_journal I)
     \<and> (iv_stage I = Serving \<longrightarrow> rp_completed (iv_reporter I) = (reported (iv_journal I) \<or> claiming I))
     \<and> (iv_stage I = Joining False \<longrightarrow> rp_completed (iv_reporter I) = reported (iv_journal I))
     \<and> (\<forall>c. iv_stage I = Serving \<longrightarrow> iv_call I = Some (c, Claimed) \<longrightarrow> \<not> reported (iv_journal I))
     \<and> (\<forall>c. iv_stage I = Serving \<longrightarrow> iv_call I = Some (c, Sent) \<longrightarrow> \<not> reported (iv_journal I))
     \<and> (\<forall>e. iv_stage I = Serving \<longrightarrow> iv_call I = Some (Completing, Replied (Inl e)) \<longrightarrow> \<not> reported (iv_journal I))
     \<and> (\<forall>code. iv_stage I = Notifying code \<longrightarrow> \<not> reported (iv_journal I))
     \<and> (iv_stage I = Replacing \<longrightarrow> \<not> reported (iv_journal I))"

text \<open>The steps of the invariant's states, as updates of single fields.\<close>

lemma waiting_call:
  assumes "queue_inv I" and "iv_stage I = Serving" and "iv_queue I = command # rest" and "\<not> is_done command"
  obtains c where "iv_call I = Some (c, Sent)" and "command = command_of c"
proof -
  have "waiting_command (iv_call I) = command # filter (\<lambda>c. \<not> is_done c) rest"
    using assms by (simp add: queue_inv_def)
  then show thesis using that by (cases "iv_call I" rule: waiting_command.cases) auto
qed

lemma report_begin_native:
  assumes "rp_native R"
  shows "(\<exists>r. report_begin percent R = (Answered r, R))
    \<or> report_begin percent R = (NeedsNative, R) \<and> percent \<le> 100 \<and> percent > rp_progress R \<and> \<not> rp_completed R"
proof -
  have "R\<lparr>rp_progress := max (rp_progress R) percent\<rparr> = R" if "\<not> percent > rp_progress R"
    using that by (cases R) (simp add: max_absorb1 not_less)
  then show ?thesis using assms by (auto simp: report_begin_def not_less)
qed

lemma complete_begin_native:
  "rp_native R \<Longrightarrow> (\<exists>r. complete_begin R = (Answered r, R))
    \<or> complete_begin R = (NeedsNative, R\<lparr>rp_completed := True\<rparr>) \<and> \<not> rp_completed R"
  by (auto simp: complete_begin_def)

lemma take_cases:
  assumes "rp_native (iv_reporter I)" and "iv_call I = None"
  obtains (answered) "take_call c I = I"
  | (report) percent message where "c = Reporting percent message" "percent \<le> 100" "percent > rp_progress (iv_reporter I)"
      "\<not> rp_completed (iv_reporter I)" "take_call c I = I\<lparr>iv_call := Some (Reporting percent message, Claimed)\<rparr>"
  | (complete) "c = Completing" "\<not> rp_completed (iv_reporter I)"
      "take_call c I = (set_completed True I)\<lparr>iv_call := Some (Completing, Claimed),
         iv_late := iv_late I \<or> returned (iv_user I)\<rparr>"
proof -
  have same: "I\<lparr>iv_reporter := iv_reporter I, iv_call := None, iv_late := iv_late I\<rparr> = I"
    "I\<lparr>iv_reporter := iv_reporter I, iv_call := x, iv_late := iv_late I\<rparr> = I\<lparr>iv_call := x\<rparr>" for x
    using assms(2) by (cases I; simp)+
  show thesis
  proof (cases c)
    case (Reporting percent message)
    show thesis using same answered report Reporting report_begin_native[OF assms(1), of percent] by (auto simp: take_call_def)
  next
    case Completing
    show thesis using same answered complete Completing complete_begin_native[OF assms(1)] by (auto simp: take_call_def set_completed_def)
  qed
qed

lemma serve_cases:
  assumes "queue_inv I" and "iv_stage I = Serving" and "iv_queue I = command # rest"
  obtains (update) percent message r where "iv_call I = Some (Reporting percent message, Sent)"
      "command = Update percent message"
      "serve status command (I\<lparr>iv_queue := rest\<rparr>) = I\<lparr>iv_queue := rest,
         iv_journal := iv_journal I @ [(UpdateStatus percent message, r = Inr ())],
         iv_call := Some (Reporting percent message, Replied r)\<rparr>"
  | (complete) "iv_call I = Some (Completing, Sent)" "command = Complete"
      "serve status command (I\<lparr>iv_queue := rest\<rparr>) = I\<lparr>iv_queue := rest,
         iv_journal := iv_journal I @ [(TaskCompleted S_OK, True)], iv_call := Some (Completing, Replied (Inr ()))\<rparr>"
  | (complete_fails) e where "iv_call I = Some (Completing, Sent)" "command = Complete"
      "serve status command (I\<lparr>iv_queue := rest\<rparr>) = (set_completed False I)\<lparr>iv_queue := rest,
         iv_journal := iv_journal I @ [(TaskCompleted S_OK, False)], iv_call := Some (Completing, Replied (Inl e))\<rparr>"
  | (handled) r where "command = HandlerDone r" "rp_completed (iv_reporter I)"
      "serve status command (I\<lparr>iv_queue := rest\<rparr>) = I\<lparr>iv_queue := rest, iv_stage := Joining True\<rparr>"
  | (handled_open) r where "command = HandlerDone r" "\<not> rp_completed (iv_reporter I)"
      "serve status command (I\<lparr>iv_queue := rest\<rparr>) =
         (set_completed True I)\<lparr>iv_queue := rest, iv_stage := Notifying (exit_code r)\<rparr>"
proof (cases command)
  case (Update percent message)
  then obtain c where c: "iv_call I = Some (c, Sent)" "command = command_of c"
    using waiting_call[OF assms] by auto
  then have "c = Reporting percent message" using Update by (cases c) auto
  moreover obtain r where "native_call status ''update handler status'' (UpdateStatus percent message) (iv_journal I)
      = (r, iv_journal I @ [(UpdateStatus percent message, r = Inr ())])"
    using native_call_result by blast
  ultimately show thesis using c Update by (intro update[of percent message r]) (simp_all add: reply_def)
next
  case Complete
  then obtain c where c: "iv_call I = Some (c, Sent)" "command = command_of c"
    using waiting_call[OF assms] by auto
  then have "c = Completing" using Complete by (cases c) auto
  with c Complete have call: "iv_call I = Some (Completing, Sent)" by simp
  note unfold = Complete call reply_def notify_completed_def set_completed_def
  show thesis
  proof (rule native_call_cases[of status "''complete handler task''" "TaskCompleted S_OK" "iv_journal I"])
    assume "native_call status ''complete handler task'' (TaskCompleted S_OK) (iv_journal I)
      = (Inr (), iv_journal I @ [(TaskCompleted S_OK, True)])"
    then show thesis by (intro complete) (simp_all add: unfold)
  next
    fix e
    assume "native_call status ''complete handler task'' (TaskCompleted S_OK) (iv_journal I)
      = (Inl e, iv_journal I @ [(TaskCompleted S_OK, False)])"
    then show thesis by (intro complete_fails[of e]) (simp_all add: unfold)
  qed
next
  case (HandlerDone r)
  then show thesis
    by (cases "rp_completed (iv_reporter I)") (auto intro: handled handled_open simp: set_completed_def)
qed

lemma end_cases:
  assumes "queue_inv I" and "iv_call I = Some (c, Replied r)"
  obtains (report) percent message where "c = Reporting percent message" "r = Inr ()"
      "end_call c r I = I\<lparr>iv_call := None,
         iv_reporter := (iv_reporter I)\<lparr>rp_progress := max (rp_progress (iv_reporter I)) percent\<rparr>\<rparr>"
  | (quiet) e percent message where "c = Reporting percent message" "r = Inl e" "end_call c r I = I\<lparr>iv_call := None\<rparr>"
  | (complete) "c = Completing" "r = Inr ()" "end_call c r I = I\<lparr>iv_call := None\<rparr>"
  | (complete_fails) e where "c = Completing" "r = Inl e" "end_call c r I = (set_completed False I)\<lparr>iv_call := None\<rparr>"
  by (cases c; cases r) (auto simp: end_call_def report_end_def complete_end_def set_completed_def
      intro: report quiet complete complete_fails)

text \<open>The same steps with every update written out; the invariant is proved over this relation.\<close>

inductive flat_step :: "status \<Rightarrow> invocation \<Rightarrow> invocation \<Rightarrow> bool" for status where
  answered: "flat_step status I I"
| claim_report: "iv_call I = None \<Longrightarrow> iv_clones I \<Longrightarrow> percent \<le> 100 \<Longrightarrow> percent > rp_progress (iv_reporter I) \<Longrightarrow>
    \<not> rp_completed (iv_reporter I) \<Longrightarrow> flat_step status I (I\<lparr>iv_call := Some (Reporting percent message, Claimed)\<rparr>)"
| claim_complete: "iv_call I = None \<Longrightarrow> iv_clones I \<Longrightarrow> \<not> rp_completed (iv_reporter I) \<Longrightarrow>
    flat_step status I ((set_completed True I)\<lparr>iv_call := Some (Completing, Claimed),
      iv_late := iv_late I \<or> returned (iv_user I)\<rparr>)"
| sent: "iv_call I = Some (c, Claimed) \<Longrightarrow> iv_stage I \<noteq> Gone \<Longrightarrow>
    flat_step status I (I\<lparr>iv_call := Some (c, Sent), iv_queue := iv_queue I @ [command_of c]\<rparr>)"
| stopped: "iv_call I = Some (c, phase) \<Longrightarrow> phase \<in> {Claimed, Sent} \<Longrightarrow> iv_stage I = Gone \<Longrightarrow>
    flat_step status I (I\<lparr>iv_call := Some (c, Replied (Inl reporter_stopped))\<rparr>)"
| report_done: "iv_call I = Some (Reporting percent message, Replied (Inr ())) \<Longrightarrow>
    flat_step status I (I\<lparr>iv_call := None,
      iv_reporter := (iv_reporter I)\<lparr>rp_progress := max (rp_progress (iv_reporter I)) percent\<rparr>\<rparr>)"
| report_failed: "iv_call I = Some (Reporting percent message, Replied (Inl e)) \<Longrightarrow>
    flat_step status I (I\<lparr>iv_call := None\<rparr>)"
| complete_done: "iv_call I = Some (Completing, Replied (Inr ())) \<Longrightarrow> flat_step status I (I\<lparr>iv_call := None\<rparr>)"
| complete_failed: "iv_call I = Some (Completing, Replied (Inl e)) \<Longrightarrow>
    flat_step status I ((set_completed False I)\<lparr>iv_call := None\<rparr>)"
| clones_dropped: "iv_call I = None \<Longrightarrow> flat_step status I (I\<lparr>iv_clones := False\<rparr>)"
| returns: "iv_user I = UserRuns \<Longrightarrow>
    flat_step status I (I\<lparr>iv_user := UserReturned r, iv_queue := iv_queue I @ [HandlerDone r],
      iv_late := (iv_late I \<or> iv_call I = Some (Completing, Claimed))\<rparr>)"
| lost: "iv_user I = UserRuns \<Longrightarrow> flat_step status I (I\<lparr>iv_user := UserLost\<rparr>)"
| updated: "iv_stage I = Serving \<Longrightarrow> iv_queue I = Update percent message # rest \<Longrightarrow>
    iv_call I = Some (Reporting percent message, Sent) \<Longrightarrow>
    flat_step status I (I\<lparr>iv_queue := rest,
      iv_journal := iv_journal I @ [(UpdateStatus percent message, r = Inr ())],
      iv_call := Some (Reporting percent message, Replied r)\<rparr>)"
| completed: "iv_stage I = Serving \<Longrightarrow> iv_queue I = Complete # rest \<Longrightarrow> iv_call I = Some (Completing, Sent) \<Longrightarrow>
    flat_step status I (I\<lparr>iv_queue := rest, iv_journal := iv_journal I @ [(TaskCompleted S_OK, True)],
      iv_call := Some (Completing, Replied (Inr ()))\<rparr>)"
| not_completed: "iv_stage I = Serving \<Longrightarrow> iv_queue I = Complete # rest \<Longrightarrow> iv_call I = Some (Completing, Sent) \<Longrightarrow>
    flat_step status I ((set_completed False I)\<lparr>iv_queue := rest,
      iv_journal := iv_journal I @ [(TaskCompleted S_OK, False)], iv_call := Some (Completing, Replied (Inl e))\<rparr>)"
| handled: "iv_stage I = Serving \<Longrightarrow> iv_queue I = HandlerDone r # rest \<Longrightarrow> rp_completed (iv_reporter I) \<Longrightarrow>
    flat_step status I (I\<lparr>iv_queue := rest, iv_stage := Joining True\<rparr>)"
| handled_open: "iv_stage I = Serving \<Longrightarrow> iv_queue I = HandlerDone r # rest \<Longrightarrow> \<not> rp_completed (iv_reporter I) \<Longrightarrow>
    flat_step status I ((set_completed True I)\<lparr>iv_queue := rest, iv_stage := Notifying (exit_code r)\<rparr>)"
| disconnect: "iv_stage I = Serving \<Longrightarrow> iv_queue I = [] \<Longrightarrow> \<not> iv_clones I \<Longrightarrow> iv_user I \<noteq> UserRuns \<Longrightarrow>
    flat_step status I (I\<lparr>iv_stage := Joining False\<rparr>)"
| notified: "iv_stage I = Notifying code \<Longrightarrow> J = snd (notify_terminal_completed status code (iv_journal I)) \<Longrightarrow>
    flat_step status I (I\<lparr>iv_journal := J, iv_reporter := (iv_reporter I)\<lparr>rp_completed := b\<rparr>, iv_stage := Joining True\<rparr>)"
| joined: "iv_stage I = Joining received \<Longrightarrow> received \<or> rp_completed (iv_reporter I) \<Longrightarrow>
    flat_step status I (I\<lparr>iv_stage := Gone, iv_queue := []\<rparr>)"
| joined_open: "iv_stage I = Joining False \<Longrightarrow> \<not> rp_completed (iv_reporter I) \<Longrightarrow>
    flat_step status I ((set_completed True I)\<lparr>iv_stage := Replacing\<rparr>)"
| replaced: "iv_stage I = Replacing \<Longrightarrow> J = snd (notify_terminal_completed status E_FAIL (iv_journal I)) \<Longrightarrow>
    flat_step status I (I\<lparr>iv_journal := J, iv_reporter := (iv_reporter I)\<lparr>rp_completed := b\<rparr>,
      iv_stage := Gone, iv_queue := []\<rparr>)"

lemma notify_end_flat:
  "\<exists>b. notify_end status code I = I\<lparr>iv_journal := snd (notify_terminal_completed status code (iv_journal I)),
     iv_reporter := (iv_reporter I)\<lparr>rp_completed := b\<rparr>\<rparr>"
proof -
  have "I\<lparr>iv_journal := J, iv_reporter := (iv_reporter I)\<lparr>rp_completed := rp_completed (iv_reporter I)\<rparr>\<rparr>
      = I\<lparr>iv_journal := J\<rparr>" for J
    by (cases I; cases "iv_reporter I") simp
  then show ?thesis
    by (cases "notify_terminal_completed status code (iv_journal I)"; cases "fst (notify_terminal_completed status code (iv_journal I))")
      (auto simp: notify_end_def set_completed_def Let_def intro: exI[of _ "rp_completed (iv_reporter I)"])
qed

lemma flat_step_handler:
  assumes "handler_step status I I'" and "queue_inv I"
  shows "flat_step status I I'"
  using assms(1)
proof (cases rule: handler_step.cases)
  case (take c)
  have "rp_native (iv_reporter I)" using assms(2) by (simp add: queue_inv_def)
  from take_cases[OF this take(2), of c] show ?thesis
    by cases (use take in \<open>auto intro: flat_step.answered flat_step.claim_report flat_step.claim_complete\<close>)
next
  case (finish_call c r)
  from end_cases[OF assms(2) finish_call(2)] show ?thesis
    by cases (use finish_call in \<open>auto intro: flat_step.intros\<close>)
next
  case (serve_command command rest)
  from serve_cases[OF assms(2) serve_command(2,3), of status] show ?thesis
    by cases (use serve_command in \<open>auto simp del: serve.simps intro: flat_step.intros\<close>)
next
  case (notify code)
  obtain b where "notify_end status code I = I\<lparr>iv_journal := snd (notify_terminal_completed status code (iv_journal I)),
     iv_reporter := (iv_reporter I)\<lparr>rp_completed := b\<rparr>\<rparr>" using notify_end_flat by blast
  then show ?thesis using notify flat_step.notified[of I code _ status b] by simp
next
  case replace
  obtain b where "notify_end status E_FAIL I = I\<lparr>iv_journal := snd (notify_terminal_completed status E_FAIL (iv_journal I)),
     iv_reporter := (iv_reporter I)\<lparr>rp_completed := b\<rparr>\<rparr>" using notify_end_flat by blast
  then show ?thesis using replace flat_step.replaced[of I _ status b] by simp
qed (auto intro: flat_step.intros)

lemma queue_inv_flat:
  assumes "flat_step status I I'" and "queue_inv I"
  shows "queue_inv I'"
  using assms by cases (auto simp: queue_inv_def set_completed_def)

lemma handled_returned:
  assumes "queue_inv I" and "iv_stage I = Serving" and "iv_queue I = HandlerDone r # rest"
  shows "iv_user I = UserReturned r"
proof -
  have "end_command (iv_user I) = HandlerDone r # filter is_done rest" using assms by (simp add: queue_inv_def)
  then show ?thesis by (cases "iv_user I") auto
qed

lemma disconnected_lost:
  assumes "queue_inv I" and "iv_stage I = Serving" and "iv_queue I = []" and "\<not> iv_clones I" and "iv_user I \<noteq> UserRuns"
  shows "iv_user I = UserLost" "iv_call I = None"
  using assms by (cases "iv_user I"; auto simp: queue_inv_def)+

lemma stage_inv_flat:
  assumes "flat_step status I I'" and "queue_inv I" and "stage_inv I"
  shows "stage_inv I'"
  using assms(1)
proof cases
  case (handled r rest)
  then show ?thesis using handled_returned[OF assms(2)] by (simp add: stage_inv_def)
next
  case (handled_open r rest)
  then show ?thesis using handled_returned[OF assms(2)] by (simp add: stage_inv_def set_completed_def)
next
  case disconnect
  then show ?thesis using disconnected_lost[OF assms(2)] by (simp add: stage_inv_def)
qed (use assms(2,3) in \<open>auto simp: stage_inv_def queue_inv_def set_completed_def\<close>)

lemma sealed_snoc [simp]: "sealed (J @ [x]) \<longleftrightarrow> \<not> reported J"
  by (simp add: sealed_def)

lemma flag_inv_flat:
  assumes "flat_step status I I'" and "queue_inv I" and "stage_inv I" and "flag_inv I"
  shows "flag_inv I'"
  using assms(1)
proof cases
  case disconnect
  then show ?thesis using assms(4) disconnected_lost[OF assms(2)] by (auto simp: flag_inv_def claiming_def)
next
  case (notified code J b)
  then show ?thesis using assms(4) by (auto simp: flag_inv_def intro: notify_terminal_journal)
next
  case (replaced J b)
  then show ?thesis using assms(4) by (auto simp: flag_inv_def intro: notify_terminal_journal)
qed (use assms(3,4) in \<open>auto simp: flag_inv_def stage_inv_def claiming_def set_completed_def\<close>)

text \<open>As long as no completion is late, no claimed completion waits behind the end of the run.\<close>

definition late_inv :: "invocation \<Rightarrow> bool" where
  "late_inv I \<longleftrightarrow>
     iv_late I
     \<or> (returned (iv_user I) \<longrightarrow> iv_call I \<noteq> Some (Completing, Claimed))
       \<and> (iv_stage I = Serving \<longrightarrow> Complete \<notin> set (dropWhile (\<lambda>c. \<not> is_done c) (iv_queue I)))"

lemma not_ended_queue:
  "queue_inv I \<Longrightarrow> iv_stage I = Serving \<Longrightarrow> \<not> returned (iv_user I) \<Longrightarrow> c \<in> set (iv_queue I) \<Longrightarrow> \<not> is_done c"
  by (cases "iv_user I") (auto simp: queue_inv_def filter_empty_conv)

lemma late_inv_flat:
  assumes "flat_step status I I'" and "queue_inv I" and "late_inv I"
  shows "late_inv I'"
  using assms(1)
proof cases
  case (sent c)
  then show ?thesis
    using assms(3) not_ended_queue[OF assms(2)] by (cases c) (auto simp: late_inv_def dropWhile_append)
next
  case (handled r rest)
  then show ?thesis using assms(3) by (auto simp: late_inv_def)
next
  case (handled_open r rest)
  then show ?thesis using assms(3) by (auto simp: late_inv_def set_completed_def)
qed (use assms(3) in \<open>auto simp: late_inv_def dropWhile_append set_completed_def split: if_splits\<close>)

fun terminal_code :: "user_thread \<Rightarrow> hresult" where
  "terminal_code UserRuns = S_OK"
| "terminal_code (UserReturned r) = exit_code r"
| "terminal_code UserLost = E_FAIL"

definition codes_inv :: "invocation \<Rightarrow> bool" where
  "codes_inv I \<longleftrightarrow>
     (\<forall>code. (TaskCompleted code, True) \<in> set (iv_journal I) \<longrightarrow> code \<in> {S_OK, terminal_code (iv_user I)})"

lemma notify_terminal_codes:
  "(TaskCompleted c, True) \<in> set (snd (notify_terminal_completed status code J)) \<Longrightarrow>
    (TaskCompleted c, True) \<in> set J \<or> c = code"
  by (rule notify_terminal_cases[of status code J]) auto

lemma codes_inv_flat:
  assumes "flat_step status I I'" and "stage_inv I" and "codes_inv I"
  shows "codes_inv I'"
  using assms(1)
proof cases
  case (notified code J b)
  then show ?thesis using assms(2,3) by (auto simp: codes_inv_def stage_inv_def dest!: notify_terminal_codes)
next
  case (replaced J b)
  then show ?thesis using assms(2,3) by (auto simp: codes_inv_def stage_inv_def dest!: notify_terminal_codes)
qed (use assms(3) in \<open>auto simp: codes_inv_def set_completed_def\<close>)

definition told :: "invocation \<Rightarrow> bool" where
  "told I \<longleftrightarrow> (\<exists>code. ended code (iv_journal I) \<and> code \<in> {S_OK, terminal_code (iv_user I)})"

lemma reported_told:
  assumes "reported (iv_journal I)" and "flag_inv I" and "codes_inv I"
  shows "told I"
proof -
  have "sealed (iv_journal I)" using assms(2) by (simp add: flag_inv_def)
  with assms(1) obtain code K where J: "iv_journal I = K @ [(TaskCompleted code, True)]"
    by (rule reported_sealed_last)
  then have "code \<in> {S_OK, terminal_code (iv_user I)}" using assms(3) by (simp add: codes_inv_def)
  with J show ?thesis by (auto simp: told_def ended_def)
qed

definition told_inv :: "invocation \<Rightarrow> bool" where
  "told_inv I \<longleftrightarrow> (iv_stage I \<in> {Joining True, Gone} \<longrightarrow> iv_late I \<or> told I)"

lemma told_inv_flat:
  assumes step: "flat_step status I I'" and inv: "queue_inv I" "stage_inv I" "flag_inv I" "late_inv I" "codes_inv I"
    and "told_inv I"
  shows "told_inv I'"
  using step
proof cases
  case (handled r rest)
  have "reported (iv_journal I)" if "\<not> iv_late I"
  proof -
    have "Complete \<notin> set rest" "iv_call I \<noteq> Some (Completing, Claimed)"
      using that inv(4) handled handled_returned[OF inv(1)] by (auto simp: late_inv_def)
    moreover have "filter (\<lambda>c. \<not> is_done c) rest = waiting_command (iv_call I)"
      using inv(1) handled by (simp add: queue_inv_def)
    then have "set (waiting_command (iv_call I)) \<subseteq> set rest" by (metis filter_is_subset)
    ultimately have "\<not> claiming I" by (auto simp: claiming_def)
    then show ?thesis using inv(3) handled by (simp add: flag_inv_def)
  qed
  then have "\<not> iv_late I \<Longrightarrow> told I" using reported_told inv by blast
  then show ?thesis using handled by (auto simp: told_inv_def told_def)
next
  case (notified code J b)
  then show ?thesis using inv(2,3) notify_terminal_journal(2)[where J = "iv_journal I" and status = status and code = code]
    by (fastforce simp: told_inv_def told_def stage_inv_def flag_inv_def)
next
  case (replaced J b)
  then show ?thesis using inv(2,3) notify_terminal_journal(2)[where J = "iv_journal I" and status = status and code = E_FAIL]
    by (fastforce simp: told_inv_def told_def stage_inv_def flag_inv_def)
next
  case (joined received)
  have "told I" if "received = False"
    using joined that inv reported_told by (auto simp: flag_inv_def)
  then show ?thesis using joined assms(7) by (cases received) (auto simp: told_inv_def told_def)
qed (use assms(7) in \<open>auto simp: told_inv_def told_def set_completed_def\<close>)

text \<open>The accepted progress values increase, up to the one the reporter is about to record.\<close>

fun progress_bound :: "u8 \<Rightarrow> (call \<times> call_phase) option \<Rightarrow> u8" where
  "progress_bound progress (Some (Reporting percent _, Replied (Inr _))) = percent"
| "progress_bound progress _ = progress"

definition percent_inv :: "invocation \<Rightarrow> bool" where
  "percent_inv I \<longleftrightarrow>
     sorted_wrt (<) (percents (iv_journal I))
     \<and> (\<forall>p \<in> set (percents (iv_journal I)). p \<le> progress_bound (rp_progress (iv_reporter I)) (iv_call I))
     \<and> rp_progress (iv_reporter I) \<le> 100
     \<and> (\<forall>percent message phase. iv_call I = Some (Reporting percent message, phase) \<longrightarrow>
          percent \<le> 100 \<and> rp_progress (iv_reporter I) < percent)"

lemma percent_inv_flat:
  assumes "flat_step status I I'" and "percent_inv I"
  shows "percent_inv I'"
  using assms(1)
proof cases
  case (sent c)
  then show ?thesis using assms(2) by (cases c) (auto simp: percent_inv_def)
next
  case (stopped c phase)
  then show ?thesis using assms(2) by (cases c) (auto simp: percent_inv_def)
next
  case (report_done percent message)
  then show ?thesis using assms(2) by (auto simp: percent_inv_def max_def)
next
  case (updated percent message rest r)
  then have before: "\<forall>p \<in> set (percents (iv_journal I)). p < percent" "percent \<le> 100"
      "rp_progress (iv_reporter I) < percent"
    using assms(2) by (auto simp: percent_inv_def intro: le_less_trans)
  then show ?thesis using updated assms(2) by (cases r) (auto simp: percent_inv_def sorted_wrt_append)
next
  case (notified code J b)
  then show ?thesis using assms(2)
    by (cases rule: notify_terminal_cases[of status code "iv_journal I"]) (auto simp: percent_inv_def)
next
  case (replaced J b)
  then show ?thesis using assms(2)
    by (cases rule: notify_terminal_cases[of status E_FAIL "iv_journal I"]) (auto simp: percent_inv_def)
qed (use assms(2) in \<open>auto simp: percent_inv_def set_completed_def\<close>)

definition handler_inv :: "invocation \<Rightarrow> bool" where
  "handler_inv I \<longleftrightarrow> queue_inv I \<and> stage_inv I \<and> flag_inv I \<and> late_inv I \<and> codes_inv I \<and> told_inv I \<and> percent_inv I"

lemmas handler_invs = queue_inv_def stage_inv_def flag_inv_def late_inv_def codes_inv_def told_inv_def percent_inv_def
  claiming_def told_def

lemma handler_inv_start: "handler_inv (invocation_start status spawned)"
proof (cases spawned)
  case True
  then show ?thesis
    by (simp add: handler_inv_def handler_invs invocation_start_def reporter_default_def sealed_def)
next
  case False
  note J = notify_terminal_journal[OF reported_Nil, where status = status and code = E_FAIL]
  show ?thesis
    using False J notify_terminal_codes[of _ status E_FAIL "[]"]
    by (auto simp: handler_inv_def handler_invs invocation_start_def reporter_default_def)
qed

lemma handler_inv_step: "handler_step status I I' \<Longrightarrow> handler_inv I \<Longrightarrow> handler_inv I'"
  unfolding handler_inv_def
  using flat_step_handler queue_inv_flat stage_inv_flat flag_inv_flat late_inv_flat codes_inv_flat told_inv_flat
    percent_inv_flat by metis

lemma handler_reachable_inv: "handler_reachable status spawned I \<Longrightarrow> handler_inv I"
  by (induction rule: handler_reachable.induct) (auto intro: handler_inv_start handler_inv_step)

section \<open>Runs\<close>

lemmas run_simps = invocation_start_def reporter_default_def take_call_def end_call_def reply_def set_completed_def
  reporter_defs notify_completed_def native_call_def exit_code_def Let_def

definition healthy :: status where "healthy n call = None"

abbreviation begun_invocation :: invocation where "begun_invocation \<equiv> invocation_start healthy True"

text \<open>A run that reports forty percent, completes and returns.\<close>

definition finished :: invocation where
  "finished = begun_invocation\<lparr>
     iv_reporter := \<lparr>rp_poisoned = False, rp_completed = True, rp_progress = 40, rp_native = True\<rparr>,
     iv_user := UserReturned (Inr ()), iv_stage := Gone,
     iv_journal := [(UpdateStatus 40 [], True), (TaskCompleted S_OK, True)]\<rparr>"

lemma finished_reachable: "handler_reachable healthy True finished"
proof -
  let ?report = "Reporting 40 []"
  let ?A = "begun_invocation\<lparr>iv_call := Some (?report, Claimed)\<rparr>"
  let ?B = "begun_invocation\<lparr>iv_call := Some (?report, Sent), iv_queue := [Update 40 []]\<rparr>"
  let ?C = "begun_invocation\<lparr>iv_call := Some (?report, Replied (Inr ())), iv_journal := [(UpdateStatus 40 [], True)]\<rparr>"
  let ?D = "begun_invocation\<lparr>iv_journal := [(UpdateStatus 40 [], True)],
    iv_reporter := \<lparr>rp_poisoned = False, rp_completed = False, rp_progress = 40, rp_native = True\<rparr>\<rparr>"
  let ?E = "?D\<lparr>iv_call := Some (Completing, Claimed), iv_reporter := (iv_reporter ?D)\<lparr>rp_completed := True\<rparr>\<rparr>"
  let ?F = "?E\<lparr>iv_call := Some (Completing, Sent), iv_queue := [Complete]\<rparr>"
  let ?G = "?E\<lparr>iv_call := Some (Completing, Replied (Inr ())),
    iv_journal := [(UpdateStatus 40 [], True), (TaskCompleted S_OK, True)]\<rparr>"
  let ?H = "?G\<lparr>iv_call := None\<rparr>"
  let ?K = "?H\<lparr>iv_user := UserReturned (Inr ()), iv_queue := [HandlerDone (Inr ())]\<rparr>"
  let ?L = "?K\<lparr>iv_queue := [], iv_stage := Joining True\<rparr>"
  note reach = handler_reachable.step
  have "handler_reachable healthy True ?A"
    using reach[OF handler_reachable.start[of healthy True] handler_step.take[of _ _ ?report]] by (simp add: run_simps)
  from reach[OF this handler_step.send[of _ ?report]] have "handler_reachable healthy True ?B" by (simp add: run_simps)
  from reach[OF this handler_step.serve_command[of _ "Update 40 []" "[]"]] have "handler_reachable healthy True ?C"
    by (simp add: run_simps healthy_def)
  from reach[OF this handler_step.finish_call[of _ ?report "Inr ()"]] have "handler_reachable healthy True ?D"
    by (simp add: run_simps max_def)
  from reach[OF this handler_step.take[of _ _ Completing]] have "handler_reachable healthy True ?E"
    by (simp add: run_simps)
  from reach[OF this handler_step.send[of _ Completing]] have "handler_reachable healthy True ?F" by (simp add: run_simps)
  from reach[OF this handler_step.serve_command[of _ Complete "[]"]] have "handler_reachable healthy True ?G"
    by (simp add: run_simps healthy_def)
  from reach[OF this handler_step.finish_call[of _ Completing "Inr ()"]] have "handler_reachable healthy True ?H"
    by (simp add: run_simps)
  from reach[OF this handler_step.user_returns[of _ _ "Inr ()"]] have "handler_reachable healthy True ?K"
    by (simp add: run_simps)
  from reach[OF this handler_step.serve_command[of _ "HandlerDone (Inr ())" "[]"]]
  have "handler_reachable healthy True ?L" by (simp add: run_simps)
  from reach[OF this handler_step.join_done] show ?thesis by (simp add: run_simps finished_def)
qed

text \<open>A clone that claims completion when the run is about to return: the worker takes the claim for a
  completion, leaves without notifying anyone, and the clone is told that the worker stopped.\<close>

lemma completion_lost:
  "\<exists>I. handler_reachable status True I \<and> iv_stage I = Gone \<and> iv_user I = UserReturned (Inr ())
     \<and> iv_call I = None \<and> iv_journal I = []"
proof -
  let ?R = "\<lparr>rp_poisoned = False, rp_completed = True, rp_progress = 0, rp_native = True\<rparr>"
  let ?I = "(invocation_start status True)\<lparr>iv_reporter := ?R, iv_late := True\<rparr>"
  let ?A = "?I\<lparr>iv_call := Some (Completing, Claimed), iv_late := False\<rparr>"
  let ?B = "?A\<lparr>iv_user := UserReturned (Inr ()), iv_queue := [HandlerDone (Inr ())], iv_late := True\<rparr>"
  let ?C = "?B\<lparr>iv_queue := [], iv_stage := Joining True\<rparr>"
  let ?D = "?C\<lparr>iv_stage := Gone\<rparr>"
  let ?E = "?D\<lparr>iv_call := Some (Completing, Replied (Inl reporter_stopped))\<rparr>"
  let ?F = "?D\<lparr>iv_call := None, iv_reporter := ?R\<lparr>rp_completed := False\<rparr>\<rparr>"
  note reach = handler_reachable.step
  have "handler_reachable status True ?A"
    using reach[OF handler_reachable.start[of status True] handler_step.take[of _ _ Completing]] by (simp add: run_simps)
  from reach[OF this handler_step.user_returns[of _ _ "Inr ()"]] have "handler_reachable status True ?B"
    by (simp add: run_simps)
  from reach[OF this handler_step.serve_command[of _ "HandlerDone (Inr ())" "[]"]]
  have "handler_reachable status True ?C" by (simp add: run_simps)
  from reach[OF this handler_step.join_done] have "handler_reachable status True ?D" by (simp add: run_simps)
  from reach[OF this handler_step.send_fails[of _ Completing]] have "handler_reachable status True ?E"
    by (simp add: run_simps)
  from reach[OF this handler_step.finish_call[of _ Completing "Inl reporter_stopped"]]
  have "handler_reachable status True ?F" by (simp add: run_simps)
  then show ?thesis by (intro exI[of _ ?F]) (simp add: run_simps)
qed

section \<open>Properties\<close>

text \<open>C28. Task Scheduler hears of a completion at most once, and then nothing more: whatever clones of the
  reporter, the user's thread and the status worker do, and whichever native calls fail, an accepted
  \<open>TaskCompleted\<close> is the last native call of the invocation; the accepted progress values before it
  increase strictly and never exceed one hundred.\<close>

theorem completion_is_last:
  assumes "handler_reachable status spawned I"
  shows "(iv_journal I = K @ (TaskCompleted code, True) # L \<longrightarrow> L = [])
    \<and> sorted_wrt (<) (percents (iv_journal I)) \<and> (\<forall>p \<in> set (percents (iv_journal I)). p \<le> 100)"
proof (intro conjI impI)
  note inv = handler_reachable_inv[OF assms, unfolded handler_inv_def]
  have "sealed (iv_journal I)" using inv by (simp add: flag_inv_def)
  then show "L = []" if "iv_journal I = K @ (TaskCompleted code, True) # L"
    unfolding that by (cases L rule: rev_cases) (auto simp: sealed_def reported_def butlast_append)
  show "sorted_wrt (<) (percents (iv_journal I))" using inv by (simp add: percent_inv_def)
  have "progress_bound (rp_progress (iv_reporter I)) (iv_call I) \<le> 100"
    using inv by (cases "(rp_progress (iv_reporter I), iv_call I)" rule: progress_bound.cases) (auto simp: percent_inv_def)
  then show "\<forall>p \<in> set (percents (iv_journal I)). p \<le> 100"
    using inv by (meson order_trans percent_inv_def)
qed

lemma completion_is_last_witness:
  "handler_reachable healthy True finished \<and> percents (iv_journal finished) = [40]
    \<and> iv_journal finished = [(UpdateStatus 40 [], True), (TaskCompleted S_OK, True)]"
  using completion_is_last[OF finished_reachable, of "[(UpdateStatus 40 [], True)]" S_OK "[]"] finished_reachable
  by (simp add: finished_def)

text \<open>C29. The end of the run is told. When the status worker is gone and no completion was claimed too late
  to be queued before the end of the run, the last native calls reported a completion, or were two failed
  attempts to report the same one: success, the failure code of the user's result, or \<open>E_FAIL\<close> for a
  thread that was lost or could not start.\<close>

theorem end_of_run_told:
  assumes "handler_reachable status spawned I" and "iv_stage I = Gone" and "\<not> iv_late I"
  shows "\<exists>code K. code \<in> {S_OK, terminal_code (iv_user I)}
    \<and> (iv_journal I = K @ [(TaskCompleted code, True)]
       \<or> iv_journal I = K @ [(TaskCompleted code, False), (TaskCompleted code, False)])"
  using handler_reachable_inv[OF assms(1)] assms(2,3)
  by (auto simp: handler_inv_def told_inv_def told_def ended_def)

lemma end_of_run_told_witness:
  "handler_reachable healthy True finished \<and> iv_stage finished = Gone \<and> \<not> iv_late finished
    \<and> ended S_OK (iv_journal finished)"
  using end_of_run_told[OF finished_reachable] finished_reachable
  by (simp add: finished_def run_simps ended_def)

end
