(* ===== verification/Com_Server.thy ===== *)
theory Com_Server
  imports Handler
begin

text \<open>
  The COM server around the handlers (\<open>handler.rs\<close>, \<open>__native\<close>): the class factory, the handler objects
  with their Start, Stop, Pause and Resume, and the counters that decide whether the DLL may be unloaded.
  Interface queries, marshalling, thread creation and the apartment of the worker are the outcomes that the
  operations take as arguments. The controls are a store, because an invocation keeps its own while a new
  Start gives the object another.
\<close>

section \<open>State\<close>

definition E_POINTER :: hresult where "E_POINTER = 0x80004003"
definition CLASS_E_NOAGGREGATION :: hresult where "CLASS_E_NOAGGREGATION = 0x80040110"
definition CLASS_E_CLASSNOTAVAILABLE :: hresult where "CLASS_E_CLASSNOTAVAILABLE = 0x80040111"

type_synonym guid = "128 word"

definition succeeded :: "hresult \<Rightarrow> bool" where "succeeded code \<longleftrightarrow> sint code \<ge> 0"

record com_server =
  cs_module_objects :: u64
  cs_server_locks :: u64
  cs_active_workers :: u64
  cs_active_reporters :: u64
  cs_factories :: nat \<comment> \<open>class factories alive\<close>
  cs_handlers :: "nat list" \<comment> \<open>handler objects alive\<close>
  cs_running :: "nat \<Rightarrow> bool" \<comment> \<open>the flag an object shares with its worker\<close>
  cs_control :: "nat \<Rightarrow> nat" \<comment> \<open>the control an object passes its requests to\<close>
  cs_controls :: "control list"
  cs_invocations :: "(nat \<times> nat) list" \<comment> \<open>workers alive: their object and their control\<close>
  cs_reporters :: nat \<comment> \<open>native reporters alive\<close>
  cs_next :: nat

definition server_start :: com_server where
  "server_start =
     \<lparr>cs_module_objects = 0, cs_server_locks = 0, cs_active_workers = 0, cs_active_reporters = 0,
      cs_factories = 0, cs_handlers = [], cs_running = (\<lambda>_. False), cs_control = (\<lambda>_. 0), cs_controls = [],
      cs_invocations = [], cs_reporters = 0, cs_next = 0\<rparr>"

section \<open>The class factory\<close>

definition factory_new :: "com_server \<Rightarrow> com_server" where
  "factory_new S = S\<lparr>cs_module_objects := cs_module_objects S + 1, cs_factories := cs_factories S + 1\<rparr>"

definition factory_drop :: "com_server \<Rightarrow> com_server" where
  "factory_drop S = S\<lparr>cs_module_objects := cs_module_objects S - 1, cs_factories := cs_factories S - 1\<rparr>"

text \<open>\<open>dll_get_class_object\<close>: null pointers are \<open>None\<close>; \<open>query\<close> is the answer of the factory for the
  requested interface.\<close>

definition dll_get_class_object ::
  "guid \<Rightarrow> guid option \<Rightarrow> guid option \<Rightarrow> unit option \<Rightarrow> (guid \<Rightarrow> hresult) \<Rightarrow> com_server \<Rightarrow> hresult \<times> com_server" where
  "dll_get_class_object expected requested iid out query S =
     (case (requested, iid, out) of
        (Some clsid, Some iid, Some _) \<Rightarrow>
          if clsid \<noteq> expected then (CLASS_E_CLASSNOTAVAILABLE, S)
          else (let S = factory_new S; code = query iid
                in (code, if succeeded code then S else factory_drop S))
      | _ \<Rightarrow> (E_POINTER, S))"

definition handler_new :: "com_server \<Rightarrow> nat \<times> com_server" where
  "handler_new S =
     (let h = cs_next S
      in (h, S\<lparr>cs_module_objects := cs_module_objects S + 1, cs_handlers := cs_handlers S @ [h],
               cs_running := (cs_running S)(h := False), cs_control := (cs_control S)(h := length (cs_controls S)),
               cs_controls := cs_controls S @ [0], cs_next := h + 1\<rparr>))"

definition handler_drop :: "nat \<Rightarrow> com_server \<Rightarrow> com_server" where
  "handler_drop h S = S\<lparr>cs_module_objects := cs_module_objects S - 1, cs_handlers := removeAll h (cs_handlers S)\<rparr>"

definition create_instance ::
  "bool \<Rightarrow> guid option \<Rightarrow> unit option \<Rightarrow> (guid \<Rightarrow> hresult) \<Rightarrow> com_server \<Rightarrow> hresult \<times> com_server" where
  "create_instance outer iid out query S =
     (if outer then (CLASS_E_NOAGGREGATION, S)
      else case (iid, out) of
        (Some iid, Some _) \<Rightarrow>
          (let (h, S) = handler_new S; code = query iid
           in (code, if succeeded code then S else handler_drop h S))
      | _ \<Rightarrow> (E_POINTER, S))"

definition lock_server :: "bool \<Rightarrow> com_server \<Rightarrow> com_server" where
  "lock_server lock S =
     (if lock then S\<lparr>cs_server_locks := cs_server_locks S + 1\<rparr>
      else if cs_server_locks S = 0 then S
      else S\<lparr>cs_server_locks := cs_server_locks S - 1\<rparr>)"

definition dll_can_unload_now :: "com_server \<Rightarrow> hresult" where
  "dll_can_unload_now S =
     (if cs_module_objects S = 0 \<and> cs_server_locks S = 0 \<and> cs_active_workers S = 0 \<and> cs_active_reporters S = 0
      then S_OK else S_FALSE)"

section \<open>The handler object\<close>

text \<open>What Start meets: the preparation of the status stream, the thread, its apartment, the hand-over.\<close>

record start_outcome =
  so_prepared :: "hresult option" \<comment> \<open>the failure, if any\<close>
  so_spawned :: bool
  so_initialized :: "hresult option"
  so_transferred :: bool

definition start_handler :: "nat \<Rightarrow> start_outcome \<Rightarrow> com_server \<Rightarrow> hresult \<times> com_server" where
  "start_handler h oc S =
     (if cs_running S h then (E_FAIL, S)
      else
        let c = length (cs_controls S);
            S = S\<lparr>cs_running := (cs_running S)(h := True), cs_controls := cs_controls S @ [0],
                  cs_control := (cs_control S)(h := c)\<rparr>;
            stopped = S\<lparr>cs_running := (cs_running S)(h := False)\<rparr>
        in case so_prepared oc of
             Some e \<Rightarrow> (e, stopped)
           | None \<Rightarrow>
               if \<not> so_spawned oc then (E_FAIL, stopped)
               else (case so_initialized oc of
                  Some e \<Rightarrow> (e, stopped)
                | None \<Rightarrow>
                    if \<not> so_transferred oc then (E_FAIL, stopped)
                    else (S_OK, S\<lparr>cs_active_workers := cs_active_workers S + 1,
                                  cs_invocations := cs_invocations S @ [(h, c)]\<rparr>)))"

definition request :: "(control \<Rightarrow> control) \<Rightarrow> nat \<Rightarrow> com_server \<Rightarrow> com_server" where
  "request f h S = S\<lparr>cs_controls := (cs_controls S)[cs_control S h := f (cs_controls S ! cs_control S h)]\<rparr>"

definition stop_handler :: "nat \<Rightarrow> com_server \<Rightarrow> com_server" where "stop_handler = request request_stop"
definition pause_handler :: "nat \<Rightarrow> com_server \<Rightarrow> com_server" where "pause_handler = request request_pause"
definition resume_handler :: "nat \<Rightarrow> com_server \<Rightarrow> com_server" where "resume_handler = request request_resume"

text \<open>The guard of a worker, when its thread ends.\<close>

definition worker_drop :: "nat \<Rightarrow> nat \<Rightarrow> com_server \<Rightarrow> com_server" where
  "worker_drop h c S = S\<lparr>cs_running := (cs_running S)(h := False), cs_active_workers := cs_active_workers S - 1,
     cs_invocations := removeAll (h, c) (cs_invocations S)\<rparr>"

definition native_reporter_new :: "com_server \<Rightarrow> com_server" where
  "native_reporter_new S = S\<lparr>cs_active_reporters := cs_active_reporters S + 1, cs_reporters := cs_reporters S + 1\<rparr>"

definition native_reporter_drop :: "com_server \<Rightarrow> com_server" where
  "native_reporter_drop S = S\<lparr>cs_active_reporters := cs_active_reporters S - 1, cs_reporters := cs_reporters S - 1\<rparr>"

lemmas server_ops = factory_new_def factory_drop_def dll_get_class_object_def handler_new_def handler_drop_def
  create_instance_def lock_server_def start_handler_def request_def stop_handler_def pause_handler_def
  resume_handler_def worker_drop_def native_reporter_new_def native_reporter_drop_def

section \<open>Runs of the server\<close>

inductive com_step :: "com_server \<Rightarrow> com_server \<Rightarrow> bool" where
  get_class: "com_step S (snd (dll_get_class_object expected requested iid out query S))"
| release_factory: "cs_factories S > 0 \<Longrightarrow> com_step S (factory_drop S)"
| create: "cs_factories S > 0 \<Longrightarrow> com_step S (snd (create_instance outer iid out query S))"
| lock: "com_step S (lock_server b S)"
| release_handler: "h \<in> set (cs_handlers S) \<Longrightarrow> com_step S (handler_drop h S)"
| start_call: "h \<in> set (cs_handlers S) \<Longrightarrow> com_step S (snd (start_handler h oc S))"
| stop_call: "h \<in> set (cs_handlers S) \<Longrightarrow> com_step S (stop_handler h S)"
| pause_call: "h \<in> set (cs_handlers S) \<Longrightarrow> com_step S (pause_handler h S)"
| resume_call: "h \<in> set (cs_handlers S) \<Longrightarrow> com_step S (resume_handler h S)"
| worker_ends: "(h, c) \<in> set (cs_invocations S) \<Longrightarrow> com_step S (worker_drop h c S)"
| reporter_made: "com_step S (native_reporter_new S)"
| reporter_gone: "cs_reporters S > 0 \<Longrightarrow> com_step S (native_reporter_drop S)"

inductive com_reachable :: "com_server \<Rightarrow> bool" where
  start: "com_reachable server_start"
| step: "com_reachable S \<Longrightarrow> com_step S S' \<Longrightarrow> com_reachable S'"

text \<open>The counters count what is alive, modulo their width; the running flags are those of the workers.\<close>

definition counters_inv :: "com_server \<Rightarrow> bool" where
  "counters_inv S \<longleftrightarrow>
     cs_module_objects S = of_nat (cs_factories S + length (cs_handlers S))
     \<and> cs_active_workers S = of_nat (length (cs_invocations S))
     \<and> cs_active_reporters S = of_nat (cs_reporters S)
     \<and> distinct (cs_handlers S) \<and> (\<forall>h \<in> set (cs_handlers S). h < cs_next S)"

definition running_inv :: "com_server \<Rightarrow> bool" where
  "running_inv S \<longleftrightarrow>
     distinct (map fst (cs_invocations S))
     \<and> (\<forall>h. cs_running S h = (h \<in> fst ` set (cs_invocations S)))
     \<and> (\<forall>(h, c) \<in> set (cs_invocations S). cs_control S h = c \<and> c < length (cs_controls S) \<and> h < cs_next S)
     \<and> (\<forall>h \<in> set (cs_handlers S). h < cs_next S)"

lemma length_removeAll_distinct: "distinct xs \<Longrightarrow> x \<in> set xs \<Longrightarrow> length xs = Suc (length (removeAll x xs))"
  by (induction xs) auto

lemma counters_inv_step: "com_step S S' \<Longrightarrow> counters_inv S \<Longrightarrow> running_inv S \<Longrightarrow> counters_inv S'"
proof (induction rule: com_step.induct)
  case (release_handler h S)
  then have "length (cs_handlers S) = Suc (length (removeAll h (cs_handlers S)))"
    by (intro length_removeAll_distinct) (auto simp: counters_inv_def)
  then show ?case using release_handler by (auto simp: counters_inv_def handler_drop_def distinct_removeAll)
next
  case (worker_ends h c S)
  then have "distinct (cs_invocations S)" by (auto simp: running_inv_def distinct_map)
  with worker_ends have "length (cs_invocations S) = Suc (length (removeAll (h, c) (cs_invocations S)))"
    by (intro length_removeAll_distinct)
  then show ?case using worker_ends by (auto simp: counters_inv_def worker_drop_def)
next
  case (create S outer iid out query)
  then have "removeAll (cs_next S) (cs_handlers S) = cs_handlers S"
    by (intro removeAll_id) (auto simp: counters_inv_def)
  then show ?case using create
    by (auto simp: counters_inv_def server_ops Let_def less_Suc_eq split: option.splits)
qed (auto simp: counters_inv_def server_ops Let_def split: option.splits)

lemma start_handler_cases:
  obtains (refused) "cs_running S h" "start_handler h oc S = (E_FAIL, S)"
  | (failed) code where "\<not> cs_running S h" "start_handler h oc S = (code, S\<lparr>cs_running := (cs_running S)(h := False),
      cs_controls := cs_controls S @ [0], cs_control := (cs_control S)(h := length (cs_controls S))\<rparr>)"
  | (started) "\<not> cs_running S h" "start_handler h oc S = (S_OK, S\<lparr>cs_running := (cs_running S)(h := True),
      cs_controls := cs_controls S @ [0], cs_control := (cs_control S)(h := length (cs_controls S)),
      cs_active_workers := cs_active_workers S + 1,
      cs_invocations := cs_invocations S @ [(h, length (cs_controls S))]\<rparr>)"
proof (cases "cs_running S h")
  case False
  show thesis
  proof (cases "so_prepared oc = None \<and> so_spawned oc \<and> so_initialized oc = None \<and> so_transferred oc")
    case True
    with False show thesis by (intro started) (simp_all add: start_handler_def Let_def)
  next
    case failure: False
    with False show thesis
      by (intro failed[of "fst (start_handler h oc S)"]) (auto simp: start_handler_def Let_def split: option.splits)
  qed
qed (simp add: refused start_handler_def)

lemma running_inv_start:
  assumes "running_inv S" and "\<not> cs_running S h" and "h < cs_next S"
    and S': "cs_running S' = (cs_running S)(h := b)" "cs_control S' = (cs_control S)(h := length (cs_controls S))"
      "cs_controls S' = cs_controls S @ [0]" "cs_next S' = cs_next S" "cs_handlers S' = cs_handlers S"
      "cs_invocations S' = cs_invocations S @ (if b then [(h, length (cs_controls S))] else [])"
  shows "running_inv S'"
proof -
  have inv: "distinct (map fst (cs_invocations S))" "\<And>h. cs_running S h = (h \<in> fst ` set (cs_invocations S))"
      "\<And>h c. (h, c) \<in> set (cs_invocations S) \<Longrightarrow> cs_control S h = c \<and> c < length (cs_controls S) \<and> h < cs_next S"
      "\<And>h. h \<in> set (cs_handlers S) \<Longrightarrow> h < cs_next S"
    using assms(1) by (auto simp: running_inv_def)
  have idle: "h \<notin> fst ` set (cs_invocations S)" using inv(2)[of h] assms(2) by simp
  then have other: "h' \<noteq> h" if "(h', c) \<in> set (cs_invocations S)" for h' c using that by force
  have "distinct (map fst (cs_invocations S'))" using inv(1) idle by (simp add: S')
  moreover have "cs_running S' h' = (h' \<in> fst ` set (cs_invocations S'))" for h'
    using idle by (cases b) (auto simp: S' inv(2))
  moreover have "cs_control S' h' = c \<and> c < length (cs_controls S') \<and> h' < cs_next S'"
    if "(h', c) \<in> set (cs_invocations S')" for h' c
    using that inv(3)[of h' c] other[of h' c] assms(3) by (auto simp: S' split: if_splits)
  ultimately show ?thesis using inv(4) by (auto simp: running_inv_def S')
qed

lemma fst_image_remove:
  assumes "\<And>b. (h, b) \<in> A \<Longrightarrow> b = c"
  shows "fst ` (A - {(h, c)}) = fst ` A - {h}"
proof (intro equalityI subsetI)
  fix x assume "x \<in> fst ` (A - {(h, c)})"
  then obtain b where "(x, b) \<in> A" "(x, b) \<noteq> (h, c)" by force
  then have "x \<noteq> h" using assms by blast
  then show "x \<in> fst ` A - {h}" using \<open>(x, b) \<in> A\<close> by (simp add: rev_image_eqI)
next
  fix x assume "x \<in> fst ` A - {h}"
  then obtain b where "(x, b) \<in> A" "x \<noteq> h" by auto
  then show "x \<in> fst ` (A - {(h, c)})" by (intro image_eqI[of _ _ "(x, b)"]) auto
qed

lemma running_inv_step: "com_step S S' \<Longrightarrow> running_inv S \<Longrightarrow> running_inv S'"
proof (induction rule: com_step.induct)
  case (start_call h S oc)
  then have h: "h < cs_next S" by (simp add: running_inv_def)
  show ?case
  proof (cases rule: start_handler_cases[of S h oc])
    case refused
    then show ?thesis using start_call by simp
  next
    case (failed code)
    then show ?thesis by (intro running_inv_start[OF start_call(2) failed(1) h, where b = False]) simp_all
  next
    case started
    then show ?thesis by (intro running_inv_start[OF start_call(2) started(1) h, where b = True]) simp_all
  qed
next
  case (worker_ends h c S)
  note inv = worker_ends(2)[unfolded running_inv_def]
  have control: "\<And>h c. (h, c) \<in> set (cs_invocations S) \<Longrightarrow> cs_control S h = c"
    using worker_ends(2) by (auto simp: running_inv_def)
  have "b = c" if "(h, b) \<in> set (cs_invocations S)" for b
    using control[OF that] control[OF worker_ends(1)] by simp
  then have rest: "fst ` set (removeAll (h, c) (cs_invocations S)) = fst ` set (cs_invocations S) - {h}"
    unfolding set_removeAll by (rule fst_image_remove)
  have "distinct (map fst (removeAll (h, c) (cs_invocations S)))"
    using conjunct1[OF inv] by (auto simp: distinct_map distinct_removeAll intro: inj_on_subset)
  moreover have "cs_running (worker_drop h c S) h' = (h' \<in> fst ` set (cs_invocations (worker_drop h c S)))" for h'
    using inv rest by (simp add: worker_drop_def)
  ultimately show ?case
    using inv unfolding running_inv_def by (simp add: worker_drop_def)
next
  case (create S outer iid out query)
  then show ?case by (fastforce simp: running_inv_def server_ops Let_def less_Suc_eq split: option.splits)
qed (auto simp: running_inv_def server_ops Let_def split: option.splits)

lemma server_start_inv: "counters_inv server_start \<and> running_inv server_start"
  by (simp add: server_start_def counters_inv_def running_inv_def)

lemma com_reachable_inv: "com_reachable S \<Longrightarrow> counters_inv S \<and> running_inv S"
  by (induction rule: com_reachable.induct) (auto simp: server_start_inv intro: counters_inv_step running_inv_step)

lemma running_control:
  assumes "running_inv S" and "(h, c) \<in> set (cs_invocations S)"
  shows "cs_control S h = c \<and> c < length (cs_controls S)"
proof -
  have "\<forall>x \<in> set (cs_invocations S). cs_control S (fst x) = snd x \<and> snd x < length (cs_controls S)"
    using assms(1) by (auto simp: running_inv_def)
  from bspec[OF this assms(2)] show ?thesis by simp
qed

text \<open>A cancelled control stays cancelled, whatever is asked of its object or of others.\<close>

lemma cancelled_request:
  assumes "c < length (cs_controls S)" and "cs_controls S ! c = 2" and "f 2 = 2"
  shows "c < length (cs_controls (request f h S)) \<and> cs_controls (request f h S) ! c = 2"
  using assms by (cases "cs_control S h = c") (auto simp: request_def)

lemma cancelled_control_step:
  "com_step S S' \<Longrightarrow> c < length (cs_controls S) \<and> cs_controls S ! c = 2 \<Longrightarrow>
    c < length (cs_controls S') \<and> cs_controls S' ! c = 2"
proof (induction rule: com_step.induct)
  case (start_call h S oc)
  then show ?case by (cases rule: start_handler_cases[of S h oc]) (auto simp: nth_append)
next
  case (stop_call h S)
  then show ?case unfolding stop_handler_def by (intro cancelled_request) (auto simp: control_defs)
next
  case (pause_call h S)
  then show ?case unfolding pause_handler_def by (intro cancelled_request) (auto simp: control_defs)
next
  case (resume_call h S)
  then show ?case unfolding resume_handler_def by (intro cancelled_request) (auto simp: control_defs)
qed (auto simp: server_ops Let_def nth_append split: option.splits)

lemma cancelled_control_run:
  "com_step\<^sup>*\<^sup>* S S' \<Longrightarrow> c < length (cs_controls S) \<and> cs_controls S ! c = 2 \<Longrightarrow>
    c < length (cs_controls S') \<and> cs_controls S' ! c = 2"
  by (induction rule: rtranclp_induct) (auto dest: cancelled_control_step)

section \<open>Properties\<close>

text \<open>C30. The DLL may be unloaded exactly when nothing of it is in use. As long as fewer than \<open>2 ^ 64\<close>
  objects, workers and reporters are alive, \<open>dll_can_unload_now\<close> answers \<open>S_OK\<close> exactly when no class
  factory, handler object, worker or native reporter is alive and no server lock is held.\<close>

theorem unload_exact:
  assumes "com_reachable S" and "cs_factories S + length (cs_handlers S) < 2 ^ 64"
    and "length (cs_invocations S) < 2 ^ 64" and "cs_reporters S < 2 ^ 64"
  shows "dll_can_unload_now S = S_OK \<longleftrightarrow>
    cs_factories S = 0 \<and> cs_handlers S = [] \<and> cs_invocations S = [] \<and> cs_reporters S = 0 \<and> cs_server_locks S = 0"
proof -
  have zero: "(of_nat n :: u64) = 0 \<longleftrightarrow> n = 0" if "n < 2 ^ 64" for n
    using that by (auto simp: word_of_nat_eq_0_iff dest: dvd_imp_le)
  have "counters_inv S" using com_reachable_inv[OF assms(1)] by simp
  then show ?thesis
    using zero[OF assms(2)] zero[OF assms(3)] zero[OF assms(4)]
    by (auto simp: dll_can_unload_now_def counters_inv_def S_OK_def S_FALSE_def)
qed

lemma unload_exact_witness:
  "let S = snd (dll_get_class_object 1 (Some 1) (Some 2) (Some ()) (\<lambda>_. 0) server_start)
   in dll_can_unload_now S = S_FALSE \<and> dll_can_unload_now (factory_drop S) = S_OK"
proof -
  let ?S = "snd (dll_get_class_object 1 (Some 1) (Some 2) (Some ()) (\<lambda>_. 0) server_start)"
  have "com_reachable ?S" by (rule com_reachable.step[OF com_reachable.start com_step.get_class])
  moreover from this have "com_reachable (factory_drop ?S)"
    by (rule com_reachable.step[OF _ com_step.release_factory]) (simp add: server_ops server_start_def succeeded_def)
  ultimately show ?thesis
    using unload_exact[of ?S] unload_exact[of "factory_drop ?S"]
    by (simp add: server_ops server_start_def succeeded_def dll_can_unload_now_def)
qed

text \<open>Stop reaches the running invocation and is final. Once Stop was called on an object while it runs
  an invocation, the control of that invocation is cancelled and not paused ever after, whatever Pause,
  Resume, Stop and Start calls follow; an invocation started later has another control that is not cancelled.\<close>

theorem stop_is_final:
  assumes "com_reachable S" and "h \<in> set (cs_handlers S)" and "(h, c) \<in> set (cs_invocations S)"
    and "com_step\<^sup>*\<^sup>* (stop_handler h S) S'"
  shows "is_cancelled (cs_controls S' ! c) \<and> \<not> is_paused (cs_controls S' ! c)
    \<and> (\<forall>c'. (h, c') \<in> set (cs_invocations (snd (start_handler h oc S'))) - set (cs_invocations S') \<longrightarrow>
          c' \<noteq> c \<and> \<not> is_cancelled (cs_controls (snd (start_handler h oc S')) ! c'))"
proof -
  have "cs_control S h = c" "c < length (cs_controls S)"
    using running_control[OF conjunct2[OF com_reachable_inv[OF assms(1)]] assms(3)] by blast+
  then have "c < length (cs_controls (stop_handler h S)) \<and> cs_controls (stop_handler h S) ! c = 2"
    by (simp add: stop_handler_def request_def request_stop_def)
  from cancelled_control_run[OF assms(4) this]
  have final: "c < length (cs_controls S')" "cs_controls S' ! c = 2" by simp_all
  show ?thesis
    by (cases rule: start_handler_cases[of S' h oc]) (use final in \<open>auto simp: control_defs\<close>)
qed

definition all_well :: start_outcome where
  "all_well = \<lparr>so_prepared = None, so_spawned = True, so_initialized = None, so_transferred = True\<rparr>"

definition sample_object :: com_server where
  "sample_object = snd (create_instance False (Some 2) (Some ()) (\<lambda>_. 0)
     (snd (dll_get_class_object 1 (Some 1) (Some 2) (Some ()) (\<lambda>_. 0) server_start)))"

lemma sample_object_state: "sample_object = server_start\<lparr>cs_module_objects := 2, cs_factories := 1, cs_handlers := [0],
    cs_controls := [0], cs_next := 1\<rparr>"
  by (simp add: sample_object_def server_ops server_start_def succeeded_def fun_eq_iff)

lemma sample_object_reachable: "com_reachable sample_object"
proof -
  let ?F = "snd (dll_get_class_object 1 (Some 1) (Some 2) (Some ()) (\<lambda>_. 0) server_start)"
  have "com_reachable ?F" by (rule com_reachable.step[OF com_reachable.start com_step.get_class])
  moreover have "cs_factories ?F > 0" by (simp add: server_ops server_start_def succeeded_def)
  ultimately show ?thesis unfolding sample_object_def by (intro com_reachable.step[OF _ com_step.create])
qed

lemma stop_is_final_witness:
  "let (code, S) = start_handler 0 all_well sample_object; S' = resume_handler 0 (stop_handler 0 S)
   in code = S_OK \<and> cs_invocations S = [(0, 1)] \<and> is_cancelled (cs_controls S' ! 1)"
proof -
  let ?S = "snd (start_handler 0 all_well sample_object)"
  have S: "cs_handlers ?S = [0]" "cs_invocations ?S = [(0, 1)]" "fst (start_handler 0 all_well sample_object) = S_OK"
    by (simp_all add: sample_object_state server_start_def start_handler_def all_well_def)
  have "com_reachable ?S"
    by (intro com_reachable.step[OF sample_object_reachable com_step.start_call]) (simp add: sample_object_state)
  moreover have "com_step (stop_handler 0 ?S) (resume_handler 0 (stop_handler 0 ?S))"
    by (intro com_step.resume_call) (simp add: stop_handler_def request_def S)
  ultimately have "is_cancelled (cs_controls (resume_handler 0 (stop_handler 0 ?S)) ! 1)"
    using conjunct1[OF stop_is_final[of ?S 0 1, OF _ _ _ r_into_rtranclp]] S by simp
  then show ?thesis using S by (simp add: case_prod_beta Let_def)
qed

end
