(* ===== verification/Event_Access.thy ===== *)
theory Event_Access
  imports Watch Native_Error
begin

unbundle bit_operations_syntax

text \<open>
  The session's access to the Event Log (\<open>EventAccess\<close> in \<open>client/sys.rs\<close>): queries, pages, bookmarks, the
  rendering of events and the configuration of the channel. The functions of \<open>wevtapi\<close> are the record
  \<open>evt_api\<close> of native calls on handles; closing a handle changes nothing that can be observed here.
\<close>

section \<open>The native functions\<close>

text \<open>\<open>EvtRender\<close> and \<open>EvtFormatMessage\<close> are called twice: for the size, and for the content of a buffer of
  that size.\<close>

record ('h, 'w) evt_api =
  ev_open_session :: "string \<Rightarrow> (string \<times> string option) option \<Rightarrow> u16 list option \<Rightarrow> ('w, 'h) native"
  ev_query :: "'h option \<Rightarrow> string \<Rightarrow> string \<Rightarrow> u32 \<Rightarrow> ('w, 'h) native"
  ev_next :: "'h \<Rightarrow> nat \<Rightarrow> 'w \<Rightarrow> ((windows_error + unit) \<times> 'h option list) \<times> 'w"
  ev_render_size :: "'h \<Rightarrow> u32 \<Rightarrow> 'w \<Rightarrow> ((windows_error + unit) \<times> u32) \<times> 'w"
  ev_render :: "'h \<Rightarrow> u32 \<Rightarrow> u32 \<Rightarrow> ('w, u16 list) native"
  ev_format_size :: "'h \<Rightarrow> 'h \<Rightarrow> 'w \<Rightarrow> ((windows_error + unit) \<times> u32) \<times> 'w"
  ev_format :: "'h \<Rightarrow> 'h \<Rightarrow> u32 \<Rightarrow> ('w, u16 list) native"
  ev_open_metadata :: "'h option \<Rightarrow> string \<Rightarrow> ('w, 'h) native"
  ev_create_bookmark :: "string option \<Rightarrow> ('w, 'h) native"
  ev_update_bookmark :: "'h \<Rightarrow> 'h \<Rightarrow> ('w, unit) native"
  ev_seek :: "'h \<Rightarrow> 'h \<Rightarrow> ('w, unit) native"
  ev_open_config :: "'h option \<Rightarrow> string \<Rightarrow> ('w, 'h) native"
  ev_get_enabled :: "'h \<Rightarrow> ('w, u32 \<times> bool) native" \<comment> \<open>the type of the variant and its value\<close>
  ev_set_enabled :: "'h \<Rightarrow> bool \<Rightarrow> ('w, unit) native"
  ev_save_config :: "'h \<Rightarrow> ('w, unit) native"

definition EvtQueryChannelPath :: u32 where "EvtQueryChannelPath = 0x1"
definition EvtQueryForwardDirection :: u32 where "EvtQueryForwardDirection = 0x100"
definition EvtQueryReverseDirection :: u32 where "EvtQueryReverseDirection = 0x200"
definition EvtRenderEventXml :: u32 where "EvtRenderEventXml = 1"
definition EvtRenderBookmark :: u32 where "EvtRenderBookmark = 2"
definition EvtVarTypeBoolean :: u32 where "EvtVarTypeBoolean = 13"

section \<open>Errors\<close>

definition event_error :: "string \<Rightarrow> windows_error \<Rightarrow> error" where
  "event_error operation = native_error operation (Some OPERATIONAL_CHANNEL)"

definition is_no_more_items :: "windows_error \<Rightarrow> bool" where
  "is_no_more_items e \<longleftrightarrow> snd e = 0x80070103"

definition history_gap :: "hresult \<Rightarrow> error" where
  "history_gap code = with_native_code code (with_operation ''history.resume'' (new_error HistoryGap
     [Lit ''history bookmark is no longer available; events may have been lost'']))"

text \<open>\<open>ERROR_EVT_QUERY_RESULT_INVALID_POSITION\<close>, \<open>ERROR_EVT_QUERY_RESULT_STALE\<close> and \<open>ERROR_NOT_FOUND\<close>\<close>

definition gap_codes :: "u32 list" where "gap_codes = [15012, 15011, 1168]"

definition continuation_error :: "string \<Rightarrow> windows_error \<Rightarrow> error" where
  "continuation_error operation e =
     (if list_ex (\<lambda>expected. snd e = 0x80070000 OR expected) gap_codes then history_gap (snd e)
      else event_error operation e)"

section \<open>Sessions\<close>

datatype 'h event_access = Local | Remote 'h | Unavailable error

definition open_event_session ::
  "('h, 'w) evt_api \<Rightarrow> string \<Rightarrow> (string \<times> string option) option \<Rightarrow> u16 list option \<Rightarrow> ('w, 'h) effect" where
  "open_event_session api target identity pw =
     checked (native_error ''connect remote Windows Event Log'' (Some target)) (ev_open_session api target identity pw)"

definition event_access_connect ::
  "('h, 'w) evt_api \<Rightarrow> string option \<Rightarrow> (string \<times> string option) option \<Rightarrow> u16 list option \<Rightarrow> 'w
     \<Rightarrow> 'h event_access \<times> 'w" where
  "event_access_connect api target identity pw w =
     (case target of
        None \<Rightarrow> (Local, w)
      | Some t \<Rightarrow>
          (case open_event_session api t identity pw w of
             (Inr h, w) \<Rightarrow> (Remote h, w)
           | (Inl e, w) \<Rightarrow> (Unavailable e, w)))"

fun access_session :: "'h event_access \<Rightarrow> 'h option result" where
  "access_session Local = Inr None"
| "access_session (Remote h) = Inr (Some h)"
| "access_session (Unavailable e) = Inl e"

fun unavailable_reason :: "'h event_access \<Rightarrow> message option" where
  "unavailable_reason (Unavailable e) = Some (e_message e)"
| "unavailable_reason _ = None"

definition probe_log :: "('h, 'w) evt_api \<Rightarrow> 'h event_access \<Rightarrow> ('w, unit) effect" where
  "probe_log api access =
     and_then (lift_result (access_session access)) (\<lambda>session.
     and_then (checked (event_error ''open Task Scheduler history'')
       (ev_query api session OPERATIONAL_CHANNEL ''*'' (EvtQueryChannelPath OR EvtQueryReverseDirection))) (\<lambda>_.
     done_with ()))"

section \<open>Rendering\<close>

definition until_nul :: "u16 list \<Rightarrow> u16 list" where
  "until_nul units = takeWhile (\<lambda>u. u \<noteq> 0) units"

definition utf16_text :: "u16 list \<Rightarrow> string + string" where
  "utf16_text units =
     (case decode_units units of
        Inl _ \<Rightarrow> Inl ''invalid utf-16: lone surrogate found''
      | Inr cs \<Rightarrow> Inr (string_of cs))"

definition render_fragment :: "('h, 'w) evt_api \<Rightarrow> 'h \<Rightarrow> u32 \<Rightarrow> ('w, string) effect" where
  "render_fragment api event flags w =
     (let ((sizing, bytes_used), w) = ev_render_size api event flags w in
      if bytes_used = 0 then
        (case sizing of
           Inl e \<Rightarrow> (Inl (event_error ''size rendered Task Scheduler event'' e), w)
         | Inr _ \<Rightarrow> (Inl (new_error HistoryUnavailable [Lit ''Windows Event Log returned empty rendered event XML'']), w))
      else if unat bytes_used > MAX_EVENT_XML_BYTES then
        (Inl (new_error HistoryUnavailable [Lit ''rendered Task Scheduler event exceeds the 1 MiB limit'']), w)
      else
        and_then (checked (event_error ''render Task Scheduler event'') (ev_render api event flags bytes_used)) (\<lambda>buffer.
          lift_result (map_err (\<lambda>e. new_error HistoryUnavailable
            [Lit ''rendered Task Scheduler event is invalid UTF-16: '', Dsp e])
            (utf16_text (until_nul (take ((unat bytes_used + 1) div 2) buffer))))) w)"

definition render_event_xml :: "('h, 'w) evt_api \<Rightarrow> 'h \<Rightarrow> ('w, string) effect" where
  "render_event_xml api event = render_fragment api event EvtRenderEventXml"

definition format_event_message :: "('h, 'w) evt_api \<Rightarrow> 'h \<Rightarrow> 'h \<Rightarrow> ('w, string) effect" where
  "format_event_message api metadata event w =
     (let ((sizing, units_used), w) = ev_format_size api metadata event w in
      if units_used = 0 then
        (case sizing of
           Inl e \<Rightarrow> (Inl (event_error ''size Task Scheduler event message'' e), w)
         | Inr _ \<Rightarrow> (Inr [], w))
      else if unat units_used > MAX_EVENT_XML_BYTES div 2 then
        (Inl (new_error HistoryUnavailable [Lit ''formatted Task Scheduler event message exceeds the limit'']), w)
      else
        and_then (checked (event_error ''format Task Scheduler event message'') (ev_format api metadata event units_used))
          (\<lambda>buffer.
            lift_result (map_err (\<lambda>e. new_error HistoryUnavailable
              [Lit ''formatted Task Scheduler event message is invalid UTF-16: '', Dsp e])
              (utf16_text (until_nul (take (unat units_used) buffer))))) w)"

section \<open>Queries\<close>

text \<open>A batch of handles; the end of the result set is not an error.\<close>

definition next_events :: "('h, 'w) evt_api \<Rightarrow> 'h \<Rightarrow> nat \<Rightarrow> ('w, 'h list) effect" where
  "next_events api query n w =
     (let ((result, raw), w) = ev_next api query n w;
          handles = concat (map (\<lambda>h. case h of Some h \<Rightarrow> [h] | None \<Rightarrow> []) (take n raw))
      in case result of
           Inr _ \<Rightarrow> (Inr handles, w)
         | Inl e \<Rightarrow> if is_no_more_items e then (Inr handles, w)
                    else (Inl (continuation_error ''read history page'' e), w))"

text \<open>The closure of \<open>query_inner\<close>; its world carries the handles not yet rendered.\<close>

definition next_event ::
  "('h, 'w) evt_api \<Rightarrow> event_env \<Rightarrow> 'h \<Rightarrow> 'h option \<Rightarrow> ('w \<times> 'h list, history_event option) effect" where
  "next_event api env result_set provider = (\<lambda>(w, pending).
     (case (if pending = [] then next_events api result_set 16 w else (Inr pending, w)) of
        (Inl e, w) \<Rightarrow> (Inl e, w, pending)
      | (Inr [], w) \<Rightarrow> (Inr None, w, [])
      | (Inr (handle # rest), w) \<Rightarrow>
          (case render_event_xml api handle w of
             (Inl e, w) \<Rightarrow> (Inl e, w, rest)
           | (Inr xml, w) \<Rightarrow>
               (case from_event_xml env xml of
                  Inl e \<Rightarrow> (Inl e, w, rest)
                | Inr event \<Rightarrow>
                    (case provider of
                       None \<Rightarrow> (Inr (Some event), w, rest)
                     | Some metadata \<Rightarrow>
                         (case format_event_message api metadata handle w of
                            (Inr text, w) \<Rightarrow> (Inr (Some (event\<lparr>he_message := Some text\<rparr>)), w, rest)
                          | (Inl _, w) \<Rightarrow> (Inr (Some event), w, rest)))))))"

definition DEFAULT_LIMIT :: nat where "DEFAULT_LIMIT = 256"
definition MAX_RETURNED :: nat where "MAX_RETURNED = 100000"
definition MAX_SCANNED :: nat where "MAX_SCANNED = 100000"

definition query_inner ::
  "('h, 'w) evt_api \<Rightarrow> event_env \<Rightarrow> (system_time \<Rightarrow> string option) \<Rightarrow> 'h event_access \<Rightarrow> history_query \<Rightarrow> bool
     \<Rightarrow> ('w, history_event list) effect" where
  "query_inner api env timestamp access query exact =
     (let wanted = (case hq_limit query of Some n \<Rightarrow> n | None \<Rightarrow> DEFAULT_LIMIT) in
      if wanted > MAX_RETURNED then
        fail_with (with_context ''maximum'' (show_nat MAX_RETURNED)
          (new_error QueryLimit [Lit ''history query exceeds the return limit; use a bookmark watcher'']))
      else if wanted = 0 then done_with []
      else
        and_then (lift_result (access_session access)) (\<lambda>session.
        and_then (lift_result (history_xpath timestamp (hq_since query))) (\<lambda>xpath.
        and_then (checked (event_error ''query Task Scheduler history'')
          (ev_query api session OPERATIONAL_CHANNEL xpath (EvtQueryChannelPath OR
             (if hq_forward query then EvtQueryForwardDirection else EvtQueryReverseDirection)))) (\<lambda>result_set w.
          let (metadata, w) = checked (event_error ''open Task Scheduler event metadata'')
                (ev_open_metadata api session ''Microsoft-Windows-TaskScheduler'') w;
              provider = (case metadata of Inr m \<Rightarrow> Some m | Inl _ \<Rightarrow> None);
              (r, (w, _)) = scan_history query exact MAX_SCANNED (next_event api env result_set provider) (w, [])
          in (r, w)))))"

section \<open>Pages\<close>

definition native_page_source :: "('h, 'w) evt_api \<Rightarrow> event_env \<Rightarrow> 'h \<Rightarrow> 'h \<Rightarrow> ('w, 'h) page_source" where
  "native_page_source api env result bookmark =
     \<lparr>ps_seek = (\<lambda>_. checked (continuation_error ''seek history bookmark'') (ev_seek api result bookmark)),
      ps_next = next_events api result,
      ps_render = (\<lambda>handle. and_then (render_event_xml api handle) (\<lambda>xml. lift_result (from_event_xml env xml))),
      ps_bookmark = (\<lambda>handle.
        and_then (checked (continuation_error ''advance history bookmark'') (ev_update_bookmark api bookmark handle))
          (\<lambda>_. render_fragment api bookmark EvtRenderBookmark))\<rparr>"

definition access_page ::
  "('h, 'w) evt_api \<Rightarrow> event_env \<Rightarrow> (system_time \<Rightarrow> string option) \<Rightarrow> 'h event_access \<Rightarrow> history_query \<Rightarrow> cursor option
     \<Rightarrow> ('w, page) effect" where
  "access_page api env timestamp access query cur =
     and_then (lift_result (history_xpath timestamp (hq_since query))) (\<lambda>xpath.
     and_then (lift_result (access_session access)) (\<lambda>session.
     and_then (checked (event_error ''open history continuation'')
       (ev_query api session OPERATIONAL_CHANNEL xpath (EvtQueryChannelPath OR EvtQueryForwardDirection))) (\<lambda>result.
     and_then (checked (event_error ''create history bookmark'') (ev_create_bookmark api (map_option cu_bookmark cur)))
       (\<lambda>bookmark. read_page (native_page_source api env result bookmark) query cur))))"

section \<open>The channel\<close>

definition log_enabled :: "('h, 'w) evt_api \<Rightarrow> 'h event_access \<Rightarrow> ('w, bool) effect" where
  "log_enabled api access =
     and_then (lift_result (access_session access)) (\<lambda>session.
     and_then (checked (event_error ''open history configuration'') (ev_open_config api session OPERATIONAL_CHANNEL)) (\<lambda>config.
     and_then (checked (event_error ''read history enabled state'') (ev_get_enabled api config)) (\<lambda>(kind, v).
       if kind \<noteq> EvtVarTypeBoolean then fail_with (new_error OtherKind [Lit ''unexpected channel enabled property type''])
       else done_with v)))"

definition set_log_enabled :: "('h, 'w) evt_api \<Rightarrow> 'h event_access \<Rightarrow> bool \<Rightarrow> ('w, unit) effect" where
  "set_log_enabled api access enabled =
     and_then (lift_result (access_session access)) (\<lambda>session.
     and_then (checked (event_error ''open Task Scheduler history configuration'')
       (ev_open_config api session OPERATIONAL_CHANNEL)) (\<lambda>config.
     and_then (checked (event_error ''change Task Scheduler history state'') (ev_set_enabled api config enabled)) (\<lambda>_.
     checked (event_error ''save Task Scheduler history state'') (ev_save_config api config))))"

end
