(* ===== verification/Session.thy ===== *)
theory Session
  imports Event_Access Xml
begin

text \<open>
  The native session (\<open>Session\<close> in \<open>client/sys.rs\<close>): how every operation of the library becomes calls of the
  Task Scheduler service. The service is the record \<open>com_service\<close>: its methods on object handles as native
  calls, and the Windows functions on accounts and security descriptors. Releasing objects, and wiping and
  freeing memory, change nothing that can be observed here.
\<close>

section \<open>The service\<close>

text \<open>A finite \<open>f64\<close> date is a multiple of \<open>2 ^ -1074\<close>, and that multiple stands for it.\<close>

type_synonym date_value = int

text \<open>\<open>SYSTEMTIME\<close>, as \<open>VariantTimeToSystemTime\<close> fills it\<close>

record system_fields =
  sf_year :: u16
  sf_month :: u16
  sf_day :: u16
  sf_hour :: u16
  sf_minute :: u16
  sf_second :: u16
  sf_milliseconds :: u16

record ('o, 'w) com_service =
  sv_identity :: "'o option \<Rightarrow> ('w, unit) native" \<comment> \<open>\<open>IUnknown\<close> of an object; \<open>None\<close> is the service itself\<close>
  sv_set_blanket :: "'o option \<Rightarrow> ('w, unit) native"
  sv_connect :: "string option \<Rightarrow> string option \<Rightarrow> string option \<Rightarrow> u16 list option \<Rightarrow> ('w, unit) native"
  sv_target_server :: "('w, u16 list) native"
  sv_connected_user :: "('w, u16 list) native"
  sv_connected_domain :: "('w, u16 list) native"
  sv_highest_version :: "('w, u32) native"
  sv_new_task :: "('w, 'o) native"
  sv_set_xml_text :: "'o \<Rightarrow> string \<Rightarrow> ('w, unit) native"
  sv_get_folder :: "string \<Rightarrow> ('w, 'o) native"
  sv_get_running_tasks :: "i32 \<Rightarrow> ('w, 'o) native"
  sv_count :: "'o \<Rightarrow> ('w, i32) native"
  sv_item :: "'o \<Rightarrow> nat \<Rightarrow> ('w, 'o) native"
  sv_get_tasks :: "'o \<Rightarrow> i32 \<Rightarrow> ('w, 'o) native"
  sv_get_folders :: "'o \<Rightarrow> ('w, 'o) native"
  sv_get_task :: "'o \<Rightarrow> string \<Rightarrow> ('w, 'o) native"
  sv_create_folder :: "'o \<Rightarrow> string \<Rightarrow> string option \<Rightarrow> ('w, 'o) native"
  sv_delete_folder :: "'o \<Rightarrow> string \<Rightarrow> ('w, unit) native"
  sv_delete_task :: "'o \<Rightarrow> string \<Rightarrow> ('w, unit) native"
  sv_register_task :: "'o \<Rightarrow> string \<Rightarrow> string \<Rightarrow> i32 \<Rightarrow> string option \<Rightarrow> u16 list option \<Rightarrow> i32
     \<Rightarrow> string option \<Rightarrow> ('w, 'o) native"
  sv_get_security :: "'o \<Rightarrow> i32 \<Rightarrow> ('w, u16 list) native"
  sv_set_security :: "'o \<Rightarrow> string \<Rightarrow> i32 \<Rightarrow> ('w, unit) native"
  sv_path :: "'o \<Rightarrow> ('w, u16 list) native"
  sv_state :: "'o \<Rightarrow> ('w, i32) native"
  sv_enabled :: "'o \<Rightarrow> ('w, bool) native"
  sv_set_enabled :: "'o \<Rightarrow> bool \<Rightarrow> ('w, unit) native"
  sv_last_result :: "'o \<Rightarrow> ('w, i32) native"
  sv_missed_runs :: "'o \<Rightarrow> ('w, i32) native"
  sv_last_run_time :: "'o \<Rightarrow> ('w, date_value) native"
  sv_next_run_time :: "'o \<Rightarrow> ('w, date_value) native"
  sv_xml :: "'o \<Rightarrow> ('w, u16 list) native"
  sv_run :: "'o \<Rightarrow> string list \<Rightarrow> ('w, 'o) native"
  sv_run_ex :: "'o \<Rightarrow> string list \<Rightarrow> i32 \<Rightarrow> i32 \<Rightarrow> string \<Rightarrow> ('w, 'o) native"
  sv_stop :: "'o \<Rightarrow> ('w, unit) native"
  sv_instance_guid :: "'o \<Rightarrow> ('w, u16 list) native"
  sv_current_action :: "'o \<Rightarrow> ('w, u16 list) native"
  sv_engine_pid :: "'o \<Rightarrow> ('w, u32) native"
  sv_create_array :: "nat \<Rightarrow> 'w \<Rightarrow> bool \<times> 'w" \<comment> \<open>whether \<open>SafeArrayCreateVector\<close> gave an array\<close>
  sv_put_element :: "nat \<Rightarrow> string \<Rightarrow> ('w, unit) native"
  sv_system_time :: "date_value \<Rightarrow> system_fields option" \<comment> \<open>\<open>VariantTimeToSystemTime\<close>\<close>
  sv_parse_sddl :: "string \<Rightarrow> windows_error + u16 list" \<comment> \<open>the self-relative descriptor\<close>
  sv_select_sections :: "u16 list \<Rightarrow> u32 \<Rightarrow> windows_error + u16 list"
  sv_account_size :: "string option \<Rightarrow> string \<Rightarrow> (windows_error + unit) \<times> u32 \<times> u32"
  sv_account_sid :: "string option \<Rightarrow> string \<Rightarrow> windows_error + u16 list"
  sv_sid_text :: "u16 list \<Rightarrow> windows_error + u16 list"
  sv_utf16_error :: windows_error \<comment> \<open>the windows error that an invalid UTF-16 text becomes\<close>

datatype com_security_policy = ExistingProcess | RequireProxyBlanket

text \<open>A session: the service, the connection, and the parsers and printers of \<open>Xml\<close>.\<close>

record ('o, 'w) session =
  ss_service :: "('o, 'w) com_service"
  ss_target :: "string option"
  ss_policy :: com_security_policy
  ss_xml :: xml_env
  ss_uuid_text :: "uuid \<Rightarrow> string"

section \<open>Strings, flags and values\<close>

definition bstr_to_string :: "u16 list \<Rightarrow> string \<Rightarrow> string result" where
  "bstr_to_string units operation =
     map_err (\<lambda>e. new_error Com [Dsp operation, Lit '': invalid UTF-16: '', Dsp e]) (utf16_text units)"

definition bstr_string :: "('w, u16 list) native \<Rightarrow> string \<Rightarrow> ('w, string) effect" where
  "bstr_string m operation =
     and_then (checked (native_error operation None) m) (\<lambda>units. lift_result (bstr_to_string units operation))"

definition nonempty_bstr :: "('w, u16 list) native \<Rightarrow> string \<Rightarrow> ('w, string option) effect" where
  "nonempty_bstr m operation =
     and_then (bstr_string m operation) (\<lambda>s. done_with (if s = [] then None else Some s))"

definition configure_proxy ::
  "('o, 'w) com_service \<Rightarrow> 'o option \<Rightarrow> com_security_policy \<Rightarrow> ('w, unit) effect" where
  "configure_proxy svc object policy =
     and_then (checked (native_error ''query COM proxy identity'' None) (sv_identity svc object)) (\<lambda>_ w.
       case (policy, sv_set_blanket svc object w) of
         (_, Inr _, w) \<Rightarrow> (Inr (), w)
       | (ExistingProcess, Inl _, w) \<Rightarrow> (Inr (), w)
       | (RequireProxyBlanket, Inl e, w) \<Rightarrow> (Inl (native_error ''configure COM proxy security'' None e), w))"

definition split_username :: "string \<Rightarrow> string \<times> string option" where
  "split_username username =
     (case split_once (CHR 0x5C) username of
        None \<Rightarrow> (username, None)
      | Some (domain, user) \<Rightarrow> (user, Some domain))"

fun native_user :: "principal_identity \<Rightarrow> string option" where
  "native_user NoIdentity = None"
| "native_user (User v) = Some v"
| "native_user (Group v) = Some v"
| "native_user (ServiceAccount LocalSystem) = Some ''SYSTEM''"
| "native_user (ServiceAccount LocalService) = Some (''NT AUTHORITY'' @ [CHR 0x5C] @ ''LOCAL SERVICE'')"
| "native_user (ServiceAccount NetworkService) = Some (''NT AUTHORITY'' @ [CHR 0x5C] @ ''NETWORK SERVICE'')"

text \<open>\<open>TASK_LOGON_TYPE\<close>\<close>

fun native_logon_type :: "logon_type \<Rightarrow> i32" where
  "native_logon_type LogonNone = 0"
| "native_logon_type Password = 1"
| "native_logon_type S4u = 2"
| "native_logon_type InteractiveToken = 3"
| "native_logon_type LogonGroup = 4"
| "native_logon_type LogonServiceAccount = 5"
| "native_logon_type InteractiveTokenOrPassword = 6"

text \<open>\<open>TASK_CREATION\<close>\<close>

definition TASK_VALIDATE_ONLY :: i32 where "TASK_VALIDATE_ONLY = 0x1"
definition TASK_CREATE :: i32 where "TASK_CREATE = 0x2"
definition TASK_UPDATE :: i32 where "TASK_UPDATE = 0x4"
definition TASK_CREATE_OR_UPDATE :: i32 where "TASK_CREATE_OR_UPDATE = 0x6"
definition TASK_DISABLE :: i32 where "TASK_DISABLE = 0x8"
definition TASK_DONT_ADD_PRINCIPAL_ACE :: i32 where "TASK_DONT_ADD_PRINCIPAL_ACE = 0x10"
definition TASK_IGNORE_REGISTRATION_TRIGGERS :: i32 where "TASK_IGNORE_REGISTRATION_TRIGGERS = 0x20"

definition registration_flags :: "registration_options \<Rightarrow> i32" where
  "registration_flags opts =
     (if ro_mode opts = ValidateOnly then TASK_VALIDATE_ONLY
      else
        let flags = (case ro_mode opts of
               Create \<Rightarrow> TASK_CREATE
             | Update \<Rightarrow> TASK_UPDATE
             | _ \<Rightarrow> TASK_CREATE_OR_UPDATE);
            flags = (if ro_ignore_registration_triggers opts then flags OR TASK_IGNORE_REGISTRATION_TRIGGERS else flags);
            flags = (if ro_disabled opts then flags OR TASK_DISABLE else flags)
        in if ro_dont_add_principal_ace opts then flags OR TASK_DONT_ADD_PRINCIPAL_ACE else flags)"

text \<open>\<open>TASK_STATE\<close>\<close>

definition map_state :: "i32 \<Rightarrow> task_state" where
  "map_state value =
     (if value = 1 then Disabled
      else if value = 2 then Queued
      else if value = 3 then Ready
      else if value = 4 then Running
      else StateUnknown)"

fun datetime_error_text :: "parse_datetime_error \<Rightarrow> message" where
  "datetime_error_text (ParseTaskDateTimeError m) = m"

definition automation_time :: "('o, 'w) session \<Rightarrow> date_value \<Rightarrow> task_datetime option result" where
  "automation_time S v =
     (if v \<le> 0 then Inr None
      else case sv_system_time (ss_service S) v of
          None \<Rightarrow> Inl (new_error Com [Lit ''cannot decode Task Scheduler DATE value''])
        | Some t \<Rightarrow>
            bind_ok (map_err (\<lambda>e. new_error Com (datetime_error_text e))
              (datetime_parse (env_civil (ss_xml S))
                (show_pad 4 (unat (sf_year t)) @ ''-'' @ show_pad 2 (unat (sf_month t)) @ ''-''
                 @ show_pad 2 (unat (sf_day t)) @ ''T'' @ show_pad 2 (unat (sf_hour t)) @ '':''
                 @ show_pad 2 (unat (sf_minute t)) @ '':'' @ show_pad 2 (unat (sf_second t)) @ ''.''
                 @ show_pad 3 (unat (sf_milliseconds t))))) (\<lambda>d. Inr (Some d)))"

definition parse_task_path :: "string \<Rightarrow> task_path result" where
  "parse_task_path v = map_err (\<lambda>e. new_error InvalidPath (path_error_text e)) (task_from_str v)"

definition parse_folder_path :: "string \<Rightarrow> folder_path result" where
  "parse_folder_path v = map_err (\<lambda>e. new_error InvalidPath (path_error_text e)) (folder_from_str v)"

definition descriptor_text :: "error_kind \<Rightarrow> string \<Rightarrow> security_descriptor result" where
  "descriptor_text kind sddl =
     map_err (\<lambda>_. new_error kind [Lit ''a security descriptor must be non-empty SDDL without NUL'']) (from_sddl sddl)"

definition canonical_sddl :: "('o, 'w) com_service \<Rightarrow> security_descriptor \<Rightarrow> security_information
     \<Rightarrow> security_descriptor result" where
  "canonical_sddl svc descriptor information =
     bind_ok (map_err (native_error ''parse security descriptor'' None) (sv_parse_sddl svc (as_sddl descriptor))) (\<lambda>raw.
     bind_ok (map_err (native_error ''select security descriptor sections'' None)
       (sv_select_sections svc raw information)) (\<lambda>units.
     bind_ok (map_err (\<lambda>_. native_error ''decode security descriptor'' None (sv_utf16_error svc))
       (utf16_text (until_nul units)))
       (descriptor_text InvalidDefinition)))"

definition resolve_account :: "('o, 'w) com_service \<Rightarrow> string option \<Rightarrow> string \<Rightarrow> string result" where
  "resolve_account svc target name =
     (if starts_with ''S-1-'' name then Inr name
      else
        let (sizing, sid_bytes, domain_units) = sv_account_size svc target name in
        if sid_bytes = 0 \<or> sid_bytes > 65536 \<or> domain_units > 65536 then
          Inl (case sizing of
               Inr _ \<Rightarrow> new_error Authentication [Lit ''account resolution returned invalid size'']
             | Inl e \<Rightarrow> native_error ''resolve principal'' None e)
        else
          bind_ok (map_err (native_error ''resolve principal'' None) (sv_account_sid svc target name)) (\<lambda>sid.
          bind_ok (map_err (native_error ''encode principal SID'' None) (sv_sid_text svc sid)) (\<lambda>units.
            map_err (\<lambda>_. native_error ''decode principal SID'' None (sv_utf16_error svc)) (utf16_text (until_nul units)))))"

section \<open>Opening objects\<close>

definition native_for :: "string \<Rightarrow> string \<Rightarrow> ('w, 'a) native \<Rightarrow> ('w, 'a) effect" where
  "native_for operation target = checked (native_error operation (Some target))"

definition native_op :: "('o, 'w) session \<Rightarrow> string \<Rightarrow> ('w, 'a) native \<Rightarrow> ('w, 'a) effect" where
  "native_op S operation = checked (native_error operation (ss_target S))"

abbreviation proxied :: "('o, 'w) session \<Rightarrow> 'o \<Rightarrow> ('w, unit) effect" where
  "proxied S object \<equiv> configure_proxy (ss_service S) (Some object) (ss_policy S)"

definition open_folder :: "('o, 'w) session \<Rightarrow> folder_path \<Rightarrow> ('w, 'o) effect" where
  "open_folder S path =
     and_then (native_for ''open folder'' (folder_str path) (sv_get_folder (ss_service S) (folder_str path))) (\<lambda>folder.
     and_then (proxied S folder) (\<lambda>_. done_with folder))"

definition open_task :: "('o, 'w) session \<Rightarrow> task_path \<Rightarrow> ('w, 'o) effect" where
  "open_task S path =
     and_then (open_folder S (task_folder path)) (\<lambda>folder.
     and_then (native_for ''open task'' (task_str path) (sv_get_task (ss_service S) folder (task_name path))) (\<lambda>task.
     and_then (proxied S task) (\<lambda>_. done_with task)))"

text \<open>\<open>for index in 1..=count\<close> over a native collection; \<open>step\<close> gets an item and the value so far.\<close>

fun each_item ::
  "(nat \<Rightarrow> ('w, 'o) effect) \<Rightarrow> ('o \<Rightarrow> 'a \<Rightarrow> ('w, 'a) effect) \<Rightarrow> nat list \<Rightarrow> 'a \<Rightarrow> ('w, 'a) effect" where
  "each_item item step [] acc = done_with acc"
| "each_item item step (i # is) acc =
     and_then (item i) (\<lambda>object. and_then (step object acc) (\<lambda>acc. each_item item step is acc))"

definition indices :: "i32 \<Rightarrow> nat list" where
  "indices n = [1..<nat (sint n + 1)]"

section \<open>The connection\<close>

record connection_info =
  ci_target_server :: string
  ci_user :: "string option"
  ci_domain :: "string option"
  ci_highest_version :: u32

definition session_connect ::
  "('o, 'w) com_service \<Rightarrow> xml_env \<Rightarrow> (uuid \<Rightarrow> string) \<Rightarrow> ('w, unit) native \<Rightarrow> ('w, unit) native \<Rightarrow> ('h, 'w) evt_api
     \<Rightarrow> string option \<Rightarrow> (string \<times> u16 list) option \<Rightarrow> com_security_policy
     \<Rightarrow> ('w, ('o, 'w) session \<times> 'h event_access) effect" where
  "session_connect svc xml uuid_text initialize create api target credential policy =
     and_then (checked (native_error ''initialize COM MTA'' None) initialize) (\<lambda>_.
     and_then (checked (native_error ''create Task Scheduler service'' target) create) (\<lambda>_.
     and_then (configure_proxy svc None policy) (\<lambda>_.
       let identity = map_option (\<lambda>(username, _). split_username username) credential;
           pw = map_option snd credential
       in and_then (checked (native_error ''connect Task Scheduler service'' target)
            (sv_connect svc target (map_option fst identity) (Option.bind identity snd) pw)) (\<lambda>_.
          and_then (configure_proxy svc None policy) (\<lambda>_ w.
            let (access, w) = event_access_connect api target identity pw w
            in (Inr (\<lparr>ss_service = svc, ss_target = target, ss_policy = policy, ss_xml = xml,
                     ss_uuid_text = uuid_text\<rparr>, access), w))))))"

definition connection_info :: "('o, 'w) session \<Rightarrow> ('w, connection_info) effect" where
  "connection_info S =
     and_then (bstr_string (sv_target_server (ss_service S)) ''read target server'') (\<lambda>server.
     and_then (nonempty_bstr (sv_connected_user (ss_service S)) ''read connected user'') (\<lambda>user.
     and_then (nonempty_bstr (sv_connected_domain (ss_service S)) ''read connected domain'') (\<lambda>domain.
     and_then (native_op S ''read highest version'' (sv_highest_version (ss_service S))) (\<lambda>highest.
       done_with \<lparr>ci_target_server = server, ci_user = user, ci_domain = domain, ci_highest_version = highest\<rparr>))))"

record capabilities =
  cp_highest_version :: u32
  cp_schema_version :: task_schema_version
  cp_required_privileges :: bool
  cp_maintenance_settings :: bool
  cp_volatile_tasks :: bool
  cp_history_query :: bool
  cp_remote_history_query :: bool

definition schema_of_minor :: "u32 \<Rightarrow> task_schema_version" where
  "schema_of_minor minor =
     (if minor \<le> 2 then V1_2 else if minor = 3 then V1_3 else if minor = 4 then V1_4
      else if minor = 5 then V1_5 else V1_6)"

definition capabilities ::
  "('o, 'w) session \<Rightarrow> ('h, 'w) evt_api \<Rightarrow> 'h event_access \<Rightarrow> ('w, capabilities) effect" where
  "capabilities S api access =
     and_then (native_op S ''read highest version'' (sv_highest_version (ss_service S))) (\<lambda>highest w.
       let minor = highest AND 0xFFFF;
           (probed, w) = probe_log api access w;
           history_query = is_ok probed
       in (Inr \<lparr>cp_highest_version = highest, cp_schema_version = schema_of_minor minor,
            cp_required_privileges = (minor \<ge> 3), cp_maintenance_settings = (minor \<ge> 4),
            cp_volatile_tasks = (minor \<ge> 6), cp_history_query = history_query,
            cp_remote_history_query = (ss_target S \<noteq> None \<and> history_query)\<rparr>, w))"

record diagnostic_report =
  dr_target :: "string option"
  dr_diagnostics :: "diagnostic list"

definition finding :: "diagnostic_level \<Rightarrow> diagnostic_code \<Rightarrow> string \<Rightarrow> message \<Rightarrow> string option \<Rightarrow> diagnostic" where
  "finding level code path msg remedy =
     \<lparr>d_level = level, d_code = code, d_path = path, d_message = msg, d_remediation = map_option (\<lambda>r. [Lit r]) remedy\<rparr>"

definition root_finding :: "'a result \<Rightarrow> diagnostic" where
  "root_finding root =
     (case root of
        Inr _ \<Rightarrow> finding Info (OtherCode ''root_readable'') ''scheduler.root'' [Lit ''scheduler root is readable''] None
      | Inl e \<Rightarrow> finding LevelError
          (if e_kind e = AccessDenied then InsufficientRights else RemoteConnectivity) ''scheduler.root'' (error_display e)
          (Some ''verify the Schedule service, RPC/DCOM firewall rules, and caller rights''))"

definition enabled_finding :: "bool result \<Rightarrow> diagnostic" where
  "enabled_finding enabled =
     finding (if enabled = Inr True then Info else Warning)
       (if enabled = Inr True then OtherCode ''history_enabled'' else HistoryUnavailableCode)
       ''history.configuration''
       (case enabled of
          Inr True \<Rightarrow> [Lit ''Operational channel is enabled'']
        | Inr False \<Rightarrow> [Lit ''Operational channel is disabled; new execution events will not be recorded'']
        | Inl e \<Rightarrow> [Lit ''channel configuration unconfirmed: '', Dsp (error_kind_debug (e_kind e)),
            Lit '', native code '', Dsp (case e_native_code e of None \<Rightarrow> ''None''
              | Some c \<Rightarrow> ''Some('' @ show_int (sint c) @ '')'')])
       (Some ''If exact run results are required, enable Operational history explicitly and confirm read access.'')"

definition doctor ::
  "('o, 'w) session \<Rightarrow> ('h, 'w) evt_api \<Rightarrow> 'h event_access \<Rightarrow> ('w, diagnostic_report) effect" where
  "doctor S api access =
     and_then (connection_info S) (\<lambda>connection.
     and_then (capabilities S api access) (\<lambda>caps w.
       let (root, w) = open_folder S folder_root w;
           (enabled, w) = log_enabled api access w;
           history = cp_history_query caps
       in (Inr \<lparr>dr_target = Some (ci_target_server connection), dr_diagnostics =
            [finding Info (OtherCode ''connected'') ''scheduler.connect''
               [Lit ''connected to '', Dsp (ci_target_server connection), Lit '' as '',
                Dsp (case ci_user connection of Some u \<Rightarrow> u | None \<Rightarrow> ''current token'')] None,
             root_finding root]
            @ (if history then [] else [finding Warning HistoryUnavailableCode ''history.operational''
                 (case unavailable_reason access of Some m \<Rightarrow> m
                  | None \<Rightarrow> [Lit ''Operational history is disabled or inaccessible''])
                 (Some ''enable and grant read access to Microsoft-Windows-TaskScheduler/Operational'')])
            @ [enabled_finding enabled,
               finding (if history then Info else Warning)
                 (if history then OtherCode ''history_readable'' else HistoryUnavailableCode) ''history.read''
                 [Lit (if history then ''Event Log query opened successfully''
                       else ''Event Log query access is unconfirmed'')]
                 (Some ''Check Event Log RPC reachability and channel read permissions independently of Scheduler permissions.''),
               finding Info (OtherCode ''write_rights_not_tested'') ''scheduler.registration_rights''
                 [Lit ''Registration, ACL changes and rollback credentials are not tested by this read-only diagnostic'']
                 (Some ''Use an isolated test namespace to verify intended mutations before production use.'')]\<rparr>, w)))"

text \<open>\<open>SchedulerBuilder::diagnose\<close>: a failed connection is a finding too.\<close>

definition diagnose :: "string option \<Rightarrow> ('w, diagnostic_report) effect \<Rightarrow> 'w \<Rightarrow> diagnostic_report \<times> 'w" where
  "diagnose target connected w =
     (case connected w of
        (Inr report, w) \<Rightarrow> (report, w)
      | (Inl e, w) \<Rightarrow>
          (\<lparr>dr_target = target, dr_diagnostics =
             [finding LevelError
               (case e_kind e of AccessDenied \<Rightarrow> InsufficientRights | UnsupportedPlatform \<Rightarrow> UnsupportedCapability
                | _ \<Rightarrow> RemoteConnectivity)
               (case e_operation e of Some op \<Rightarrow> op | None \<Rightarrow> ''scheduler.connect'')
               [Dsp (error_kind_debug (e_kind e)), Lit ''; native code: '', Dsp (case e_native_code e of
                  None \<Rightarrow> ''None'' | Some c \<Rightarrow> ''Some('' @ show_int (sint c) @ '')'')]
               (Some ''Check the Schedule service, connection identity, RPC/DCOM reachability and read permissions. Write permissions have not been tested.'')]\<rparr>, w))"

definition normalize_identity :: "('o, 'w) session \<Rightarrow> principal \<Rightarrow> principal result" where
  "normalize_identity S p =
     (case pr_identity p of
        User name \<Rightarrow> bind_ok (resolve_account (ss_service S) (ss_target S) name) (\<lambda>n. Inr (p\<lparr>pr_identity := User n\<rparr>))
      | Group name \<Rightarrow> bind_ok (resolve_account (ss_service S) (ss_target S) name) (\<lambda>n. Inr (p\<lparr>pr_identity := Group n\<rparr>))
      | _ \<Rightarrow> Inr p)"

definition connected_principal :: "('o, 'w) session \<Rightarrow> principal \<Rightarrow> ('w, principal) effect" where
  "connected_principal S p =
     (if pr_identity p = NoIdentity \<and> pr_logon_type p = LogonNone then
        and_then (connection_info S) (\<lambda>info.
        and_then (lift_result (ok_or (new_error Authentication [Lit ''connected identity unavailable'']) (ci_user info)))
          (\<lambda>user. done_with (p\<lparr>pr_identity := User (case ci_domain info of
               Some domain \<Rightarrow> if domain = [] then user else domain @ [CHR 0x5C] @ user
             | None \<Rightarrow> user), pr_logon_type := InteractiveToken\<rparr>)))
      else done_with p)"

definition normalize_definition :: "('o, 'w) session \<Rightarrow> task_definition \<Rightarrow> ('w, task_definition) effect" where
  "normalize_definition S d =
     and_then (connected_principal S (td_principal d)) (\<lambda>p.
     and_then (lift_result (normalize_identity S p)) (\<lambda>p. done_with (d\<lparr>td_principal := p\<rparr>)))"

end
