(* ===== verification/Session_Ops.thy ===== *)
theory Session_Ops
  imports Session
begin

text \<open>
  The operations of the native session (\<open>Session\<close> in \<open>client/sys.rs\<close>) on tasks, instances, folders and security
  descriptors, with the two helpers of \<open>client/mod.rs\<close> they use.
\<close>

section \<open>Reading tasks\<close>

definition TASK_ENUM_HIDDEN :: i32 where "TASK_ENUM_HIDDEN = 1"

definition task_info :: "('o, 'w) session \<Rightarrow> 'o \<Rightarrow> ('w, registered_task) effect" where
  "task_info S task =
     (let svc = ss_service S in
      and_then (proxied S task) (\<lambda>_.
      and_then (bstr_string (sv_path svc task) ''read task path'') (\<lambda>path_text.
      and_then (lift_result (parse_task_path path_text)) (\<lambda>path.
      and_then (native_for ''read task state'' (task_str path) (sv_state svc task)) (\<lambda>state.
      and_then (native_for ''read task enabled'' (task_str path) (sv_enabled svc task)) (\<lambda>enabled.
      and_then (native_for ''read last task result'' (task_str path) (sv_last_result svc task)) (\<lambda>last_result.
      and_then (native_for ''read missed runs'' (task_str path) (sv_missed_runs svc task)) (\<lambda>missed.
      and_then (native_for ''read last run time'' (task_str path) (sv_last_run_time svc task)) (\<lambda>last_value.
      and_then (lift_result (automation_time S last_value)) (\<lambda>last_run.
      and_then (native_for ''read next run time'' (task_str path) (sv_next_run_time svc task)) (\<lambda>next_value.
      and_then (lift_result (automation_time S next_value)) (\<lambda>next_run.
      and_then (bstr_string (sv_xml svc task) ''read task XML'') (\<lambda>xml.
      and_then (lift_result (snapshot_parse (ss_xml S) xml)) (\<lambda>snapshot.
        done_with \<lparr>rg_path = path, rg_state = map_state state, rg_enabled = enabled, rg_last_result = last_result,
          rg_missed_runs = (if sint missed < 0 then 0 else missed), rg_last_run = last_run, rg_next_run = next_run,
          rg_snapshot = snapshot\<rparr>))))))))))))))"

definition get_task :: "('o, 'w) session \<Rightarrow> task_path \<Rightarrow> ('w, registered_task) effect" where
  "get_task S path = and_then (open_task S path) (task_info S)"

section \<open>Instances\<close>

definition running_instance_id :: "('o, 'w) session \<Rightarrow> 'o \<Rightarrow> ('w, uuid) effect" where
  "running_instance_id S running =
     and_then (bstr_string (sv_instance_guid (ss_service S) running) ''read instance GUID'') (\<lambda>text.
       lift_result (map_err (\<lambda>e. new_error Com [Lit ''invalid instance GUID: '', Dsp e])
         (env_uuid (ss_xml S) (trim_braces text))))"

definition running_info :: "('o, 'w) session \<Rightarrow> 'o \<Rightarrow> ('w, running_task) effect" where
  "running_info S running =
     (let svc = ss_service S in
      and_then (proxied S running) (\<lambda>_.
      and_then (bstr_string (sv_path svc running) ''read running path'') (\<lambda>path_text.
      and_then (lift_result (parse_task_path path_text)) (\<lambda>path.
      and_then (running_instance_id S running) (\<lambda>instance_id.
      and_then (nonempty_bstr (sv_current_action svc running) ''read running current action'') (\<lambda>action.
      and_then (native_for ''read task engine PID'' (task_str path) (sv_engine_pid svc running)) (\<lambda>pid.
      and_then (native_for ''read running state'' (task_str path) (sv_state svc running)) (\<lambda>state.
        done_with \<lparr>rt_path = path, rt_instance_id = instance_id, rt_current_action = action,
          rt_engine_process_id = pid, rt_state = map_state state\<rparr>))))))))"

text \<open>\<open>collect_running_snapshots\<close>: an instance that has ended meanwhile is left out, other failures stop.\<close>

definition SCHED_E_TASK_NOT_RUNNING :: i32 where "SCHED_E_TASK_NOT_RUNNING = 0x8004130B"

fun collect_running_snapshots :: "('i \<Rightarrow> ('w, 'a) effect) \<Rightarrow> 'i list \<Rightarrow> ('w, 'a list) effect" where
  "collect_running_snapshots f [] = done_with []"
| "collect_running_snapshots f (i # is) = (\<lambda>w.
     (case f i w of
        (Inl e, w) \<Rightarrow>
          if e_native_code e = Some SCHED_E_TASK_NOT_RUNNING then collect_running_snapshots f is w
          else (Inl e, w)
      | (Inr x, w) \<Rightarrow> and_then (collect_running_snapshots f is) (\<lambda>xs. done_with (x # xs)) w))"

definition running_collection :: "('o, 'w) session \<Rightarrow> i32 \<Rightarrow> ('w, 'o \<times> nat list) effect" where
  "running_collection S flags =
     and_then (native_op S ''enumerate running tasks'' (sv_get_running_tasks (ss_service S) flags)) (\<lambda>collection.
     and_then (proxied S collection) (\<lambda>_.
     and_then (native_op S ''count running tasks'' (sv_count (ss_service S) collection)) (\<lambda>n.
       done_with (collection, indices n))))"

definition running_item :: "('o, 'w) session \<Rightarrow> 'o \<Rightarrow> nat \<Rightarrow> ('w, 'o) effect" where
  "running_item S collection i = native_op S ''read running task'' (sv_item (ss_service S) collection i)"

definition running_tasks :: "('o, 'w) session \<Rightarrow> bool \<Rightarrow> ('w, running_task list) effect" where
  "running_tasks S include_hidden =
     and_then (running_collection S (if include_hidden then TASK_ENUM_HIDDEN else 0)) (\<lambda>(collection, is).
       collect_running_snapshots (\<lambda>i. and_then (running_item S collection i) (running_info S)) is)"

fun stop_loop :: "('o, 'w) session \<Rightarrow> 'o \<Rightarrow> uuid \<Rightarrow> nat list \<Rightarrow> ('w, unit) effect" where
  "stop_loop S collection instance_id [] =
     fail_with (with_target (ss_uuid_text S instance_id)
       (new_error NotFound [Lit ''running task instance was not found'']))"
| "stop_loop S collection instance_id (i # is) =
     and_then (running_item S collection i) (\<lambda>running.
     and_then (proxied S running) (\<lambda>_.
     and_then (running_instance_id S running) (\<lambda>found.
       if found = instance_id then native_op S ''stop running task'' (sv_stop (ss_service S) running)
       else stop_loop S collection instance_id is)))"

definition stop_instance :: "('o, 'w) session \<Rightarrow> uuid \<Rightarrow> ('w, unit) effect" where
  "stop_instance S instance_id =
     and_then (running_collection S TASK_ENUM_HIDDEN) (\<lambda>(collection, is). stop_loop S collection instance_id is)"

definition stop_all :: "('o, 'w) session \<Rightarrow> task_path \<Rightarrow> ('w, unit) effect" where
  "stop_all S path =
     and_then (open_task S path) (\<lambda>task. native_for ''stop task instances'' (task_str path) (sv_stop (ss_service S) task))"

section \<open>Running a task\<close>

record run_options =
  rn_parameters :: "string list"
  rn_session_id :: "u32 option"
  rn_user_sid :: "string option"
  rn_ignore_constraints :: bool
  rn_as_self :: bool

definition MAX_RUN_ARGUMENTS :: nat where "MAX_RUN_ARGUMENTS = 32"

definition TASK_RUN_AS_SELF :: i32 where "TASK_RUN_AS_SELF = 1"
definition TASK_RUN_IGNORE_CONSTRAINTS :: i32 where "TASK_RUN_IGNORE_CONSTRAINTS = 2"
definition TASK_RUN_USE_SESSION_ID :: i32 where "TASK_RUN_USE_SESSION_ID = 4"
definition TASK_RUN_USER_SID :: i32 where "TASK_RUN_USER_SID = 8"

fun put_elements :: "('o, 'w) com_service \<Rightarrow> nat \<Rightarrow> string list \<Rightarrow> ('w, unit) effect" where
  "put_elements svc i [] = done_with ()"
| "put_elements svc i (v # vs) =
     and_then (checked (native_error ''store RunEx argument'' None) (sv_put_element svc i v)) (\<lambda>_.
       put_elements svc (i + 1) vs)"

definition string_array :: "('o, 'w) com_service \<Rightarrow> string list \<Rightarrow> ('w, unit) effect" where
  "string_array svc vs =
     (if vs = [] then done_with ()
      else (\<lambda>w. case sv_create_array svc (length vs) w of
          (False, w) \<Rightarrow> (Inl (new_error Com [Lit ''SafeArrayCreateVector failed'']), w)
        | (True, w) \<Rightarrow> put_elements svc 0 vs w))"

definition run_ex_flags :: "run_options \<Rightarrow> i32" where
  "run_ex_flags opts =
     (let flags = (0 :: i32);
          flags = (if rn_ignore_constraints opts then flags OR TASK_RUN_IGNORE_CONSTRAINTS else flags);
          flags = (if rn_as_self opts then flags OR TASK_RUN_AS_SELF else flags);
          flags = (if rn_session_id opts \<noteq> None then flags OR TASK_RUN_USE_SESSION_ID else flags)
      in if rn_user_sid opts \<noteq> None then flags OR TASK_RUN_USER_SID else flags)"

definition extended_run :: "run_options \<Rightarrow> bool" where
  "extended_run opts \<longleftrightarrow>
     rn_session_id opts \<noteq> None \<or> rn_user_sid opts \<noteq> None \<or> rn_ignore_constraints opts \<or> rn_as_self opts"

definition session_argument :: "u32 option \<Rightarrow> i32 result" where
  "session_argument session_id =
     (case session_id of
        None \<Rightarrow> Inr 0
      | Some i \<Rightarrow>
          if unat i < 2 ^ 31 then Inr i
          else Inl (new_error InvalidDefinition [Lit ''session id exceeds the RunEx signed range'']))"

definition run_task :: "('o, 'w) session \<Rightarrow> task_path \<Rightarrow> run_options \<Rightarrow> ('w, run_handle) effect" where
  "run_task S path opts =
     (let svc = ss_service S in
      if length (rn_parameters opts) > MAX_RUN_ARGUMENTS then
        fail_with (new_error InvalidDefinition [Lit ''Run and RunEx accept at most 32 parameter substitutions''])
      else
        and_then (open_task S path) (\<lambda>task.
        and_then (string_array svc (rn_parameters opts)) (\<lambda>_.
        and_then
          (if extended_run opts then
             and_then (lift_result (session_argument (rn_session_id opts))) (\<lambda>session.
               native_for ''run task'' (task_str path) (sv_run_ex svc task (rn_parameters opts) (run_ex_flags opts) session
                 (case rn_user_sid opts of Some sid \<Rightarrow> sid | None \<Rightarrow> [])))
           else native_for ''run task'' (task_str path) (sv_run svc task (rn_parameters opts))) (\<lambda>running.
        and_then (proxied S running) (\<lambda>_.
        and_then (running_instance_id S running) (\<lambda>instance_id w.
          let (pid, w) = sv_engine_pid svc running w
          in (Inr \<lparr>rh_instance_id = instance_id, rh_path = path,
                rh_engine_process_id = (case pid of Inr p \<Rightarrow> if p = 0 then None else Some p | Inl _ \<Rightarrow> None)\<rparr>, w)))))))"

section \<open>Registration\<close>

definition validate_task :: "('o, 'w) session \<Rightarrow> task_definition \<Rightarrow> ('w, validation_report) effect" where
  "validate_task S d =
     (let report = validate_definition d in
      if \<not> report_is_valid report then done_with report
      else
        and_then (lift_result (to_xml_string (ss_uuid_text S) d)) (\<lambda>xml.
        and_then (native_op S ''create validation definition'' (sv_new_task (ss_service S))) (\<lambda>native.
        and_then (proxied S native) (\<lambda>_.
        and_then (native_op S ''validate task XML'' (sv_set_xml_text (ss_service S) native (without_declaration xml)))
          (\<lambda>_. done_with report)))))"

definition committed :: "string \<Rightarrow> error \<Rightarrow> error" where
  "committed stage e = with_context ''stage'' stage (with_context ''mutation'' ''registration_committed'' e)"

definition with_stage :: "string \<Rightarrow> ('w, 'a) effect \<Rightarrow> ('w, 'a) effect" where
  "with_stage stage m = (\<lambda>w. let (r, w) = m w in (map_err (committed stage) r, w))"

fun password_units :: "password \<Rightarrow> u16 list" where
  "password_units (Utf16Password units) = units"

definition password_needed :: "logon_type \<Rightarrow> registration_options \<Rightarrow> bool" where
  "password_needed logon opts \<longleftrightarrow> logon \<in> {Password, InteractiveTokenOrPassword} \<and> ro_password opts = None"

definition register_raw_commit ::
  "('o, 'w) session \<Rightarrow> task_path \<Rightarrow> raw_task_xml \<Rightarrow> logon_type \<Rightarrow> registration_options \<Rightarrow> ('w, unit) effect" where
  "register_raw_commit S path xml logon opts =
     and_then (lift_result (raw_definition (ss_xml S) xml)) (\<lambda>d.
       if \<not> report_is_valid (validate_definition d) then
         fail_with (with_target (task_str path) (with_validation (validate_definition d)
           (new_error InvalidDefinition [Lit ''task definition failed portable validation''])))
       else if password_needed logon opts then
         fail_with (with_target (task_str path) (new_error Authentication
           [Lit ''this logon type requires a separately supplied registration password'']))
       else
         and_then (open_folder S (task_folder path)) (\<lambda>folder.
         and_then (lift_result (raw_decoded xml)) (\<lambda>text.
         and_then (native_for ''register task'' (task_str path)
           (sv_register_task (ss_service S) folder (task_name path) (without_declaration text) (registration_flags opts)
             (native_user (pr_identity (td_principal d))) (map_option password_units (ro_password opts))
             (native_logon_type logon) (map_option as_sddl (ri_security_descriptor (td_registration d)))))
           (\<lambda>registered. with_stage ''configure_returned_proxy'' (proxied S registered)))))"

definition register_raw ::
  "('o, 'w) session \<Rightarrow> task_path \<Rightarrow> raw_task_xml \<Rightarrow> logon_type \<Rightarrow> registration_options \<Rightarrow> ('w, registered_task) effect" where
  "register_raw S path xml logon opts =
     and_then (register_raw_commit S path xml logon opts) (\<lambda>_. with_stage ''read_back'' (get_task S path))"

definition written_xml :: "('o, 'w) session \<Rightarrow> task_definition \<Rightarrow> raw_task_xml result" where
  "written_xml S d =
     bind_ok (to_xml_string (ss_uuid_text S) d) (\<lambda>text. raw_new (env_reader (ss_xml S)) (env_unescape (ss_xml S)) text)"

definition register_task ::
  "('o, 'w) session \<Rightarrow> task_path \<Rightarrow> task_definition \<Rightarrow> registration_options \<Rightarrow> ('w, registered_task) effect" where
  "register_task S path d opts =
     and_then (lift_result (written_xml S d)) (\<lambda>xml. register_raw S path xml (pr_logon_type (td_principal d)) opts)"

text \<open>\<open>BlockingScheduler::register_commit\<close>\<close>

definition register_commit ::
  "('o, 'w) session \<Rightarrow> task_path \<Rightarrow> task_definition \<Rightarrow> registration_options \<Rightarrow> ('w, unit) effect" where
  "register_commit S path d opts =
     and_then (lift_result (written_xml S d)) (\<lambda>xml. register_raw_commit S path xml (pr_logon_type (td_principal d)) opts)"

definition delete_task :: "('o, 'w) session \<Rightarrow> task_path \<Rightarrow> ('w, unit) effect" where
  "delete_task S path =
     and_then (open_folder S (task_folder path)) (\<lambda>folder.
       native_for ''delete task'' (task_str path) (sv_delete_task (ss_service S) folder (task_name path)))"

definition set_task_enabled :: "('o, 'w) session \<Rightarrow> task_path \<Rightarrow> bool \<Rightarrow> ('w, unit) effect" where
  "set_task_enabled S path enabled =
     and_then (open_task S path) (\<lambda>task.
       native_for ''set task enabled'' (task_str path) (sv_set_enabled (ss_service S) task enabled))"

section \<open>Folders\<close>

definition create_folder ::
  "('o, 'w) session \<Rightarrow> folder_path \<Rightarrow> security_descriptor option \<Rightarrow> ('w, task_folder_info) effect" where
  "create_folder S path security =
     (case (folder_parent path, folder_name path) of
        (Some parent, Some name) \<Rightarrow>
          and_then (open_folder S parent) (\<lambda>folder.
          and_then (native_for ''create folder'' (folder_str path)
            (sv_create_folder (ss_service S) folder name (map_option as_sddl security))) (\<lambda>created.
          and_then (proxied S created) (\<lambda>_.
            done_with \<lparr>fo_path = path, fo_security_descriptor = security\<rparr>)))
      | _ \<Rightarrow> fail_with (new_error InvalidPath [Lit ''cannot create scheduler root'']))"

definition delete_folder :: "('o, 'w) session \<Rightarrow> folder_path \<Rightarrow> ('w, unit) effect" where
  "delete_folder S path =
     (case (folder_parent path, folder_name path) of
        (Some parent, Some name) \<Rightarrow>
          and_then (open_folder S parent) (\<lambda>folder.
            native_for ''delete folder'' (folder_str path) (sv_delete_folder (ss_service S) folder name))
      | _ \<Rightarrow> fail_with (new_error InvalidPath [Lit ''cannot delete scheduler root'']))"

end
