(* ===== verification/Session_Tree.thy ===== *)
theory Session_Tree
  imports Session_Ops Observe
begin

text \<open>
  The recursive listings and the security descriptors of the native session (\<open>client/sys.rs\<close>), and the
  production backend over it (\<open>Native\<close> in \<open>reconcile/backend.rs\<close>). The depth of the native folder tree is
  not known to the program, so the listings take the depth they may reach: \<open>None\<close> is a run that goes deeper.
\<close>

section \<open>Listings\<close>

type_synonym ('w, 'a) descent = "'w \<Rightarrow> ('a result \<times> 'w) option"

definition descend :: "('w, 'a) effect \<Rightarrow> ('a \<Rightarrow> ('w, 'b) descent) \<Rightarrow> ('w, 'b) descent" where
  "descend m f w = (case m w of (Inl e, w) \<Rightarrow> Some (Inl e, w) | (Inr x, w) \<Rightarrow> f x w)"

definition descend_after :: "('w, 'a) descent \<Rightarrow> ('a \<Rightarrow> ('w, 'b) descent) \<Rightarrow> ('w, 'b) descent" where
  "descend_after m f w =
     (case m w of
        None \<Rightarrow> None
      | Some (Inl e, w) \<Rightarrow> Some (Inl e, w)
      | Some (Inr x, w) \<Rightarrow> f x w)"

definition ended :: "('w, 'a) effect \<Rightarrow> ('w, 'a) descent" where
  "ended m w = Some (m w)"

fun each_child :: "(nat \<Rightarrow> ('w, 'c) effect) \<Rightarrow> ('c \<Rightarrow> 'a \<Rightarrow> ('w, 'a) descent) \<Rightarrow> nat list \<Rightarrow> 'a \<Rightarrow> ('w, 'a) descent" where
  "each_child item step [] acc = ended (done_with acc)"
| "each_child item step (i # is) acc =
     descend (item i) (\<lambda>c. descend_after (step c acc) (\<lambda>acc. each_child item step is acc))"

definition folder_collection :: "('o, 'w) session \<Rightarrow> folder_path \<Rightarrow> 'o \<Rightarrow> ('w, 'o \<times> nat list) effect" where
  "folder_collection S path folder =
     and_then (native_for ''enumerate folders'' (folder_str path) (sv_get_folders (ss_service S) folder)) (\<lambda>folders.
     and_then (proxied S folders) (\<lambda>_.
     and_then (native_for ''count folders'' (folder_str path) (sv_count (ss_service S) folders)) (\<lambda>n.
       done_with (folders, indices n))))"

definition folder_child :: "('o, 'w) session \<Rightarrow> folder_path \<Rightarrow> 'o \<Rightarrow> nat \<Rightarrow> ('w, folder_path) effect" where
  "folder_child S path folders i =
     and_then (native_for ''read folder collection'' (folder_str path) (sv_item (ss_service S) folders i)) (\<lambda>child.
     and_then (proxied S child) (\<lambda>_.
     and_then (bstr_string (sv_path (ss_service S) child) ''read folder path'') (\<lambda>text.
       lift_result (parse_folder_path text))))"

fun list_folders_into ::
  "nat \<Rightarrow> ('o, 'w) session \<Rightarrow> folder_path \<Rightarrow> bool \<Rightarrow> task_folder_info list \<Rightarrow> ('w, task_folder_info list) descent" where
  "list_folders_into 0 S path recursive found = (\<lambda>w. None)"
| "list_folders_into (Suc depth) S path recursive found =
     descend (open_folder S path) (\<lambda>folder.
     descend (folder_collection S path folder) (\<lambda>(folders, is).
       each_child (folder_child S path folders) (\<lambda>child found.
         let found = found @ [\<lparr>fo_path = child, fo_security_descriptor = None\<rparr>]
         in if recursive then list_folders_into depth S child True found else ended (done_with found)) is found))"

definition list_folders :: "nat \<Rightarrow> ('o, 'w) session \<Rightarrow> folder_path \<Rightarrow> bool \<Rightarrow> ('w, task_folder_info list) descent" where
  "list_folders depth S path recursive = list_folders_into depth S path recursive []"

definition task_collection :: "('o, 'w) session \<Rightarrow> folder_path \<Rightarrow> list_options \<Rightarrow> 'o \<Rightarrow> ('w, 'o \<times> nat list) effect" where
  "task_collection S path opts folder =
     and_then (native_for ''enumerate tasks'' (folder_str path)
       (sv_get_tasks (ss_service S) folder (if lo_include_hidden opts then TASK_ENUM_HIDDEN else 0))) (\<lambda>tasks.
     and_then (proxied S tasks) (\<lambda>_.
     and_then (native_for ''count tasks'' (folder_str path) (sv_count (ss_service S) tasks)) (\<lambda>n.
       done_with (tasks, indices n))))"

definition task_item :: "('o, 'w) session \<Rightarrow> folder_path \<Rightarrow> 'o \<Rightarrow> nat \<Rightarrow> ('w, 'o) effect" where
  "task_item S path tasks i =
     native_for ''read task collection'' (folder_str path) (sv_item (ss_service S) tasks i)"

fun list_tasks_into ::
  "nat \<Rightarrow> ('o, 'w) session \<Rightarrow> folder_path \<Rightarrow> list_options \<Rightarrow> registered_task list \<Rightarrow> ('w, registered_task list) descent" where
  "list_tasks_into 0 S path opts found = (\<lambda>w. None)"
| "list_tasks_into (Suc depth) S path opts found =
     descend (open_folder S path) (\<lambda>folder.
     descend (task_collection S path opts folder) (\<lambda>(tasks, is).
     descend (each_item (task_item S path tasks)
       (\<lambda>task found. and_then (task_info S task) (\<lambda>info. done_with (found @ [info]))) is found) (\<lambda>found.
       if lo_recursive opts then
         descend (folder_collection S path folder) (\<lambda>(folders, is).
           each_child (folder_child S path folders) (\<lambda>child found. list_tasks_into depth S child opts found) is found)
       else ended (done_with found))))"

definition list_tasks :: "nat \<Rightarrow> ('o, 'w) session \<Rightarrow> folder_path \<Rightarrow> list_options \<Rightarrow> ('w, registered_task list) descent" where
  "list_tasks depth S path opts = list_tasks_into depth S path opts []"

section \<open>Security descriptors\<close>

definition task_security ::
  "('o, 'w) session \<Rightarrow> task_path \<Rightarrow> security_information \<Rightarrow> ('w, security_descriptor) effect" where
  "task_security S path scope =
     and_then (open_task S path) (\<lambda>task.
     and_then (native_for ''read task security'' (task_str path) (sv_get_security (ss_service S) task scope)) (\<lambda>units.
     and_then (lift_result (bstr_to_string units ''decode task security'')) (\<lambda>text.
       lift_result (descriptor_text Win32 text))))"

definition folder_security ::
  "('o, 'w) session \<Rightarrow> folder_path \<Rightarrow> security_information \<Rightarrow> ('w, security_descriptor) effect" where
  "folder_security S path scope =
     and_then (open_folder S path) (\<lambda>folder.
     and_then (native_for ''read folder security'' (folder_str path) (sv_get_security (ss_service S) folder scope)) (\<lambda>units.
     and_then (lift_result (bstr_to_string units ''decode folder security'')) (\<lambda>text.
       lift_result (descriptor_text Win32 text))))"

definition security_write_required :: "security_descriptor result \<Rightarrow> security_descriptor \<Rightarrow> bool result" where
  "security_write_required current desired =
     (case current of
        Inr c \<Rightarrow> Inr (\<not> access_equivalent c desired)
      | Inl e \<Rightarrow> if e_kind e = AccessDenied then Inr True else Inl e)"

text \<open>\<open>read.and_then(canonical_sddl)\<close>, as a value\<close>

definition current_sddl ::
  "('o, 'w) session \<Rightarrow> security_information \<Rightarrow> ('w, security_descriptor) effect \<Rightarrow> 'w
     \<Rightarrow> security_descriptor result \<times> 'w" where
  "current_sddl S scope read =
     and_then read (\<lambda>current. lift_result (canonical_sddl (ss_service S) current scope))"

definition write_security ::
  "('o, 'w) session \<Rightarrow> security_descriptor \<Rightarrow> security_information \<Rightarrow> ('w, security_descriptor) effect
     \<Rightarrow> (security_descriptor \<Rightarrow> ('w, unit) effect) \<Rightarrow> ('w, unit) effect" where
  "write_security S desired scope read write =
     and_then (lift_result (canonical_sddl (ss_service S) desired scope)) (\<lambda>desired w.
       let (current, w) = current_sddl S scope read w
       in and_then (lift_result (security_write_required current desired)) (\<lambda>required.
            if \<not> required then done_with () else write desired) w)"

definition set_task_security ::
  "('o, 'w) session \<Rightarrow> task_path \<Rightarrow> security_descriptor \<Rightarrow> security_information \<Rightarrow> ('w, unit) effect" where
  "set_task_security S path desired scope =
     write_security S desired scope (task_security S path scope) (\<lambda>desired.
       and_then (open_task S path) (\<lambda>task.
         native_for ''set task security'' (task_str path)
           (sv_set_security (ss_service S) task (as_sddl desired) TASK_DONT_ADD_PRINCIPAL_ACE)))"

definition set_folder_security ::
  "('o, 'w) session \<Rightarrow> folder_path \<Rightarrow> security_descriptor \<Rightarrow> security_information \<Rightarrow> ('w, unit) effect" where
  "set_folder_security S path desired scope =
     write_security S desired scope (folder_security S path scope) (\<lambda>desired.
       and_then (open_folder S path) (\<lambda>folder.
         native_for ''set folder security'' (folder_str path) (sv_set_security (ss_service S) folder (as_sddl desired) 0)))"

section \<open>The production backend\<close>

text \<open>A listing that goes deeper than allowed for has no result in the program; here it is an error.\<close>

definition within_depth :: "('w, 'a) descent \<Rightarrow> ('w, 'a) effect" where
  "within_depth m w =
     (case m w of Some r \<Rightarrow> r | None \<Rightarrow> (Inl (new_error OtherKind [Lit ''the folder tree is too deep'']), w))"

definition native_backend :: "nat \<Rightarrow> ('o, 'w) session \<Rightarrow> 'w backend" where
  "native_backend depth S =
     \<lparr>b_get_task = get_task S,
      b_list_tasks = (\<lambda>p opts. within_depth (list_tasks depth S p opts)),
      b_list_folders = (\<lambda>p recursive. within_depth (list_folders depth S p recursive)),
      b_task_security = task_security S,
      b_folder_security = folder_security S,
      b_register = register_commit S,
      b_register_raw = register_raw_commit S,
      b_create_folder = create_folder S,
      b_delete_folder = delete_folder S,
      b_delete_task = delete_task S,
      b_set_enabled = set_task_enabled S,
      b_set_task_security = set_task_security S,
      b_set_folder_security = set_folder_security S,
      b_stop_all = stop_all S\<rparr>"

section \<open>Mutating calls\<close>

text \<open>A service that keeps a record of its mutating calls beside its world, each with the handle it acts on: an object
  of the service, or the configuration of an event log.\<close>

datatype ('o, 'h) mutation =
    Registered_Task 'o string string i32 "string option" "u16 list option" i32 "string option"
  | Created_Folder 'o string "string option"
  | Deleted_Folder 'o string
  | Deleted_Task 'o string
  | Wrote_Security 'o string i32
  | Switched 'o bool
  | Ran 'o "string list"
  | Ran_Ex 'o "string list" i32 i32 string
  | Halted 'o
  | Switched_Log 'h bool
  | Saved_Log 'h

type_synonym ('o, 'h, 'w) traced = "'w \<times> (('o, 'h) mutation \<times> bool) list" \<comment> \<open>each call with its success\<close>

definition beside :: "('w \<Rightarrow> 'a \<times> 'w) \<Rightarrow> ('o, 'h, 'w) traced \<Rightarrow> 'a \<times> ('o, 'h, 'w) traced" where
  "beside m = (\<lambda>(w, log). let (r, w) = m w in (r, w, log))"

definition mutating :: "('o, 'h) mutation \<Rightarrow> ('w, 'a) native \<Rightarrow> (('o, 'h, 'w) traced, 'a) native" where
  "mutating c m = (\<lambda>(w, log). let (r, w) = m w in (r, w, log @ [(c, is_ok r)]))"

definition traced_service :: "('o, 'w) com_service \<Rightarrow> ('o, ('o, 'h, 'w) traced) com_service" where
  "traced_service v =
     \<lparr>sv_identity = (\<lambda>x. beside (sv_identity v x)), sv_set_blanket = (\<lambda>x. beside (sv_set_blanket v x)),
      sv_connect = (\<lambda>a b c d. beside (sv_connect v a b c d)), sv_target_server = beside (sv_target_server v),
      sv_connected_user = beside (sv_connected_user v), sv_connected_domain = beside (sv_connected_domain v),
      sv_highest_version = beside (sv_highest_version v), sv_new_task = beside (sv_new_task v),
      sv_set_xml_text = (\<lambda>x t. beside (sv_set_xml_text v x t)), sv_get_folder = (\<lambda>p. beside (sv_get_folder v p)),
      sv_get_running_tasks = (\<lambda>f. beside (sv_get_running_tasks v f)), sv_count = (\<lambda>x. beside (sv_count v x)),
      sv_item = (\<lambda>x i. beside (sv_item v x i)), sv_get_tasks = (\<lambda>x f. beside (sv_get_tasks v x f)),
      sv_get_folders = (\<lambda>x. beside (sv_get_folders v x)), sv_get_task = (\<lambda>x n. beside (sv_get_task v x n)),
      sv_create_folder = (\<lambda>x n s. mutating (Created_Folder x n s) (sv_create_folder v x n s)),
      sv_delete_folder = (\<lambda>x n. mutating (Deleted_Folder x n) (sv_delete_folder v x n)),
      sv_delete_task = (\<lambda>x n. mutating (Deleted_Task x n) (sv_delete_task v x n)),
      sv_register_task = (\<lambda>x n t f u p l s.
        mutating (Registered_Task x n t f u p l s) (sv_register_task v x n t f u p l s)),
      sv_get_security = (\<lambda>x i. beside (sv_get_security v x i)),
      sv_set_security = (\<lambda>x s f. mutating (Wrote_Security x s f) (sv_set_security v x s f)),
      sv_path = (\<lambda>x. beside (sv_path v x)), sv_state = (\<lambda>x. beside (sv_state v x)),
      sv_enabled = (\<lambda>x. beside (sv_enabled v x)),
      sv_set_enabled = (\<lambda>x e. mutating (Switched x e) (sv_set_enabled v x e)),
      sv_last_result = (\<lambda>x. beside (sv_last_result v x)), sv_missed_runs = (\<lambda>x. beside (sv_missed_runs v x)),
      sv_last_run_time = (\<lambda>x. beside (sv_last_run_time v x)), sv_next_run_time = (\<lambda>x. beside (sv_next_run_time v x)),
      sv_xml = (\<lambda>x. beside (sv_xml v x)),
      sv_run = (\<lambda>x vs. mutating (Ran x vs) (sv_run v x vs)),
      sv_run_ex = (\<lambda>x vs f i s. mutating (Ran_Ex x vs f i s) (sv_run_ex v x vs f i s)),
      sv_stop = (\<lambda>x. mutating (Halted x) (sv_stop v x)),
      sv_instance_guid = (\<lambda>x. beside (sv_instance_guid v x)),
      sv_current_action = (\<lambda>x. beside (sv_current_action v x)), sv_engine_pid = (\<lambda>x. beside (sv_engine_pid v x)),
      sv_create_array = (\<lambda>n (w, log). let (b, w) = sv_create_array v n w in (b, w, log)),
      sv_put_element = (\<lambda>i t. beside (sv_put_element v i t)), sv_system_time = sv_system_time v,
      sv_parse_sddl = sv_parse_sddl v, sv_select_sections = sv_select_sections v,
      sv_account_size = sv_account_size v, sv_account_sid = sv_account_sid v, sv_sid_text = sv_sid_text v,
      sv_utf16_error = sv_utf16_error v\<rparr>"

definition traced_session :: "('o, 'w) session \<Rightarrow> ('o, ('o, 'h, 'w) traced) session" where
  "traced_session S =
     \<lparr>ss_service = traced_service (ss_service S), ss_target = ss_target S, ss_policy = ss_policy S,
      ss_xml = ss_xml S, ss_uuid_text = ss_uuid_text S\<rparr>"

section \<open>Reading mutates nothing\<close>

text \<open>\<open>quiet snd\<close>: no mutating call is made.\<close>

named_theorems quiet_reading

lemma quiet_beside [quiet_reading]: "quiet snd (checked f (beside m))"
  by (auto simp: quiet_def checked_def beside_def Let_def split: prod.splits sum.splits)

lemma quiet_native [quiet_reading]:
  "quiet snd (native_for operation target (beside m))" "quiet snd (native_op S operation (beside m))"
  by (simp_all add: native_for_def native_op_def quiet_beside)

lemmas [quiet_reading] = quiet_done quiet_fail quiet_lift

lemma quiet_bstr [quiet_reading]: "quiet snd (bstr_string (beside m) operation)"
  "quiet snd (nonempty_bstr (beside m) operation)"
  unfolding nonempty_bstr_def bstr_string_def by (intro quiet_and_then quiet_reading)+

lemma quiet_blanket: "quiet snd (\<lambda>w. case (policy, sv_set_blanket (traced_service v) object w) of
    (_, Inr _, w) \<Rightarrow> (Inr (), w)
  | (ExistingProcess, Inl _, w) \<Rightarrow> (Inr (), w)
  | (RequireProxyBlanket, Inl e, w) \<Rightarrow> (Inl (native_error operation None e), w))"
  by (auto simp: quiet_def traced_service_def beside_def Let_def
      split: prod.splits sum.splits com_security_policy.splits)

lemma traced_identity: "sv_identity (traced_service v) object = beside (sv_identity v object)"
  by (simp add: traced_service_def)

lemma quiet_proxy [quiet_reading]: "quiet snd (configure_proxy (traced_service v) object policy)"
  unfolding configure_proxy_def traced_identity
  by (intro quiet_and_then quiet_beside quiet_blanket)

lemma traced_fields [simp]:
  "ss_service (traced_session S) = traced_service (ss_service S)" "ss_policy (traced_session S) = ss_policy S"
  "ss_target (traced_session S) = ss_target S" "ss_xml (traced_session S) = ss_xml S"
  by (simp_all add: traced_session_def)

lemma quiet_proxied: "quiet snd (proxied (traced_session S) object)"
  by (simp add: quiet_proxy)

lemma traced_reads [simp]:
  "sv_get_folder (traced_service v) p = beside (sv_get_folder v p)"
  "sv_get_running_tasks (traced_service v) f = beside (sv_get_running_tasks v f)"
  "sv_count (traced_service v) x = beside (sv_count v x)"
  "sv_item (traced_service v) x i = beside (sv_item v x i)"
  "sv_get_tasks (traced_service v) x f = beside (sv_get_tasks v x f)"
  "sv_get_folders (traced_service v) x = beside (sv_get_folders v x)"
  "sv_get_task (traced_service v) x n = beside (sv_get_task v x n)"
  "sv_get_security (traced_service v) x f = beside (sv_get_security v x f)"
  "sv_path (traced_service v) x = beside (sv_path v x)"
  "sv_state (traced_service v) x = beside (sv_state v x)"
  "sv_enabled (traced_service v) x = beside (sv_enabled v x)"
  "sv_last_result (traced_service v) x = beside (sv_last_result v x)"
  "sv_missed_runs (traced_service v) x = beside (sv_missed_runs v x)"
  "sv_last_run_time (traced_service v) x = beside (sv_last_run_time v x)"
  "sv_next_run_time (traced_service v) x = beside (sv_next_run_time v x)"
  "sv_xml (traced_service v) x = beside (sv_xml v x)"
  "sv_instance_guid (traced_service v) x = beside (sv_instance_guid v x)"
  "sv_current_action (traced_service v) x = beside (sv_current_action v x)"
  "sv_engine_pid (traced_service v) x = beside (sv_engine_pid v x)"
  by (simp_all add: traced_service_def)

lemma quiet_open_folder [quiet_reading]: "quiet snd (open_folder (traced_session S) path)"
  unfolding open_folder_def by (auto intro!: quiet_and_then quiet_reading)

lemma quiet_open_task [quiet_reading]: "quiet snd (open_task (traced_session S) path)"
  unfolding open_task_def by (auto intro!: quiet_and_then quiet_reading)

lemma quiet_task_info [quiet_reading]: "quiet snd (task_info (traced_session S) task)"
  unfolding task_info_def Let_def by (auto intro!: quiet_and_then quiet_reading)

lemma quiet_native_get_task [quiet_reading]: "quiet snd (get_task (traced_session S) path)"
  unfolding get_task_def by (auto intro!: quiet_and_then quiet_reading)

lemma quiet_running_info [quiet_reading]: "quiet snd (running_info (traced_session S) running)"
  unfolding running_info_def running_instance_id_def Let_def by (auto intro!: quiet_and_then quiet_reading)

lemma quiet_running_snapshots [quiet_reading]:
  "(\<And>i. quiet view (f i)) \<Longrightarrow> quiet view (collect_running_snapshots f is)"
proof (induction "is")
  case (Cons i "is")
  have "quiet view (and_then (collect_running_snapshots f is) (\<lambda>xs. done_with (x # xs)))" for x
    by (intro quiet_and_then Cons quiet_reading)
  then show ?case using Cons by (auto simp: quiet_def split: prod.splits sum.splits) (metis snd_conv)+
qed (simp add: quiet_reading)

lemma quiet_running_tasks: "quiet snd (running_tasks (traced_session S) include_hidden)"
  unfolding running_tasks_def running_collection_def running_item_def
  by (auto intro!: quiet_and_then quiet_reading split: prod.splits)

lemma quiet_task_security [quiet_reading]: "quiet snd (task_security (traced_session S) path scope)"
  unfolding task_security_def by (auto intro!: quiet_and_then quiet_reading)

lemma quiet_folder_security [quiet_reading]: "quiet snd (folder_security (traced_session S) path scope)"
  unfolding folder_security_def by (auto intro!: quiet_and_then quiet_reading)

text \<open>Descents\<close>

definition quiet_descent :: "('w \<Rightarrow> 's) \<Rightarrow> ('w, 'a) descent \<Rightarrow> bool" where
  "quiet_descent view m \<longleftrightarrow> (\<forall>w r w'. m w = Some (r, w') \<longrightarrow> view w' = view w)"

lemma quiet_descend: "quiet view m \<Longrightarrow> (\<And>x. quiet_descent view (f x)) \<Longrightarrow> quiet_descent view (descend m f)"
  by (auto simp: quiet_def quiet_descent_def descend_def split: prod.splits sum.splits) (metis snd_conv)+

lemma quiet_descend_after:
  "quiet_descent view m \<Longrightarrow> (\<And>x. quiet_descent view (f x)) \<Longrightarrow> quiet_descent view (descend_after m f)"
  unfolding quiet_descent_def descend_after_def by (auto split: option.splits prod.splits sum.splits)

lemma quiet_ended: "quiet view m \<Longrightarrow> quiet_descent view (ended m)"
  unfolding quiet_def quiet_descent_def ended_def by (metis option.inject snd_conv)

lemma quiet_each_child:
  "(\<And>i. quiet view (item i)) \<Longrightarrow> (\<And>c acc. quiet_descent view (step c acc)) \<Longrightarrow>
    quiet_descent view (each_child item step is acc)"
  by (induction "is" arbitrary: acc) (auto intro!: quiet_descend quiet_descend_after quiet_ended)

lemma quiet_each_item:
  "(\<And>i. quiet view (item i)) \<Longrightarrow> (\<And>c acc. quiet view (step c acc)) \<Longrightarrow> quiet view (each_item item step is acc)"
  by (induction "is" arbitrary: acc) (auto intro!: quiet_and_then)

lemma quiet_folder_collection [quiet_reading]: "quiet snd (folder_collection (traced_session S) path folder)"
  unfolding folder_collection_def by (auto intro!: quiet_and_then quiet_reading)

lemma quiet_folder_child [quiet_reading]: "quiet snd (folder_child (traced_session S) path folders i)"
  unfolding folder_child_def by (auto intro!: quiet_and_then quiet_reading)

lemma quiet_list_folders_into:
  "quiet_descent snd (list_folders_into depth (traced_session S) path recursive found)"
proof (induction depth arbitrary: path recursive found)
  case 0
  then show ?case by (simp add: quiet_descent_def)
next
  case (Suc depth)
  then show ?case
    by (auto intro!: quiet_descend quiet_each_child quiet_ended quiet_reading simp: Let_def)
qed

lemma quiet_list_tasks_into: "quiet_descent snd (list_tasks_into depth (traced_session S) path opts found)"
proof (induction depth arbitrary: path found)
  case 0
  then show ?case by (simp add: quiet_descent_def)
next
  case (Suc depth)
  have "quiet snd (task_collection (traced_session S) path opts folder)"
    "quiet snd (task_item (traced_session S) path tasks i)" for folder tasks i
    unfolding task_collection_def task_item_def by (auto intro!: quiet_and_then quiet_reading)
  with Suc show ?case
    by (auto intro!: quiet_descend quiet_each_child quiet_ended quiet_each_item quiet_and_then quiet_reading simp: Let_def)
qed

lemma quiet_within_depth: "quiet_descent view m \<Longrightarrow> quiet view (within_depth m)"
  by (auto simp: quiet_def quiet_descent_def within_depth_def split: option.splits)

text \<open>The production backend keeps the contract of the readers: what can be seen of it here is the record of
  its mutating calls.\<close>

interpretation native: quiet_reads "native_backend depth (traced_session S)" snd for depth S
  by unfold_locales
    (auto simp: native_backend_def list_tasks_def list_folders_def
      intro!: quiet_within_depth quiet_list_tasks_into quiet_list_folders_into quiet_reading)

end
