(* ===== verification/Session_Listing.thy ===== *)
theory Session_Listing
  imports Session_Tree
begin

text \<open>
  The recursive folder listing of the native session on a service that shows a finite folder tree: a depth
  beyond the height of the tree is enough for the listing to return, and it gives the folders below the
  start in preorder.
\<close>

section \<open>A service that shows a tree\<close>

text \<open>What the documentation of \<open>ITaskFolder\<close> and \<open>ITaskFolderCollection\<close> promises of a folder \<open>p\<close> with the
  subfolders \<open>kids p\<close>: \<open>object p\<close> and \<open>rows p\<close> are the handles of the folder and of its collection. Nothing is
  changed by looking.\<close>

definition serves_folder :: "('o, 'w) session \<Rightarrow> (folder_path \<Rightarrow> folder_path list) \<Rightarrow> (folder_path \<Rightarrow> 'o) \<Rightarrow>
     (folder_path \<Rightarrow> 'o) \<Rightarrow> 'w \<Rightarrow> folder_path \<Rightarrow> bool" where
  "serves_folder S kids object rows w p \<longleftrightarrow>
     (let svc = ss_service S; n = length (kids p) in
      sv_get_folder svc (folder_str p) w = (Inr (object p), w)
      \<and> sv_identity svc (Some (object p)) w = (Inr (), w) \<and> sv_set_blanket svc (Some (object p)) w = (Inr (), w)
      \<and> sv_identity svc (Some (rows p)) w = (Inr (), w) \<and> sv_set_blanket svc (Some (rows p)) w = (Inr (), w)
      \<and> sv_get_folders svc (object p) w = (Inr (rows p), w)
      \<and> n < 2 ^ 31 \<and> sv_count svc (rows p) w = (Inr (of_nat n), w)
      \<and> list_all (\<lambda>i. sv_item svc (rows p) (i + 1) w = (Inr (object (kids p ! i)), w)) [0..<n]
      \<and> (case sv_path svc (object p) w of
           (Inr units, v) \<Rightarrow> utf16_text units = Inr (folder_str p) \<and> v = w
         | _ \<Rightarrow> False)
      \<and> folder_from_str (folder_str p) = Inr p)"

text \<open>A tree of at most \<open>n\<close> levels\<close>

fun serves_tree :: "nat \<Rightarrow> ('o, 'w) session \<Rightarrow> (folder_path \<Rightarrow> folder_path list) \<Rightarrow> (folder_path \<Rightarrow> 'o) \<Rightarrow>
     (folder_path \<Rightarrow> 'o) \<Rightarrow> 'w \<Rightarrow> folder_path \<Rightarrow> bool" where
  "serves_tree 0 S kids object rows w p = False"
| "serves_tree (Suc n) S kids object rows w p =
     (serves_folder S kids object rows w p \<and> list_all (serves_tree n S kids object rows w) (kids p))"

fun preorder :: "nat \<Rightarrow> ('a \<Rightarrow> 'a list) \<Rightarrow> 'a \<Rightarrow> 'a list" where
  "preorder 0 kids p = []"
| "preorder (Suc n) kids p = concat (map (\<lambda>c. c # preorder n kids c) (kids p))"

definition listed :: "folder_path \<Rightarrow> task_folder_info" where
  "listed p = \<lparr>fo_path = p, fo_security_descriptor = None\<rparr>"

section \<open>The listing\<close>

lemma indices_of_nat: "n < 2 ^ 31 \<Longrightarrow> indices (of_nat n) = map Suc [0..<n]"
proof -
  assume n: "n < 2 ^ 31"
  have "sint (of_nat n :: i32) = signed_take_bit 31 (int n)" by (simp add: signed_of_nat)
  also have "\<dots> = int n" using n by (intro signed_take_bit_int_eq_self) auto
  finally show ?thesis by (simp add: indices_def map_Suc_upt nat_add_distrib)
qed

lemma calls_answered:
  "and_then m f w = f x v" if "m w = (Inr x, v)" for m :: "('w, 'a) effect" and f :: "'a \<Rightarrow> ('w, 'b) effect"
  using that by (simp add: and_then_def)

lemma checked_answered: "m w = (Inr x, v) \<Longrightarrow> checked f m w = (Inr x, v)"
  by (simp add: checked_def)

lemma descend_answered: "m w = (Inr x, v) \<Longrightarrow> descend m f w = f x v"
  by (simp add: descend_def)

lemma proxy_answered:
  "sv_identity svc object w = (Inr (), w) \<Longrightarrow> sv_set_blanket svc object w = (Inr (), w) \<Longrightarrow>
    configure_proxy svc object policy w = (Inr (), w)"
  by (cases policy) (simp_all add: configure_proxy_def calls_answered checked_answered)

lemma served_open: "serves_folder S kids object rows w p \<Longrightarrow> open_folder S p w = (Inr (object p), w)"
  by (simp add: serves_folder_def Let_def open_folder_def native_for_def calls_answered checked_answered
      proxy_answered done_with_def)

lemma served_collection:
  "serves_folder S kids object rows w p \<Longrightarrow>
    folder_collection S p (object p) w = (Inr (rows p, map Suc [0..<length (kids p)]), w)"
  by (simp add: serves_folder_def Let_def folder_collection_def native_for_def calls_answered
      checked_answered proxy_answered done_with_def indices_of_nat)

lemma served_child:
  assumes served: "serves_folder S kids object rows w p"
    and "i < length (kids p)" and "serves_folder S kids object rows w (kids p ! i)"
  shows "folder_child S p (rows p) (Suc i) w = (Inr (kids p ! i), w)"
proof -
  have item: "sv_item (ss_service S) (rows p) (Suc i) w = (Inr (object (kids p ! i)), w)"
    using served assms(2) by (simp add: serves_folder_def Let_def list_all_iff)
  obtain units where path: "sv_path (ss_service S) (object (kids p ! i)) w = (Inr units, w)"
    "utf16_text units = Inr (folder_str (kids p ! i))"
    using assms(3) by (auto simp: serves_folder_def Let_def split: prod.splits sum.splits)
  have "bstr_string (sv_path (ss_service S) (object (kids p ! i))) ''read folder path'' w
    = (Inr (folder_str (kids p ! i)), w)"
    using path by (simp add: bstr_string_def calls_answered checked_answered bstr_to_string_def lift_result_def)
  moreover have "configure_proxy (ss_service S) (Some (object (kids p ! i))) (ss_policy S) w = (Inr (), w)"
    using assms(3) by (simp add: serves_folder_def Let_def proxy_answered)
  moreover have "parse_folder_path (folder_str (kids p ! i)) = Inr (kids p ! i)"
    using assms(3) by (simp add: serves_folder_def Let_def parse_folder_path_def)
  ultimately show ?thesis
    using item by (simp add: folder_child_def native_for_def calls_answered checked_answered lift_result_def)
qed

lemma each_child_answered:
  assumes "\<And>i. i \<in> set is \<Longrightarrow> item i w = (Inr (c i), w)"
    and "\<And>i acc. i \<in> set is \<Longrightarrow> step (c i) acc w = Some (Inr (acc @ f (c i)), w)"
  shows "each_child item step is acc w = Some (Inr (acc @ concat (map (\<lambda>i. f (c i)) is)), w)"
  using assms
proof (induction "is" arbitrary: acc)
  case (Cons i "is")
  then show ?case by (simp add: descend_answered descend_after_def)
qed (simp add: ended_def done_with_def)

lemma concat_map_nth: "concat (map (\<lambda>i. f (xs ! (i - 1))) (map Suc [0..<length xs])) = concat (map f xs)"
proof -
  have "map (\<lambda>i. f (xs ! (i - 1))) (map Suc [0..<length xs]) = map f xs" by (rule nth_equalityI) auto
  then show ?thesis by metis
qed

lemma list_folders_into_served:
  assumes "serves_tree n S kids object rows w p" and "n \<le> depth"
  shows "list_folders_into depth S p recursive found w =
    Some (Inr (found @ map listed (if recursive then preorder n kids p else kids p)), w)"
  using assms
proof (induction n arbitrary: depth p recursive found)
  case (Suc n)
  then obtain d where d: "depth = Suc d" "n \<le> d" by (cases depth) auto
  have served: "serves_folder S kids object rows w p" and below: "\<And>c. c \<in> set (kids p) \<Longrightarrow> serves_tree n S kids object rows w c"
    using Suc.prems(1) by (auto simp: list_all_iff)
  have child: "folder_child S p (rows p) i w = (Inr (kids p ! (i - 1)), w)"
    if i: "i \<in> set (map Suc [0..<length (kids p)])" for i
  proof -
    have "0 < i \<and> i - 1 < length (kids p)" using i by (simp only: set_map) (auto simp: image_def)
    then obtain k where k: "i = Suc k" "k < length (kids p)" by (cases i) auto
    have "serves_tree n S kids object rows w (kids p ! k)" using below k(2) by simp
    then have "serves_folder S kids object rows w (kids p ! k)" by (cases n) auto
    then show ?thesis using served_child[OF served k(2)] k by simp
  qed
  let ?step = "\<lambda>child found. let found = found @ [\<lparr>fo_path = child, fo_security_descriptor = None\<rparr>]
         in if recursive then list_folders_into d S child True found else ended (done_with found)"
  let ?f = "\<lambda>c. listed c # (if recursive then map listed (preorder n kids c) else [])"
  have step: "?step (kids p ! (i - 1)) acc w = Some (Inr (acc @ ?f (kids p ! (i - 1))), w)"
    if i: "i \<in> set (map Suc [0..<length (kids p)])" for i acc
  proof -
    have "kids p ! (i - 1) \<in> set (kids p)" using i by auto
    then show ?thesis using Suc.IH[OF below d(2), of _ True] by (simp add: ended_def done_with_def listed_def)
  qed
  have "each_child (folder_child S p (rows p)) ?step (map Suc [0..<length (kids p)]) found w
    = Some (Inr (found @ concat (map ?f (kids p))), w)"
    by (subst each_child_answered[where f = ?f and c = "\<lambda>i. kids p ! (i - 1)"])
      (rule child step, assumption | simp only: concat_map_nth[where f = ?f])+
  moreover have "concat (map ?f (kids p)) = map listed (if recursive then preorder (Suc n) kids p else kids p)"
    by (simp add: map_concat comp_def)
  ultimately show ?case
    using served_open[OF served] served_collection[OF served] by (simp add: d(1) descend_answered)
qed simp

text \<open>C35. On a service that shows a folder tree of at most \<open>n\<close> levels the listing returns for every depth
  from \<open>n\<close> on, without an error and without changing anything, and gives the folders below the start: all
  of them in preorder, each exactly where its parent's row puts it, or only the direct ones.\<close>

theorem list_folders_preorder:
  assumes "serves_tree n S kids object rows w p" and "n \<le> depth"
  shows "list_folders depth S p recursive w =
    Some (Inr (map listed (if recursive then preorder n kids p else kids p)), w)"
  using list_folders_into_served[OF assms] by (simp add: list_folders_def)

section \<open>A sample service\<close>

text \<open>A service that does nothing but refuse, and one over a map from paths to the paths of the subfolders
  whose handles are paths. Registering, switching and writing descriptors succeed.\<close>

definition refused :: "('w, 'a) native" where
  "refused w = (Inl (''not implemented'', 0x80004001), w)"

definition answers :: "'a \<Rightarrow> ('w, 'a) native" where
  "answers x w = (Inr x, w)"

definition ascii_units :: "string \<Rightarrow> u16 list" where
  "ascii_units s = map (\<lambda>c. of_nat (of_char c)) s"

definition tree_service :: "(string \<Rightarrow> string list) \<Rightarrow> (string, 'w) com_service" where
  "tree_service kids =
     \<lparr>sv_identity = (\<lambda>x. answers ()), sv_set_blanket = (\<lambda>x. answers ()), sv_connect = (\<lambda>a b c d. answers ()),
      sv_target_server = answers [], sv_connected_user = answers [], sv_connected_domain = answers [],
      sv_highest_version = answers 0x10006, sv_new_task = answers [], sv_set_xml_text = (\<lambda>x t. answers ()),
      sv_get_folder = answers, sv_get_running_tasks = (\<lambda>f. refused),
      sv_count = (\<lambda>x. answers (of_nat (length (kids x)))),
      sv_item = (\<lambda>x i. if 0 < i \<and> i \<le> length (kids x) then answers (kids x ! (i - 1)) else refused),
      sv_get_tasks = (\<lambda>x f. refused), sv_get_folders = answers, sv_get_task = (\<lambda>x n. answers n),
      sv_create_folder = (\<lambda>x n s. refused), sv_delete_folder = (\<lambda>x n. refused), sv_delete_task = (\<lambda>x n. refused),
      sv_register_task = (\<lambda>x n t f u p l s. answers n), sv_get_security = (\<lambda>x i. answers (ascii_units ''D:'')),
      sv_set_security = (\<lambda>x s f. answers ()), sv_path = (\<lambda>x. answers (ascii_units x)), sv_state = (\<lambda>x. refused),
      sv_enabled = (\<lambda>x. refused), sv_set_enabled = (\<lambda>x e. answers ()), sv_last_result = (\<lambda>x. refused),
      sv_missed_runs = (\<lambda>x. refused), sv_last_run_time = (\<lambda>x. refused), sv_next_run_time = (\<lambda>x. refused),
      sv_xml = (\<lambda>x. refused), sv_run = (\<lambda>x vs. answers x), sv_run_ex = (\<lambda>x vs f i s. answers x),
      sv_stop = (\<lambda>x. answers ()), sv_instance_guid = (\<lambda>x. answers (ascii_units ''7'')),
      sv_current_action = (\<lambda>x. refused), sv_engine_pid = (\<lambda>x. answers 9),
      sv_create_array = (\<lambda>n w. (True, w)), sv_put_element = (\<lambda>i t. answers ()), sv_system_time = (\<lambda>v. None),
      sv_parse_sddl = (\<lambda>t. Inr (ascii_units t)), sv_select_sections = (\<lambda>us i. Inr us),
      sv_account_size = (\<lambda>t n. (Inr (), 0, 0)), sv_account_sid = (\<lambda>t n. Inr []), sv_sid_text = Inr,
      sv_utf16_error = (''utf-16'', 0)\<rparr>"

definition tree_session :: "(string \<Rightarrow> string list) \<Rightarrow> (string, 'w) session" where
  "tree_session kids =
     \<lparr>ss_service = tree_service kids, ss_target = None, ss_policy = ExistingProcess, ss_xml = sample_env,
      ss_uuid_text = sample_uuid\<rparr>"

definition sample_kids :: "string \<Rightarrow> string list" where
  "sample_kids p =
     (if p = [bslash] then [bslash # ''A'', bslash # ''C''] else if p = bslash # ''A'' then [bslash # ''A'' @ bslash # ''B''] else [])"

lemma list_folders_preorder_witness:
  "list_folders 5 (tree_session sample_kids) (FolderPath [bslash]) True () =
    Some (Inr (map (listed \<circ> FolderPath) [bslash # ''A'', bslash # ''A'' @ bslash # ''B'', bslash # ''C'']), ())"
proof -
  have "serves_tree 3 (tree_session sample_kids) (map FolderPath \<circ> sample_kids \<circ> folder_str) folder_str folder_str ()
    (FolderPath [bslash])" by code_simp
  from list_folders_preorder[OF this, of 5 True] show ?thesis
    by (simp add: eval_nat_numeral sample_kids_def)
qed

end
