(* ===== verification/Session_Calls.thy ===== *)
theory Session_Calls
  imports Session_Listing
begin

text \<open>
  What the operations of the native session change: registration, security descriptors and runs, as the
  mutating calls they make on a traced service.
\<close>

section \<open>Which object a call acts on\<close>

text \<open>The objects that the service gives out for the path of a folder and of a task\<close>

definition opened_folder :: "('o, 'w) com_service \<Rightarrow> folder_path \<Rightarrow> 'o \<Rightarrow> bool" where
  "opened_folder svc path object \<longleftrightarrow> (\<exists>w w'. sv_get_folder svc (folder_str path) w = (Inr object, w'))"

definition opened_task :: "('o, 'w) com_service \<Rightarrow> task_path \<Rightarrow> 'o \<Rightarrow> bool" where
  "opened_task svc path object \<longleftrightarrow>
     (\<exists>folder w w'. opened_folder svc (task_folder path) folder \<and> sv_get_task svc folder (task_name path) w = (Inr object, w'))"

lemma native_beside_ok:
  "native_for operation target (beside m) s = (Inr x, s') \<longleftrightarrow> m (fst s) = (Inr x, fst s') \<and> snd s' = snd s"
  "native_op S operation (beside m) s = (Inr x, s') \<longleftrightarrow> m (fst s) = (Inr x, fst s') \<and> snd s' = snd s"
  by (cases s; cases s'; auto simp: native_for_def native_op_def checked_def beside_def Let_def split: prod.splits sum.splits)+

lemma and_then_Inr: "and_then m f w = (Inr y, w') \<longleftrightarrow> (\<exists>x u. m w = (Inr x, u) \<and> f x u = (Inr y, w'))"
  by (auto simp: and_then_def split: prod.splits sum.splits)

lemma open_folder_opened:
  "open_folder (traced_session S) path s = (Inr folder, s') \<Longrightarrow> opened_folder (ss_service S) path folder"
  by (auto simp: open_folder_def opened_folder_def native_beside_ok and_then_Inr done_with_def)

lemma open_task_opened:
  "open_task (traced_session S) path s = (Inr task, s') \<Longrightarrow> opened_task (ss_service S) path task"
  by (auto simp: open_task_def opened_task_def native_beside_ok and_then_Inr done_with_def dest!: open_folder_opened)

section \<open>What registration does\<close>

definition marked_committed :: "error \<Rightarrow> bool" where
  "marked_committed e \<longleftrightarrow> btree_get (e_context e) ''mutation'' = Some ''registration_committed''"

lemma marked_committed_stage [simp]: "marked_committed (committed stage e)"
  by (simp add: marked_committed_def committed_def with_context_def btree_get_insert)

lemma native_error_unmarked [simp]: "\<not> marked_committed (native_error operation target e)"
  by (simp add: marked_committed_def btree_get_def)

text \<open>The one call a registration may make, and when it may.\<close>

definition registration_call :: "'o \<Rightarrow> task_path \<Rightarrow> string \<Rightarrow> task_definition \<Rightarrow> logon_type \<Rightarrow> registration_options
     \<Rightarrow> ('o, 'h) mutation" where
  "registration_call folder path text d logon opts =
     Registered_Task folder (task_name path) (without_declaration text) (registration_flags opts)
       (native_user (pr_identity (td_principal d))) (map_option password_units (ro_password opts))
       (native_logon_type logon) (map_option as_sddl (ri_security_descriptor (td_registration d)))"

definition may_register :: "('o, 'w) session \<Rightarrow> raw_task_xml \<Rightarrow> logon_type \<Rightarrow> registration_options
     \<Rightarrow> task_definition \<Rightarrow> string \<Rightarrow> bool" where
  "may_register S xml logon opts d text \<longleftrightarrow>
     raw_definition (ss_xml S) xml = Inr d \<and> report_is_valid (validate_definition d)
     \<and> \<not> password_needed logon opts \<and> raw_decoded xml = Inr text"

definition registration_outcome :: "('o, 'w) session \<Rightarrow> task_path \<Rightarrow> raw_task_xml \<Rightarrow> logon_type \<Rightarrow> registration_options
     \<Rightarrow> 'a result \<Rightarrow> (('o, 'h) mutation \<times> bool) list \<Rightarrow> bool" where
  "registration_outcome S path xml logon opts r calls \<longleftrightarrow>
     (case calls of
        [] \<Rightarrow> \<not> is_ok r
      | [(call, ok)] \<Rightarrow>
          (\<exists>folder d text. call = registration_call folder path text d logon opts \<and> may_register S xml logon opts d text)
          \<and> (case r of Inr _ \<Rightarrow> ok | Inl e \<Rightarrow> marked_committed e = ok)
      | _ \<Rightarrow> False)"

lemma and_then_lift [simp]:
  "and_then (lift_result (Inr x)) f = f x" "and_then (lift_result (Inl e)) f = fail_with e"
  by (simp_all add: and_then_def lift_result_def fail_with_def)

lemma and_then_cases:
  assumes "and_then m f w = (r, v)"
  obtains e where "m w = (Inl e, v)" "r = Inl e" | x u where "m w = (Inr x, u)" "f x u = (r, v)"
  using assms by (auto simp: and_then_def split: prod.splits sum.splits)

lemma with_stage_cases:
  assumes "with_stage stage m w = (r, v)"
  obtains x where "m w = (Inr x, v)" "r = Inr x" | e where "m w = (Inl e, v)" "r = Inl (committed stage e)"
  using assms by (auto simp: with_stage_def Let_def split: prod.splits) (metis map_err.elims)

lemma register_raw_commit_outcome:
  assumes "register_raw_commit (traced_session S) path xml logon opts (w, log) = (r, w', log')"
  shows "\<exists>calls. log' = log @ calls \<and> registration_outcome S path xml logon opts r calls"
proof -
  have none: "\<exists>calls. log' = log @ calls \<and> registration_outcome S path xml logon opts r calls"
    if "log' = log" "r = Inl e" for e
    using that by (intro exI[of _ "[]"]) (simp add: registration_outcome_def)
  show ?thesis
  proof (cases "raw_definition (ss_xml S) xml")
    case (Inl e)
    then show ?thesis using assms none by (auto simp: register_raw_commit_def fail_with_def)
  next
    case (Inr d)
    show ?thesis
    proof (cases "report_is_valid (validate_definition d) \<and> \<not> password_needed logon opts")
      case False
      then show ?thesis using assms none Inr
        by (auto simp: register_raw_commit_def fail_with_def split: if_splits)
    next
      case True
      let ?rest = "\<lambda>folder. and_then (lift_result (raw_decoded xml)) (\<lambda>text.
         and_then (native_for ''register task'' (task_str path)
           (sv_register_task (traced_service (ss_service S)) folder (task_name path) (without_declaration text)
             (registration_flags opts) (native_user (pr_identity (td_principal d)))
             (map_option password_units (ro_password opts)) (native_logon_type logon)
             (map_option as_sddl (ri_security_descriptor (td_registration d)))))
           (\<lambda>registered. with_stage ''configure_returned_proxy'' (proxied (traced_session S) registered)))"
      have run: "and_then (open_folder (traced_session S) (task_folder path)) ?rest (w, log) = (r, w', log')"
        using assms True Inr by (simp add: register_raw_commit_def)
      from run show ?thesis
      proof (cases rule: and_then_cases)
        case (1 e)
        have "snd (w', log') = snd (w, log)" by (rule quietD[OF quiet_open_folder 1(1)])
        then show ?thesis using none 1 by simp
      next
        case (2 folder u)
        then obtain v where u: "u = (v, log)"
          using quietD[OF quiet_open_folder 2(1)] by (cases u) auto
        show ?thesis
        proof (cases "raw_decoded xml")
          case (Inl e)
          then show ?thesis using 2 u none by (auto simp: fail_with_def)
        next
          case decoded: (Inr source)
          let ?call = "registration_call folder path source d logon opts"
          have may: "may_register S xml logon opts d source" using True Inr decoded by (simp add: may_register_def)
          have one: "registration_outcome S path xml logon opts r [(?call, ok)]"
            if "case r of Inr _ \<Rightarrow> ok | Inl e \<Rightarrow> marked_committed e = ok" for ok
            using that may by (auto simp: registration_outcome_def)
          obtain q v' where q: "sv_register_task (ss_service S) folder (task_name path) (without_declaration source)
             (registration_flags opts) (native_user (pr_identity (td_principal d)))
             (map_option password_units (ro_password opts)) (native_logon_type logon)
             (map_option as_sddl (ri_security_descriptor (td_registration d))) v = (q, v')" by fastforce
          then have registered: "sv_register_task (traced_service (ss_service S)) folder (task_name path)
             (without_declaration source) (registration_flags opts) (native_user (pr_identity (td_principal d)))
             (map_option password_units (ro_password opts)) (native_logon_type logon)
             (map_option as_sddl (ri_security_descriptor (td_registration d))) (v, log) = (q, v', log @ [(?call, is_ok q)])"
            by (simp add: traced_service_def mutating_def registration_call_def)
          show ?thesis
          proof (cases q)
            case (Inl e)
            then have "r = Inl (native_error ''register task'' (Some (task_str path)) e)" "log' = log @ [(?call, False)]"
              using 2(2) u decoded registered by (auto simp: and_then_def lift_result_def native_for_def checked_def fail_with_def)
            then show ?thesis using one[of False] by auto
          next
            case (Inr registered_object)
            have "with_stage ''configure_returned_proxy'' (proxied (traced_session S) registered_object)
                (v', log @ [(?call, True)]) = (r, w', log')"
              using 2(2) u decoded registered Inr by (simp add: and_then_def lift_result_def native_for_def checked_def)
            then show ?thesis
            proof (cases rule: with_stage_cases)
              case (1 x)
              have "snd (w', log') = snd (v', log @ [(?call, True)])" by (rule quietD[OF quiet_proxied 1(1)])
              then show ?thesis using one[of True] 1(2) by auto
            next
              case (2 e)
              have "snd (w', log') = snd (v', log @ [(?call, True)])" by (rule quietD[OF quiet_proxied 2(1)])
              then show ?thesis using one[of True] 2(2) by auto
            qed
          qed
        qed
      qed
    qed
  qed
qed


lemma registration_outcome_after:
  assumes "registration_outcome S path xml logon opts q calls"
    and "case q of Inl e \<Rightarrow> r = Inl e | Inr x \<Rightarrow> (\<forall>e. r = Inl e \<longrightarrow> marked_committed e)"
  shows "registration_outcome S path xml logon opts r calls"
proof (cases calls)
  case Nil
  then show ?thesis using assms by (cases q) (simp_all add: registration_outcome_def)
next
  case (Cons c rest)
  then show ?thesis using assms
    by (cases q; cases rest; cases r; cases c) (auto simp: registration_outcome_def)
qed

lemma quiet_with_stage: "quiet view m \<Longrightarrow> quiet view (with_stage stage m)"
  by (auto simp: quiet_def with_stage_def Let_def split: prod.splits) (metis snd_conv)


definition small_xml :: raw_task_xml where
  "small_xml = \<lparr>raw_bytes = ''<Task><Actions><Exec><Command>x</Command></Exec></Actions></Task>'', raw_encoding = Utf8\<rparr>"

definition small_run :: "registered_task result \<times> unit \<times> ((string, unit) mutation \<times> bool) list" where
  "small_run = register_raw (traced_session (tree_session sample_kids)) (TaskPath (bslash # ''A'' @ bslash # ''T''))
     small_xml InteractiveToken registration_options_default ((), [])"

text \<open>The sample service registers the task and then cannot give it back.\<close>

lemma small_run_result:
  "case small_run of
     (Inl e, _, calls) \<Rightarrow> marked_committed e
       \<and> calls = [(Registered_Task (bslash # ''A'') ''T'' (raw_bytes small_xml) 38 None None 3 None, True)]
   | _ \<Rightarrow> False"
  by code_simp


section \<open>When a security descriptor is written\<close>

lemma canonical_traced [simp]: "canonical_sddl (traced_service v) d scope = canonical_sddl v d scope"
  by (simp add: canonical_sddl_def traced_service_def)

text \<open>What a write of \<open>desired\<close> does, given how the current descriptor reads and what opening the object gives:
  nothing when the current descriptor already grants the same, an error when it cannot be read for another reason
  than a refusal, and otherwise one call on the opened object with the canonical form.\<close>

definition security_outcome :: "('o, 'w) session \<Rightarrow> security_descriptor \<Rightarrow> security_information \<Rightarrow> i32 \<Rightarrow> ('o \<Rightarrow> bool)
     \<Rightarrow> security_descriptor result \<Rightarrow> 'o result \<Rightarrow> unit result \<Rightarrow> (('o, 'h) mutation \<times> bool) list \<Rightarrow> bool" where
  "security_outcome S desired scope flags chosen current found r calls \<longleftrightarrow>
     (case (canonical_sddl (ss_service S) desired scope, current, found) of
        (Inl e, _, _) \<Rightarrow> r = Inl e \<and> calls = []
      | (Inr d, Inr c, found) \<Rightarrow>
          if access_equivalent c d then r = Inr () \<and> calls = []
          else (case found of
              Inl e \<Rightarrow> r = Inl e \<and> calls = []
            | Inr object \<Rightarrow> chosen object \<and> calls = [(Wrote_Security object (as_sddl d) flags, is_ok r)])
      | (Inr d, Inl e, found) \<Rightarrow>
          if e_kind e \<noteq> AccessDenied then r = Inl e \<and> calls = []
          else (case found of
              Inl e \<Rightarrow> r = Inl e \<and> calls = []
            | Inr object \<Rightarrow> chosen object \<and> calls = [(Wrote_Security object (as_sddl d) flags, is_ok r)]))"

lemma write_security_outcome:
  fixes found :: "(('o, 'h, 'w) traced, 'o) effect"
  assumes "quiet snd read"
    and writes: "\<And>d u r u'. write d u = (r, u') \<Longrightarrow> (case fst (found u) of
        Inl e \<Rightarrow> r = Inl e \<and> snd u' = snd u
      | Inr object \<Rightarrow> chosen object \<and> snd u' = snd u @ [(Wrote_Security object (as_sddl d) flags, is_ok r)])"
  shows "case write_security (traced_session S) desired scope read write (w, log) of (r, w', log') \<Rightarrow>
    (case current_sddl (traced_session S) scope read (w, log) of (current, u) \<Rightarrow>
      \<exists>calls. log' = log @ calls \<and> security_outcome S desired scope flags chosen current (fst (found u)) r calls)"
proof -
  have "quiet snd (current_sddl (traced_session S) scope read)"
    unfolding current_sddl_def by (intro quiet_and_then assms(1) quiet_reading)
  from quietD[OF this, of "(w, log)"] obtain current v
    where current: "current_sddl (traced_session S) scope read (w, log) = (current, v, log)"
    by (cases "current_sddl (traced_session S) scope read (w, log)") auto
  show ?thesis
  proof (cases "canonical_sddl (ss_service S) desired scope")
    case (Inl e)
    then show ?thesis using current by (simp add: write_security_def fail_with_def security_outcome_def)
  next
    case (Inr d)
    obtain r v' l' where wr: "write d (v, log) = (r, v', l')" by (metis prod.collapse)
    show ?thesis using Inr current wr writes[OF wr]
      by (cases "fst (found (v, log))"; cases current)
        (auto simp: write_security_def security_write_required_def fail_with_def done_with_def security_outcome_def)
  qed
qed

lemma one_write:
  assumes "quiet snd m" and "\<And>x. f x = native_for operation target (mutating (c x) (g x))"
    and "and_then m f s = (r, s')"
  shows "case fst (m s) of Inl e \<Rightarrow> r = Inl e \<and> snd s' = snd s | Inr x \<Rightarrow> snd s' = snd s @ [(c x, is_ok r)]"
  using assms(3)
proof (cases rule: and_then_cases)
  case (1 e)
  then show ?thesis using quietD[OF assms(1) 1(1)] by simp
next
  case (2 x u)
  have "snd u = snd s" by (rule quietD[OF assms(1) 2(1)])
  moreover have "snd s' = snd u @ [(c x, is_ok r)]"
    using 2(2) unfolding assms(2)
    by (cases u) (auto simp: native_for_def checked_def mutating_def Let_def split: prod.splits sum.splits)
  ultimately show ?thesis using 2(1) by simp
qed

lemma one_security_write:
  assumes "quiet snd m" and "\<And>x u. m s = (Inr x, u) \<Longrightarrow> chosen x"
    and "and_then m (\<lambda>x. native_for operation target (sv_set_security (traced_service v) x t f)) s = (r, s')"
  shows "case fst (m s) of
      Inl e \<Rightarrow> r = Inl e \<and> snd s' = snd s
    | Inr x \<Rightarrow> chosen x \<and> snd s' = snd s @ [(Wrote_Security x t f, is_ok r)]"
proof -
  have call: "native_for operation target (sv_set_security (traced_service v) x t f)
      = native_for operation target (mutating (Wrote_Security x t f) (sv_set_security v x t f))" for x
    by (simp add: traced_service_def)
  from one_write[OF assms(1) call assms(3)] show ?thesis
    using assms(2) by (cases "m s"; cases "fst (m s)") auto
qed

text \<open>C32. Security descriptors of tasks and folders are written exactly when needed, and on the named object:
  no call is made, and the operation succeeds, when the current descriptor, brought to canonical form, already
  grants the same access; one call with the canonical form of the desired descriptor is made, on the object that
  opening the path then gives, when it grants other access or may not be read (access denied), and the result
  tells whether that call succeeded; any other failure (a descriptor that has no canonical form, another error of
  the read, a failure to open) is returned as it is, without a call.\<close>

theorem security_written_when_needed:
  "(case set_task_security (traced_session S) path desired scope (w, log) of (r, w', log') \<Rightarrow>
     (case current_sddl (traced_session S) scope (task_security (traced_session S) path scope) (w, log) of (current, u) \<Rightarrow>
       \<exists>calls. log' = log @ calls \<and> security_outcome S desired scope TASK_DONT_ADD_PRINCIPAL_ACE
         (opened_task (ss_service S) path) current (fst (open_task (traced_session S) path u)) r calls))
   \<and> (case set_folder_security (traced_session S) folder desired scope (w, log) of (r, w', log') \<Rightarrow>
     (case current_sddl (traced_session S) scope (folder_security (traced_session S) folder scope) (w, log) of (current, u) \<Rightarrow>
       \<exists>calls. log' = log @ calls \<and> security_outcome S desired scope 0
         (opened_folder (ss_service S) folder) current (fst (open_folder (traced_session S) folder u)) r calls))"
  unfolding set_task_security_def set_folder_security_def traced_fields
  by (intro conjI write_security_outcome quiet_task_security quiet_folder_security;
      rule one_security_write, rule quiet_open_task quiet_open_folder, erule open_task_opened open_folder_opened)

section \<open>What a run calls\<close>

lemma quiet_put_elements: "quiet snd (put_elements (traced_service v) i vs)"
proof (induction vs arbitrary: i)
  case (Cons x vs)
  then show ?case by (auto simp: traced_service_def intro!: quiet_and_then quiet_reading)
qed (simp add: quiet_reading)

lemma quiet_created_array [quiet_reading]: "quiet snd (\<lambda>w. case sv_create_array (traced_service v) n w of
    (False, w) \<Rightarrow> (Inl e, w) | (True, w) \<Rightarrow> put_elements (traced_service v) 0 vs w)"
  using quiet_put_elements[of v 0 vs]
  by (auto simp: quiet_def traced_service_def Let_def split: prod.splits bool.splits)

lemma quiet_string_array [quiet_reading]: "quiet snd (string_array (traced_service v) vs)"
  by (simp add: string_array_def quiet_reading)

definition run_call :: "'o \<Rightarrow> run_options \<Rightarrow> i32 \<Rightarrow> ('o, 'h) mutation" where
  "run_call task opts session =
     (if extended_run opts then
        Ran_Ex task (rn_parameters opts) (run_ex_flags opts) session
          (case rn_user_sid opts of Some sid \<Rightarrow> sid | None \<Rightarrow> [])
      else Ran task (rn_parameters opts))"

text \<open>What a run asks the service, without the program's own functions: the extended call when any extended option
  is set, its flags as the sum of \<open>TASK_RUN_AS_SELF\<close> (1), \<open>TASK_RUN_IGNORE_CONSTRAINTS\<close> (2),
  \<open>TASK_RUN_USE_SESSION_ID\<close> (4) and \<open>TASK_RUN_USER_SID\<close> (8).\<close>

definition run_requested :: "run_options \<Rightarrow> 'o \<Rightarrow> ('o, 'h) mutation \<Rightarrow> bool" where
  "run_requested opts task call \<longleftrightarrow>
     (case call of
        Ran object vs \<Rightarrow> object = task \<and> vs = rn_parameters opts
          \<and> rn_session_id opts = None \<and> rn_user_sid opts = None \<and> \<not> rn_ignore_constraints opts \<and> \<not> rn_as_self opts
      | Ran_Ex object vs flags session sid \<Rightarrow> object = task \<and> vs = rn_parameters opts
          \<and> (rn_session_id opts \<noteq> None \<or> rn_user_sid opts \<noteq> None \<or> rn_ignore_constraints opts \<or> rn_as_self opts)
          \<and> flags = (if rn_as_self opts then 1 else 0) + (if rn_ignore_constraints opts then 2 else 0)
              + (if rn_session_id opts \<noteq> None then 4 else 0) + (if rn_user_sid opts \<noteq> None then 8 else 0)
          \<and> (case rn_session_id opts of None \<Rightarrow> session = 0 | Some i \<Rightarrow> sint session = uint i)
          \<and> (case rn_user_sid opts of None \<Rightarrow> sid = [] | Some text \<Rightarrow> sid = text)
      | _ \<Rightarrow> False)"

lemma run_ex_flags_sum:
  "run_ex_flags opts = (if rn_as_self opts then 1 else 0) + (if rn_ignore_constraints opts then 2 else 0)
     + (if rn_session_id opts \<noteq> None then 4 else 0) + (if rn_user_sid opts \<noteq> None then 8 else 0)"
  by (simp add: run_ex_flags_def Let_def TASK_RUN_AS_SELF_def TASK_RUN_IGNORE_CONSTRAINTS_def
      TASK_RUN_USE_SESSION_ID_def TASK_RUN_USER_SID_def)

lemma session_bound: "unat (i :: u32) < 2 ^ 31 \<longleftrightarrow> uint i < 2 ^ 31"
proof -
  have "uint i < 2 ^ 31 \<longleftrightarrow> int (unat i) < int (2 ^ 31)" by simp
  then show ?thesis by (simp only: of_nat_less_iff)
qed

lemma small_session:
  assumes "unat (i :: u32) < 2147483648"
  shows "sint i = uint i"
proof -
  have "uint i < 2 ^ 31" using assms session_bound[of i] by simp
  then have "signed_take_bit 31 (uint i) = uint i"
    using uint_ge_0[of i] by (intro signed_take_bit_int_eq_self) linarith+
  then show ?thesis by (simp add: sint_uint)
qed

lemma run_call_requested:
  "session_argument (rn_session_id opts) = Inr session \<Longrightarrow> run_requested opts task (run_call task opts session)"
  by (auto simp: run_requested_def run_call_def extended_run_def session_argument_def run_ex_flags_sum small_session
      split: option.splits if_splits)

definition run_outcome_calls :: "('o, 'w) session \<Rightarrow> task_path \<Rightarrow> run_options \<Rightarrow> 'o result \<Rightarrow> unit result
     \<Rightarrow> 'a result \<Rightarrow> (('o, 'h) mutation \<times> bool) list \<Rightarrow> bool" where
  "run_outcome_calls S path opts found arguments r calls \<longleftrightarrow>
     (if length (rn_parameters opts) > 32 then \<not> is_ok r \<and> calls = []
      else case (found, arguments) of
          (Inl e, _) \<Rightarrow> r = Inl e \<and> calls = []
        | (_, Inl e) \<Rightarrow> r = Inl e \<and> calls = []
        | (Inr task, Inr _) \<Rightarrow>
            if \<exists>i. rn_session_id opts = Some i \<and> uint i \<ge> 2 ^ 31 then \<not> is_ok r \<and> calls = []
            else opened_task (ss_service S) path task
              \<and> (\<exists>call ok. calls = [(call, ok)] \<and> run_requested opts task call \<and> (is_ok r \<longrightarrow> ok)))"

definition start_run :: "('o, 'w) session \<Rightarrow> task_path \<Rightarrow> run_options \<Rightarrow> 'o \<Rightarrow> ('w, 'o) effect" where
  "start_run S path opts task =
     (if extended_run opts then
        and_then (lift_result (session_argument (rn_session_id opts))) (\<lambda>session.
          native_for ''run task'' (task_str path) (sv_run_ex (ss_service S) task (rn_parameters opts) (run_ex_flags opts)
            session (case rn_user_sid opts of Some sid \<Rightarrow> sid | None \<Rightarrow> [])))
      else native_for ''run task'' (task_str path) (sv_run (ss_service S) task (rn_parameters opts)))"

definition report_run :: "('o, 'w) session \<Rightarrow> task_path \<Rightarrow> 'o \<Rightarrow> ('w, run_handle) effect" where
  "report_run S path running =
     and_then (proxied S running) (\<lambda>_.
     and_then (running_instance_id S running) (\<lambda>instance_id w.
       let (pid, w) = sv_engine_pid (ss_service S) running w
       in (Inr \<lparr>rh_instance_id = instance_id, rh_path = path,
             rh_engine_process_id = (case pid of Inr p \<Rightarrow> if p = 0 then None else Some p | Inl _ \<Rightarrow> None)\<rparr>, w)))"

lemma run_task_parts:
  "length (rn_parameters opts) \<le> MAX_RUN_ARGUMENTS \<Longrightarrow>
    run_task S path opts = and_then (open_task S path) (\<lambda>task. and_then (string_array (ss_service S) (rn_parameters opts))
      (\<lambda>_. and_then (start_run S path opts task) (report_run S path)))"
  by (simp add: run_task_def start_run_def report_run_def[abs_def] Let_def)

lemma quiet_report_run: "quiet snd (report_run (traced_session S) path running)"
proof -
  have "quiet snd (\<lambda>w. let (pid, w) = sv_engine_pid (traced_service (ss_service S)) running w in (Inr (f pid), w))" for f
    by (auto simp: quiet_def beside_def Let_def split: prod.splits)
  then show ?thesis unfolding report_run_def running_instance_id_def
    by (auto intro!: quiet_and_then quiet_reading)
qed

lemma session_in_range:
  "session_argument (rn_session_id opts) = Inr session \<Longrightarrow> \<not> (\<exists>i. rn_session_id opts = Some i \<and> uint i \<ge> 2 ^ 31)"
  "session_argument (rn_session_id opts) = Inl e \<Longrightarrow> \<exists>i. rn_session_id opts = Some i \<and> uint i \<ge> 2 ^ 31"
  unfolding session_argument_def session_bound by (auto split: option.splits if_splits)

lemma start_run_exact:
  assumes "start_run (traced_session S) path opts task (w, log) = (r, w', log')"
  shows "case session_argument (rn_session_id opts) of
      Inl e \<Rightarrow> log' = log \<and> \<not> is_ok r
    | Inr session \<Rightarrow> log' = log @ [(run_call task opts session, is_ok r)]"
proof (cases "session_argument (rn_session_id opts)")
  case (Inl e)
  then have "extended_run opts" by (auto simp: extended_run_def session_argument_def split: option.splits)
  with Inl show ?thesis using assms by (auto simp: start_run_def fail_with_def)
next
  case (Inr session)
  then show ?thesis using assms
    by (cases r) (auto simp: start_run_def native_for_def checked_def traced_service_def mutating_def run_call_def
        Let_def session_argument_def extended_run_def split: prod.splits sum.splits if_splits)
qed

lemma start_run_calls:
  assumes "start_run (traced_session S) path opts task (w, log) = (r, w', log')"
  obtains "log' = log" "\<not> is_ok r"
  | session where "session_argument (rn_session_id opts) = Inr session" "log' = log @ [(run_call task opts session, is_ok r)]"
  using start_run_exact[OF assms] that by (auto split: sum.splits)

lemma started_run_outcome:
  assumes "and_then (start_run (traced_session S) path opts task) (report_run (traced_session S) path) (w, log) = (r, w', log')"
    and "opened_task (ss_service S) path task" and "length (rn_parameters opts) \<le> 32"
  shows "\<exists>calls. log' = log @ calls \<and> run_outcome_calls S path opts (Inr task) (Inr ()) r calls"
proof -
  obtain q x where start: "start_run (traced_session S) path opts task (w, log) = (q, fst x, snd x)"
    and kept: "snd x = log'" "is_ok r \<longrightarrow> is_ok q"
    using assms(1)
  proof (cases rule: and_then_cases)
    case (1 e)
    then show thesis using that[of "Inl e" "(w', log')"] by simp
  next
    case (2 running x)
    have "snd x = log'" using quietD[OF quiet_report_run 2(2)] by simp
    with 2(1) show thesis by (cases x) (intro that[of "Inr running" x], simp_all)
  qed
  show ?thesis
  proof (cases "session_argument (rn_session_id opts)")
    case (Inl e)
    then show ?thesis using start_run_exact[OF start] kept assms(3) session_in_range(2)[OF Inl]
      by (auto simp: run_outcome_calls_def)
  next
    case (Inr session)
    then show ?thesis
      using start_run_exact[OF start] kept assms(2,3) session_in_range(1)[OF Inr] run_call_requested[OF Inr, of task]
      by (auto simp: run_outcome_calls_def)
  qed
qed

text \<open>C33. A run makes exactly the call that was asked for. With at most 32 arguments, once the task of the path
  is open and the arguments are stored, one call is made on that task, unless the session number leaves the signed
  range: the extended call when any of session, account, ignored constraints and own identity was asked for, with
  exactly the documented flags of those that were, the session number and the account, and the plain call
  otherwise. In every other case no call is made and the run fails. A run that reports an instance made its call,
  and the call succeeded.\<close>

theorem run_makes_one_call:
  "case run_task (traced_session S) path opts (w, log) of (r, w', log') \<Rightarrow>
   (case open_task (traced_session S) path (w, log) of (found, u) \<Rightarrow>
     \<exists>calls. log' = log @ calls
       \<and> run_outcome_calls S path opts found (fst (string_array (traced_service (ss_service S)) (rn_parameters opts) u)) r calls)"
proof (cases "length (rn_parameters opts) \<le> 32")
  case False
  then show ?thesis by (auto simp: run_task_def fail_with_def run_outcome_calls_def Let_def MAX_RUN_ARGUMENTS_def split: prod.split)
next
  case True
  then have few: "length (rn_parameters opts) \<le> MAX_RUN_ARGUMENTS" by (simp add: MAX_RUN_ARGUMENTS_def)
  let ?array = "string_array (traced_service (ss_service S)) (rn_parameters opts)"
  obtain r w' log' where run: "run_task (traced_session S) path opts (w, log) = (r, w', log')" by (metis prod.collapse)
  then have parts: "and_then (open_task (traced_session S) path) (\<lambda>task. and_then ?array
      (\<lambda>_. and_then (start_run (traced_session S) path opts task) (report_run (traced_session S) path))) (w, log) = (r, w', log')"
    by (simp add: run_task_parts[OF few])
  obtain found u where opened: "open_task (traced_session S) path (w, log) = (found, u)" by (metis prod.collapse)
  have u: "snd u = log" using quietD[OF quiet_open_task opened] by simp
  obtain arguments v where stored: "?array u = (arguments, v)" by (metis prod.collapse)
  obtain v1 where v: "v = (v1, log)" using quietD[OF quiet_string_array stored] u by (cases v) auto
  have "\<exists>calls. log' = log @ calls \<and> run_outcome_calls S path opts found arguments r calls"
  proof (cases "\<exists>task. found = Inr task \<and> arguments = Inr ()")
    case False
    then show ?thesis using parts opened stored u v True
      by (cases found; cases arguments) (auto simp: and_then_def run_outcome_calls_def)
  next
    case ready: True
    then obtain task where task: "found = Inr task" "arguments = Inr ()" by blast
    have chosen: "opened_task (ss_service S) path task" by (rule open_task_opened[OF opened[unfolded task]])
    have "and_then (open_task (traced_session S) path) f (w, log) = f task u" for f :: "_ \<Rightarrow> (_, run_handle) effect"
      using opened task by (simp add: and_then_def)
    moreover have "and_then ?array f u = f () (v1, log)" for f :: "_ \<Rightarrow> (_, run_handle) effect"
      using stored task v by (simp add: and_then_def)
    ultimately have
      "and_then (start_run (traced_session S) path opts task) (report_run (traced_session S) path) (v1, log) = (r, w', log')"
      using parts by simp
    then show ?thesis unfolding task by (rule started_run_outcome[OF _ chosen True])
  qed
  then show ?thesis using run opened stored by simp
qed

section \<open>Reading through the production backend\<close>

lemma quiet_kept: "quiet snd m \<Longrightarrow> snd (snd (m (w, log))) = log"
  by (simp add: quiet_def)

text \<open>C34. Looking is free of effects all the way down: inspecting a manifest and observing the target of a
  change through the production backend make no mutating call of the service, whatever they return.\<close>

theorem native_reads_only:
  "snd (snd (inspect_backend ut (native_backend depth (traced_session S)) m (w, log))) = log
   \<and> snd (snd (observe (native_backend depth (traced_session S)) m c allow (w, log))) = log"
  by (intro conjI quiet_kept native.quiet_inspect native.quiet_observe)

end
