(* ===== verification/Credentials.thy ===== *)
theory Credentials
  imports Session
begin

text \<open>
  Passwords and credentials (\<open>credentials.rs\<close>): UTF-16 passwords and the entries of the Windows Credential
  Manager. \<open>CredReadW\<close> is a native call that gives what its structure points to; wiping the buffers changes
  nothing that can be observed here.
\<close>

definition password_new :: "string \<Rightarrow> password" where
  "password_new v = Utf16Password (encode_utf16 v)"

record credential =
  cd_username :: string
  cd_password :: password

definition credential_new :: "string \<Rightarrow> password \<Rightarrow> credential" where
  "credential_new username pw = \<lparr>cd_username = username, cd_password = pw\<rparr>"

text \<open>\<open>CREDENTIALW\<close>: the units before the terminator of \<open>UserName\<close>, the size of the blob and the blob; null
  pointers are \<open>None\<close>.\<close>

record native_credential =
  nc_user_name :: "u16 list option"
  nc_blob_size :: nat
  nc_blob :: "string option"

definition credential_error :: "string \<Rightarrow> windows_error \<Rightarrow> error" where
  "credential_error target e =
     with_native_code (snd e) (with_target target (with_operation ''read Windows Credential Manager''
       (new_error (if snd e = 0x80070490 then NotFound else Authentication) [Dsp (fst e)])))"

definition authentication_error :: "string \<Rightarrow> message \<Rightarrow> error" where
  "authentication_error target msg = with_target target (new_error Authentication msg)"

text \<open>\<open>while units.last() == Some(&0) { units.pop(); }\<close>\<close>

definition trim_zeros :: "u16 list \<Rightarrow> u16 list" where
  "trim_zeros units = rev (dropWhile (\<lambda>u. u = 0) (rev units))"

definition user_name :: "string \<Rightarrow> native_credential \<Rightarrow> string result" where
  "user_name target c =
     (case nc_user_name c of
        None \<Rightarrow> Inr []
      | Some units \<Rightarrow>
          map_err (\<lambda>e. authentication_error target [Lit ''Credential Manager username is invalid UTF-16: '', Dsp e])
            (utf16_text units))"

definition secret_bytes :: "string \<Rightarrow> native_credential \<Rightarrow> string result" where
  "secret_bytes target c =
     (if odd (nc_blob_size c) then
        Inl (authentication_error target [Lit ''Credential Manager secret is not UTF-16LE''])
      else if nc_blob_size c \<noteq> 0 \<and> nc_blob c = None then
        Inl (authentication_error target [Lit ''Credential Manager returned a null secret blob''])
      else Inr (case nc_blob c of Some blob \<Rightarrow> take (nc_blob_size c) blob | None \<Rightarrow> []))"

definition credential_of :: "string \<Rightarrow> native_credential \<Rightarrow> credential result" where
  "credential_of target c =
     bind_ok (user_name target c) (\<lambda>username.
     bind_ok (secret_bytes target c) (\<lambda>bytes.
     bind_ok (map_err (\<lambda>e. authentication_error target [Lit ''Credential Manager secret is invalid UTF-16: '', Dsp e])
       (utf16_text (trim_zeros (code_units True bytes)))) (\<lambda>secret.
       Inr (credential_new username (password_new secret)))))"

definition read_credential_manager ::
  "(string \<Rightarrow> ('w, native_credential option) native) \<Rightarrow> string \<Rightarrow> ('w, credential) effect" where
  "read_credential_manager read target =
     and_then (checked (credential_error target) (read target)) (\<lambda>raw.
     and_then (lift_result (ok_or (authentication_error target [Lit ''Credential Manager returned a null credential''])
       raw)) (\<lambda>c.
       lift_result (credential_of target c)))"

text \<open>\<open>Password::from_credential_manager\<close>\<close>

definition password_from_manager ::
  "(string \<Rightarrow> ('w, native_credential option) native) \<Rightarrow> string \<Rightarrow> ('w, password) effect" where
  "password_from_manager read target =
     and_then (read_credential_manager read target) (\<lambda>c. done_with (cd_password c))"

section \<open>Stored secrets are read back\<close>

lemma utf16_text_encode: "valid_str s \<Longrightarrow> utf16_text (encode_utf16 s) = Inr s"
  by (simp add: utf16_text_def decode_encode_utf16 valid_str_chars)

lemma trim_zeros_padded:
  "us = [] \<or> last us \<noteq> 0 \<Longrightarrow> trim_zeros (us @ replicate k 0) = us"
proof -
  assume us: "us = [] \<or> last us \<noteq> 0"
  have "dropWhile (\<lambda>u. u = 0) (replicate k 0 @ rev us) = dropWhile (\<lambda>u. u = 0) (rev us)" by (induction k) auto
  also have "\<dots> = rev us" using us by (cases us rule: rev_cases) auto
  finally show ?thesis by (simp add: trim_zeros_def)
qed

text \<open>An entry as \<open>cmdkey\<close> stores it: the secret in UTF-16LE, perhaps with terminators.\<close>

definition stored :: "string \<Rightarrow> string \<Rightarrow> nat \<Rightarrow> native_credential" where
  "stored name secret padding =
     (let blob = concat (map to_le_bytes (encode_utf16 secret @ replicate padding 0))
      in \<lparr>nc_user_name = Some (encode_utf16 name), nc_blob_size = length blob, nc_blob = Some blob\<rparr>)"

text \<open>C37. A secret that was stored as UTF-16LE, followed by any number of terminators, is read back with its user
  name, provided that the secret itself does not end in a zero unit.\<close>

theorem credential_read_back:
  assumes "valid_str name" and "valid_str secret" and "encode_utf16 secret = [] \<or> last (encode_utf16 secret) \<noteq> 0"
    and "read target w = (Inr (Some (stored name secret padding)), w')"
  shows "read_credential_manager read target w = (Inr (credential_new name (password_new secret)), w')"
proof -
  have "even (length (concat (map to_le_bytes (encode_utf16 secret @ replicate padding 0))))" by (rule even_le)
  then have "secret_bytes target (stored name secret padding)
      = Inr (concat (map to_le_bytes (encode_utf16 secret @ replicate padding 0)))"
    by (simp add: secret_bytes_def stored_def Let_def)
  moreover have "user_name target (stored name secret padding) = Inr name"
    using assms(1) by (simp add: user_name_def stored_def Let_def utf16_text_encode)
  ultimately have "credential_of target (stored name secret padding) = Inr (credential_new name (password_new secret))"
    using assms(2,3) by (simp add: credential_of_def code_units_le trim_zeros_padded utf16_text_encode del: map_append)
  then show ?thesis using assms(4)
    by (simp add: read_credential_manager_def and_then_def checked_def lift_result_def)
qed

lemma credential_read_back_witness:
  "read_credential_manager (\<lambda>t w. (Inr (Some (stored ''u'' ''pw'' 1)), w)) ''t'' () =
    (Inr \<lparr>cd_username = ''u'', cd_password = Utf16Password [0x70, 0x77]\<rparr>, ())"
proof -
  have units: "valid_str ''u''" "valid_str ''pw''" "encode_utf16 ''pw'' = [0x70, 0x77]" by code_simp+
  show ?thesis
    using credential_read_back[OF units(1,2), where read = "\<lambda>t w. (Inr (Some (stored ''u'' ''pw'' 1)), w)" and target = "''t''"
      and w = "()" and padding = 1] units(3)
    by (simp add: credential_new_def password_new_def)
qed

end
