(* ===== verification/Facade.thy ===== *)
theory Facade
  imports Session_Tree Apply Credentials
begin

text \<open>
  The blocking view of a scheduler (\<open>BlockingScheduler\<close> in \<open>client/mod.rs\<close>): every method hands one request to
  the session worker, and \<open>perform\<close> is what the worker does with it on the native session. Waiting for a run
  and watching the history send several requests from outside the worker. A result \<open>None\<close> is a run that does
  not end, or a listing deeper than allowed for.
\<close>

section \<open>A connected client\<close>

record ('o, 'h, 'w) client =
  cl_session :: "('o, 'w) session"
  cl_api :: "('h, 'w) evt_api"
  cl_access :: "'h event_access"
  cl_events :: event_env
  cl_timestamp :: "system_time \<Rightarrow> string option"
  cl_depth :: nat

text \<open>\<open>Instant::elapsed\<close>, \<open>SystemTime::now\<close> and \<open>thread::sleep\<close>\<close>

record 'w clock =
  ck_elapsed :: "'w \<Rightarrow> nanos \<times> 'w"
  ck_now :: "'w \<Rightarrow> system_time \<times> 'w"
  ck_sleep :: "nanos \<Rightarrow> 'w \<Rightarrow> 'w"

definition client_history :: "('o, 'h, 'w) client \<Rightarrow> bool \<Rightarrow> history_query \<Rightarrow> ('w, history_event list) effect" where
  "client_history C exact query =
     query_inner (cl_api C) (cl_events C) (cl_timestamp C) (cl_access C) query exact"

definition client_page :: "('o, 'h, 'w) client \<Rightarrow> history_query \<Rightarrow> cursor option \<Rightarrow> ('w, page) effect" where
  "client_page C query cur = access_page (cl_api C) (cl_events C) (cl_timestamp C) (cl_access C) query cur"

definition normalize_security ::
  "('o, 'w) session \<Rightarrow> security_descriptor \<Rightarrow> security_information \<Rightarrow> ('w, security_descriptor) effect" where
  "normalize_security S d scope = lift_result (canonical_sddl (ss_service S) d scope)"

definition client_normalizer :: "('o, 'h, 'w) client \<Rightarrow> 'w normalizer" where
  "client_normalizer C =
     \<lparr>nz_definition = normalize_definition (cl_session C), nz_security = normalize_security (cl_session C)\<rparr>"

definition client_backend :: "('o, 'h, 'w) client \<Rightarrow> 'w backend" where
  "client_backend C = native_backend (cl_depth C) (cl_session C)"

section \<open>Requests\<close>

datatype client_request =
    GetCapabilities
  | RunDoctor
  | QueryHistory history_query
  | SetHistoryEnabled bool
  | GetHistoryEnabled
  | ValidateDefinition task_definition
  | GetTask task_path
  | ListTasks folder_path list_options
  | Register task_path task_definition registration_options
  | RegisterRaw task_path raw_task_xml logon_type registration_options
  | RemoveTask task_path
  | SetEnabled task_path bool
  | RunTask task_path run_options
  | StopAll task_path
  | StopInstance uuid
  | ListRunning bool
  | MakeFolder folder_path "security_descriptor option"
  | ListFolders folder_path bool
  | RemoveFolder folder_path
  | GetTaskSecurity task_path security_information
  | GetFolderSecurity folder_path security_information
  | SetTaskSecurity task_path security_descriptor security_information
  | SetFolderSecurity folder_path security_descriptor security_information

datatype response =
    Unit_Response
  | Bool_Response bool
  | Capabilities_Response capabilities
  | Doctor_Response diagnostic_report
  | History_Response "history_event list"
  | Report_Response validation_report
  | Task_Response registered_task
  | Tasks_Response "registered_task list"
  | Run_Response run_handle
  | Running_Response "running_task list"
  | Folder_Response task_folder_info
  | Folders_Response "task_folder_info list"
  | Security_Response security_descriptor

definition answering :: "('a \<Rightarrow> 'b) \<Rightarrow> ('w, 'a) effect \<Rightarrow> ('w, 'b) descent" where
  "answering f m = descend m (\<lambda>x. ended (done_with (f x)))"

definition answering_deep :: "('a \<Rightarrow> 'b) \<Rightarrow> ('w, 'a) descent \<Rightarrow> ('w, 'b) descent" where
  "answering_deep f m = descend_after m (\<lambda>x. ended (done_with (f x)))"

abbreviation silently :: "('w, unit) effect \<Rightarrow> ('w, response) descent" where
  "silently \<equiv> answering (\<lambda>_. Unit_Response)"

fun perform :: "('o, 'h, 'w) client \<Rightarrow> client_request \<Rightarrow> ('w, response) descent" where
  "perform C GetCapabilities = answering Capabilities_Response (capabilities (cl_session C) (cl_api C) (cl_access C))"
| "perform C RunDoctor = answering Doctor_Response (doctor (cl_session C) (cl_api C) (cl_access C))"
| "perform C (QueryHistory query) = answering History_Response (client_history C False query)"
| "perform C (SetHistoryEnabled enabled) = silently (set_log_enabled (cl_api C) (cl_access C) enabled)"
| "perform C GetHistoryEnabled = answering Bool_Response (log_enabled (cl_api C) (cl_access C))"
| "perform C (ValidateDefinition d) = answering Report_Response (validate_task (cl_session C) d)"
| "perform C (GetTask path) = answering Task_Response (get_task (cl_session C) path)"
| "perform C (ListTasks folder opts) = answering_deep Tasks_Response (list_tasks (cl_depth C) (cl_session C) folder opts)"
| "perform C (Register path d opts) = answering Task_Response (register_task (cl_session C) path d opts)"
| "perform C (RegisterRaw path xml logon opts) = answering Task_Response (register_raw (cl_session C) path xml logon opts)"
| "perform C (RemoveTask path) = silently (delete_task (cl_session C) path)"
| "perform C (SetEnabled path enabled) = silently (set_task_enabled (cl_session C) path enabled)"
| "perform C (RunTask path opts) = answering Run_Response (run_task (cl_session C) path opts)"
| "perform C (StopAll path) = silently (stop_all (cl_session C) path)"
| "perform C (StopInstance i) = silently (stop_instance (cl_session C) i)"
| "perform C (ListRunning hidden) = answering Running_Response (running_tasks (cl_session C) hidden)"
| "perform C (MakeFolder path security) = answering Folder_Response (create_folder (cl_session C) path security)"
| "perform C (ListFolders path recursive) =
     answering_deep Folders_Response (list_folders (cl_depth C) (cl_session C) path recursive)"
| "perform C (RemoveFolder path) = silently (delete_folder (cl_session C) path)"
| "perform C (GetTaskSecurity path scope) = answering Security_Response (task_security (cl_session C) path scope)"
| "perform C (GetFolderSecurity path scope) = answering Security_Response (folder_security (cl_session C) path scope)"
| "perform C (SetTaskSecurity path d scope) = silently (set_task_security (cl_session C) path d scope)"
| "perform C (SetFolderSecurity path d scope) = silently (set_folder_security (cl_session C) path d scope)"

section \<open>Operations outside the worker\<close>

definition live_observer :: "('o, 'h, 'w) client \<Rightarrow> 'w clock \<Rightarrow> 'w observer" where
  "live_observer C clock =
     \<lparr>ob_history = client_history C True,
      ob_running = running_tasks (cl_session C) True,
      ob_last_result = (\<lambda>path. and_then (get_task (cl_session C) path) (\<lambda>t. done_with (rg_last_result t))),
      ob_elapsed = ck_elapsed clock, ob_now = ck_now clock, ob_sleep = ck_sleep clock\<rparr>"

definition wait_for_run ::
  "('o, 'h, 'w) client \<Rightarrow> 'w clock \<Rightarrow> run_handle \<Rightarrow> wait_options \<Rightarrow> ('w \<Rightarrow> bool) option \<Rightarrow> ('w, run_outcome) descent" where
  "wait_for_run C clock h opts cancelled =
     observe_run (ss_uuid_text (cl_session C)) (live_observer C clock) h opts cancelled"

section \<open>Connecting\<close>

text \<open>\<open>SchedulerBuilder::connect_blocking\<close> with the thread that it starts: the session connects and describes
  itself. Starting the thread and its channels do not fail here; \<open>connect_session\<close> has these failures.\<close>

record scheduler_builder =
  sb_target :: "string option"
  sb_credential :: "credential option"
  sb_com_security :: com_security_policy

definition scheduler_builder_default :: scheduler_builder where
  "scheduler_builder_default = \<lparr>sb_target = None, sb_credential = None, sb_com_security = ExistingProcess\<rparr>"

definition builder_local :: "scheduler_builder \<Rightarrow> scheduler_builder" where
  "builder_local b = b\<lparr>sb_target := None, sb_credential := None\<rparr>"

definition builder_remote :: "string \<Rightarrow> scheduler_builder \<Rightarrow> scheduler_builder" where
  "builder_remote computer b = b\<lparr>sb_target := Some computer\<rparr>"

definition builder_credential :: "credential \<Rightarrow> scheduler_builder \<Rightarrow> scheduler_builder" where
  "builder_credential c b = b\<lparr>sb_credential := Some c\<rparr>"

text \<open>What the process offers to every connection\<close>

record ('o, 'h, 'w) platform =
  pf_service :: "('o, 'w) com_service"
  pf_api :: "('h, 'w) evt_api"
  pf_initialize :: "('w, unit) native"
  pf_create :: "('w, unit) native"
  pf_clock :: "'w clock"
  pf_read_credential :: "string \<Rightarrow> ('w, native_credential option) native"
  pf_read_file :: "string \<Rightarrow> 'w \<Rightarrow> (string + string) \<times> 'w" \<comment> \<open>the error text, or the bytes\<close>
  pf_xml :: xml_env
  pf_events :: event_env
  pf_timestamp :: "system_time \<Rightarrow> string option"
  pf_uuid_text :: "uuid \<Rightarrow> string"
  pf_decode :: "document_format \<Rightarrow> string \<Rightarrow> (message \<times> (string \<times> string) list) + task_manifest"
  pf_since :: "system_time \<Rightarrow> nat \<Rightarrow> system_time option" \<comment> \<open>\<open>SystemTime::checked_sub\<close> of seconds\<close>
  pf_logging :: "'w \<Rightarrow> (string + unit) \<times> 'w" \<comment> \<open>installing the log subscriber\<close>
  pf_depth :: nat

fun credential_parts :: "credential \<Rightarrow> string \<times> u16 list" where
  "credential_parts c = (cd_username c, password_units (cd_password c))"

definition scheduler_connect :: "('o, 'h, 'w) platform \<Rightarrow> scheduler_builder \<Rightarrow> ('w, ('o, 'h, 'w) client) effect" where
  "scheduler_connect P b =
     and_then (session_connect (pf_service P) (pf_xml P) (pf_uuid_text P) (pf_initialize P) (pf_create P) (pf_api P)
       (sb_target b) (map_option credential_parts (sb_credential b)) (sb_com_security b)) (\<lambda>(session, access).
     and_then (connection_info session) (\<lambda>_.
       done_with \<lparr>cl_session = session, cl_api = pf_api P, cl_access = access, cl_events = pf_events P,
         cl_timestamp = pf_timestamp P, cl_depth = pf_depth P\<rparr>))"

end
