(* ===== verification/Command_Args.thy ===== *)
theory Command_Args
  imports Facade
begin

text \<open>
  The parsed arguments of the command line (\<open>windows-task-cli/src/main.rs\<close>), as clap hands them over.
\<close>

record connection_args =
  ca_computer :: "string option"
  ca_connection_credential :: "string option"

text \<open>A path with the extension that \<open>Path::extension\<close> finds\<close>

record file_arg =
  fa_path :: string
  fa_extension :: "string option"

datatype format_arg = TomlFormat | JsonFormat | YamlFormat

fun document_format_of :: "format_arg \<Rightarrow> document_format" where
  "document_format_of TomlFormat = Toml"
| "document_format_of JsonFormat = Json"
| "document_format_of YamlFormat = Yaml"

datatype register_mode = RegisterCreate | RegisterUpdate | RegisterCreateOrUpdate

fun registration_mode_of :: "register_mode \<Rightarrow> registration_mode" where
  "registration_mode_of RegisterCreate = Create"
| "registration_mode_of RegisterUpdate = Update"
| "registration_mode_of RegisterCreateOrUpdate = CreateOrUpdate"

record register_args =
  ra_path :: task_path
  ra_xml :: string
  ra_mode :: register_mode
  ra_registration_credential :: "string option"
  ra_allow_registration_triggers :: bool
  ra_yes :: bool

record run_args =
  ua_path :: task_path
  ua_parameters :: "string list"
  ua_ignore_constraints :: bool
  ua_wait :: bool
  ua_timeout_seconds :: nat
  ua_allow_polling_fallback :: bool

record query_args =
  qa_task :: "task_path option"
  qa_instance :: "uuid option"
  qa_since_seconds :: "nat option"
  qa_limit :: nat
  qa_forward :: bool

record apply_args =
  aa_manifest :: file_arg
  aa_format :: "format_arg option"
  aa_prune :: bool
  aa_adopt :: bool
  aa_allow_irreversible :: bool
  aa_stop_running :: bool
  aa_registration_credential :: "string option"
  aa_rollback_credential :: "string option"
  aa_yes :: bool

datatype task_command =
    Task_Get task_path bool
  | Task_List folder_path bool bool
  | Task_Register register_args
  | Task_Delete task_path bool
  | Task_Enable task_path
  | Task_Disable task_path
  | Task_Run run_args
  | Task_Stop "task_path option" "uuid option"
  | Task_Running bool

datatype folder_command =
    Folder_List folder_path bool
  | Folder_Create folder_path "string option"
  | Folder_Delete folder_path bool
  | Folder_Security folder_path
  | Folder_Set_Security folder_path string bool

datatype history_command =
    History_Query query_args
  | History_Watch "task_path option" "uuid option" nat
  | History_Enable bool
  | History_Disable bool

datatype command =
    Validate file_arg "format_arg option" bool
  | Doctor "string option"
  | Capabilities
  | Task task_command
  | Folder folder_command
  | History history_command
  | Plan file_arg "format_arg option" bool bool bool
  | Apply apply_args

record cli =
  cli_connection :: connection_args
  cli_command :: command

end
