(* ===== verification/Command_Line.thy ===== *)
theory Command_Line
  imports Command_Args
begin

text \<open>
  The command line (\<open>windows-task-cli/src/main.rs\<close>): what each parsed command does to the scheduler, the event
  log and the files it names, what it prints, and its exit code. Argument parsing is the work of clap, so a
  command is its parsed value; a printed document is its value before serialization, and printing succeeds.
\<close>

section \<open>What is printed\<close>

record diagnostic_bundle =
  bd_remote :: bool
  bd_credential_reference_supplied :: bool
  bd_healthy :: bool
  bd_diagnostics :: "(diagnostic_level \<times> diagnostic_code \<times> string \<times> message option) list"

datatype cli_output =
    Printed_Text string
  | Printed_Response response
  | Printed_Task registered_task "task_definition option" "string option"
  | Printed_Tasks "(registered_task \<times> task_definition option) list"
  | Printed_Report validation_report
  | Printed_Reports validation_report "(task_path \<times> validation_report) list"
  | Printed_Diagnostics diagnostic_report
  | Printed_Plan plan
  | Printed_Apply apply_result
  | Printed_Deleted_Task task_path
  | Printed_Deleted_Folder folder_path
  | Printed_Enabled task_path bool
  | Printed_Outcome run_handle run_outcome
  | Printed_Stopped task_path
  | Printed_Stopped_Instance uuid
  | Printed_Security folder_path string
  | Printed_Security_Updated folder_path
  | Printed_History_Enabled bool
  | Printed_Event history_event
  | Printed_Failure "string + error"

type_synonym 'w console = "'w \<times> cli_output list"

definition on_world :: "('w, 'a) descent \<Rightarrow> ('w console, 'a) descent" where
  "on_world m = (\<lambda>(w, out). case m w of None \<Rightarrow> None | Some (r, w) \<Rightarrow> Some (r, w, out))"

abbreviation once :: "('w, 'a) effect \<Rightarrow> ('w console, 'a) descent" where
  "once m \<equiv> on_world (ended m)"

definition print_out :: "cli_output \<Rightarrow> ('w console, unit) descent" where
  "print_out o1 = ended (\<lambda>(w, out). (Inr (), w, out @ [o1]))"

abbreviation given :: "'a result \<Rightarrow> ('w, 'a) descent" where
  "given r \<equiv> ended (lift_result r)"

type_synonym exit_code = nat

definition SUCCESS :: exit_code where "SUCCESS = 0"

definition print_and_exit :: "cli_output \<Rightarrow> exit_code \<Rightarrow> ('w console, exit_code) descent" where
  "print_and_exit o1 code = descend_after (print_out o1) (\<lambda>_. ended (done_with code))"

section \<open>Helpers\<close>

definition require_yes :: "bool \<Rightarrow> string \<Rightarrow> unit result" where
  "require_yes yes operation =
     (if yes then Inr ()
      else Inl (new_error Conflict [Lit operation, Lit ''; repeat with --yes after reviewing the target'']))"

definition password_backed :: "logon_type \<Rightarrow> bool" where
  "password_backed logon \<longleftrightarrow> logon \<in> {Password, InteractiveTokenOrPassword}"

definition read_file :: "('o, 'h, 'w) platform \<Rightarrow> string \<Rightarrow> ('w, string) effect" where
  "read_file P path w =
     (case pf_read_file P path w of
        (Inl e, w) \<Rightarrow> (Inl (new_error Serialization [Lit ''cannot read '', Dsp path, Lit '': '', Dsp e]), w)
      | (Inr bytes, w) \<Rightarrow> (Inr bytes, w))"

definition check_utf8 :: "string \<Rightarrow> string + unit" where
  "check_utf8 bytes = (case from_utf8 bytes of Inl e \<Rightarrow> Inl (utf8_error_text e) | Inr _ \<Rightarrow> Inr ())"

definition load_manifest ::
  "('o, 'h, 'w) platform \<Rightarrow> file_arg \<Rightarrow> format_arg option \<Rightarrow> ('w, task_manifest) effect" where
  "load_manifest P file format =
     and_then (lift_result (case format of
         Some f \<Rightarrow> Inr (document_format_of f) | None \<Rightarrow> format_from_extension (fa_extension file))) (\<lambda>format.
     and_then (read_file P (fa_path file)) (\<lambda>bytes.
       lift_result (manifest_from_slice check_utf8 (pf_decode P) bytes format)))"

definition manifest_connection_reference :: "task_manifest \<Rightarrow> string option result" where
  "manifest_connection_reference m =
     (let references = map fst (fold (\<lambda>t refs. case cr_connection (mg_credentials t) of
            Some r \<Rightarrow> btree_insert r () refs | None \<Rightarrow> refs) (tm_tasks m) [])
      in case references of
           [] \<Rightarrow> Inr None
         | [r] \<Rightarrow> Inr (Some r)
         | _ \<Rightarrow> Inl (new_error InvalidDefinition
             [Lit ''manifest tasks use conflicting connection credential references'']))"

fun or_option :: "'a option \<Rightarrow> 'a option \<Rightarrow> 'a option" where
  "or_option (Some x) _ = Some x"
| "or_option None y = y"

definition connection_builder ::
  "('o, 'h, 'w) platform \<Rightarrow> connection_args \<Rightarrow> string option \<Rightarrow> string option \<Rightarrow> ('w, scheduler_builder) effect" where
  "connection_builder P opts manifest_target manifest_credential =
     (let credential_target = or_option (ca_connection_credential opts) manifest_credential in
      case or_option (ca_computer opts) manifest_target of
        Some target \<Rightarrow>
          (let b = builder_remote target scheduler_builder_default in
           case credential_target of
             Some reference \<Rightarrow>
               and_then (read_credential_manager (pf_read_credential P) reference) (\<lambda>c. done_with (builder_credential c b))
           | None \<Rightarrow> done_with b)
      | None \<Rightarrow>
          if credential_target \<noteq> None then
            fail_with (new_error InvalidDefinition
              [Lit ''a connection credential requires --computer or a manifest target''])
          else done_with (builder_local scheduler_builder_default))"

definition cli_connect ::
  "('o, 'h, 'w) platform \<Rightarrow> connection_args \<Rightarrow> string option \<Rightarrow> string option \<Rightarrow> ('w, ('o, 'h, 'w) client) effect" where
  "cli_connect P opts manifest_target manifest_credential =
     and_then (connection_builder P opts manifest_target manifest_credential) (scheduler_connect P)"

text \<open>\<open>registered_task_json\<close>: the fields of the document beside the task's own.\<close>

definition registered_task_json :: "registered_task \<Rightarrow> bool \<Rightarrow> (task_definition option \<times> string option) result" where
  "registered_task_json t include_xml =
     (let d = (case snap_typed (rg_snapshot t) of Inr d \<Rightarrow> Some d | Inl _ \<Rightarrow> None) in
      if include_xml then bind_ok (raw_decoded (snap_raw (rg_snapshot t))) (\<lambda>xml. Inr (d, Some xml))
      else Inr (d, None))"

text \<open>\<open>CredentialManagerResolver\<close>\<close>

definition manager_resolver :: "('o, 'h, 'w) platform \<Rightarrow> string option \<Rightarrow> string option \<Rightarrow> 'w resolver" where
  "manager_resolver P desired_override rollback_override path reference purpose =
     and_then (lift_result (ok_or
       (with_target (task_str path)
         (new_error Irreversible [Lit ''no Credential Manager target is available for this registration'']))
       (case purpose of
          DesiredRegistration \<Rightarrow> or_option desired_override reference
        | RollbackRegistration \<Rightarrow> or_option rollback_override reference)))
       (\<lambda>target. password_from_manager (pf_read_credential P) target)"

section \<open>Validation, diagnosis and planning\<close>

fun native_reports ::
  "('o, 'h, 'w) client \<Rightarrow> managed_task list \<Rightarrow> ('w, (task_path \<times> validation_report) list) effect" where
  "native_reports C [] = done_with []"
| "native_reports C (t # ts) =
     and_then (validate_task (cl_session C) (mg_definition t)) (\<lambda>report.
     and_then (native_reports C ts) (\<lambda>reports. done_with ((mg_path t, report) # reports)))"

definition validate_command ::
  "('o, 'h, 'w) platform \<Rightarrow> connection_args \<Rightarrow> file_arg \<Rightarrow> format_arg option \<Rightarrow> bool \<Rightarrow> ('w console, exit_code) descent" where
  "validate_command P connection file format native =
     descend_after (once (load_manifest P file format)) (\<lambda>m.
       let report = manifest_validate m in
       if \<not> native \<or> \<not> report_is_valid report then
         print_and_exit (Printed_Report report) (if report_is_valid report then SUCCESS else 2)
       else
         descend_after (given (manifest_connection_reference m)) (\<lambda>credential.
         descend_after (once (cli_connect P connection (tm_target m) credential)) (\<lambda>C.
         descend_after (once (native_reports C (tm_tasks m))) (\<lambda>reports.
           print_and_exit (Printed_Reports report reports)
             (if list_all (report_is_valid \<circ> snd) reports then SUCCESS else 2)))))"

definition is_healthy :: "diagnostic_report \<Rightarrow> bool" where
  "is_healthy report \<longleftrightarrow> \<not> list_ex (\<lambda>d. d_level d = LevelError) (dr_diagnostics report)"

definition diagnostic_bundle_of :: "diagnostic_report \<Rightarrow> connection_args \<Rightarrow> diagnostic_bundle" where
  "diagnostic_bundle_of report connection =
     \<lparr>bd_remote = (ca_computer connection \<noteq> None),
      bd_credential_reference_supplied = (ca_connection_credential connection \<noteq> None),
      bd_healthy = is_healthy report,
      bd_diagnostics = map (\<lambda>d. (d_level d, d_code d, d_path d, d_remediation d)) (dr_diagnostics report)\<rparr>"

text \<open>Writing the bundle creates a new directory with one file, or says why it did not.\<close>

definition bundle_failed :: "string \<Rightarrow> diagnostic" where
  "bundle_failed e =
     \<lparr>d_level = LevelError, d_code = OtherCode ''bundle_write_failed'', d_path = ''bundle.collection'',
      d_message = [Lit ''Unable to save diagnostic bundle: '', Dsp e],
      d_remediation = Some [Lit ''Choose a new writable directory. The diagnostic checks remain in this output.'']\<rparr>"

definition save_bundle ::
  "(string \<Rightarrow> diagnostic_bundle \<Rightarrow> 'w \<Rightarrow> (string + unit) \<times> 'w) \<Rightarrow> connection_args \<Rightarrow> string option
     \<Rightarrow> diagnostic_report \<Rightarrow> 'w \<Rightarrow> diagnostic_report \<times> 'w" where
  "save_bundle write connection directory report w =
     (case directory of
        None \<Rightarrow> (report, w)
      | Some d \<Rightarrow>
          (case write d (diagnostic_bundle_of report connection) w of
             (Inl e, w) \<Rightarrow> (report\<lparr>dr_diagnostics := dr_diagnostics report @ [bundle_failed e]\<rparr>, w)
           | (Inr _, w) \<Rightarrow> (report, w)))"

definition builder_failed :: "connection_args \<Rightarrow> error \<Rightarrow> diagnostic_report" where
  "builder_failed connection e =
     \<lparr>dr_target = ca_computer connection, dr_diagnostics =
        [\<lparr>d_level = LevelError, d_code = RemoteConnectivity, d_path = ''connection.credentials'',
          d_message = [Dsp (error_kind_debug (e_kind e))],
          d_remediation = Some [Lit ''Check the Credential Manager reference and target computer; no scheduler mutation was attempted.'']\<rparr>]\<rparr>"

definition scheduler_diagnose :: "('o, 'h, 'w) platform \<Rightarrow> scheduler_builder \<Rightarrow> 'w \<Rightarrow> diagnostic_report \<times> 'w" where
  "scheduler_diagnose P b =
     diagnose (sb_target b) (and_then (scheduler_connect P b) (\<lambda>C. doctor (cl_session C) (cl_api C) (cl_access C)))"

definition doctor_report :: "('o, 'h, 'w) platform \<Rightarrow> connection_args \<Rightarrow> 'w \<Rightarrow> diagnostic_report \<times> 'w" where
  "doctor_report P connection w =
     (case connection_builder P connection None None w of
        (Inl e, w) \<Rightarrow> (builder_failed connection e, w)
      | (Inr b, w) \<Rightarrow> scheduler_diagnose P b w)"

definition doctor_command ::
  "('o, 'h, 'w) platform \<Rightarrow> (string \<Rightarrow> diagnostic_bundle \<Rightarrow> 'w \<Rightarrow> (string + unit) \<times> 'w) \<Rightarrow> connection_args
     \<Rightarrow> string option \<Rightarrow> ('w console, exit_code) descent" where
  "doctor_command P write connection directory =
     descend_after (once (\<lambda>w. let (report, w) = doctor_report P connection w;
                                   (report, w) = save_bundle write connection directory report w
                               in (Inr report, w)))
       (\<lambda>report. print_and_exit (Printed_Diagnostics report) (if is_healthy report then SUCCESS else 2))"

definition plan_command ::
  "('o, 'h, 'w) platform \<Rightarrow> connection_args \<Rightarrow> file_arg \<Rightarrow> format_arg option \<Rightarrow> bool \<Rightarrow> bool \<Rightarrow> bool
     \<Rightarrow> ('w console, exit_code) descent" where
  "plan_command P connection file format prune adopt stop_running =
     descend_after (once (load_manifest P file format)) (\<lambda>m.
     descend_after (given (manifest_connection_reference m)) (\<lambda>credential.
     descend_after (once (cli_connect P connection (tm_target m) credential)) (\<lambda>C.
     descend_after (once (plan_live (pf_uuid_text P) (client_normalizer C) (client_backend C) m
       \<lparr>po_prune = prune, po_adopt = adopt\<rparr>)) (\<lambda>p.
       let p = (if stop_running then with_stop_running p else p)
       in print_and_exit (Printed_Plan p) (if plan_is_empty p then SUCCESS else 2)))))"

definition print_apply_result :: "apply_result \<Rightarrow> ('w console, exit_code) descent" where
  "print_apply_result r = print_and_exit (Printed_Apply r) (case r of Inr _ \<Rightarrow> SUCCESS | Inl _ \<Rightarrow> 1)"

definition apply_options_of :: "apply_args \<Rightarrow> apply_options" where
  "apply_options_of a =
     apply_options_default\<lparr>ao_prune := aa_prune a, ao_adopt := aa_adopt a,
       ao_allow_irreversible := aa_allow_irreversible a, ao_stop_running := aa_stop_running a\<rparr>"

definition apply_command ::
  "('o, 'h, 'w) platform \<Rightarrow> connection_args \<Rightarrow> apply_args \<Rightarrow> ('w console, exit_code) descent" where
  "apply_command P connection a =
     descend_after (given (require_yes (aa_yes a) ''apply mutates Task Scheduler'')) (\<lambda>_.
     descend_after (once (load_manifest P (aa_manifest a) (aa_format a))) (\<lambda>m.
     descend_after (given (manifest_connection_reference m)) (\<lambda>credential.
     descend_after (once (cli_connect P connection (tm_target m) credential)) (\<lambda>C.
     descend_after (once (\<lambda>w. let (r, w) = apply_with_credentials (pf_uuid_text P) (client_normalizer C)
           (client_backend C) m (apply_options_of a)
           (manager_resolver P (aa_registration_credential a) (aa_rollback_credential a)) w in (Inr r, w)))
       print_apply_result))))"

section \<open>Tasks\<close>

definition then_done :: "('w console, unit) descent \<Rightarrow> ('w console, exit_code) descent" where
  "then_done m = descend_after m (\<lambda>_. ended (done_with SUCCESS))"

definition registration_password ::
  "('o, 'h, 'w) platform \<Rightarrow> logon_type \<Rightarrow> string option \<Rightarrow> ('w, password option) effect" where
  "registration_password P logon credential =
     (if password_backed logon then
        and_then (lift_result (ok_or
          (new_error Authentication [Lit ''password-backed XML requires --registration-credential'']) credential))
          (\<lambda>target. and_then (password_from_manager (pf_read_credential P) target) (\<lambda>pw. done_with (Some pw)))
      else done_with None)"

definition register_command ::
  "('o, 'h, 'w) platform \<Rightarrow> ('o, 'h, 'w) client \<Rightarrow> register_args \<Rightarrow> ('w console, unit) descent" where
  "register_command P C a =
     descend_after (given (require_yes (ra_yes a) ''task registration creates or replaces scheduler state'')) (\<lambda>_.
     descend_after (once (read_file P (ra_xml a))) (\<lambda>bytes.
     descend_after (given (raw_new (env_reader (pf_xml P)) (env_unescape (pf_xml P)) bytes)) (\<lambda>raw.
     descend_after (given (raw_definition (pf_xml P) raw)) (\<lambda>d.
       let logon = pr_logon_type (td_principal d) in
       descend_after (once (registration_password P logon (ra_registration_credential a))) (\<lambda>pw.
       descend_after (once (register_raw (cl_session C) (ra_path a) raw logon
         (registration_options_default\<lparr>ro_mode := registration_mode_of (ra_mode a),
            ro_ignore_registration_triggers := \<not> ra_allow_registration_triggers a, ro_password := pw\<rparr>))) (\<lambda>t.
       descend_after (given (registered_task_json t False)) (\<lambda>(d, xml).
         print_out (Printed_Task t d xml))))))))"

definition run_options_of :: "run_args \<Rightarrow> run_options" where
  "run_options_of a =
     \<lparr>rn_parameters = ua_parameters a, rn_session_id = None, rn_user_sid = None,
      rn_ignore_constraints = ua_ignore_constraints a, rn_as_self = False\<rparr>"

definition run_command ::
  "('o, 'h, 'w) platform \<Rightarrow> ('o, 'h, 'w) client \<Rightarrow> run_args \<Rightarrow> ('w console, unit) descent" where
  "run_command P C a =
     descend_after (once (run_task (cl_session C) (ua_path a) (run_options_of a))) (\<lambda>h.
       if ua_wait a then
         descend_after (on_world (wait_for_run C (pf_clock P) h
           (wait_options_default\<lparr>wo_timeout := ua_timeout_seconds a * one_second,
              wo_allow_polling_fallback := ua_allow_polling_fallback a\<rparr>) None)) (\<lambda>outcome.
           print_out (Printed_Outcome h outcome))
       else print_out (Printed_Response (Run_Response h)))"

text \<open>\<open>None\<close> stands for the panic on stop targets that clap rejects.\<close>

fun stop_command ::
  "('o, 'h, 'w) client \<Rightarrow> task_path option \<Rightarrow> uuid option \<Rightarrow> ('w console, unit) descent" where
  "stop_command C (Some path) None =
     descend_after (once (stop_all (cl_session C) path)) (\<lambda>_. print_out (Printed_Stopped path))"
| "stop_command C None (Some i) =
     descend_after (once (stop_instance (cl_session C) i)) (\<lambda>_. print_out (Printed_Stopped_Instance i))"
| "stop_command C None None =
     ended (fail_with (new_error InvalidDefinition [Lit ''task stop requires --path or --instance'']))"
| "stop_command C (Some path) (Some i) = (\<lambda>w. None)"

fun tasks_json :: "registered_task list \<Rightarrow> (registered_task \<times> task_definition option) list result" where
  "tasks_json [] = Inr []"
| "tasks_json (t # ts) =
     bind_ok (registered_task_json t False) (\<lambda>(d, xml). bind_ok (tasks_json ts) (\<lambda>rows. Inr ((t, d) # rows)))"

fun task_action ::
  "('o, 'h, 'w) platform \<Rightarrow> ('o, 'h, 'w) client \<Rightarrow> task_command \<Rightarrow> ('w console, unit) descent" where
  "task_action P C (Task_Get path raw) =
     descend_after (once (get_task (cl_session C) path)) (\<lambda>t.
       if raw then descend_after (given (raw_decoded (snap_raw (rg_snapshot t)))) (\<lambda>text. print_out (Printed_Text text))
       else descend_after (given (registered_task_json t True)) (\<lambda>(d, xml). print_out (Printed_Task t d xml)))"
| "task_action P C (Task_List folder recursive hidden) =
     descend_after (on_world (list_tasks (cl_depth C) (cl_session C) folder
       \<lparr>lo_recursive = recursive, lo_include_hidden = hidden\<rparr>)) (\<lambda>ts.
     descend_after (given (tasks_json ts)) (\<lambda>rows. print_out (Printed_Tasks rows)))"
| "task_action P C (Task_Register a) = register_command P C a"
| "task_action P C (Task_Delete path yes) =
     descend_after (given (require_yes yes ''task delete is destructive'')) (\<lambda>_.
     descend_after (once (delete_task (cl_session C) path)) (\<lambda>_. print_out (Printed_Deleted_Task path)))"
| "task_action P C (Task_Enable path) =
     descend_after (once (set_task_enabled (cl_session C) path True)) (\<lambda>_. print_out (Printed_Enabled path True))"
| "task_action P C (Task_Disable path) =
     descend_after (once (set_task_enabled (cl_session C) path False)) (\<lambda>_. print_out (Printed_Enabled path False))"
| "task_action P C (Task_Run a) = run_command P C a"
| "task_action P C (Task_Stop path i) = stop_command C path i"
| "task_action P C (Task_Running hidden) =
     descend_after (on_world (perform C (ListRunning hidden))) (\<lambda>r. print_out (Printed_Response r))"

definition run_task_command ::
  "('o, 'h, 'w) platform \<Rightarrow> connection_args \<Rightarrow> task_command \<Rightarrow> ('w console, exit_code) descent" where
  "run_task_command P connection c =
     descend_after (once (cli_connect P connection None None)) (\<lambda>C. then_done (task_action P C c))"

section \<open>Folders and history\<close>

text \<open>The error of a refused descriptor is not one of the library; it stands here as one of kind \<open>Other\<close> with
  its text, and only its text is printed.\<close>

definition sddl_argument :: "string \<Rightarrow> security_descriptor result" where
  "sddl_argument = descriptor_text OtherKind"

definition default_security :: security_information where
  "default_security = SI_OWNER OR SI_GROUP OR SI_DACL"

fun folder_action :: "('o, 'h, 'w) client \<Rightarrow> folder_command \<Rightarrow> ('w console, unit) descent" where
  "folder_action C (Folder_List path recursive) =
     descend_after (on_world (perform C (ListFolders path recursive))) (\<lambda>r. print_out (Printed_Response r))"
| "folder_action C (Folder_Create path sddl) =
     descend_after (given (case sddl of None \<Rightarrow> Inr None | Some t \<Rightarrow> bind_ok (sddl_argument t) (\<lambda>d. Inr (Some d)))) (\<lambda>d.
     descend_after (on_world (perform C (MakeFolder path d))) (\<lambda>r. print_out (Printed_Response r)))"
| "folder_action C (Folder_Delete path yes) =
     descend_after (given (require_yes yes ''folder delete is destructive'')) (\<lambda>_.
     descend_after (once (delete_folder (cl_session C) path)) (\<lambda>_. print_out (Printed_Deleted_Folder path)))"
| "folder_action C (Folder_Security path) =
     descend_after (once (folder_security (cl_session C) path default_security)) (\<lambda>d.
       print_out (Printed_Security path (as_sddl d)))"
| "folder_action C (Folder_Set_Security path sddl yes) =
     descend_after (given (require_yes yes ''setting a folder DACL changes access rights'')) (\<lambda>_.
     descend_after (given (sddl_argument sddl)) (\<lambda>d.
     descend_after (once (set_folder_security (cl_session C) path d SI_DACL)) (\<lambda>_.
       print_out (Printed_Security_Updated path))))"

definition run_folder_command ::
  "('o, 'h, 'w) platform \<Rightarrow> connection_args \<Rightarrow> folder_command \<Rightarrow> ('w console, exit_code) descent" where
  "run_folder_command P connection c =
     descend_after (once (cli_connect P connection None None)) (\<lambda>C. then_done (folder_action C c))"

definition query_of :: "('o, 'h, 'w) platform \<Rightarrow> query_args \<Rightarrow> 'w \<Rightarrow> history_query \<times> 'w" where
  "query_of P a w =
     (let (since, w) = (case qa_since_seconds a of
            None \<Rightarrow> (None, w)
          | Some seconds \<Rightarrow> (case ck_now (pf_clock P) w of (now, w) \<Rightarrow> (pf_since P now seconds, w)))
      in (\<lparr>hq_task = qa_task a, hq_instance_id = qa_instance a, hq_since = since, hq_limit = Some (qa_limit a),
           hq_forward = qa_forward a\<rparr>, w))"

text \<open>The events of a watch as its delivery thread and the loop that prints them handle them together: page
  after page from the verified cursor, a pause when there is no more or the query timed out, and any other
  failure ends the watch. The channel between the two threads keeps the order (\<open>Watch\<close>).\<close>

definition watch_round ::
  "('o, 'h, 'w) client \<Rightarrow> 'w clock \<Rightarrow> history_query \<Rightarrow> nanos \<Rightarrow> cursor option \<Rightarrow> 'w console
     \<Rightarrow> (unit result + cursor option) \<times> 'w console" where
  "watch_round C clock query interval cur = (\<lambda>(w, out).
     case client_page C query cur w of
       (Inr page, w) \<Rightarrow>
         (Inr (pg_cursor page), if pg_more page then w else ck_sleep clock interval w,
          out @ map Printed_Event (pg_events page))
     | (Inl e, w) \<Rightarrow>
         if e_kind e = Timeout then (Inr cur, ck_sleep clock interval w, out) else (Inl (Inl e), w, out))"

definition watch_command ::
  "('o, 'h, 'w) platform \<Rightarrow> ('o, 'h, 'w) client \<Rightarrow> task_path option \<Rightarrow> uuid option \<Rightarrow> nat
     \<Rightarrow> ('w console, unit) descent" where
  "watch_command P C task instance_id poll_milliseconds =
     descend_after (once (\<lambda>w. case ck_now (pf_clock P) w of (now, w) \<Rightarrow>
         (watch_query now (history_query_default\<lparr>hq_task := task, hq_instance_id := instance_id, hq_limit := Some 100000\<rparr>)
           (poll_milliseconds * 10 ^ 6), w))) (\<lambda>query.
       run_loop (watch_round C (pf_clock P) query (poll_milliseconds * 10 ^ 6)) None)"

definition set_history :: "('o, 'h, 'w) client \<Rightarrow> bool \<Rightarrow> ('w console, unit) descent" where
  "set_history C enabled =
     descend_after (on_world (perform C (SetHistoryEnabled enabled))) (\<lambda>_. print_out (Printed_History_Enabled enabled))"

fun history_action ::
  "('o, 'h, 'w) platform \<Rightarrow> ('o, 'h, 'w) client \<Rightarrow> history_command \<Rightarrow> ('w console, unit) descent" where
  "history_action P C (History_Query a) =
     descend_after (once (\<lambda>w. let (query, w) = query_of P a w in (Inr query, w))) (\<lambda>query.
     descend_after (on_world (perform C (QueryHistory query))) (\<lambda>r. print_out (Printed_Response r)))"
| "history_action P C (History_Watch task instance_id poll_milliseconds) =
     watch_command P C task instance_id poll_milliseconds"
| "history_action P C (History_Enable yes) =
     descend_after (given (require_yes yes ''enabling history changes Event Log channel configuration''))
       (\<lambda>_. set_history C True)"
| "history_action P C (History_Disable yes) =
     descend_after (given (require_yes yes ''disabling history changes Event Log channel configuration''))
       (\<lambda>_. set_history C False)"

definition run_history_command ::
  "('o, 'h, 'w) platform \<Rightarrow> connection_args \<Rightarrow> history_command \<Rightarrow> ('w console, exit_code) descent" where
  "run_history_command P connection c =
     descend_after (once (cli_connect P connection None None)) (\<lambda>C. then_done (history_action P C c))"

section \<open>The program\<close>

type_synonym 'w bundle_writer = "string \<Rightarrow> diagnostic_bundle \<Rightarrow> 'w \<Rightarrow> (string + unit) \<times> 'w"

fun run_cli :: "('o, 'h, 'w) platform \<Rightarrow> 'w bundle_writer \<Rightarrow> connection_args \<Rightarrow> command \<Rightarrow> ('w console, exit_code) descent" where
  "run_cli P write connection (Validate file format native) = validate_command P connection file format native"
| "run_cli P write connection (Doctor directory) = doctor_command P write connection directory"
| "run_cli P write connection Capabilities =
     descend_after (once (cli_connect P connection None None)) (\<lambda>C.
     descend_after (on_world (perform C GetCapabilities)) (\<lambda>r. print_and_exit (Printed_Response r) SUCCESS))"
| "run_cli P write connection (Task c) = run_task_command P connection c"
| "run_cli P write connection (Folder c) = run_folder_command P connection c"
| "run_cli P write connection (History c) = run_history_command P connection c"
| "run_cli P write connection (Plan file format prune adopt stop_running) =
     plan_command P connection file format prune adopt stop_running"
| "run_cli P write connection (Apply a) = apply_command P connection a"

fun structured_failure :: "command \<Rightarrow> bool" where
  "structured_failure (Apply a) = True"
| "structured_failure (Validate file format native) = True"
| "structured_failure (Doctor directory) = True"
| "structured_failure _ = False"

text \<open>The exit code of the process; a failure is printed for the commands with structured output and gives 1.\<close>

definition report_failure :: "command \<Rightarrow> string + error \<Rightarrow> 'w console \<Rightarrow> (exit_code \<times> 'w console) option" where
  "report_failure c e = (\<lambda>(w, out).
     Some (1, w, if structured_failure c then out @ [Printed_Failure e] else out))"

definition cli_main ::
  "('o, 'h, 'w) platform \<Rightarrow> 'w bundle_writer \<Rightarrow> cli \<Rightarrow> 'w console \<Rightarrow> (exit_code \<times> 'w console) option" where
  "cli_main P write args = (\<lambda>(w, out).
     case pf_logging P w of
       (Inl message, w) \<Rightarrow> report_failure (cli_command args) (Inl message) (w, out)
     | (Inr _, w) \<Rightarrow>
         (case run_cli P write (cli_connection args) (cli_command args) (w, out) of
            None \<Rightarrow> None
          | Some (Inr code, c) \<Rightarrow> Some (code, c)
          | Some (Inl e, c) \<Rightarrow> report_failure (cli_command args) (Inr e) c))"

end
