(* ===== verification/Command_Safety.thy ===== *)
theory Command_Safety
  imports Command_Line Session_Calls
begin

text \<open>
  What a command may change: the mutating calls that the command line makes on a traced platform, for every
  command and every behaviour of the scheduler, the event log, the clock and the files.
\<close>

section \<open>A traced platform\<close>

definition traced_api :: "('h, 'w) evt_api \<Rightarrow> ('h, ('o, 'h, 'w) traced) evt_api" where
  "traced_api v =
     \<lparr>ev_open_session = (\<lambda>a b c. beside (ev_open_session v a b c)), ev_query = (\<lambda>a b c d. beside (ev_query v a b c d)),
      ev_next = (\<lambda>a b. beside (ev_next v a b)), ev_render_size = (\<lambda>a b. beside (ev_render_size v a b)),
      ev_render = (\<lambda>a b c. beside (ev_render v a b c)), ev_format_size = (\<lambda>a b. beside (ev_format_size v a b)),
      ev_format = (\<lambda>a b c. beside (ev_format v a b c)), ev_open_metadata = (\<lambda>a b. beside (ev_open_metadata v a b)),
      ev_create_bookmark = (\<lambda>a. beside (ev_create_bookmark v a)),
      ev_update_bookmark = (\<lambda>a b. beside (ev_update_bookmark v a b)), ev_seek = (\<lambda>a b. beside (ev_seek v a b)),
      ev_open_config = (\<lambda>a b. beside (ev_open_config v a b)), ev_get_enabled = (\<lambda>a. beside (ev_get_enabled v a)),
      ev_set_enabled = (\<lambda>a b. mutating (Switched_Log a b) (ev_set_enabled v a b)),
      ev_save_config = (\<lambda>a. mutating (Saved_Log a) (ev_save_config v a))\<rparr>"

definition traced_clock :: "'w clock \<Rightarrow> ('o, 'h, 'w) traced clock" where
  "traced_clock k =
     \<lparr>ck_elapsed = beside (ck_elapsed k), ck_now = beside (ck_now k),
      ck_sleep = (\<lambda>n (w, log). (ck_sleep k n w, log))\<rparr>"

definition traced_platform :: "('o, 'h, 'w) platform \<Rightarrow> ('o, 'h, ('o, 'h, 'w) traced) platform" where
  "traced_platform P =
     \<lparr>pf_service = traced_service (pf_service P), pf_api = traced_api (pf_api P),
      pf_initialize = beside (pf_initialize P), pf_create = beside (pf_create P),
      pf_clock = traced_clock (pf_clock P), pf_read_credential = (\<lambda>t. beside (pf_read_credential P t)),
      pf_read_file = (\<lambda>f. beside (pf_read_file P f)), pf_xml = pf_xml P, pf_events = pf_events P,
      pf_timestamp = pf_timestamp P, pf_uuid_text = pf_uuid_text P, pf_decode = pf_decode P, pf_since = pf_since P,
      pf_logging = beside (pf_logging P), pf_depth = pf_depth P\<rparr>"

definition traced_writer :: "'w bundle_writer \<Rightarrow> ('o, 'h, 'w) traced bundle_writer" where
  "traced_writer write d b = beside (write d b)"

section \<open>Calls within a set\<close>

definition made :: "('o, 'h, 'w) traced \<Rightarrow> ('o, 'h) mutation set" where
  "made s = set (map fst (snd s))"

definition within :: "(('o, 'h) mutation \<Rightarrow> bool) \<Rightarrow> ('s \<Rightarrow> ('o, 'h) mutation set) \<Rightarrow> ('s, 'a) descent \<Rightarrow> bool" where
  "within P view m \<longleftrightarrow> (\<forall>s r s'. m s = Some (r, s') \<longrightarrow> view s' \<subseteq> view s \<union> Collect P)"

named_theorems calls_within

lemma made_same: "snd s' = snd s \<Longrightarrow> made s' \<subseteq> made s \<union> Collect P"
  by (simp add: made_def)

lemma within_quiet: "quiet snd m \<Longrightarrow> within P made (ended m)"
  unfolding within_def ended_def using quietD made_same by (metis option.inject)

lemma within_quiet_descent: "quiet_descent snd m \<Longrightarrow> within P made m"
  unfolding within_def quiet_descent_def using made_same by blast

lemma within_after [calls_within]:
  "within P view m \<Longrightarrow> (\<And>x. within P view (f x)) \<Longrightarrow> within P view (descend_after m f)"
  unfolding within_def descend_after_def by (fastforce split: option.splits prod.splits sum.splits)

lemma within_descend: "within P view (ended m) \<Longrightarrow> (\<And>x. within P view (f x)) \<Longrightarrow> within P view (descend m f)"
  unfolding within_def descend_def ended_def by (fastforce split: prod.splits sum.splits)

lemma within_and_then_got:
  "within P view (ended m) \<Longrightarrow> (\<And>x s s'. m s = (Inr x, s') \<Longrightarrow> within P view (ended (f x))) \<Longrightarrow>
    within P view (ended (and_then m f))"
  unfolding within_def and_then_def ended_def by (fastforce split: prod.splits sum.splits)

lemma within_and_then:
  "within P view (ended m) \<Longrightarrow> (\<And>x. within P view (ended (f x))) \<Longrightarrow> within P view (ended (and_then m f))"
  by (rule within_and_then_got)

lemma within_lift_then: "(\<And>x. r = Inr x \<Longrightarrow> within P view (ended (f x))) \<Longrightarrow> within P view (ended (and_then (lift_result r) f))"
  by (cases r) (auto simp: within_def ended_def fail_with_def)

lemma within_after_got:
  "within P view m \<Longrightarrow> (\<And>x s s'. m s = Some (Inr x, s') \<Longrightarrow> within P view (f x)) \<Longrightarrow> within P view (descend_after m f)"
  unfolding within_def descend_after_def by (fastforce split: option.splits prod.splits sum.splits)

lemma within_call: "P c \<Longrightarrow> within P made (ended (checked f (mutating c m)))"
  by (auto simp: within_def ended_def checked_def mutating_def made_def Let_def split: prod.splits sum.splits)

lemma within_given [calls_within]: "within P view (given r)"
  by (simp add: within_def ended_def lift_result_def)

text \<open>The console\<close>

definition made_on :: "('o, 'h, 'w) traced console \<Rightarrow> ('o, 'h) mutation set" where
  "made_on c = made (fst c)"

lemma within_on_world [calls_within]: "within P made m \<Longrightarrow> within P made_on (on_world m)"
  by (fastforce simp: within_def on_world_def made_on_def split: option.splits prod.splits)

lemma within_print [calls_within]: "within P made_on (print_out o1)" "within P made_on (print_and_exit o1 code)"
  by (auto simp: within_def print_out_def print_and_exit_def ended_def made_on_def descend_after_def done_with_def
      split: option.splits prod.splits sum.splits)

lemma within_fail [calls_within]: "within P view (ended (fail_with e))" "within P view (ended (done_with x))"
  by (simp_all add: within_def ended_def fail_with_def done_with_def)

section \<open>Readers of the platform\<close>

text \<open>\<open>quiet\<close> for functions whose answer is not a result\<close>

definition still :: "('s \<Rightarrow> 'v) \<Rightarrow> ('s \<Rightarrow> 'a \<times> 's) \<Rightarrow> bool" where
  "still view m \<longleftrightarrow> (\<forall>s r s'. m s = (r, s') \<longrightarrow> view s' = view s)"

lemma stillD: "still view m \<Longrightarrow> m s = (r, s') \<Longrightarrow> view s' = view s"
  by (simp add: still_def)

lemma quiet_still: "quiet view m \<longleftrightarrow> still view m"
  unfolding quiet_def still_def by (metis prod.collapse snd_conv)

lemma still_beside [simp]: "still snd (beside m)"
  by (auto simp: still_def beside_def Let_def split: prod.splits)

lemma besideD: "beside m s = (r, s') \<Longrightarrow> snd s' = snd s"
  using stillD[OF still_beside] .

lemma traced_log_reads [simp]:
  "ev_open_session (traced_api v) a b c = beside (ev_open_session v a b c)"
  "ev_query (traced_api v) k l m n = beside (ev_query v k l m n)"
  "ev_next (traced_api v) h i = beside (ev_next v h i)"
  "ev_render_size (traced_api v) h f = beside (ev_render_size v h f)"
  "ev_render (traced_api v) h f z = beside (ev_render v h f z)"
  "ev_format_size (traced_api v) h h' = beside (ev_format_size v h h')"
  "ev_format (traced_api v) h h' z = beside (ev_format v h h' z)"
  "ev_open_metadata (traced_api v) k l = beside (ev_open_metadata v k l)"
  "ev_create_bookmark (traced_api v) o1 = beside (ev_create_bookmark v o1)"
  "ev_update_bookmark (traced_api v) h h' = beside (ev_update_bookmark v h h')"
  "ev_seek (traced_api v) h h' = beside (ev_seek v h h')"
  "ev_open_config (traced_api v) k l = beside (ev_open_config v k l)"
  "ev_get_enabled (traced_api v) h = beside (ev_get_enabled v h)"
  by (simp_all add: traced_api_def)

lemma traced_connection_reads [simp]:
  "sv_connect (traced_service v) a b c d = beside (sv_connect v a b c d)"
  "sv_target_server (traced_service v) = beside (sv_target_server v)"
  "sv_connected_user (traced_service v) = beside (sv_connected_user v)"
  "sv_connected_domain (traced_service v) = beside (sv_connected_domain v)"
  "sv_highest_version (traced_service v) = beside (sv_highest_version v)"
  "sv_new_task (traced_service v) = beside (sv_new_task v)"
  "sv_set_xml_text (traced_service v) x t = beside (sv_set_xml_text v x t)"
  by (simp_all add: traced_service_def)

lemma quiet_render_fragment [quiet_reading]: "quiet snd (render_fragment (traced_api v) h f)"
proof -
  have rest: "snd s' = snd s" if "and_then (checked e (beside m)) (\<lambda>x. lift_result (g x)) s = (r, s')"
    for e m g s r s' using quietD[OF quiet_and_then[OF quiet_beside quiet_lift] that] .
  show ?thesis unfolding quiet_still still_def render_fragment_def
    by (auto simp: Let_def split: prod.splits if_splits sum.splits dest!: besideD rest)
qed

lemma quiet_format_message [quiet_reading]: "quiet snd (format_event_message (traced_api v) h h')"
proof -
  have rest: "snd s' = snd s" if "and_then (checked e (beside m)) (\<lambda>x. lift_result (g x)) s = (r, s')"
    for e m g s r s' using quietD[OF quiet_and_then[OF quiet_beside quiet_lift] that] .
  show ?thesis unfolding quiet_still still_def format_event_message_def
    by (auto simp: Let_def split: prod.splits if_splits sum.splits dest!: besideD rest)
qed

lemma quiet_next_events [quiet_reading]: "quiet snd (next_events (traced_api v) query n)"
  unfolding quiet_still still_def next_events_def
  by (auto simp: Let_def split: prod.splits if_splits sum.splits dest!: besideD)

lemma quiet_next_event: "quiet (snd \<circ> fst) (next_event (traced_api v) env result_set provider)"
  unfolding quiet_still still_def next_event_def render_event_xml_def
  by (auto split: prod.splits if_splits sum.splits list.splits option.splits
      dest!: quietD[OF quiet_next_events] quietD[OF quiet_render_fragment] quietD[OF quiet_format_message])

lemma quiet_scan_loop: "quiet view next \<Longrightarrow> quiet view (scan_loop query wanted handle next limit c found)"
proof (induction limit arbitrary: wanted handle c found)
  case (Suc limit)
  then have got: "next s = (r, s') \<Longrightarrow> view s' = view s" for s r s' using quietD by metis
  have loop: "scan_loop query wanted handle next limit c found s = (r, s') \<Longrightarrow> view s' = view s"
    for wanted handle c found s r s'
    using quietD[OF Suc.IH[OF Suc.prems]] .
  show ?case unfolding quiet_still still_def
    by (auto simp: Let_def split: prod.splits if_splits sum.splits option.splits dest!: got loop)
qed (simp add: quiet_def)

lemma quiet_open_event_session [quiet_reading]: "quiet snd (open_event_session (traced_api v) t i pw)"
  by (simp add: open_event_session_def quiet_beside)

lemma quiet_client_history [quiet_reading]:
  "quiet snd (query_inner (traced_api v) env timestamp access query exact)"
proof -
  have scan: "scan_history query exact n (next_event (traced_api v) env result_set provider) s = (r, s') \<Longrightarrow>
      snd (fst s') = snd (fst s)" for n result_set provider s r s'
    using quietD[OF quiet_scan_loop[OF quiet_next_event]] by (fastforce simp: scan_history_def Let_def)
  have rest: "quiet snd (\<lambda>w.
      let (metadata, w) = checked e (beside m) w;
          provider = (case metadata of Inr m \<Rightarrow> Some m | Inl _ \<Rightarrow> None);
          (r, (w, _)) = scan_history query exact n (next_event (traced_api v) env result_set provider) (w, [])
      in (r, w))" for e m n result_set
    unfolding quiet_still still_def
    by (auto simp: Let_def split: prod.splits sum.splits dest!: quietD[OF quiet_beside] scan)
  show ?thesis unfolding query_inner_def Let_def[of "case hq_limit query of Some n \<Rightarrow> n | None \<Rightarrow> DEFAULT_LIMIT"]
    using rest by (auto intro!: quiet_and_then quiet_reading)
qed

text \<open>Pages\<close>

lemma quiet_read_page:
  assumes "\<And>c. quiet view (ps_seek src c)" "\<And>n. quiet view (ps_next src n)" "\<And>h. quiet view (ps_render src h)"
    "\<And>h. quiet view (ps_bookmark src h)"
  shows "quiet view (read_page src query cur)"
proof -
  have "quiet view (read_events src query handles cur events)" for handles cur events
    by (induction handles arbitrary: cur events) (auto simp: Let_def intro!: quiet_and_then assms)
  moreover have "quiet view (check_anchor src cur)"
    by (auto simp: check_anchor_def intro!: quiet_and_then assms split: option.splits list.splits)
  ultimately show ?thesis unfolding read_page_def by (auto intro!: quiet_and_then assms split: prod.splits)
qed

lemma quiet_access_page [quiet_reading]: "quiet snd (access_page (traced_api v) env timestamp access query cur)"
  unfolding access_page_def
  by (auto simp: native_page_source_def render_event_xml_def intro!: quiet_and_then quiet_read_page quiet_reading)

text \<open>Connecting and describing\<close>

lemma quiet_connection_info [quiet_reading]: "quiet snd (connection_info (traced_session S))"
  unfolding connection_info_def by (auto intro!: quiet_and_then quiet_reading)

lemma quiet_probe_log [quiet_reading]: "quiet snd (probe_log (traced_api v) access)"
  unfolding probe_log_def by (auto intro!: quiet_and_then quiet_reading)

lemma quiet_capabilities [quiet_reading]: "quiet snd (capabilities (traced_session S) (traced_api v) access)"
proof -
  have "quiet snd (\<lambda>w. let (probed, w) = probe_log (traced_api v) access w in (Inr (f probed), w))" for f
    unfolding quiet_still still_def by (auto simp: Let_def split: prod.splits dest!: quietD[OF quiet_probe_log])
  then show ?thesis unfolding capabilities_def Let_def
    by (auto intro!: quiet_and_then quiet_reading)
qed

lemma quiet_log_enabled [quiet_reading]: "quiet snd (log_enabled (traced_api v) access)"
  unfolding log_enabled_def by (auto intro!: quiet_and_then quiet_reading split: prod.splits)

lemma quiet_validate_task [quiet_reading]: "quiet snd (validate_task (traced_session S) d)"
  unfolding validate_task_def Let_def by (auto intro!: quiet_and_then quiet_reading)

lemma quiet_normalize_definition [quiet_reading]: "quiet snd (normalize_definition (traced_session S) d)"
  unfolding normalize_definition_def connected_principal_def by (auto intro!: quiet_and_then quiet_reading)

lemma still_doctor_tail:
  assumes "\<And>s r s'. f s = (r, s') \<Longrightarrow> snd s' = snd s" "\<And>s r s'. g s = (r, s') \<Longrightarrow> snd s' = snd s"
  shows "quiet snd (\<lambda>w. let (root, w) = f w; (enabled, w) = g w in (Inr (h root enabled), w))"
  unfolding quiet_still still_def by (auto simp: Let_def split: prod.splits dest!: assms)

lemma quiet_doctor [quiet_reading]: "quiet snd (doctor (traced_session S) (traced_api v) access)"
  unfolding doctor_def Let_def
  by (intro quiet_and_then quiet_connection_info quiet_capabilities, rule still_doctor_tail[unfolded Let_def])
    (auto dest: quietD[OF quiet_open_folder] quietD[OF quiet_log_enabled])

text \<open>A client of the traced platform\<close>

definition traced_client :: "('o, 'h, 'w) platform \<Rightarrow> ('o, 'h, ('o, 'h, 'w) traced) client \<Rightarrow> bool" where
  "traced_client P C \<longleftrightarrow> (\<exists>S. cl_session C = traced_session S \<and> ss_service S = pf_service P \<and> ss_xml S = pf_xml P)
     \<and> cl_api C = traced_api (pf_api P)"

lemma traced_platform_fields [simp]:
  "pf_service (traced_platform P) = traced_service (pf_service P)" "pf_api (traced_platform P) = traced_api (pf_api P)"
  "pf_initialize (traced_platform P) = beside (pf_initialize P)" "pf_create (traced_platform P) = beside (pf_create P)"
  "pf_clock (traced_platform P) = traced_clock (pf_clock P)"
  "pf_read_credential (traced_platform P) t = beside (pf_read_credential P t)"
  "pf_read_file (traced_platform P) f = beside (pf_read_file P f)"
  "pf_logging (traced_platform P) = beside (pf_logging P)"
  by (simp_all add: traced_platform_def)

lemma event_access_connect_still:
  "event_access_connect (traced_api v) target i pw s = (r, s') \<Longrightarrow> snd s' = snd s"
  by (auto simp: event_access_connect_def split: option.splits prod.splits sum.splits
      dest!: quietD[OF quiet_open_event_session])

lemma quiet_session_connect:
  "quiet snd (session_connect (traced_service svc) xml ut (beside initialize) (beside create) (traced_api v) target credential policy)"
proof -
  have "quiet snd (\<lambda>w. let (access, w) = event_access_connect (traced_api v) target i pw w in (Inr (f access), w))" for i pw f
    unfolding quiet_still still_def by (auto simp: Let_def split: prod.splits dest!: event_access_connect_still)
  then show ?thesis unfolding session_connect_def Let_def
    by (auto intro!: quiet_and_then quiet_beside quiet_proxy)
qed

lemma session_connect_traced:
  assumes "session_connect (traced_service svc) xml ut initialize create api target credential policy s = (Inr (S, access), s')"
  shows "S = traced_session \<lparr>ss_service = svc, ss_target = target, ss_policy = policy, ss_xml = xml, ss_uuid_text = ut\<rparr>"
  using assms unfolding session_connect_def Let_def
  by (auto simp: traced_session_def elim!: and_then_cases split: prod.splits)

lemma quiet_scheduler_connect: "quiet snd (scheduler_connect (traced_platform P) b)"
proof -
  have "snd s' = snd s" if "scheduler_connect (traced_platform P) b s = (r, s')" for s r s'
    using that unfolding scheduler_connect_def traced_platform_fields
  proof (cases rule: and_then_cases)
    case (1 e)
    then show ?thesis by (auto dest: quietD[OF quiet_session_connect])
  next
    case (2 x u)
    obtain S access where x: "x = (S, access)" by fastforce
    obtain S0 where S: "S = traced_session S0" using 2(1) session_connect_traced unfolding x by blast
    have "snd u = snd s" using 2(1) by (auto dest: quietD[OF quiet_session_connect])
    moreover have "snd s' = snd u"
      using 2(2) unfolding x S prod.case by (rule quietD[OF quiet_and_then[OF quiet_connection_info quiet_done]])
    ultimately show ?thesis by simp
  qed
  then show ?thesis by (auto simp: quiet_still still_def)
qed

lemma scheduler_connect_traced:
  "scheduler_connect (traced_platform P) b s = (Inr C, s') \<Longrightarrow> traced_client P C"
  unfolding scheduler_connect_def traced_platform_fields
  by (auto elim!: and_then_cases dest!: session_connect_traced simp: done_with_def traced_client_def traced_platform_def[THEN arg_cong[of _ _ pf_xml]]
      split: prod.splits)

lemma quiet_read_credential [quiet_reading]:
  "quiet snd (read_credential_manager (pf_read_credential (traced_platform P)) target)"
  "quiet snd (password_from_manager (pf_read_credential (traced_platform P)) target)"
  unfolding password_from_manager_def read_credential_manager_def
  by (auto intro!: quiet_and_then quiet_reading)

lemma quiet_connection_builder [quiet_reading]: "quiet snd (connection_builder (traced_platform P) opts t c)"
  unfolding connection_builder_def Let_def
  by (auto intro!: quiet_and_then quiet_reading split: option.splits)

lemma quiet_cli_connect [quiet_reading]: "quiet snd (cli_connect (traced_platform P) opts t c)"
  unfolding cli_connect_def by (intro quiet_and_then quiet_connection_builder quiet_scheduler_connect)

lemma cli_connect_traced: "cli_connect (traced_platform P) opts t c s = (Inr C, s') \<Longrightarrow> traced_client P C"
  unfolding cli_connect_def by (auto elim!: and_then_cases dest: scheduler_connect_traced)

lemma quiet_read_file [quiet_reading]: "quiet snd (read_file (traced_platform P) path)"
  unfolding quiet_still still_def read_file_def by (auto split: prod.splits sum.splits dest!: besideD)

lemma quiet_load_manifest [quiet_reading]: "quiet snd (load_manifest (traced_platform P) file format)"
  unfolding load_manifest_def by (auto intro!: quiet_and_then quiet_reading)

lemma quiet_native_reports: "traced_client P C \<Longrightarrow> quiet snd (native_reports C ts)"
  by (induction ts) (auto simp: traced_client_def intro!: quiet_and_then quiet_reading)

lemma quiet_plan_live:
  assumes "traced_client P C"
  shows "quiet snd (plan_live ut (client_normalizer C) (client_backend C) m opts)"
proof -
  obtain S where S: "cl_session C = traced_session S" using assms by (auto simp: traced_client_def)
  have "quiet snd (nz_definition (client_normalizer C) d)" "quiet snd (nz_security (client_normalizer C) x y)" for d x y
    by (simp_all add: client_normalizer_def S normalize_security_def quiet_normalize_definition)
  then have "quiet snd (normalize_manifest (client_normalizer C) m)"
    unfolding normalize_manifest_def normalize_task_def normalize_folder_def normalize_descriptor_def
    by (auto intro!: quiet_and_then quiet_collect split: option.splits)
  then show ?thesis unfolding plan_live_def client_backend_def S
    by (intro quiet_and_then native.quiet_inspect quiet_lift)
qed

section \<open>Waiting changes nothing\<close>

lemma wait_round_still:
  assumes "\<And>q. still view (ob_history ob q)" "still view (ob_running ob)" "\<And>p. still view (ob_last_result ob p)"
    "still view (ob_elapsed ob)" "\<And>n s. view (ob_sleep ob n s) = view s"
    and "wait_round ut ob h opts cancelled started_at st w = (r, w')"
  shows "view w' = view w"
proof -
  note D = assms(1-4)[THEN stillD]
  have history: "probe_history ob h opts st w = (r, w') \<Longrightarrow> view w' = view w" for st w r w'
    by (auto simp: probe_history_def split: if_splits prod.splits sum.splits option.splits dest!: D)
  have running: "probe_running ob h st w = (r, w') \<Longrightarrow> view w' = view w" for st w r w'
    by (auto simp: probe_running_def Let_def split: if_splits prod.splits sum.splits dest!: D)
  have grace: "grace_over ob opts st w = (r, w') \<Longrightarrow> view w' = view w" for st w r w'
    by (auto simp: grace_over_def split: if_splits prod.splits option.splits dest!: D)
  have fall: "fall_back ob h st w = (r, w') \<Longrightarrow> view w' = view w" for st w r w'
    by (auto simp: fall_back_def split: prod.splits sum.splits dest!: D)
  have paused: "view (pause ob opts w) = view w" for w
    by (auto simp: pause_def assms(5) split: prod.splits dest!: D)
  show ?thesis using assms(6) unfolding wait_round_def
    by (auto simp: paused split: if_splits prod.splits sum.splits bool.splits option.splits
        dest!: D(4) history running grace fall)
qed

lemma quiet_wait_for_run:
  assumes "traced_client P C"
  shows "quiet_descent snd (wait_for_run C (traced_clock k) h opts cancelled)"
proof -
  obtain S v where C: "cl_session C = traced_session S" "cl_api C = traced_api v" using assms by (auto simp: traced_client_def)
  let ?ob = "live_observer C (traced_clock k)"
  have ob: "still snd (ob_history ?ob q)" "still snd (ob_running ?ob)" "still snd (ob_last_result ?ob p)"
    "still snd (ob_elapsed ?ob)" "still snd (ob_now ?ob)" "snd (ob_sleep ?ob n s) = snd s" for q p n s
    by (auto simp: live_observer_def client_history_def C traced_clock_def quiet_still[symmetric] quiet_running_tasks
        split: prod.splits intro!: quiet_and_then quiet_reading)
  have loop: "snd w' = snd w" if "wait_loop ut ?ob h opts cancelled t st w = Some (r, w')" for ut t st w r w'
  proof -
    have "\<exists>u x. snd x = snd w \<and> wait_round ut ?ob h opts cancelled t u x = (Inl r, w')"
      using that unfolding wait_loop_def
      by (rule run_loop_rule[where I = "\<lambda>_ x. snd x = snd w"])
        (use wait_round_still[of snd ?ob, OF ob(1,2,3,4,6)] in fastforce)+
    then show ?thesis using wait_round_still[of snd ?ob, OF ob(1,2,3,4,6)] by metis
  qed
  show ?thesis unfolding quiet_descent_def wait_for_run_def observe_run_def
    by (auto split: if_splits prod.splits dest!: loop stillD[OF ob(5)])
qed

section \<open>What a command names\<close>

text \<open>An instance among the running ones, by its GUID\<close>

definition listed_instance :: "('o, 'w) com_service \<Rightarrow> 'o \<Rightarrow> 'o \<Rightarrow> bool" where
  "listed_instance svc collection running \<longleftrightarrow> (\<exists>n w w'. sv_item svc collection n w = (Inr running, w'))"

definition named_instance :: "('o, 'w) com_service \<Rightarrow> xml_env \<Rightarrow> uuid \<Rightarrow> 'o \<Rightarrow> bool" where
  "named_instance svc xml i running \<longleftrightarrow> (\<exists>units text w w'. sv_instance_guid svc running w = (Inr units, w')
     \<and> utf16_text units = Inr text \<and> env_uuid xml (trim_braces text) = Inr i)"

definition opened_instance :: "('o, 'w) com_service \<Rightarrow> xml_env \<Rightarrow> uuid \<Rightarrow> 'o \<Rightarrow> bool" where
  "opened_instance svc xml i running \<longleftrightarrow>
     (\<exists>collection w w'. sv_get_running_tasks svc TASK_ENUM_HIDDEN w = (Inr collection, w')
        \<and> listed_instance svc collection running)
     \<and> named_instance svc xml i running"

text \<open>The configuration of the Task Scheduler's operational log\<close>

definition opened_log :: "('h, 'w) evt_api \<Rightarrow> 'h \<Rightarrow> bool" where
  "opened_log api config \<longleftrightarrow> (\<exists>session w w'. ev_open_config api session OPERATIONAL_CHANNEL w = (Inr config, w'))"

section \<open>The calls of each operation\<close>

lemma traced_calls [simp]:
  "sv_create_folder (traced_service v) x n o1 = mutating (Created_Folder x n o1) (sv_create_folder v x n o1)"
  "sv_delete_folder (traced_service v) x n = mutating (Deleted_Folder x n) (sv_delete_folder v x n)"
  "sv_delete_task (traced_service v) x n = mutating (Deleted_Task x n) (sv_delete_task v x n)"
  "sv_register_task (traced_service v) x n t f u p l o1
     = mutating (Registered_Task x n t f u p l o1) (sv_register_task v x n t f u p l o1)"
  "sv_set_security (traced_service v) x t f = mutating (Wrote_Security x t f) (sv_set_security v x t f)"
  "sv_set_enabled (traced_service v) x e = mutating (Switched x e) (sv_set_enabled v x e)"
  "sv_run (traced_service v) x vs = mutating (Ran x vs) (sv_run v x vs)"
  "sv_run_ex (traced_service v) x vs f i t = mutating (Ran_Ex x vs f i t) (sv_run_ex v x vs f i t)"
  "sv_stop (traced_service v) x = mutating (Halted x) (sv_stop v x)"
  "ev_set_enabled (traced_api a) h b = mutating (Switched_Log h b) (ev_set_enabled a h b)"
  "ev_save_config (traced_api a) h = mutating (Saved_Log h) (ev_save_config a h)"
  by (simp_all add: traced_service_def traced_api_def)

lemma within_native:
  "P c \<Longrightarrow> within P made (ended (native_for operation target (mutating c m)))"
  "P c \<Longrightarrow> within P made (ended (native_op S operation (mutating c m)))"
  by (simp_all add: native_for_def native_op_def within_call)

lemmas quiet_within = quiet_reading [THEN within_quiet]

lemmas within_operation = within_and_then within_native within_call within_fail quiet_within

lemma within_delete_task:
  assumes "\<And>folder. opened_folder (ss_service S) (task_folder path) folder \<Longrightarrow> P (Deleted_Task folder (task_name path))"
  shows "within P made (ended (delete_task (traced_session S) path))"
  unfolding delete_task_def
  by (rule within_and_then_got[OF quiet_open_folder[THEN within_quiet]])
    (auto intro!: within_native assms dest: open_folder_opened)

lemma within_set_enabled:
  assumes "\<And>task. opened_task (ss_service S) path task \<Longrightarrow> P (Switched task e)"
  shows "within P made (ended (set_task_enabled (traced_session S) path e))"
  unfolding set_task_enabled_def
  by (rule within_and_then_got[OF quiet_open_task[THEN within_quiet]])
    (auto intro!: within_native assms dest: open_task_opened)

lemma within_stop_all:
  assumes "\<And>task. opened_task (ss_service S) path task \<Longrightarrow> P (Halted task)"
  shows "within P made (ended (stop_all (traced_session S) path))"
  unfolding stop_all_def
  by (rule within_and_then_got[OF quiet_open_task[THEN within_quiet]])
    (auto intro!: within_native assms dest: open_task_opened)

lemma quiet_running_instance [quiet_reading]: "quiet snd (running_instance_id (traced_session S) running)"
  unfolding running_instance_id_def by (auto intro!: quiet_and_then quiet_reading)

lemma quiet_running_item [quiet_reading]: "quiet snd (running_item (traced_session S) collection i)"
  unfolding running_item_def by (simp add: quiet_reading)

lemma bstr_beside: "bstr_string (beside m) operation s = (Inr text, s') \<Longrightarrow>
    \<exists>units w w'. m w = (Inr units, w') \<and> utf16_text units = Inr text"
  by (auto simp: bstr_string_def and_then_Inr checked_def beside_def lift_result_def bstr_to_string_def map_err_iff Let_def
      split: prod.splits sum.splits)

lemma running_instance_named:
  "running_instance_id (traced_session S) running s = (Inr i, s') \<Longrightarrow> named_instance (ss_service S) (ss_xml S) i running"
  by (auto simp: running_instance_id_def named_instance_def and_then_Inr lift_result_def map_err_iff dest!: bstr_beside)

lemma within_stop_loop:
  assumes "\<And>running. listed_instance (ss_service S) collection running \<Longrightarrow> named_instance (ss_service S) (ss_xml S) i running
      \<Longrightarrow> P (Halted running)"
  shows "within P made (ended (stop_loop (traced_session S) collection i is))"
proof (induction "is")
  case (Cons n "is")
  show ?case unfolding stop_loop.simps
  proof (rule within_and_then_got[OF quiet_running_item[THEN within_quiet]], rule within_and_then[OF quiet_proxied[THEN within_quiet]],
      rule within_and_then_got[OF quiet_running_instance[THEN within_quiet]], goal_cases)
    case (1 running s s' x found t t')
    have "listed_instance (ss_service S) collection running"
      using 1(1) by (auto simp: running_item_def native_beside_ok listed_instance_def)
    then show ?case using running_instance_named[OF 1(2)] Cons by (auto intro!: within_native assms)
  qed
qed (simp add: within_fail)

lemma within_stop_instance:
  assumes "\<And>running. opened_instance (ss_service S) (ss_xml S) i running \<Longrightarrow> P (Halted running)"
  shows "within P made (ended (stop_instance (traced_session S) i))"
  unfolding stop_instance_def
proof (rule within_and_then_got, goal_cases)
  case 1
  show ?case unfolding running_collection_def by (auto intro!: within_operation quiet_within)
next
  case (2 c s s')
  then have "\<exists>w w'. sv_get_running_tasks (ss_service S) TASK_ENUM_HIDDEN w = (Inr (fst c), w')"
    by (auto simp: running_collection_def and_then_Inr native_beside_ok done_with_def) (blast intro: exI)
  then show ?case
    by (cases c) (auto intro!: within_stop_loop assms simp: opened_instance_def, blast)
qed

lemma within_create_folder:
  assumes "\<And>folder parent n. folder_parent path = Some parent \<Longrightarrow> opened_folder (ss_service S) parent folder \<Longrightarrow>
      folder_name path = Some n \<Longrightarrow> P (Created_Folder folder n (map_option as_sddl security))"
  shows "within P made (ended (create_folder (traced_session S) path security))"
proof (cases "folder_parent path"; cases "folder_name path")
  fix parent n
  assume path: "folder_parent path = Some parent" "folder_name path = Some n"
  show ?thesis unfolding create_folder_def path option.case prod.case
  proof (rule within_and_then_got[OF quiet_open_folder[THEN within_quiet]], goal_cases)
    case (1 folder s s')
    then show ?case using open_folder_opened[OF 1] assms path by (auto intro!: within_operation)
  qed
qed (simp_all add: create_folder_def within_fail)

lemma within_delete_folder:
  assumes "\<And>folder parent n. folder_parent path = Some parent \<Longrightarrow> opened_folder (ss_service S) parent folder \<Longrightarrow>
      folder_name path = Some n \<Longrightarrow> P (Deleted_Folder folder n)"
  shows "within P made (ended (delete_folder (traced_session S) path))"
proof (cases "folder_parent path"; cases "folder_name path")
  fix parent n
  assume path: "folder_parent path = Some parent" "folder_name path = Some n"
  show ?thesis unfolding delete_folder_def path option.case prod.case
  proof (rule within_and_then_got[OF quiet_open_folder[THEN within_quiet]], goal_cases)
    case (1 folder s s')
    then show ?case using open_folder_opened[OF 1] assms path by (auto intro!: within_operation)
  qed
qed (simp_all add: delete_folder_def within_fail)

lemma within_write_security:
  assumes "quiet snd reader" and "\<And>d. canonical_sddl (ss_service S) desired scope = Inr d \<Longrightarrow> within P made (ended (saver d))"
  shows "within P made (ended (write_security (traced_session S) desired scope reader saver))"
  unfolding write_security_def traced_fields canonical_traced
proof (rule within_lift_then, goal_cases)
  case (1 d)
  show ?case unfolding within_def
  proof (intro allI impI)
    fix s r s'
    obtain q u where q: "current_sddl (traced_session S) scope reader s = (q, u)" by (metis prod.collapse)
    then have u: "snd u = snd s"
      unfolding current_sddl_def by (rule quietD[OF quiet_and_then[OF assms(1) quiet_lift]])
    assume "ended (\<lambda>w. let (current, w) = current_sddl (traced_session S) scope reader w
       in and_then (lift_result (security_write_required current d))
            (\<lambda>required. if \<not> required then done_with () else saver d) w) s = Some (r, s')"
    then have "ended (and_then (lift_result (security_write_required q d))
        (\<lambda>required. if \<not> required then done_with () else saver d)) u = Some (r, s')"
      using q by (simp add: ended_def)
    moreover have "within P made (ended (and_then (lift_result (security_write_required q d))
        (\<lambda>required. if \<not> required then done_with () else saver d)))"
      using assms(2)[OF 1] by (auto intro!: within_operation)
    ultimately have "made s' \<subseteq> made u \<union> Collect P" unfolding within_def by blast
    then show "made s' \<subseteq> made s \<union> Collect P" using u by (simp add: made_def)
  qed
qed

lemma within_set_folder_security:
  assumes "\<And>folder c. opened_folder (ss_service S) path folder \<Longrightarrow> canonical_sddl (ss_service S) d scope = Inr c \<Longrightarrow>
      P (Wrote_Security folder (as_sddl c) 0)"
  shows "within P made (ended (set_folder_security (traced_session S) path d scope))"
  unfolding set_folder_security_def
proof (rule within_write_security[OF quiet_folder_security], goal_cases)
  case (1 c)
  then show ?case
    by (intro within_and_then_got[OF quiet_open_folder[THEN within_quiet]])
      (auto intro!: within_native assms dest: open_folder_opened)
qed

lemma within_set_log:
  assumes "\<And>config. opened_log v config \<Longrightarrow> P (Switched_Log config e) \<and> P (Saved_Log config)"
  shows "within P made (ended (set_log_enabled (traced_api v) access e))"
  unfolding set_log_enabled_def
proof (rule within_lift_then, rule within_and_then_got, goal_cases)
  case (1 session)
  show ?case by (simp add: quiet_within)
next
  case (2 session config s s')
  then have "opened_log v config"
    by (auto simp: opened_log_def checked_def beside_def Let_def split: prod.splits sum.splits)
  then show ?case using assms by (auto intro!: within_operation)
qed

lemma within_with_stage: "within P view (ended m) \<Longrightarrow> within P view (ended (with_stage stage m))"
  unfolding within_def ended_def with_stage_def by (fastforce simp: Let_def split: prod.splits)

lemma within_register_raw:
  assumes "\<And>folder d text. opened_folder (ss_service S) (task_folder path) folder \<Longrightarrow> may_register S xml logon opts d text \<Longrightarrow>
      P (registration_call folder path text d logon opts)"
  shows "within P made (ended (register_raw (traced_session S) path xml logon opts))"
proof -
  have "within P made (ended (register_raw_commit (traced_session S) path xml logon opts))"
    unfolding register_raw_commit_def traced_fields
  proof (rule within_lift_then, goal_cases)
    case (1 d)
    show ?case
    proof (cases "report_is_valid (validate_definition d) \<and> \<not> password_needed logon opts")
      case False
      then show ?thesis by (auto intro!: within_operation)
    next
      case True
      have call: "P (Registered_Task folder (task_name path) (without_declaration t) (registration_flags opts)
          (native_user (pr_identity (td_principal d))) (map_option password_units (ro_password opts))
          (native_logon_type logon) (map_option as_sddl (ri_security_descriptor (td_registration d))))"
        if "open_folder (traced_session S) (task_folder path) s = (Inr folder, s')" "raw_decoded xml = Inr t" for folder t s s'
        using assms[OF open_folder_opened[OF that(1)], of d t] True 1 that(2)
        by (simp add: may_register_def registration_call_def)
      have "within P made (ended (and_then (open_folder (traced_session S) (task_folder path)) (\<lambda>folder.
        and_then (lift_result (raw_decoded xml)) (\<lambda>t.
        and_then (native_for ''register task'' (task_str path)
          (sv_register_task (traced_service (ss_service S)) folder (task_name path) (without_declaration t) (registration_flags opts)
            (native_user (pr_identity (td_principal d))) (map_option password_units (ro_password opts))
            (native_logon_type logon) (map_option as_sddl (ri_security_descriptor (td_registration d)))))
          (\<lambda>registered. with_stage ''configure_returned_proxy'' (proxied (traced_session S) registered))))))"
        by (rule within_and_then_got[OF quiet_open_folder[THEN within_quiet]], rule within_lift_then)
          (auto intro!: within_operation within_with_stage call)
      then show ?thesis using True by simp
    qed
  qed
  then show ?thesis unfolding register_raw_def
    by (intro within_and_then within_with_stage quiet_within)
qed

lemma within_start_run:
  fixes P :: "('o, 'h) mutation \<Rightarrow> bool" and S :: "('o, 'w) session"
  assumes "\<And>session. session_argument (rn_session_id opts) = Inr session \<Longrightarrow> P (run_call task opts session)"
  shows "within P made (ended (start_run (traced_session S) path opts task))"
  unfolding within_def ended_def
proof (intro allI impI)
  fix s s' :: "('o, 'h, 'w) traced" and r
  assume "Some (start_run (traced_session S) path opts task s) = Some (r, s')"
  then have "start_run (traced_session S) path opts task (fst s, snd s) = (r, fst s', snd s')" by simp
  then show "made s' \<subseteq> made s \<union> Collect P"
    by (rule start_run_calls) (use assms in \<open>auto simp: made_def\<close>)
qed

lemma within_run_task:
  assumes "\<And>task session. opened_task (ss_service S) path task \<Longrightarrow> session_argument (rn_session_id opts) = Inr session \<Longrightarrow>
      P (run_call task opts session)"
  shows "within P made (ended (run_task (traced_session S) path opts))"
proof (cases "length (rn_parameters opts) \<le> MAX_RUN_ARGUMENTS")
  case False
  then show ?thesis by (simp add: run_task_def within_fail Let_def)
next
  case True
  show ?thesis unfolding run_task_parts[OF True]
    by (intro within_and_then_got[OF quiet_open_task[THEN within_quiet]])
      (auto intro!: within_operation within_quiet[OF quiet_report_run] within_start_run assms dest!: open_task_opened)
qed

section \<open>The permitted calls of a command\<close>

definition register_permits :: "('o, 'h, 'w) platform \<Rightarrow> register_args \<Rightarrow> ('o, 'h) mutation \<Rightarrow> bool" where
  "register_permits P a m \<longleftrightarrow> ra_yes a \<and>
     (\<exists>bytes w w' xml d text folder pw. pf_read_file P (ra_xml a) w = (Inr bytes, w')
        \<and> raw_new (env_reader (pf_xml P)) (env_unescape (pf_xml P)) bytes = Inr xml
        \<and> raw_definition (pf_xml P) xml = Inr d \<and> report_is_valid (validate_definition d) \<and> raw_decoded xml = Inr text
        \<and> opened_folder (pf_service P) (task_folder (ra_path a)) folder
        \<and> m = registration_call folder (ra_path a) text d (pr_logon_type (td_principal d))
            (registration_options_default\<lparr>ro_mode := registration_mode_of (ra_mode a),
               ro_ignore_registration_triggers := \<not> ra_allow_registration_triggers a, ro_password := pw\<rparr>))"

definition run_permits :: "('o, 'h, 'w) platform \<Rightarrow> run_args \<Rightarrow> ('o, 'h) mutation \<Rightarrow> bool" where
  "run_permits P a m \<longleftrightarrow>
     (\<exists>task. opened_task (pf_service P) (ua_path a) task \<and>
        m = (if ua_ignore_constraints a then Ran_Ex task (ua_parameters a) 2 0 [] else Ran task (ua_parameters a)))"

definition stop_permits :: "('o, 'h, 'w) platform \<Rightarrow> task_path option \<Rightarrow> uuid option \<Rightarrow> ('o, 'h) mutation \<Rightarrow> bool" where
  "stop_permits P path i m \<longleftrightarrow>
     (\<exists>object. m = Halted object \<and>
        (case (path, i) of
           (Some p, None) \<Rightarrow> opened_task (pf_service P) p object
         | (None, Some i) \<Rightarrow> opened_instance (pf_service P) (pf_xml P) i object
         | _ \<Rightarrow> False))"

definition task_permits :: "('o, 'h, 'w) platform \<Rightarrow> task_command \<Rightarrow> ('o, 'h) mutation \<Rightarrow> bool" where
  "task_permits P c m =
     (case c of
        Task_Register a \<Rightarrow> register_permits P a m
      | Task_Delete path yes \<Rightarrow> yes \<and>
          (\<exists>folder. opened_folder (pf_service P) (task_folder path) folder \<and> m = Deleted_Task folder (task_name path))
      | Task_Enable path \<Rightarrow> (\<exists>task. opened_task (pf_service P) path task \<and> m = Switched task True)
      | Task_Disable path \<Rightarrow> (\<exists>task. opened_task (pf_service P) path task \<and> m = Switched task False)
      | Task_Run a \<Rightarrow> run_permits P a m
      | Task_Stop path i \<Rightarrow> stop_permits P path i m
      | _ \<Rightarrow> False)"

text \<open>The parent of a folder, opened, and its name in it\<close>

definition parent_opened :: "('o, 'h, 'w) platform \<Rightarrow> folder_path \<Rightarrow> 'o \<Rightarrow> string \<Rightarrow> bool" where
  "parent_opened P path folder n \<longleftrightarrow> folder_name path = Some n
     \<and> (\<exists>parent. folder_parent path = Some parent \<and> opened_folder (pf_service P) parent folder)"

definition folder_permits :: "('o, 'h, 'w) platform \<Rightarrow> folder_command \<Rightarrow> ('o, 'h) mutation \<Rightarrow> bool" where
  "folder_permits P c m =
     (case c of
        Folder_Create path sddl \<Rightarrow> (\<exists>folder n. parent_opened P path folder n \<and> m = Created_Folder folder n sddl)
      | Folder_Delete path yes \<Rightarrow> yes \<and> (\<exists>folder n. parent_opened P path folder n \<and> m = Deleted_Folder folder n)
      | Folder_Set_Security path sddl yes \<Rightarrow> yes \<and>
          (\<exists>folder c. opened_folder (pf_service P) path folder
             \<and> canonical_sddl (pf_service P) (SecurityDescriptor sddl) SI_DACL = Inr c
             \<and> m = Wrote_Security folder (as_sddl c) 0)
      | _ \<Rightarrow> False)"

definition history_permits :: "('o, 'h, 'w) platform \<Rightarrow> history_command \<Rightarrow> ('o, 'h) mutation \<Rightarrow> bool" where
  "history_permits P c m =
     (case c of
        History_Enable yes \<Rightarrow> yes \<and> (\<exists>config. opened_log (pf_api P) config \<and> m \<in> {Switched_Log config True, Saved_Log config})
      | History_Disable yes \<Rightarrow> yes \<and> (\<exists>config. opened_log (pf_api P) config \<and> m \<in> {Switched_Log config False, Saved_Log config})
      | _ \<Rightarrow> False)"

text \<open>\<open>apply --yes\<close> may do what its plan says; what that is follows from the properties of plans and applies.\<close>

definition permitted :: "('o, 'h, 'w) platform \<Rightarrow> command \<Rightarrow> ('o, 'h) mutation \<Rightarrow> bool" where
  "permitted P c m =
     (case c of
        Task t \<Rightarrow> task_permits P t m | Folder f \<Rightarrow> folder_permits P f m | History h \<Rightarrow> history_permits P h m
      | Apply a \<Rightarrow> aa_yes a | _ \<Rightarrow> False)"

section \<open>Commands\<close>

lemma within_once_quiet: "quiet snd m \<Longrightarrow> within P made_on (once m)"
  by (intro within_on_world within_quiet)

lemma within_connected:
  assumes "\<And>C. traced_client Q C \<Longrightarrow> within P made_on (f C)"
  shows "within P made_on (descend_after (once (cli_connect (traced_platform Q) opts t c)) f)"
proof -
  have "within P made_on (once (cli_connect (traced_platform Q) opts t c))" by (rule within_once_quiet[OF quiet_cli_connect])
  then show ?thesis using assms cli_connect_traced[of Q opts t c]
    unfolding within_def descend_after_def on_world_def ended_def
    by (auto split: option.splits prod.splits sum.splits) blast
qed

lemma within_confirmed:
  "(yes \<Longrightarrow> within P view (f ())) \<Longrightarrow> within P view (descend_after (given (require_yes yes operation)) f)"
  by (auto simp: within_def descend_after_def require_yes_def lift_result_def ended_def)

lemma within_then_done [calls_within]: "within P made_on m \<Longrightarrow> within P made_on (then_done m)"
  unfolding then_done_def by (intro calls_within)

lemma within_answering [calls_within]:
  "within P made (ended m) \<Longrightarrow> within P made (answering f m)"
  "within P made d \<Longrightarrow> within P made (answering_deep f d)"
  unfolding answering_def answering_deep_def by (intro within_descend within_after within_fail; assumption)+

lemma within_lists [calls_within]:
  "within P made (list_folders depth (traced_session S) path recursive)"
  "within P made (list_tasks depth (traced_session S) path opts)"
  unfolding list_folders_def list_tasks_def
  by (intro within_quiet_descent quiet_list_folders_into quiet_list_tasks_into)+

lemma on_world_got: "once m c = Some (Inr x, c') \<Longrightarrow> \<exists>s s'. m s = (Inr x, s')"
  by (auto simp: on_world_def ended_def split: prod.splits)

lemma within_given_after:
  "(\<And>x. r = Inr x \<Longrightarrow> within P view (f x)) \<Longrightarrow> within P view (descend_after (given r) f)"
  by (cases r) (auto simp: within_def descend_after_def lift_result_def ended_def)

lemma read_file_got:
  "read_file (traced_platform Q) path s = (Inr bytes, s') \<Longrightarrow> \<exists>w w'. pf_read_file Q path w = (Inr bytes, w')"
  by (auto simp: read_file_def beside_def Let_def split: prod.splits sum.splits)

lemma traced_platform_xml [simp]: "pf_xml (traced_platform Q) = pf_xml Q"
  by (simp add: traced_platform_def)

lemma within_register:
  assumes "ra_yes a" and "traced_client Q C"
  shows "within (task_permits Q (Task_Register a)) made_on (register_command (traced_platform Q) C a)"
proof -
  obtain S where S: "cl_session C = traced_session S" "ss_service S = pf_service Q" "ss_xml S = pf_xml Q"
    using assms(2) by (auto simp: traced_client_def)
  have pw: "quiet snd (registration_password (traced_platform Q) logon credential)" for logon credential
    unfolding registration_password_def by (auto intro!: quiet_and_then quiet_reading)
  have "within (task_permits Q (Task_Register a)) made_on
    (descend_after (once (read_file (traced_platform Q) (ra_xml a))) (\<lambda>bytes.
     descend_after (given (raw_new (env_reader (pf_xml Q)) (env_unescape (pf_xml Q)) bytes)) (\<lambda>raw.
     descend_after (given (raw_definition (pf_xml Q) raw)) (\<lambda>d.
       let logon = pr_logon_type (td_principal d) in
       descend_after (once (registration_password (traced_platform Q) logon (ra_registration_credential a))) (\<lambda>pw.
       descend_after (once (register_raw (cl_session C) (ra_path a) raw logon
         (registration_options_default\<lparr>ro_mode := registration_mode_of (ra_mode a),
            ro_ignore_registration_triggers := \<not> ra_allow_registration_triggers a, ro_password := pw\<rparr>))) (\<lambda>t.
       descend_after (given (registered_task_json t False)) (\<lambda>(d, xml). print_out (Printed_Task t d xml))))))))"
  proof (rule within_after_got[OF within_once_quiet[OF quiet_read_file]], rule within_given_after, rule within_given_after, goal_cases)
    case (1 bytes c c' raw d)
    obtain w w' where bytes: "pf_read_file Q (ra_xml a) w = (Inr bytes, w')"
      using on_world_got[OF 1(1)] read_file_got by blast
    have call: "task_permits Q (Task_Register a) (registration_call folder (ra_path a) t d' (pr_logon_type (td_principal d))
        (registration_options_default\<lparr>ro_mode := registration_mode_of (ra_mode a),
            ro_ignore_registration_triggers := \<not> ra_allow_registration_triggers a, ro_password := pw\<rparr>))"
      if "opened_folder (ss_service S) (task_folder (ra_path a)) folder"
        "may_register S raw (pr_logon_type (td_principal d)) opts d' t" for folder t d' pw opts
      using that assms(1) 1(2,3) bytes S unfolding task_permits_def register_permits_def may_register_def
      by (auto, blast)
    show ?case unfolding Let_def S(1)
      by (intro calls_within within_register_raw pw[THEN within_quiet] call) (auto simp: within_print split: prod.splits)
  qed
  then show ?thesis unfolding register_command_def traced_platform_xml
    by (intro within_after[OF within_given])
qed

lemma within_run:
  assumes "traced_client Q C"
  shows "within (task_permits Q (Task_Run a)) made_on (run_command (traced_platform Q) C a)"
proof -
  obtain S where S: "cl_session C = traced_session S" "ss_service S = pf_service Q" using assms by (auto simp: traced_client_def)
  have call: "task_permits Q (Task_Run a) (run_call x (run_options_of a) session)"
    if "opened_task (ss_service S) (ua_path a) x" "session_argument (rn_session_id (run_options_of a)) = Inr session" for x session
    using that S(2)
    by (auto simp: task_permits_def run_permits_def run_call_def run_options_of_def extended_run_def session_argument_def
        run_ex_flags_sum)
  have wait: "within P made (wait_for_run C (traced_clock k) h opts c)" for P k h opts c
    by (rule within_quiet_descent[OF quiet_wait_for_run[OF assms]])
  show ?thesis unfolding run_command_def S(1)
    by (auto intro!: calls_within within_run_task call wait)
qed

lemma within_stop:
  assumes "traced_client Q C"
  shows "within (task_permits Q (Task_Stop path i)) made_on (stop_command C path i)"
proof -
  obtain S where S: "cl_session C = traced_session S" "ss_service S = pf_service Q" "ss_xml S = pf_xml Q"
    using assms by (auto simp: traced_client_def)
  show ?thesis
    by (cases path; cases i)
      (auto simp: S task_permits_def stop_permits_def within_def[where m = "\<lambda>w. None"]
        intro!: calls_within within_stop_all within_stop_instance)
qed

lemma within_task_action:
  assumes "traced_client Q C"
  shows "within (task_permits Q c) made_on (task_action (traced_platform Q) C c)"
proof -
  obtain S where S: "cl_session C = traced_session S" "ss_service S = pf_service Q" using assms by (auto simp: traced_client_def)
  show ?thesis
  proof (cases c)
    case (Task_Register a)
    then show ?thesis using within_register[OF _ assms]
      by (cases "ra_yes a") (simp_all add: register_command_def require_yes_def descend_after_def within_def ended_def lift_result_def)
  qed (auto simp: S task_permits_def intro!: calls_within within_confirmed within_run[OF assms] within_stop[OF assms]
      within_delete_task within_set_enabled quiet_within quiet_running_tasks[THEN within_quiet] split: prod.splits)
qed

lemma sddl_argument_text: "sddl_argument t = Inr d \<Longrightarrow> as_sddl d = t"
  by (auto simp: sddl_argument_def descriptor_text_def from_sddl_def split: if_splits)

lemma within_folder_action:
  assumes "traced_client Q C"
  shows "within (folder_permits Q c) made_on (folder_action C c)"
proof -
  obtain S where S: "cl_session C = traced_session S" "ss_service S = pf_service Q" using assms by (auto simp: traced_client_def)
  show ?thesis
  proof (cases c)
    case (Folder_Create path sddl)
    have security: "map_option as_sddl d = sddl"
      if "(case sddl of None \<Rightarrow> Inr None | Some t \<Rightarrow> bind_ok (sddl_argument t) (\<lambda>d. Inr (Some d))) = Inr d" for d
      using that by (auto simp: bind_ok_iff sddl_argument_text split: option.splits)
    show ?thesis unfolding Folder_Create folder_action.simps
      by (intro within_given_after calls_within)
        (auto simp: S folder_permits_def parent_opened_def security intro!: calls_within within_create_folder)
  next
    case (Folder_Set_Security path sddl yes)
    have same: "SecurityDescriptor sddl = d" if "sddl_argument sddl = Inr d" for d
      using sddl_argument_text[OF that] by (cases d) simp
    show ?thesis unfolding Folder_Set_Security folder_action.simps
      by (intro within_confirmed within_given_after calls_within)
        (auto simp: S folder_permits_def dest!: same intro!: calls_within within_set_folder_security)
  qed (auto simp: S folder_permits_def parent_opened_def intro!: calls_within within_confirmed within_delete_folder quiet_within)
qed

lemma within_watch:
  assumes "traced_client Q C"
  shows "within P made_on (watch_command (traced_platform Q) C task i n)"
proof -
  obtain v where v: "cl_api C = traced_api v" using assms by (auto simp: traced_client_def)
  have slept: "snd (ck_sleep (traced_clock k) d s) = snd s" for k d s
    by (cases s) (simp add: traced_clock_def)
  have step: "snd (fst c') = snd (fst c)" if "watch_round C (traced_clock k) query interval cur c = (r, c')" for k query interval cur c r c'
    using that unfolding watch_round_def client_page_def v
    by (auto simp: slept split: prod.splits sum.splits if_splits dest!: quietD[OF quiet_access_page])
  have loop: "within P made_on (run_loop (watch_round C (traced_clock k) query interval) cur)" for k query interval cur
    unfolding within_def
  proof (intro allI impI)
    fix c r c'
    assume "run_loop (watch_round C (traced_clock k) query interval) cur c = Some (r, c')"
    then have "\<exists>t u. snd (fst u) = snd (fst c) \<and> watch_round C (traced_clock k) query interval t u = (Inl r, c')"
      by (rule run_loop_rule[where I = "\<lambda>_ u. snd (fst u) = snd (fst c)"]) (use step in fastforce)+
    then have "snd (fst c') = snd (fst c)" using step by metis
    then show "made_on c' \<subseteq> made_on c \<union> Collect P" by (simp add: made_on_def made_def)
  qed
  have start: "quiet snd (\<lambda>w. case ck_now (traced_clock k) w of (now, w) \<Rightarrow> (f now, w))" for k f
    by (auto simp: quiet_still still_def traced_clock_def split: prod.splits dest!: besideD)
  show ?thesis unfolding watch_command_def traced_platform_fields
    by (intro within_after within_once_quiet start loop)
qed

lemma within_history_action:
  assumes "traced_client Q C"
  shows "within (history_permits Q c) made_on (history_action (traced_platform Q) C c)"
proof -
  obtain S where C: "cl_session C = traced_session S" "cl_api C = traced_api (pf_api Q)" using assms by (auto simp: traced_client_def)
  have since: "quiet snd (\<lambda>w. case query_of (traced_platform Q) a w of (query, w) \<Rightarrow> (Inr query, w))" for a
    by (auto simp: quiet_still still_def query_of_def traced_clock_def Let_def split: prod.splits option.splits dest!: besideD)
  show ?thesis
    by (cases c) (auto simp: C set_history_def client_history_def history_permits_def
        intro!: calls_within within_confirmed within_watch[OF assms] within_set_log quiet_within since[THEN within_quiet])
qed

lemma still_diagnose:
  "quiet snd m \<Longrightarrow> still snd (diagnose target m)"
proof -
  assume "quiet snd m"
  then have "m s = (r, s') \<Longrightarrow> snd s' = snd s" for s r s' using quietD by metis
  then show ?thesis unfolding still_def diagnose_def by (auto split: prod.splits sum.splits)
qed

lemma quiet_connected_doctor:
  "quiet snd (and_then (scheduler_connect (traced_platform P) b) (\<lambda>C. doctor (cl_session C) (cl_api C) (cl_access C)))"
  unfolding quiet_still still_def
proof (intro allI impI)
  fix s r s'
  assume "and_then (scheduler_connect (traced_platform P) b) (\<lambda>C. doctor (cl_session C) (cl_api C) (cl_access C)) s = (r, s')"
  then show "snd s' = snd s"
  proof (cases rule: and_then_cases)
    case (1 e)
    then show ?thesis by (auto dest: quietD[OF quiet_scheduler_connect])
  next
    case (2 C u)
    then obtain S v where C: "cl_session C = traced_session S" "cl_api C = traced_api v"
      using scheduler_connect_traced by (fastforce simp: traced_client_def)
    have "snd u = snd s" using 2(1) by (auto dest: quietD[OF quiet_scheduler_connect])
    moreover have "snd s' = snd u" using 2(2) unfolding C by (rule quietD[OF quiet_doctor])
    ultimately show ?thesis by simp
  qed
qed

lemma within_doctor: "within P made_on (doctor_command (traced_platform Q) (traced_writer save) connection directory)"
proof -
  have builder: "snd u = snd s" if "connection_builder (traced_platform Q) connection None None s = (x, u)" for s x u
    using that by (rule quietD[OF quiet_connection_builder])
  have diagnosed: "snd u = snd s" if "scheduler_diagnose (traced_platform Q) b s = (x, u)" for b s x u
    using that unfolding scheduler_diagnose_def by (rule stillD[OF still_diagnose[OF quiet_connected_doctor]])
  have report: "snd s' = snd s" if "doctor_report (traced_platform Q) connection s = (r, s')" for s r s'
  proof -
    obtain x u where b: "connection_builder (traced_platform Q) connection None None s = (x, u)" by (metis prod.collapse)
    show ?thesis using that diagnosed builder[OF b] by (cases x) (auto simp: doctor_report_def b)
  qed
  have saved: "snd s' = snd s" if "save_bundle (traced_writer save) connection directory rep s = (r, s')" for rep s r s'
    using that by (auto simp: save_bundle_def traced_writer_def split: option.splits prod.splits sum.splits dest!: besideD)
  have "quiet snd (\<lambda>w. let (report, w) = doctor_report (traced_platform Q) connection w;
                            (report, w) = save_bundle (traced_writer save) connection directory report w
                        in (Inr report, w))"
    by (auto simp: quiet_still still_def Let_def split: prod.splits dest!: report saved)
  then show ?thesis unfolding doctor_command_def by (intro calls_within within_once_quiet)
qed

lemma within_validate: "within P made_on (validate_command (traced_platform Q) connection file format native)"
  unfolding validate_command_def Let_def
  by (auto intro!: calls_within within_connected quiet_load_manifest[THEN within_quiet] quiet_native_reports[THEN within_quiet])

lemma within_plan: "within P made_on (plan_command (traced_platform Q) connection file format prune adopt stop)"
  unfolding plan_command_def Let_def
  by (auto intro!: calls_within within_connected quiet_load_manifest[THEN within_quiet] quiet_plan_live[THEN within_quiet])

lemma within_all: "within (\<lambda>_. True) view m"
  by (simp add: within_def)

lemma within_apply: "within (\<lambda>m. aa_yes a) made_on (apply_command P connection a)"
  unfolding apply_command_def by (rule within_confirmed) (simp add: within_all)

lemma within_command:
  "within (permitted P c) made_on (run_cli (traced_platform P) (traced_writer save) connection c)"
proof (cases c)
  case Capabilities
  then show ?thesis
    by (auto simp: traced_client_def intro!: calls_within within_connected quiet_within)
next
  case (Task t)
  then show ?thesis unfolding permitted_def
    by (auto simp: run_task_command_def intro!: within_connected within_then_done within_task_action)
next
  case (Folder f)
  then show ?thesis unfolding permitted_def
    by (auto simp: run_folder_command_def intro!: within_connected within_then_done within_folder_action)
next
  case (History h)
  then show ?thesis unfolding permitted_def
    by (auto simp: run_history_command_def intro!: within_connected within_then_done within_history_action)
next
  case (Apply a)
  then show ?thesis using within_apply[of a] unfolding permitted_def by simp
qed (auto intro: within_validate within_doctor within_plan)

text \<open>C10. A run of the command line makes only the mutating calls of its command, on what the command names:
  enabling, disabling, running and stopping act on a task that the service gives out for the given path, and
  stopping an instance on the running one with that GUID; deletions, registrations and folder creations act in the
  opened parent folder under the path's last name; a folder's descriptor is written to the folder of the path, as
  the canonical form of the given one; history is switched in the configuration of the scheduler's own log. Flags
  and arguments are those of the command line, a registration's text is that of the given file, valid, and where
  the command asks for \<open>--yes\<close> nothing is called without it. The commands that read make no mutating call. An
  \<open>apply\<close> with \<open>--yes\<close> is not restricted here but by the properties of plans and of applying them.\<close>

theorem cli_changes_permitted:
  assumes "cli_main (traced_platform P) (traced_writer save) args ((w, []), []) = Some (code, ((w', calls), out))"
  shows "\<forall>(call, ok) \<in> set calls. permitted P (cli_command args) call"
proof -
  let ?run = "run_cli (traced_platform P) (traced_writer save) (cli_connection args) (cli_command args)"
  obtain r w1 where logged: "pf_logging (traced_platform P) (w, []) = (r, w1, [])"
    by (metis besideD prod.collapse snd_conv traced_platform_fields(8))
  have "fst ` set calls \<subseteq> Collect (permitted P (cli_command args))"
  proof (cases r)
    case (Inl e)
    then show ?thesis using assms logged by (simp add: cli_main_def report_failure_def)
  next
    case (Inr u)
    then obtain r' o1 where "?run ((w1, []), []) = Some (r', (w', calls), o1)"
      using assms logged
      by (auto simp: cli_main_def report_failure_def split: option.splits prod.splits sum.splits)
    then show ?thesis using within_command[of P "cli_command args" save "cli_connection args"]
      unfolding within_def made_on_def made_def by fastforce
  qed
  then show ?thesis by auto
qed

text \<open>A platform on the sample tree, whose event log refuses every call\<close>

definition closed_api :: "(unit, 'w) evt_api" where
  "closed_api =
     \<lparr>ev_open_session = (\<lambda>a b c. refused), ev_query = (\<lambda>a b c d. refused), ev_next = (\<lambda>a b w. ((Inr (), []), w)),
      ev_render_size = (\<lambda>a b w. ((Inr (), 0), w)), ev_render = (\<lambda>a b c. refused),
      ev_format_size = (\<lambda>a b w. ((Inr (), 0), w)), ev_format = (\<lambda>a b c. refused),
      ev_open_metadata = (\<lambda>a b. refused), ev_create_bookmark = (\<lambda>a. refused), ev_update_bookmark = (\<lambda>a b. refused),
      ev_seek = (\<lambda>a b. refused), ev_open_config = (\<lambda>a b. refused), ev_get_enabled = (\<lambda>a. refused),
      ev_set_enabled = (\<lambda>a b. refused), ev_save_config = (\<lambda>a. refused)\<rparr>"

definition sample_platform :: "(string, unit, unit) platform" where
  "sample_platform =
     \<lparr>pf_service = tree_service sample_kids, pf_api = closed_api, pf_initialize = answers (), pf_create = answers (),
      pf_clock = \<lparr>ck_elapsed = (\<lambda>w. (0, w)), ck_now = (\<lambda>w. (0, w)), ck_sleep = (\<lambda>n w. w)\<rparr>,
      pf_read_credential = (\<lambda>t. refused), pf_read_file = (\<lambda>f w. (Inl ''no files'', w)), pf_xml = sample_env,
      pf_events = \<lparr>ee_reader = env_reader sample_env, ee_unescape = env_unescape sample_env, ee_uuid = env_uuid sample_env,
        ee_timestamp = (\<lambda>t. Inl ''''), ee_epoch_add = (\<lambda>d. None), ee_epoch_sub = (\<lambda>d. None)\<rparr>,
      pf_timestamp = (\<lambda>t. None), pf_uuid_text = sample_uuid, pf_decode = (\<lambda>f bytes. Inl ([], [])),
      pf_since = (\<lambda>t s. None), pf_logging = (\<lambda>w. (Inr (), w)), pf_depth = 9\<rparr>"

definition sample_cli :: "command \<Rightarrow> cli" where
  "sample_cli c = \<lparr>cli_connection = \<lparr>ca_computer = None, ca_connection_credential = None\<rparr>, cli_command = c\<rparr>"

definition cli_task :: task_path where
  "cli_task = TaskPath (bslash # ''A'' @ bslash # ''T'')"

definition sample_cli_run :: "command \<Rightarrow> (exit_code \<times> (string, unit, unit) traced console) option" where
  "sample_cli_run c = cli_main (traced_platform sample_platform) (traced_writer (\<lambda>d b w. (Inr (), w))) (sample_cli c) (((), []), [])"

lemma sample_enable:
  "sample_cli_run (Task (Task_Enable cli_task)) =
    Some (0, ((), [(Switched ''T'' True, True)]), [Printed_Enabled cli_task True])"
  by code_simp

lemma cli_changes_permitted_witness:
  "(\<exists>code w out. sample_cli_run (Task (Task_Enable cli_task)) = Some (code, (w, [(Switched ''T'' True, True)]), out))
    \<and> permitted sample_platform (Task (Task_Enable cli_task)) (Switched ''T'' True)"
  using cli_changes_permitted[OF sample_enable[unfolded sample_cli_run_def]] sample_enable by (simp add: sample_cli_def)

end
