(* ===== verification/Exit_Codes.thy ===== *)
theory Exit_Codes
  imports Command_Safety
begin

text \<open>
  What the exit code of a command says about the document that it printed.
\<close>

section \<open>Outputs of a command\<close>

text \<open>A failing computation has printed nothing; a result comes with the new outputs.\<close>

definition ends :: "('a \<Rightarrow> cli_output list \<Rightarrow> bool) \<Rightarrow> ('w console, 'a) descent \<Rightarrow> bool" where
  "ends Q m \<longleftrightarrow> (\<forall>w out r w' out'. m (w, out) = Some (r, w', out') \<longrightarrow>
     (case r of Inl e \<Rightarrow> out' = out | Inr x \<Rightarrow> (\<exists>printed. out' = out @ printed \<and> Q x printed)))"

abbreviation silent :: "('w console, 'a) descent \<Rightarrow> bool" where
  "silent \<equiv> ends (\<lambda>_ printed. printed = [])"

definition yields :: "('a \<Rightarrow> bool) \<Rightarrow> ('w, 'a) descent \<Rightarrow> bool" where
  "yields Q m \<longleftrightarrow> (\<forall>w x w'. m w = Some (Inr x, w') \<longrightarrow> Q x)"

named_theorems output_rules

lemma silent_once [output_rules]: "silent (on_world m)"
  by (auto simp: ends_def on_world_def split: option.splits prod.splits sum.splits)

lemma silent_given [output_rules]: "silent (given r)"
  by (auto simp: ends_def ended_def lift_result_def split: sum.splits)

lemma ends_after [output_rules]: "silent m \<Longrightarrow> (\<And>x. ends Q (f x)) \<Longrightarrow> ends Q (descend_after m f)"
  unfolding ends_def descend_after_def by (fastforce split: option.splits prod.splits sum.splits)

lemma ends_exit: "Q code [o1] \<Longrightarrow> ends Q (print_and_exit o1 code)"
  by (simp add: ends_def print_and_exit_def print_out_def descend_after_def ended_def done_with_def)

lemma yields_after: "(\<And>x. yields Q (f x)) \<Longrightarrow> yields Q (descend_after m f)"
  by (fastforce simp: yields_def descend_after_def split: option.splits prod.splits sum.splits)

lemma yields_exit: "Q code \<Longrightarrow> yields Q (print_and_exit o1 code)" "Q SUCCESS \<Longrightarrow> yields Q (then_done m)"
  unfolding print_and_exit_def then_done_def
  by (rule yields_after; simp add: yields_def ended_def done_with_def)+

section \<open>Exit codes\<close>

definition exit_matches :: "command \<Rightarrow> exit_code \<Rightarrow> cli_output list \<Rightarrow> bool" where
  "exit_matches c code out =
     (case c of
        Validate file format native \<Rightarrow>
          (case out of
             [Printed_Report report] \<Rightarrow> code = (if report_is_valid report then 0 else 2)
           | [Printed_Reports report reports] \<Rightarrow>
               native \<and> report_is_valid report \<and> code = (if list_all (report_is_valid \<circ> snd) reports then 0 else 2)
           | [Printed_Failure e] \<Rightarrow> code = 1
           | _ \<Rightarrow> False)
      | Doctor directory \<Rightarrow>
          (case out of
             [Printed_Diagnostics report] \<Rightarrow> code = (if is_healthy report then 0 else 2)
           | [Printed_Failure e] \<Rightarrow> code = 1
           | _ \<Rightarrow> False)
      | Plan file format prune adopt stop_running \<Rightarrow>
          (case out of
             [Printed_Plan p] \<Rightarrow> code = (if plan_is_empty p then 0 else 2)
           | _ \<Rightarrow> code = 1 \<and> out = [])
      | Apply a \<Rightarrow>
          (case out of
             [Printed_Apply result] \<Rightarrow> aa_yes a \<and> code = (if is_ok result then 0 else 1)
           | [Printed_Failure e] \<Rightarrow> code = 1
           | _ \<Rightarrow> False)
      | _ \<Rightarrow> code \<le> 1)"

fun says_outcome :: "command \<Rightarrow> bool" where
  "says_outcome (Plan file format prune adopt stop_running) = True"
| "says_outcome c = structured_failure c"

lemma ends_command:
  assumes "says_outcome c"
  shows "ends (exit_matches c) (run_cli P save connection c)"
proof -
  have applied: "ends (exit_matches (Apply a)) (apply_command P connection a)" for a
  proof (cases "aa_yes a")
    case True
    then show ?thesis unfolding apply_command_def print_apply_result_def
      by (intro output_rules ends_exit) (auto simp: exit_matches_def SUCCESS_def split: sum.split)
  next
    case False
    then show ?thesis
      by (simp add: apply_command_def require_yes_def ends_def descend_after_def ended_def lift_result_def)
  qed
  have validate: "ends (exit_matches (Validate file format native)) (validate_command P connection file format native)"
    for "file" format native unfolding validate_command_def Let_def
    by (auto intro!: output_rules ends_exit simp: exit_matches_def SUCCESS_def)
  have doctor: "ends (exit_matches (Doctor d)) (doctor_command P save connection d)" for d
    unfolding doctor_command_def by (intro output_rules ends_exit) (simp add: exit_matches_def SUCCESS_def)
  have plan: "ends (exit_matches (Plan file format prune adopt stop)) (plan_command P connection file format prune adopt stop)"
    for "file" format prune adopt stop unfolding plan_command_def Let_def
    by (intro output_rules ends_exit) (simp add: exit_matches_def SUCCESS_def)
  show ?thesis using assms by (cases c) (simp_all add: applied validate doctor plan)
qed

lemma yields_command:
  assumes "\<not> says_outcome c"
  shows "yields (\<lambda>code. code \<le> 1) (run_cli P save connection c)"
  using assms
  by (cases c) (auto simp: run_task_command_def run_folder_command_def run_history_command_def SUCCESS_def
      intro!: yields_after yields_exit)

text \<open>C36. The exit code tells what the printed document says. 0 is a valid manifest, a healthy scheduler, an
  empty plan or a completed apply, 2 is a refused manifest, an unhealthy scheduler or a plan with changes, and 1
  is a failure, with an error report on the commands that promise one and nothing printed by a failed plan.\<close>

theorem exit_code_tells:
  assumes "cli_main P save args (w, []) = Some (code, (w', out))"
  shows "exit_matches (cli_command args) code out"
proof -
  let ?c = "cli_command args"
  have failed: "exit_matches ?c 1 (if structured_failure ?c then [Printed_Failure e] else out)"
    if "out = [] \<or> \<not> says_outcome ?c" for e out
    using that by (cases ?c) (auto simp: exit_matches_def)
  obtain r w1 where logged: "pf_logging P w = (r, w1)" by (metis prod.collapse)
  show ?thesis
  proof (cases r)
    case (Inl e)
    then show ?thesis using assms logged failed[of "[]" "Inl e"] by (auto simp: cli_main_def report_failure_def)
  next
    case (Inr u)
    with assms logged obtain q out1 where run: "run_cli P save (cli_connection args) ?c (w1, []) = Some (q, w', out1)"
      and ended: "case q of Inr x \<Rightarrow> code = x \<and> out = out1
        | Inl e \<Rightarrow> code = 1 \<and> out = (if structured_failure ?c then out1 @ [Printed_Failure (Inr e)] else out1)"
      by (auto simp: cli_main_def report_failure_def split: option.splits prod.splits sum.splits)
    show ?thesis
    proof (cases "says_outcome ?c")
      case True
      from ends_command[OF this, of P save "cli_connection args"] run
      have "case q of Inl e \<Rightarrow> out1 = [] | Inr x \<Rightarrow> exit_matches ?c x out1"
        unfolding ends_def by (cases q) (auto dest!: spec[of _ w1] spec[of _ "[]"])
      then show ?thesis using ended failed[of "[]"] by (auto split: sum.splits if_splits)
    next
      case False
      then have "yields (\<lambda>code. code \<le> 1) (run_cli P save (cli_connection args) ?c)" by (intro yields_command)
      then have "code \<le> 1" using run ended unfolding yields_def by (cases q) (auto dest!: spec[of _ code])
      then show ?thesis using False by (cases ?c) (auto simp: exit_matches_def)
    qed
  qed
qed

lemma sample_doctor:
  "case sample_cli_run (Doctor None) of
     Some (code, w, [Printed_Diagnostics report]) \<Rightarrow> code = 0 \<and> is_healthy report
   | _ \<Rightarrow> False"
  by code_simp

lemma exit_code_tells_witness:
  "\<exists>code w out. sample_cli_run (Doctor None) = Some (code, w, out) \<and> code = 0 \<and> exit_matches (Doctor None) code out"
proof -
  obtain code w out where run: "sample_cli_run (Doctor None) = Some (code, w, out)"
    using sample_doctor by (cases "sample_cli_run (Doctor None)") auto
  have "exit_matches (cli_command (sample_cli (Doctor None))) code out"
    by (rule exit_code_tells[OF run[unfolded sample_cli_run_def]])
  moreover have "code = 0" using sample_doctor unfolding run
    by (cases out rule: list.exhaust; cases "tl out") (auto split: cli_output.splits)
  ultimately show ?thesis using run by (cases w) (simp add: sample_cli_def)
qed

end
