(* ===== verification/Release.thy ===== *)
theory Release
  imports Ordered Errors
begin

text \<open>
  Uploading artifacts to a draft release (\<open>xtask/src/release.rs\<close>). The \<open>gh\<close> program, the files and the hash
  functions are parameters; a stream is the list of what its reads return.
\<close>

section \<open>Steps that may fail\<close>

text \<open>\<open>anyhow::Result\<close> of a step on the outside world; the error is its message.\<close>

type_synonym ('w, 'a) step = "'w \<Rightarrow> (message + 'a) \<times> 'w"

definition settled :: "message + 'a \<Rightarrow> ('w, 'a) step" where
  "settled r = (\<lambda>w. (r, w))"

definition chain :: "('w, 'a) step \<Rightarrow> ('a \<Rightarrow> ('w, 'b) step) \<Rightarrow> ('w, 'b) step" where
  "chain m f = (\<lambda>w. case m w of (Inl e, w) \<Rightarrow> (Inl e, w) | (Inr x, w) \<Rightarrow> f x w)"

definition ensure :: "bool \<Rightarrow> message \<Rightarrow> ('w, unit) step" where
  "ensure b msg = settled (if b then Inr () else Inl msg)"

text \<open>\<open>Context::context\<close>, as \<open>{:#}\<close> prints it\<close>

definition in_context :: "string \<Rightarrow> ('w, 'a) step \<Rightarrow> ('w, 'a) step" where
  "in_context text m = (\<lambda>w. case m w of (r, w) \<Rightarrow> (map_err (\<lambda>e. Lit text # Lit '': '' # e) r, w))"

section \<open>Releases and artifacts\<close>

record fingerprint =
  fp_size :: nat
  fp_digest :: string

type_synonym stream = "(message + string) list"

text \<open>\<open>Fingerprint::read\<close>: the size is checked to fit 64 bits, an empty read is the end.\<close>

fun fingerprint_loop :: "(string \<Rightarrow> string) \<Rightarrow> stream \<Rightarrow> nat \<Rightarrow> string \<Rightarrow> message + fingerprint" where
  "fingerprint_loop sha [] n data = Inr \<lparr>fp_size = n, fp_digest = sha data\<rparr>"
| "fingerprint_loop sha (Inl e # reads) n data = Inl e"
| "fingerprint_loop sha (Inr chunk # reads) n data =
     (if chunk = [] then Inr \<lparr>fp_size = n, fp_digest = sha data\<rparr>
      else if int (n + length chunk) < 2 ^ 64 then fingerprint_loop sha reads (n + length chunk) (data @ chunk)
      else Inl [Lit ''asset n overflow''])"

definition fingerprint_read :: "(string \<Rightarrow> string) \<Rightarrow> stream \<Rightarrow> message + fingerprint" where
  "fingerprint_read sha reads = fingerprint_loop sha reads 0 []"

record asset =
  as_id :: nat
  as_name :: string
  as_size :: nat
  as_digest :: "string option"
  as_state :: string

record release =
  rl_draft :: bool
  rl_tag_name :: string
  rl_assets :: "asset list"

record local_asset =
  la_path :: string
  la_fingerprint :: fingerprint

definition safe_component :: "string \<Rightarrow> bool" where
  "safe_component v \<longleftrightarrow> v \<noteq> [] \<and> \<not> starts_with ''.'' v \<and> \<not> starts_with ''-'' v
     \<and> list_all (\<lambda>b. is_ascii_alphanumeric b \<or> b \<in> set ''._-+'') v"

section \<open>The outside world\<close>

type_synonym exit_status = "bool \<times> string" \<comment> \<open>success, and its text\<close>

record 'w release_world =
  gh_json :: "string \<Rightarrow> ('w, exit_status \<times> (message + release)) step" \<comment> \<open>\<open>gh api --method GET\<close> and its decoded output\<close>
  gh_stream :: "string \<Rightarrow> ('w, stream) step" \<comment> \<open>the same, started with a pipe\<close>
  gh_kill :: "'w \<Rightarrow> 'w"
  gh_wait :: "('w, exit_status) step"
  gh_upload :: "string \<Rightarrow> string \<Rightarrow> string \<Rightarrow> ('w, exit_status) step" \<comment> \<open>\<open>gh release upload tag path --repo repo\<close>\<close>
  fs_entries :: "string \<Rightarrow> ('w, (message + string) list) step"
  fs_kind :: "string \<Rightarrow> ('w, bool \<times> bool) step" \<comment> \<open>whether it is a file, and a symbolic link\<close>
  fs_name :: "string \<Rightarrow> string option"
  fs_canonical :: "string \<Rightarrow> ('w, string) step"
  fs_open :: "string \<Rightarrow> ('w, stream) step"
  sha256 :: "string \<Rightarrow> string"
  hex_decode :: "string \<Rightarrow> message + string"

section \<open>Operations\<close>

definition release_metadata :: "'w release_world \<Rightarrow> string \<Rightarrow> string \<Rightarrow> ('w, release) step" where
  "release_metadata G repo tag =
     chain (in_context ''read draft metadata'' (gh_json G (''repos/'' @ repo @ ''/releases/tags/'' @ tag)))
       (\<lambda>((success, status), decoded).
     chain (ensure success [Lit ''draft metadata request failed: '', Dsp status]) (\<lambda>_.
     chain (in_context ''invalid draft metadata'' (settled decoded)) (\<lambda>release.
     chain (ensure (rl_draft release \<and> rl_tag_name release = tag) [Lit ''the exact target must be an unpublished draft''])
       (\<lambda>_. settled (Inr release)))))"

definition read_download :: "'w release_world \<Rightarrow> stream \<Rightarrow> ('w, fingerprint) step" where
  "read_download G reads w =
     (case fingerprint_read (sha256 G) reads of
        Inl e \<Rightarrow> (Inl e, snd (gh_wait G (gh_kill G w)))
      | Inr f \<Rightarrow>
          chain (in_context ''wait for asset download'' (gh_wait G)) (\<lambda>(success, status).
          chain (ensure success [Lit ''asset download failed: '', Dsp status]) (\<lambda>_. settled (Inr f))) w)"

definition downloaded_fingerprint :: "'w release_world \<Rightarrow> string \<Rightarrow> asset \<Rightarrow> ('w, fingerprint) step" where
  "downloaded_fingerprint G repo a =
     chain (in_context ''download legacy draft asset''
       (gh_stream G (''repos/'' @ repo @ ''/releases/assets/'' @ show_nat (as_id a)))) (read_download G)"

definition stated_fingerprint :: "'w release_world \<Rightarrow> asset \<Rightarrow> string \<Rightarrow> message + fingerprint" where
  "stated_fingerprint G a digest =
     bind_ok (ok_or [Lit ''unsupported remote digest algorithm''] (strip_prefix ''sha256:'' digest)) (\<lambda>encoded.
     bind_ok (map_err (\<lambda>e. Lit ''invalid remote SHA-256'' # Lit '': '' # e) (hex_decode G encoded)) (\<lambda>bytes.
       if length bytes = 32 then Inr \<lparr>fp_size = as_size a, fp_digest = bytes\<rparr>
       else Inl [Lit ''invalid remote SHA-256 length'']))"

definition actual_fingerprint :: "'w release_world \<Rightarrow> string \<Rightarrow> asset \<Rightarrow> ('w, fingerprint) step" where
  "actual_fingerprint G repo a =
     (case as_digest a of Some digest \<Rightarrow> settled (stated_fingerprint G a digest) | None \<Rightarrow> downloaded_fingerprint G repo a)"

fun missing_loop ::
  "'w release_world \<Rightarrow> string \<Rightarrow> bool \<Rightarrow> asset list \<Rightarrow> string list \<Rightarrow> (string, local_asset) btree
     \<Rightarrow> ('w, local_asset list) step" where
  "missing_loop G repo others [] names remaining = settled (Inr (map snd remaining))"
| "missing_loop G repo others (a # assets) names remaining =
     chain (ensure (as_name a \<notin> set names) [Lit ''duplicate remote asset name'']) (\<lambda>_.
     chain (ensure (as_state a = ''uploaded'') [Lit ''remote asset is incomplete'']) (\<lambda>_.
     case btree_get remaining (as_name a) of
       None \<Rightarrow> chain (ensure others [Lit ''unexpected remote asset'']) (\<lambda>_.
         missing_loop G repo others assets (as_name a # names) remaining)
     | Some expected \<Rightarrow>
         chain (ensure (as_size a = fp_size (la_fingerprint expected)) [Lit ''asset size mismatch: '', Dsp (as_name a)]) (\<lambda>_.
         chain (actual_fingerprint G repo a) (\<lambda>actual.
         chain (ensure (actual = la_fingerprint expected) [Lit ''asset digest mismatch: '', Dsp (as_name a)]) (\<lambda>_.
           missing_loop G repo others assets (as_name a # names) (btree_remove (as_name a) remaining))))))"

definition missing ::
  "'w release_world \<Rightarrow> release \<Rightarrow> (string, local_asset) btree \<Rightarrow> string \<Rightarrow> bool \<Rightarrow> ('w, local_asset list) step" where
  "missing G release local repo others = missing_loop G repo others (rl_assets release) [] local"

fun local_assets ::
  "'w release_world \<Rightarrow> string list \<Rightarrow> (string, local_asset) btree \<Rightarrow> ('w, (string, local_asset) btree) step" where
  "local_assets G [] local = settled (Inr local)"
| "local_assets G (path # paths) local =
     chain (fs_kind G path) (\<lambda>(file, symlink).
     chain (ensure (file \<and> \<not> symlink) [Lit ''artifact must be a regular file'']) (\<lambda>_.
     chain (settled (ok_or [Lit ''UTF-8 artifact name required''] (fs_name G path))) (\<lambda>name.
     chain (ensure (safe_component name) [Lit ''invalid artifact name'']) (\<lambda>_.
     chain (fs_canonical G path) (\<lambda>canonical.
     chain (fs_open G path) (\<lambda>reads.
     chain (settled (fingerprint_read (sha256 G) reads)) (\<lambda>f.
     chain (ensure (btree_get local name = None) [Lit ''duplicate local artifact name'']) (\<lambda>_.
       local_assets G paths (btree_insert name \<lparr>la_path = canonical, la_fingerprint = f\<rparr> local)))))))))"

fun upload_each :: "'w release_world \<Rightarrow> string \<Rightarrow> string \<Rightarrow> local_asset list \<Rightarrow> ('w, unit) step" where
  "upload_each G repo tag [] = settled (Inr ())"
| "upload_each G repo tag (a # plan) =
     chain (in_context ''upload missing draft asset'' (gh_upload G tag (la_path a) repo)) (\<lambda>(success, status).
     chain (ensure success [Lit ''draft asset upload failed: '', Dsp status]) (\<lambda>_. upload_each G repo tag plan))"

fun all_entries :: "(message + string) list \<Rightarrow> message + string list" where
  "all_entries [] = Inr []"
| "all_entries (e # es) = bind_ok e (\<lambda>path. bind_ok (all_entries es) (\<lambda>paths. Inr (path # paths)))"

definition upload_paths :: "'w release_world \<Rightarrow> string option \<Rightarrow> string list \<Rightarrow> ('w, string list) step" where
  "upload_paths G directory files =
     (case directory of
        None \<Rightarrow> settled (Inr files)
      | Some d \<Rightarrow> chain (in_context ''read local artifacts'' (fs_entries G d)) (\<lambda>entries.
          chain (settled (all_entries entries)) (\<lambda>paths. settled (Inr (files @ paths)))))"

definition verify_draft ::
  "'w release_world \<Rightarrow> string \<Rightarrow> string \<Rightarrow> bool \<Rightarrow> (string, local_asset) btree \<Rightarrow> ('w, unit) step" where
  "verify_draft G repo tag others local =
     chain (release_metadata G repo tag) (\<lambda>verified.
     chain (missing G verified local repo others) (\<lambda>rest.
       ensure (rest = []) [Lit ''draft asset set remains incomplete'']))"

definition publish_missing ::
  "'w release_world \<Rightarrow> string \<Rightarrow> string \<Rightarrow> bool \<Rightarrow> (string, local_asset) btree \<Rightarrow> ('w, unit) step" where
  "publish_missing G repo tag others local =
     chain (release_metadata G repo tag) (\<lambda>release.
     chain (missing G release local repo others) (\<lambda>plan.
     chain (upload_each G repo tag plan) (\<lambda>_. verify_draft G repo tag others local)))"

definition upload_draft ::
  "'w release_world \<Rightarrow> string \<Rightarrow> string \<Rightarrow> string option \<Rightarrow> string list \<Rightarrow> bool \<Rightarrow> ('w, unit) step" where
  "upload_draft G repo tag directory files others =
     (let components = split_on (CHR ''/'') repo in
      chain (ensure (length components = 2 \<and> list_all safe_component components) [Lit ''expected owner/repository'']) (\<lambda>_.
      chain (ensure (safe_component tag) [Lit ''invalid release tag'']) (\<lambda>_.
      chain (upload_paths G directory files) (\<lambda>paths.
      chain (ensure (paths \<noteq> []) [Lit ''at least one artifact is required'']) (\<lambda>_.
      chain (local_assets G paths []) (\<lambda>local.
        publish_missing G repo tag others local))))))"

section \<open>A logged world\<close>

text \<open>What the release service was asked and what it answered, in order.\<close>

datatype gh_event =
    Metadata string "message + exit_status \<times> (message + release)"
  | Streamed string "message + stream"
  | Uploaded string string string "message + exit_status"

fun is_upload :: "gh_event \<Rightarrow> bool" where
  "is_upload (Uploaded _ _ _ _) = True"
| "is_upload _ = False"

type_synonym 'w gh_log = "'w \<times> gh_event list"

definition unlogged :: "('w \<Rightarrow> 'a \<times> 'w) \<Rightarrow> 'w \<times> 'l list \<Rightarrow> 'a \<times> 'w \<times> 'l list" where
  "unlogged m = (\<lambda>(w, log). case m w of (r, w) \<Rightarrow> (r, w, log))"

definition noting :: "('a \<Rightarrow> gh_event) \<Rightarrow> ('w \<Rightarrow> 'a \<times> 'w) \<Rightarrow> 'w gh_log \<Rightarrow> 'a \<times> 'w gh_log" where
  "noting event m = (\<lambda>(w, log). case m w of (r, w) \<Rightarrow> (r, w, log @ [event r]))"

definition logged_world :: "'w release_world \<Rightarrow> 'w gh_log release_world" where
  "logged_world G =
     \<lparr>gh_json = (\<lambda>p. noting (Metadata p) (gh_json G p)), gh_stream = (\<lambda>p. noting (Streamed p) (gh_stream G p)),
      gh_kill = (\<lambda>(w, log). (gh_kill G w, log)), gh_wait = unlogged (gh_wait G),
      gh_upload = (\<lambda>tag path repo. noting (Uploaded tag path repo) (gh_upload G tag path repo)),
      fs_entries = (\<lambda>p. unlogged (fs_entries G p)), fs_kind = (\<lambda>p. unlogged (fs_kind G p)), fs_name = fs_name G,
      fs_canonical = (\<lambda>p. unlogged (fs_canonical G p)), fs_open = (\<lambda>p. unlogged (fs_open G p)),
      sha256 = sha256 G, hex_decode = hex_decode G\<rparr>"

lemma logged_pure [simp]:
  "fs_name (logged_world G) = fs_name G" "sha256 (logged_world G) = sha256 G" "hex_decode (logged_world G) = hex_decode G"
  by (simp_all add: logged_world_def)

text \<open>\<open>tracks m m'\<close>: on the logged world \<open>m'\<close> does what \<open>m\<close> does, and logs nothing.\<close>

definition tracks :: "('w, 'a) step \<Rightarrow> ('w gh_log, 'a) step \<Rightarrow> bool" where
  "tracks m m' \<longleftrightarrow> m' = unlogged m"

named_theorems tracking

lemma tracks_fields [tracking]:
  "tracks (fs_entries G p) (fs_entries (logged_world G) p)" "tracks (fs_kind G p) (fs_kind (logged_world G) p)"
  "tracks (fs_canonical G p) (fs_canonical (logged_world G) p)" "tracks (fs_open G p) (fs_open (logged_world G) p)"
  by (simp_all add: logged_world_def tracks_def)

lemma tracks_chain [tracking]:
  "tracks m m' \<Longrightarrow> (\<And>x. tracks (f x) (f' x)) \<Longrightarrow> tracks (chain m f) (chain m' f')"
  unfolding tracks_def by (rule ext) (auto simp: chain_def unlogged_def split: prod.splits sum.splits)

lemma tracks_settled [tracking]: "tracks (settled r) (settled r)" "tracks (ensure b msg) (ensure b msg)"
  by (auto simp: tracks_def settled_def ensure_def unlogged_def)

lemma tracks_context [tracking]: "tracks m m' \<Longrightarrow> tracks (in_context t m) (in_context t m')"
  unfolding tracks_def by (rule ext) (auto simp: in_context_def unlogged_def split: prod.splits)

lemma tracks_case [tracking]: "(\<And>a b. x = (a, b) \<Longrightarrow> tracks (f a b) (f' a b)) \<Longrightarrow> tracks (case_prod f x) (case_prod f' x)"
  by (cases x) simp

lemma tracks_local_assets [tracking]: "tracks (local_assets G paths local) (local_assets (logged_world G) paths local)"
proof (induction paths arbitrary: local)
  case (Cons path paths)
  show ?case unfolding local_assets.simps logged_pure by (intro tracking Cons)
qed (simp add: tracking)

lemma tracks_paths [tracking]: "tracks (upload_paths G d files) (upload_paths (logged_world G) d files)"
  unfolding upload_paths_def by (cases d) (auto intro!: tracking)

lemma tracksD: "tracks m m' \<Longrightarrow> m' (w, log) = (r, (w', log')) \<longleftrightarrow> m w = (r, w') \<and> log' = log"
  by (auto simp: tracks_def unlogged_def split: prod.splits)

text \<open>\<open>sends_nothing m\<close>: it may ask the release service, but uploads nothing.\<close>

definition sends_nothing :: "('w gh_log, 'a) step \<Rightarrow> bool" where
  "sends_nothing m \<longleftrightarrow> (\<forall>s r s'. m s = (r, s') \<longrightarrow> (\<exists>asked. snd s' = snd s @ asked \<and> list_all (\<lambda>e. \<not> is_upload e) asked))"

named_theorems asking

lemma sends_nothingD:
  "sends_nothing m \<Longrightarrow> m (w, log) = (r, (w', log')) \<Longrightarrow> \<exists>asked. log' = log @ asked \<and> list_all (\<lambda>e. \<not> is_upload e) asked"
  unfolding sends_nothing_def by fastforce

lemma sends_nothing_tracks: "tracks m m' \<Longrightarrow> sends_nothing m'"
  by (auto simp: sends_nothing_def tracks_def unlogged_def split: prod.splits)

lemmas [asking] = tracks_settled [THEN sends_nothing_tracks]

lemma sends_nothing_fields [asking]:
  "sends_nothing (gh_json (logged_world G) p)" "sends_nothing (gh_stream (logged_world G) p)"
  "sends_nothing (gh_wait (logged_world G))"
  by (auto simp: sends_nothing_def logged_world_def noting_def unlogged_def split: prod.splits)

lemma sends_nothing_chain [asking]:
  assumes "sends_nothing m" "\<And>x. sends_nothing (f x)"
  shows "sends_nothing (chain m f)"
  unfolding sends_nothing_def chain_def
proof (intro allI impI)
  fix s r s'
  obtain q u where q: "m s = (q, u)" by (metis prod.collapse)
  with assms(1) obtain asked where asked: "snd u = snd s @ asked" "list_all (\<lambda>e. \<not> is_upload e) asked"
    unfolding sends_nothing_def by blast
  assume "(case m s of (Inl e, w) \<Rightarrow> (Inl e, w) | (Inr x, w) \<Rightarrow> f x w) = (r, s')"
  then consider "s' = u" | x where "f x u = (r, s')" using q by (cases q) auto
  then show "\<exists>asked. snd s' = snd s @ asked \<and> list_all (\<lambda>e. \<not> is_upload e) asked"
  proof cases
    case (2 x)
    then obtain more where "snd s' = snd u @ more" "list_all (\<lambda>e. \<not> is_upload e) more"
      using assms(2)[of x] unfolding sends_nothing_def by blast
    with asked show ?thesis by auto
  qed (use asked in blast)
qed

lemma sends_nothing_context [asking]: "sends_nothing m \<Longrightarrow> sends_nothing (in_context t m)"
  by (auto simp: sends_nothing_def in_context_def split: prod.splits)

lemma sends_nothing_case [asking]: "(\<And>a b. x = (a, b) \<Longrightarrow> sends_nothing (f a b)) \<Longrightarrow> sends_nothing (case_prod f x)"
  by (cases x) simp

lemma sends_nothing_metadata [asking]: "sends_nothing (release_metadata (logged_world G) repo tag)"
  unfolding release_metadata_def by (auto intro!: asking split: prod.split)

lemma sends_nothing_download [asking]: "sends_nothing (read_download (logged_world G) reads)"
proof (cases "fingerprint_read (sha256 G) reads")
  case (Inl e)
  then show ?thesis
    by (auto simp: sends_nothing_def unlogged_def read_download_def logged_world_def split: prod.splits)
next
  case (Inr f)
  then show ?thesis unfolding read_download_def logged_pure by (simp add: asking)
qed

lemma sends_nothing_fingerprint [asking]: "sends_nothing (actual_fingerprint (logged_world G) repo a)"
  unfolding actual_fingerprint_def downloaded_fingerprint_def
  by (cases "as_digest a") (auto intro!: asking)

lemma sends_nothing_missing [asking]: "sends_nothing (missing (logged_world G) release local repo others)"
proof -
  have "sends_nothing (missing_loop (logged_world G) repo others assets names remaining)" for assets names remaining
    by (induction assets arbitrary: names remaining) (auto intro!: asking split: option.split)
  then show ?thesis by (simp add: missing_def)
qed

section \<open>What is asked\<close>

lemma chain_split:
  assumes "chain m f w = (r, w')"
  obtains e where "m w = (Inl e, w')" "r = Inl e" | x u where "m w = (Inr x, u)" "f x u = (r, w')"
  using assms unfolding chain_def by (auto split: prod.splits sum.splits)

lemma chain_Inr: "chain m f w = (Inr y, w') \<longleftrightarrow> (\<exists>x u. m w = (Inr x, u) \<and> f x u = (Inr y, w'))"
  by (auto simp: chain_def split: prod.splits sum.splits)

lemma settled_eq [simp]: "settled r w = (q, w') \<longleftrightarrow> r = q \<and> w' = w"
  by (auto simp: settled_def)

lemma ensure_Inr [simp]: "ensure b msg w = (Inr y, w') \<longleftrightarrow> b \<and> w' = w"
  by (auto simp: ensure_def)

lemma in_context_Inr: "in_context t m w = (Inr x, w') \<longleftrightarrow> m w = (Inr x, w')"
  by (auto simp: in_context_def split: prod.splits) (metis map_err.elims sum.distinct(1) sum.inject(2))+

text \<open>The answer that shows an unpublished draft of the tag\<close>

definition told_draft :: "string \<Rightarrow> string \<Rightarrow> release \<Rightarrow> gh_event \<Rightarrow> bool" where
  "told_draft repo tag release event \<longleftrightarrow> rl_draft release \<and> rl_tag_name release = tag
     \<and> (\<exists>status. event = Metadata (''repos/'' @ repo @ ''/releases/tags/'' @ tag) (Inr ((True, status), Inr release)))"

lemma metadata_told:
  assumes "release_metadata (logged_world G) repo tag (w, log) = (Inr release, (w', log'))"
  shows "\<exists>event. log' = log @ [event] \<and> told_draft repo tag release event"
  using assms unfolding release_metadata_def told_draft_def
  by (auto simp: chain_Inr in_context_Inr logged_world_def noting_def split: prod.splits)

lemma told_draft_asked: "told_draft repo tag release event \<Longrightarrow> \<not> is_upload event"
  by (auto simp: told_draft_def)

text \<open>The fingerprint of an asset, as the release states it or as its content gives it\<close>

definition told_fingerprint :: "'w release_world \<Rightarrow> string \<Rightarrow> asset \<Rightarrow> fingerprint \<Rightarrow> gh_event list \<Rightarrow> bool" where
  "told_fingerprint G repo a f asked \<longleftrightarrow> as_size a = fp_size f
     \<and> (case as_digest a of
          Some digest \<Rightarrow> \<exists>encoded. digest = ''sha256:'' @ encoded \<and> hex_decode G encoded = Inr (fp_digest f)
            \<and> length (fp_digest f) = 32
        | None \<Rightarrow> \<exists>reads. Streamed (''repos/'' @ repo @ ''/releases/assets/'' @ show_nat (as_id a)) (Inr reads) \<in> set asked
            \<and> fingerprint_read (sha256 G) reads = Inr f)"

lemma told_fingerprint_more: "told_fingerprint G repo a f asked \<Longrightarrow> set asked \<subseteq> set events \<Longrightarrow> told_fingerprint G repo a f events"
  by (auto simp: told_fingerprint_def split: option.splits)

lemma read_download_ok: "read_download G reads w = (Inr f, w') \<Longrightarrow> fingerprint_read (sha256 G) reads = Inr f"
  by (auto simp: read_download_def chain_Inr split: sum.splits prod.splits)

lemma fingerprint_told:
  assumes "actual_fingerprint (logged_world G) repo a (w, log) = (Inr f, (w', log'))" and "as_size a = fp_size f"
  shows "\<exists>asked. log' = log @ asked \<and> list_all (\<lambda>e. \<not> is_upload e) asked \<and> told_fingerprint G repo a f asked"
proof (cases "as_digest a")
  case (Some digest)
  then show ?thesis using assms
    by (cases f) (auto simp: actual_fingerprint_def stated_fingerprint_def told_fingerprint_def bind_ok_iff ok_or_iff strip_prefix_Some
        starts_with_iff map_err_iff split: if_splits)
next
  case None
  let ?url = "''repos/'' @ repo @ ''/releases/assets/'' @ show_nat (as_id a)"
  from assms None obtain reads u where
    got: "gh_stream (logged_world G) ?url (w, log) = (Inr reads, u)" and rest: "read_download (logged_world G) reads u = (Inr f, (w', log'))"
    by (auto simp: actual_fingerprint_def downloaded_fingerprint_def chain_Inr in_context_Inr)
  have u: "snd u = log @ [Streamed ?url (Inr reads)]"
    using got by (auto simp: logged_world_def noting_def split: prod.splits)
  obtain asked where asked: "log' = snd u @ asked" "list_all (\<lambda>e. \<not> is_upload e) asked"
    using sends_nothingD[OF sends_nothing_download, of G reads "fst u" "snd u"] rest by auto
  have "fingerprint_read (sha256 G) reads = Inr f" using read_download_ok[OF rest] by simp
  then show ?thesis using u asked assms(2) None
    by (intro exI[of _ "Streamed ?url (Inr reads) # asked"]) (auto simp: told_fingerprint_def)
qed

section \<open>What is uploaded\<close>

text \<open>The artifacts a release has no asset for\<close>

definition lacking :: "(string, local_asset) btree \<Rightarrow> release \<Rightarrow> local_asset list" where
  "lacking local release = map snd (filter (\<lambda>e. fst e \<notin> as_name ` set (rl_assets release)) local)"

lemma missing_loop_ok:
  "missing_loop (logged_world G) repo others assets names remaining (w, log) = (Inr plan, (w', log')) \<Longrightarrow>
    \<exists>asked. log' = log @ asked \<and> distinct (map as_name assets)
    \<and> plan = map snd (filter (\<lambda>e. fst e \<notin> as_name ` set assets) remaining)
    \<and> (\<forall>a \<in> set assets. as_name a \<notin> set names \<and> as_state a = ''uploaded''
        \<and> (case btree_get remaining (as_name a) of
             Some e \<Rightarrow> told_fingerprint G repo a (la_fingerprint e) asked | None \<Rightarrow> others))"
proof (induction assets arbitrary: names remaining w log)
  case (Cons a assets)
  show ?case
  proof (cases "btree_get remaining (as_name a)")
    case None
    then have absent: "as_name a \<notin> fst ` set remaining" by (simp add: btree_get_def map_of_eq_None_iff)
    from Cons.prems None have "as_name a \<notin> set names" "as_state a = ''uploaded''" others
      and rest: "missing_loop (logged_world G) repo others assets (as_name a # names) remaining (w, log) = (Inr plan, (w', log'))"
      by (auto simp: chain_Inr)
    moreover obtain asked where IH: "log' = log @ asked" "distinct (map as_name assets)"
      "plan = map snd (filter (\<lambda>e. fst e \<notin> as_name ` set assets) remaining)"
      "\<forall>b \<in> set assets. as_name b \<notin> set (as_name a # names) \<and> as_state b = ''uploaded''
        \<and> (case btree_get remaining (as_name b) of
             Some e \<Rightarrow> told_fingerprint G repo b (la_fingerprint e) asked | None \<Rightarrow> others)"
      using Cons.IH[OF rest] by blast
    moreover have "as_name a \<notin> as_name ` set assets" using IH(4) by force
    moreover have "filter (\<lambda>e. fst e \<notin> as_name ` set (a # assets)) remaining = filter (\<lambda>e. fst e \<notin> as_name ` set assets) remaining"
      using absent by (intro filter_cong) (force+)
    ultimately show ?thesis using None by (intro exI[of _ asked]) auto
  next
    case (Some e)
    let ?f = "la_fingerprint e"
    from Cons.prems Some obtain u l where first: "as_name a \<notin> set names" "as_state a = ''uploaded''" "as_size a = fp_size ?f"
      and actual: "actual_fingerprint (logged_world G) repo a (w, log) = (Inr ?f, (u, l))"
      and rest: "missing_loop (logged_world G) repo others assets (as_name a # names) (btree_remove (as_name a) remaining) (u, l)
        = (Inr plan, (w', log'))"
      by (auto simp: chain_Inr)
    obtain one where one: "l = log @ one" "told_fingerprint G repo a ?f one"
      using fingerprint_told[OF actual first(3)] by blast
    obtain asked where IH: "log' = l @ asked" "distinct (map as_name assets)"
      "plan = map snd (filter (\<lambda>e. fst e \<notin> as_name ` set assets) (btree_remove (as_name a) remaining))"
      "\<forall>b \<in> set assets. as_name b \<notin> set (as_name a # names) \<and> as_state b = ''uploaded''
        \<and> (case btree_get (btree_remove (as_name a) remaining) (as_name b) of
             Some e \<Rightarrow> told_fingerprint G repo b (la_fingerprint e) asked | None \<Rightarrow> others)"
      using Cons.IH[OF rest] by blast
    have "filter (\<lambda>e. fst e \<notin> as_name ` set assets) (btree_remove (as_name a) remaining)
        = filter (\<lambda>e. fst e \<notin> as_name ` set (a # assets)) remaining"
      unfolding btree_remove_def filter_filter by (intro filter_cong) auto
    moreover have "case btree_get remaining (as_name b) of
        Some e \<Rightarrow> told_fingerprint G repo b (la_fingerprint e) (one @ asked) | None \<Rightarrow> others" if "b \<in> set assets" for b
    proof -
      have "as_name b \<noteq> as_name a" using IH(4) that by auto
      moreover have "case btree_get (btree_remove (as_name a) remaining) (as_name b) of
          Some e \<Rightarrow> told_fingerprint G repo b (la_fingerprint e) asked | None \<Rightarrow> others" using IH(4) that by blast
      ultimately show ?thesis by (auto simp: btree_get_remove split: option.splits intro: told_fingerprint_more)
    qed
    moreover have "told_fingerprint G repo a ?f (one @ asked)" by (rule told_fingerprint_more[OF one(2)]) simp
    ultimately show ?thesis using first one(1) IH(1-4) Some
      by (intro exI[of _ "one @ asked"]) auto
  qed
qed simp

lemma local_assets_cover:
  "local_assets G paths acc u = (Inr local, v) \<Longrightarrow>
    fst ` set acc \<subseteq> fst ` set local \<and> (\<forall>p \<in> set paths. \<exists>name. fs_name G p = Some name \<and> name \<in> fst ` set local)"
proof (induction paths arbitrary: acc u)
  case (Cons path paths)
  then obtain name a t where name: "fs_name G path = Some name"
    and rest: "local_assets G paths (btree_insert name a acc) t = (Inr local, v)"
    by (auto simp: chain_Inr ok_or_iff)
  show ?case using Cons.IH[OF rest] name by (auto simp: fst_btree_insert)
qed simp

text \<open>The uploads of a plan, each with its answer; the last one may have failed.\<close>

definition sent :: "string \<Rightarrow> string \<Rightarrow> local_asset list \<Rightarrow> (message + exit_status) list \<Rightarrow> gh_event list" where
  "sent repo tag plan answers = map2 (\<lambda>a answer. Uploaded tag (la_path a) repo answer) plan answers"

definition upload_done :: "message + exit_status \<Rightarrow> bool" where
  "upload_done answer = (case answer of Inr (success, _) \<Rightarrow> success | Inl _ \<Rightarrow> False)"

lemma upload_each_log:
  "upload_each (logged_world G) repo tag plan (w, log) = (r, (w', log')) \<Longrightarrow>
    \<exists>answers. log' = log @ sent repo tag plan answers \<and> length answers \<le> length plan
      \<and> (is_ok r \<longrightarrow> length answers = length plan \<and> list_all upload_done answers)"
proof (induction plan arbitrary: w log)
  case (Cons a plan)
  obtain q u where q: "gh_upload G tag (la_path a) repo w = (q, u)" by (metis prod.collapse)
  let ?log = "log @ [Uploaded tag (la_path a) repo q]"
  have "gh_upload (logged_world G) tag (la_path a) repo (w, log) = (q, (u, ?log))"
    using q by (simp add: logged_world_def noting_def)
  then consider "upload_done q" "upload_each (logged_world G) repo tag plan (u, ?log) = (r, (w', log'))" | "log' = ?log" "\<not> is_ok r"
    using Cons.prems
    by (cases q) (auto simp: chain_def in_context_def ensure_def settled_def upload_done_def
        split: sum.splits if_splits prod.splits)
  then show ?case
  proof cases
    case 1
    from Cons.IH[OF 1(2)] obtain answers where "log' = ?log @ sent repo tag plan answers" "length answers \<le> length plan"
      "is_ok r \<longrightarrow> length answers = length plan \<and> list_all upload_done answers" by blast
    then show ?thesis using 1(1) by (intro exI[of _ "q # answers"]) (simp add: sent_def)
  next
    case 2
    then show ?thesis by (intro exI[of _ "[q]"]) (simp add: sent_def)
  qed
qed (auto simp: sent_def)

text \<open>The draft as it was told is complete: one uploaded asset for each artifact, with its size and hash, and
  other assets only where they are allowed.\<close>

definition draft_complete ::
  "'w release_world \<Rightarrow> string \<Rightarrow> bool \<Rightarrow> (string, local_asset) btree \<Rightarrow> release \<Rightarrow> gh_event list \<Rightarrow> bool" where
  "draft_complete G repo others local release asked \<longleftrightarrow>
     distinct (map as_name (rl_assets release)) \<and> fst ` set local \<subseteq> as_name ` set (rl_assets release)
     \<and> (\<forall>a \<in> set (rl_assets release). as_state a = ''uploaded''
         \<and> (case btree_get local (as_name a) of Some e \<Rightarrow> told_fingerprint G repo a (la_fingerprint e) asked | None \<Rightarrow> others))"

lemma missing_complete:
  assumes "missing (logged_world G) release local repo others (w, log) = (Inr plan, (w', log'))"
  shows "plan = lacking local release"
    and "plan = [] \<Longrightarrow> \<exists>asked. log' = log @ asked \<and> draft_complete G repo others local release asked"
proof -
  note ok = missing_loop_ok[OF assms[unfolded missing_def]]
  show plan: "plan = lacking local release" using ok by (auto simp: lacking_def)
  assume "plan = []"
  then have "fst ` set local \<subseteq> as_name ` set (rl_assets release)" using plan by (auto simp: lacking_def filter_empty_conv)
  then show "\<exists>asked. log' = log @ asked \<and> draft_complete G repo others local release asked"
    using ok by (auto simp: draft_complete_def)
qed

lemma sends_nothing_verify [asking]: "sends_nothing (verify_draft (logged_world G) repo tag others local)"
  unfolding verify_draft_def by (intro asking)

lemma verify_draft_complete:
  assumes "verify_draft (logged_world G) repo tag others local (w, log) = (Inr (), (w', log'))"
  shows "\<exists>release event asked. log' = log @ event # asked \<and> told_draft repo tag release event
    \<and> draft_complete G repo others local release asked"
proof -
  obtain release u l where m: "release_metadata (logged_world G) repo tag (w, log) = (Inr release, (u, l))"
    and "missing (logged_world G) release local repo others (u, l) = (Inr [], (w', log'))"
    using assms unfolding verify_draft_def by (auto simp: chain_Inr)
  then show ?thesis using metadata_told[OF m] missing_complete(2)[of G release local repo others u l "[]" w' log'] by auto
qed

text \<open>What an upload did after it read the artifacts \<open>local\<close>, by the log of its questions and uploads: it was
  shown a draft of the tag, then sent artifacts the draft lacked, in order, and a success was shown the complete
  draft after the last upload.\<close>

definition upload_outcome ::
  "'w release_world \<Rightarrow> string \<Rightarrow> string \<Rightarrow> bool \<Rightarrow> (string, local_asset) btree \<Rightarrow> message + unit \<Rightarrow> gh_event list \<Rightarrow> bool" where
  "upload_outcome G repo tag others local r events \<longleftrightarrow>
     (\<exists>release event checked answers after. told_draft repo tag release event
       \<and> events = event # checked @ sent repo tag (lacking local release) answers @ after
       \<and> length answers \<le> length (lacking local release)
       \<and> list_all (\<lambda>e. \<not> is_upload e) (checked @ after)
       \<and> (is_ok r \<longrightarrow> length answers = length (lacking local release) \<and> list_all upload_done answers
           \<and> (\<exists>final event asked. after = event # asked \<and> told_draft repo tag final event
               \<and> draft_complete G repo others local final asked)))"

lemma publish_outcome:
  assumes "publish_missing (logged_world G) repo tag others local (w, []) = (r, (w', events))"
  shows "(list_all (\<lambda>e. \<not> is_upload e) events \<and> \<not> is_ok r) \<or> upload_outcome G repo tag others local r events"
  using assms unfolding publish_missing_def
proof (cases rule: chain_split)
  case (1 e)
  then show ?thesis using sends_nothingD[OF sends_nothing_metadata 1(1)] by simp
next
  case (2 release s1)
  obtain event where told: "told_draft repo tag release event" "snd s1 = [event]"
    using metadata_told[of G repo tag w "[]" release "fst s1" "snd s1"] 2(1) by auto
  then obtain u1 where s1: "s1 = (u1, [event])" by (cases s1) auto
  note event = told(1) told_draft_asked[OF told(1)]
  from 2(2) show ?thesis
  proof (cases rule: chain_split)
    case (1 e)
    then show ?thesis using sends_nothingD[OF sends_nothing_missing 1(1)[unfolded s1]] event(2) by auto
  next
    case (2 plan s2)
    obtain u2 checked where s2: "s2 = (u2, event # checked)" and quiet: "list_all (\<lambda>e. \<not> is_upload e) checked"
      using sends_nothingD[OF sends_nothing_missing, of G release local repo others u1 "[event]" "Inr plan" "fst s2" "snd s2"]
        2(1) s1 by (cases s2) auto
    have plan: "plan = lacking local release"
      using missing_complete(1)[of G release local repo others u1 "[event]" plan u2 "event # checked"] 2(1) s1 s2 by simp
    from 2(2) show ?thesis
    proof (cases rule: chain_split)
      case (1 e)
      from upload_each_log[OF 1(1)[unfolded s2 plan]] obtain answers where
        "events = event # checked @ sent repo tag (lacking local release) answers" "length answers \<le> length (lacking local release)"
        by auto
      then show ?thesis using event(1) quiet 1(2) unfolding upload_outcome_def
        by (intro disjI2 exI[of _ release] exI[of _ event] exI[of _ checked] exI[of _ answers] exI[of _ "[]"]) auto
    next
      case (2 x s3)
      from upload_each_log[of G repo tag plan u2 "event # checked" "Inr x" "fst s3" "snd s3"] 2(1)
      obtain u3 answers where s3: "s3 = (u3, event # checked @ sent repo tag plan answers)"
        and answers: "length answers = length plan" "list_all upload_done answers"
        by (cases s3) (auto simp: s2)
      obtain after where after: "events = event # checked @ sent repo tag plan answers @ after" "list_all (\<lambda>e. \<not> is_upload e) after"
        using sends_nothingD[OF sends_nothing_verify 2(2)[unfolded s3]] by auto
      have final: "\<exists>final event asked. after = event # asked \<and> told_draft repo tag final event
          \<and> draft_complete G repo others local final asked" if "is_ok r"
        using verify_draft_complete[of G repo tag others local u3 "event # checked @ sent repo tag plan answers" w' events]
          2(2) s3 after(1) that by (cases r) auto
      show ?thesis unfolding upload_outcome_def plan[symmetric]
        using event(1) after quiet answers final plan
        by (intro disjI2 exI[of _ release] exI[of _ event] exI[of _ checked] exI[of _ answers] exI[of _ after]) auto
    qed
  qed
qed

lemma tracked_step:
  assumes "chain m' f (w, []) = (r, (w', events))" and "tracks m m'" and "\<not> (events = [] \<and> \<not> is_ok r)"
  shows "\<exists>x u. m w = (Inr x, u) \<and> f x (u, []) = (r, (w', events))"
  using assms(1)
proof (cases rule: chain_split)
  case (1 e)
  then show ?thesis using assms(3) tracksD[OF assms(2), of w "[]"] by simp
next
  case (2 x u)
  then show ?thesis using tracksD[OF assms(2), of w "[]" "Inr x" "fst u" "snd u"] by (cases u) auto
qed

lemma tracked_check:
  assumes "chain (ensure b msg) f (w, []) = (r, (w', events))" and "\<not> (events = [] \<and> \<not> is_ok r)"
  shows "b \<and> f () (w, []) = (r, (w', events))"
  using assms by (cases b) (auto simp: chain_def ensure_def settled_def)

text \<open>C38. Publishing artifacts never replaces and never publishes anything. An upload first reads the
  artifacts from disk; everything it sends are artifacts of which the draft of this very tag, as the release
  service showed it before the first upload, had no asset of that name, each at most once and in order. A
  success means that all of these were sent and accepted and that the service, asked after the last upload,
  showed the unpublished draft with exactly one uploaded asset for every artifact, of the artifact's size and
  hash (the stated digest, or the hash of the content downloaded then), and with no other assets unless the
  caller allows others.\<close>

theorem draft_upload_safe:
  assumes "upload_draft (logged_world G) repo tag directory files others (w, []) = (r, (w', events))"
  shows "(list_all (\<lambda>e. \<not> is_upload e) events \<and> \<not> is_ok r)
    \<or> (\<exists>paths u local v. upload_paths G directory files w = (Inr paths, u) \<and> local_assets G paths [] u = (Inr local, v)
        \<and> upload_outcome G repo tag others local r events)"
proof (cases "events = [] \<and> \<not> is_ok r")
  case False
  note go = tracked_step[OF _ _ False] and check = tracked_check[OF _ False]
  from check[OF assms[unfolded upload_draft_def Let_def]] have
    "chain (ensure (safe_component tag) [Lit ''invalid release tag'']) (\<lambda>_.
      chain (upload_paths (logged_world G) directory files) (\<lambda>paths.
      chain (ensure (paths \<noteq> []) [Lit ''at least one artifact is required'']) (\<lambda>_.
      chain (local_assets (logged_world G) paths []) (\<lambda>local.
        publish_missing (logged_world G) repo tag others local)))) (w, []) = (r, (w', events))" by blast
  from go[OF check[OF this, THEN conjunct2] tracks_paths] obtain paths u where
    paths: "upload_paths G directory files w = (Inr paths, u)" and
    "chain (ensure (paths \<noteq> []) [Lit ''at least one artifact is required'']) (\<lambda>_.
      chain (local_assets (logged_world G) paths []) (\<lambda>local.
        publish_missing (logged_world G) repo tag others local)) (u, []) = (r, (w', events))" by blast
  from go[OF check[OF this(2), THEN conjunct2] tracks_local_assets] obtain local v where
    local: "local_assets G paths [] u = (Inr local, v)"
    and "publish_missing (logged_world G) repo tag others local (v, []) = (r, (w', events))" by blast
  from publish_outcome[OF this(2)] show ?thesis using paths local by blast
qed simp

text \<open>A draft that has one of two artifacts, and then both\<close>

definition sample_release_world :: "bool release_world" where
  "sample_release_world =
     \<lparr>gh_json = (\<lambda>p both. (Inr ((True, ''ok''), Inr \<lparr>rl_draft = True, rl_tag_name = ''v1'', rl_assets =
        \<lparr>as_id = 1, as_name = ''a'', as_size = 1, as_digest = None, as_state = ''uploaded''\<rparr> #
        (if both then [\<lparr>as_id = 2, as_name = ''b'', as_size = 1, as_digest = Some ''sha256:b'', as_state = ''uploaded''\<rparr>] else [])\<rparr>), both)),
      gh_stream = (\<lambda>p both. (Inr [Inr ''a''], both)), gh_kill = id, gh_wait = (\<lambda>both. (Inr (True, ''ok''), both)),
      gh_upload = (\<lambda>tag path repo both. (Inr (True, ''ok''), True)), fs_entries = (\<lambda>d both. (Inr [Inr ''a'', Inr ''b''], both)),
      fs_kind = (\<lambda>p both. (Inr (True, False), both)), fs_name = Some, fs_canonical = (\<lambda>p both. (Inr (CHR ''/'' # p), both)),
      fs_open = (\<lambda>p both. (Inr [Inr p], both)), sha256 = (\<lambda>data. data @ replicate (32 - length data) (CHR ''0'')),
      hex_decode = (\<lambda>t. Inr (t @ replicate (32 - length t) (CHR ''0'')))\<rparr>"

definition sample_upload :: "(message + unit) \<times> bool gh_log" where
  "sample_upload = upload_draft (logged_world sample_release_world) ''o/r'' ''v1'' (Some ''out'') [] False (False, [])"

lemma sample_upload_result:
  "fst sample_upload = Inr () \<and> filter is_upload (snd (snd sample_upload)) = [Uploaded ''v1'' ''/b'' ''o/r'' (Inr (True, ''ok''))]"
  by code_simp

lemma draft_upload_safe_witness:
  "\<exists>events paths u local v. snd (snd sample_upload) = events
    \<and> filter is_upload events = [Uploaded ''v1'' ''/b'' ''o/r'' (Inr (True, ''ok''))]
    \<and> upload_paths sample_release_world (Some ''out'') [] False = (Inr paths, u)
    \<and> local_assets sample_release_world paths [] u = (Inr local, v)
    \<and> upload_outcome sample_release_world ''o/r'' ''v1'' False local (Inr ()) events"
proof -
  obtain w' events where run: "upload_draft (logged_world sample_release_world) ''o/r'' ''v1'' (Some ''out'') [] False (False, [])
      = (Inr (), (w', events))"
    using sample_upload_result unfolding sample_upload_def by (metis prod.collapse)
  then show ?thesis using draft_upload_safe[OF run] sample_upload_result by (simp add: sample_upload_def)
qed

end
