(* ===== verification/Handler_Setup.thy ===== *)
theory Handler_Setup
  imports Release Credentials
begin

text \<open>
  Making a handler available to COM: the CLSID that the \<open>handler\<close> attribute accepts
  (\<open>windows-task-macros/src/lib.rs\<close>), and the registration of its DLL by the build automation, as a \<open>.reg\<close> file
  or with \<open>reg.exe\<close> (\<open>xtask/src/main.rs\<close>). A path is its text; starting processes, writing files, printing a UUID
  and \<open>Path::is_absolute\<close> are parameters.
\<close>

section \<open>The CLSID of a handler\<close>

definition is_ascii_hexdigit :: "char \<Rightarrow> bool" where
  "is_ascii_hexdigit c \<longleftrightarrow> is_ascii_digit c \<or> (97::nat) \<le> of_char c \<and> of_char c \<le> (102::nat)
     \<or> (65::nat) \<le> of_char c \<and> of_char c \<le> (70::nat)"

definition hex_digit_value :: "char \<Rightarrow> nat" where
  "hex_digit_value c = (if is_ascii_digit c then of_char c - 48 else if (97::nat) \<le> of_char c then of_char c - 87 else of_char c - 55)"

definition hex_value :: "string \<Rightarrow> nat" where
  "hex_value h = foldl (\<lambda>n c. 16 * n + hex_digit_value c) 0 h"

definition bare_clsid :: "string \<Rightarrow> string option" where
  "bare_clsid v =
     (case (strip_prefix ''{'' v, strip_suffix ''}'' v) of
        (Some rest, Some _) \<Rightarrow> Some (take (length rest - 1) rest)
      | (None, None) \<Rightarrow> Some v
      | _ \<Rightarrow> None)"

definition clsid_shaped :: "string \<Rightarrow> bool" where
  "clsid_shaped bare \<longleftrightarrow>
     (if length bare = 36 then
        list_all (\<lambda>(i, c). if i \<in> {8, 13, 18, 23} then c = CHR ''-'' else is_ascii_hexdigit c) (zip [0..<36] bare)
      else length bare = 32 \<and> list_all is_ascii_hexdigit bare)"

text \<open>\<open>parse_uuid\<close>; \<open>u128::from_str_radix\<close> takes 32 hexadecimal digits.\<close>

definition parse_uuid :: "string \<Rightarrow> string + nat" where
  "parse_uuid v =
     (case bare_clsid v of
        None \<Rightarrow> Inl ''clsid has mismatched braces''
      | Some bare \<Rightarrow>
          if clsid_shaped bare then Inr (hex_value (filter (\<lambda>c. c \<noteq> CHR ''-'') bare))
          else Inl ''clsid must be a UUID'')"

text \<open>The arguments of the attribute: names and, where the value is a string literal, its text. Parsing the
  tokens and producing the exports is the work of \<open>syn\<close> and \<open>quote\<close>.\<close>

fun handler_arguments :: "(string \<times> string option) list \<Rightarrow> string option \<Rightarrow> string + string option" where
  "handler_arguments [] clsid = Inr clsid"
| "handler_arguments ((name, v) # args) clsid =
     (if name \<noteq> ''clsid'' then Inl ''unsupported handler argument''
      else if clsid \<noteq> None then Inl ''duplicate clsid argument''
      else (case v of None \<Rightarrow> Inl ''clsid must be a string literal'' | Some text \<Rightarrow> handler_arguments args (Some text)))"

record handler_item =
  hi_implements_trait :: bool
  hi_generic :: bool

definition handler_attribute :: "(string \<times> string option) list \<Rightarrow> handler_item \<Rightarrow> string + string \<times> nat" where
  "handler_attribute args item =
     bind_ok (handler_arguments args None) (\<lambda>clsid.
     bind_ok (ok_or ''expected clsid = \"...\"'' clsid) (\<lambda>text.
     bind_ok (parse_uuid text) (\<lambda>guid.
       if \<not> hi_implements_trait item then Inl ''handler must mark a TaskHandler trait implementation''
       else if hi_generic item then Inl ''handler implementations must use a concrete, non-generic type''
       else Inr (text, guid))))"

section \<open>Registry entries\<close>

datatype registry_scope = UserScope | MachineScope

fun hive_name :: "registry_scope \<Rightarrow> string" where
  "hive_name UserScope = ''HKEY_CURRENT_USER'' @ [CHR 0x5C] @ ''Software'' @ [CHR 0x5C] @ ''Classes''"
| "hive_name MachineScope = ''HKEY_LOCAL_MACHINE'' @ [CHR 0x5C] @ ''Software'' @ [CHR 0x5C] @ ''Classes''"

fun class_root :: "registry_scope \<Rightarrow> string" where
  "class_root UserScope = ''HKCU'' @ [CHR 0x5C] @ ''Software'' @ [CHR 0x5C] @ ''Classes''"
| "class_root MachineScope = ''HKLM'' @ [CHR 0x5C] @ ''Software'' @ [CHR 0x5C] @ ''Classes''"

definition registry_class_key :: "(uuid \<Rightarrow> string) \<Rightarrow> registry_scope \<Rightarrow> uuid \<Rightarrow> string" where
  "registry_class_key ut scope clsid = class_root scope @ [CHR 0x5C] @ ''CLSID'' @ [CHR 0x5C] @ ''{'' @ ut clsid @ ''}''"

definition registry_server_key :: "(uuid \<Rightarrow> string) \<Rightarrow> registry_scope \<Rightarrow> uuid \<Rightarrow> string" where
  "registry_server_key ut scope clsid = registry_class_key ut scope clsid @ [CHR 0x5C] @ ''InprocServer32''"

definition reg_file_key :: "(uuid \<Rightarrow> string) \<Rightarrow> registry_scope \<Rightarrow> uuid \<Rightarrow> string" where
  "reg_file_key ut scope clsid =
     hive_name scope @ [CHR 0x5C] @ ''CLSID'' @ [CHR 0x5C] @ ''{'' @ ut clsid @ ''}'' @ [CHR 0x5C] @ ''InprocServer32''"

abbreviation crlf :: string where "crlf \<equiv> [CHR 0x0D, CHR 0x0A]"

definition reg_escape :: "string \<Rightarrow> string" where
  "reg_escape path = replace_str [CHR 0x22] [CHR 0x5C, CHR 0x22] (replace_str [CHR 0x5C] [CHR 0x5C, CHR 0x5C] path)"

text \<open>The text of the file, of \<open>write_reg_file\<close>\<close>

definition reg_file_text ::
  "(uuid \<Rightarrow> string) \<Rightarrow> (string \<Rightarrow> bool) \<Rightarrow> uuid \<Rightarrow> string \<Rightarrow> registry_scope \<Rightarrow> bool \<Rightarrow> message + string" where
  "reg_file_text ut is_absolute clsid dll scope unregister =
     (if \<not> unregister \<and> \<not> is_absolute dll then Inl [Lit ''handler DLL path must be absolute'']
      else
        let key = reg_file_key ut scope clsid in
        if unregister then
          Inr (''Windows Registry Editor Version 5.00'' @ crlf @ crlf @ ''[-'' @ key @ '']'' @ crlf)
        else if CHR 0x0D \<in> set dll \<or> CHR 0x0A \<in> set dll \<or> CHR 0x00 \<in> set dll then
          Inl [Lit ''handler DLL path contains a registry line delimiter'']
        else
          Inr (''Windows Registry Editor Version 5.00'' @ crlf @ crlf @ ''['' @ key @ '']'' @ crlf
            @ ''@='' @ [CHR 0x22] @ reg_escape dll @ [CHR 0x22] @ crlf
            @ [CHR 0x22] @ ''ThreadingModel'' @ [CHR 0x22] @ ''='' @ [CHR 0x22] @ ''Both'' @ [CHR 0x22] @ crlf))"

definition reg_file_bytes :: "string \<Rightarrow> string" where
  "reg_file_bytes body = [CHR 0xFF, CHR 0xFE] @ concat (map to_le_bytes (encode_utf16 body))"

record 'w build_world =
  bw_write :: "string \<Rightarrow> string \<Rightarrow> ('w, unit) step" \<comment> \<open>\<open>std::fs::write\<close>\<close>
  bw_spawn :: "string \<Rightarrow> string list \<Rightarrow> ('w, exit_status) step" \<comment> \<open>\<open>Command::status\<close>\<close>

definition write_reg_file ::
  "'w build_world \<Rightarrow> (uuid \<Rightarrow> string) \<Rightarrow> (string \<Rightarrow> bool) \<Rightarrow> string \<Rightarrow> uuid \<Rightarrow> string \<Rightarrow> registry_scope \<Rightarrow> bool
     \<Rightarrow> ('w, unit) step" where
  "write_reg_file B ut is_absolute output1 clsid dll scope unregister =
     chain (settled (reg_file_text ut is_absolute clsid dll scope unregister)) (\<lambda>body.
       in_context (''cannot write '' @ output1) (bw_write B output1 (reg_file_bytes body)))"

text \<open>\<open>run_process\<close>; of the debug form of a command its program stands here\<close>

definition run_process :: "'w build_world \<Rightarrow> string \<Rightarrow> string list \<Rightarrow> ('w, unit) step" where
  "run_process B program args =
     chain (in_context (''cannot start '' @ program) (bw_spawn B program args)) (\<lambda>(success, status).
       ensure success [Dbg program, Lit '' exited with '', Dsp status])"

definition registry_yes :: "bool \<Rightarrow> ('w, unit) step" where
  "registry_yes yes = ensure yes [Lit ''registry mutation requires --yes'']"

datatype handler_command =
    RegFile uuid string registry_scope string bool
  | RegisterHandler uuid string registry_scope bool
  | UnregisterHandler uuid registry_scope bool

fun run_handler_command ::
  "'w build_world \<Rightarrow> (uuid \<Rightarrow> string) \<Rightarrow> (string \<Rightarrow> bool) \<Rightarrow> handler_command \<Rightarrow> ('w, unit) step" where
  "run_handler_command B ut is_absolute (RegFile clsid dll scope output1 unregister) =
     write_reg_file B ut is_absolute output1 clsid dll scope unregister"
| "run_handler_command B ut is_absolute (RegisterHandler clsid dll scope yes) =
     chain (registry_yes yes) (\<lambda>_.
     chain (ensure (is_absolute dll) [Lit ''handler DLL path must be absolute'']) (\<lambda>_.
     let key = registry_server_key ut scope clsid in
     chain (run_process B ''reg.exe'' [''ADD'', key, ''/ve'', ''/d'', dll, ''/f'']) (\<lambda>_.
       run_process B ''reg.exe'' [''ADD'', key, ''/v'', ''ThreadingModel'', ''/d'', ''Both'', ''/f''])))"
| "run_handler_command B ut is_absolute (UnregisterHandler clsid scope yes) =
     chain (registry_yes yes) (\<lambda>_.
       run_process B ''reg.exe'' [''DELETE'', registry_class_key ut scope clsid, ''/f''])"

section \<open>Accepted CLSIDs\<close>

definition hyphenated :: "string \<Rightarrow> string" where
  "hyphenated h =
     take 8 h @ ''-'' @ take 4 (drop 8 h) @ ''-'' @ take 4 (drop 12 h) @ ''-'' @ take 4 (drop 16 h) @ ''-'' @ drop 20 h"

lemma hex_not_special: "is_ascii_hexdigit c \<Longrightarrow> c \<noteq> CHR ''-'' \<and> c \<noteq> CHR ''{'' \<and> c \<noteq> CHR ''}''"
  by (auto simp: is_ascii_hexdigit_def is_ascii_digit_def)

lemma hex_filter: "list_all is_ascii_hexdigit h \<Longrightarrow> filter (\<lambda>c. c \<noteq> CHR ''-'') h = h"
  by (rule filter_True) (auto simp: list_all_iff dest: hex_not_special)

lemma shaped_nth: "length b = 36 \<Longrightarrow> clsid_shaped b \<longleftrightarrow>
    (\<forall>i < 36. if i \<in> {8, 13, 18, 23} then b ! i = CHR ''-'' else is_ascii_hexdigit (b ! i))"
  by (auto simp: clsid_shaped_def list_all_length)

lemma hex_part:
  assumes "\<forall>i < 36. if i \<in> {8, 13, 18, 23} then b ! i = CHR ''-'' else is_ascii_hexdigit (b ! i)"
    and "length b = 36" "m + n \<le> 36" "\<forall>i < n. m + i \<notin> {8, 13, 18, 23}"
  shows "list_all is_ascii_hexdigit (take n (drop m b))"
  using assms by (auto simp: list_all_length)

lemma shaped_36:
  assumes "length b = 36" "clsid_shaped b"
  shows "\<exists>h. length h = 32 \<and> list_all is_ascii_hexdigit h \<and> b = hyphenated h"
proof -
  let ?part = "\<lambda>m n. take n (drop m b)"
  note nth = assms(2)[unfolded shaped_nth[OF assms(1)]]
  have hyphen: "drop i b = ''-'' @ drop (Suc i) b" if "i \<in> {8, 13, 18, 23}" for i
    using that nth assms(1) by (auto simp: Cons_nth_drop_Suc[symmetric])
  have "b = ?part 0 8 @ drop 8 b" "drop 9 b = ?part 9 4 @ drop 13 b" "drop 14 b = ?part 14 4 @ drop 18 b"
    "drop 19 b = ?part 19 4 @ drop 23 b" "drop 24 b = ?part 24 12"
    using assms(1) append_take_drop_id[of 4 "drop 9 b"] append_take_drop_id[of 4 "drop 14 b"] append_take_drop_id[of 4 "drop 19 b"]
    by simp_all
  moreover have "drop 8 b = ''-'' @ drop 9 b" "drop 13 b = ''-'' @ drop 14 b" "drop 18 b = ''-'' @ drop 19 b" "drop 23 b = ''-'' @ drop 24 b"
    using hyphen[of 8] hyphen[of 13] hyphen[of 18] hyphen[of 23] by simp_all
  ultimately have b: "b = ?part 0 8 @ ''-'' @ ?part 9 4 @ ''-'' @ ?part 14 4 @ ''-'' @ ?part 19 4 @ ''-'' @ ?part 24 12"
    by metis
  let ?h = "?part 0 8 @ ?part 9 4 @ ?part 14 4 @ ?part 19 4 @ ?part 24 12"
  have "list_all is_ascii_hexdigit ?h"
    using hex_part[OF nth assms(1), of 0 8] hex_part[OF nth assms(1), of 9 4] hex_part[OF nth assms(1), of 14 4]
      hex_part[OF nth assms(1), of 19 4] hex_part[OF nth assms(1), of 24 12] by simp
  moreover have "length ?h = 32" using assms(1) by simp
  moreover have "b = hyphenated ?h"
    using b assms(1) by (simp add: hyphenated_def)
  ultimately show ?thesis by blast
qed

lemma hyphenated_shaped:
  assumes "length h = 32" "list_all is_ascii_hexdigit h"
  shows "length (hyphenated h) = 36" "clsid_shaped (hyphenated h)" "filter (\<lambda>c. c \<noteq> CHR ''-'') (hyphenated h) = h"
proof -
  show len: "length (hyphenated h) = 36" using assms(1) by (simp add: hyphenated_def)
  have hex: "is_ascii_hexdigit (h ! i)" if "i < 32" for i using assms that by (simp add: list_all_length)
  show "clsid_shaped (hyphenated h)" unfolding shaped_nth[OF len]
    using assms(1) by (auto simp: hyphenated_def nth_append nth_Cons' intro!: hex)
  have "drop 8 h = take 4 (drop 8 h) @ drop 12 h" "drop 12 h = take 4 (drop 12 h) @ drop 16 h"
    "drop 16 h = take 4 (drop 16 h) @ drop 20 h"
    using append_take_drop_id[of 4 "drop 8 h"] append_take_drop_id[of 4 "drop 12 h"] append_take_drop_id[of 4 "drop 16 h"]
    by simp_all
  then have split: "take 8 h @ take 4 (drop 8 h) @ take 4 (drop 12 h) @ take 4 (drop 16 h) @ drop 20 h = h"
    by (metis append_take_drop_id)
  have parts: "list_all is_ascii_hexdigit (take n (drop m h))" "list_all is_ascii_hexdigit (drop m h)" "list_all is_ascii_hexdigit (take m h)" for m n
    using assms(2) by (auto simp: list_all_iff dest!: in_set_takeD in_set_dropD)
  show "filter (\<lambda>c. c \<noteq> CHR ''-'') (hyphenated h) = h"
    unfolding hyphenated_def by (simp add: hex_filter parts split)
qed

lemma bare_clsid_Some: "bare_clsid v = Some b \<longleftrightarrow>
    v = ''{'' @ b @ ''}'' \<or> (v = b \<and> \<not> starts_with ''{'' v \<and> \<not> ends_with ''}'' v)"
proof (cases "starts_with ''{'' v"; cases "ends_with ''}'' v")
  assume a: "starts_with ''{'' v" "ends_with ''}'' v"
  then obtain w where v: "v = ''{'' @ w" by (auto simp: starts_with_iff)
  then obtain x where "v = ''{'' @ x @ ''}''" using a(2) by (cases w rule: rev_cases) (auto simp: ends_with_iff)
  then show ?thesis using a by (auto simp: bare_clsid_def strip_prefix_def strip_suffix_def)
next
  assume a: "starts_with ''{'' v" "\<not> ends_with ''}'' v"
  then have "strip_suffix ''}'' v = None" by (auto simp: strip_suffix_def ends_with_def)
  then show ?thesis using a by (auto simp: bare_clsid_def ends_with_iff strip_prefix_def starts_with_def)
next
  assume a: "\<not> starts_with ''{'' v" "ends_with ''}'' v"
  then have "strip_prefix ''{'' v = None" by (auto simp: strip_prefix_def starts_with_def)
  moreover obtain x where "strip_suffix ''}'' v = Some x" using a(2) by (auto simp: strip_suffix_def ends_with_def)
  ultimately show ?thesis using a by (auto simp: bare_clsid_def starts_with_def)
next
  assume a: "\<not> starts_with ''{'' v" "\<not> ends_with ''}'' v"
  then have "strip_prefix ''{'' v = None" "strip_suffix ''}'' v = None"
    by (auto simp: strip_prefix_def starts_with_def strip_suffix_def ends_with_def)
  then show ?thesis using a by (auto simp: bare_clsid_def starts_with_def)
qed

lemma hex_unbraced:
  assumes "length h = 32" "list_all is_ascii_hexdigit h"
  shows "\<not> starts_with ''{'' h" "\<not> ends_with ''}'' h" "\<not> starts_with ''{'' (hyphenated h)" "\<not> ends_with ''}'' (hyphenated h)"
proof -
  have no: "c \<notin> set h" if "c \<in> {CHR ''{'', CHR ''}''}" for c using assms(2) that by (auto simp: list_all_iff dest: hex_not_special)
  then have no': "c \<notin> set (hyphenated h)" if "c \<in> {CHR ''{'', CHR ''}''}" for c
    using that by (auto simp: hyphenated_def dest!: in_set_takeD in_set_dropD)
  have first: "starts_with [c] s \<Longrightarrow> c \<in> set s" and final: "ends_with [c] s \<Longrightarrow> c \<in> set s" for c s
    by (auto simp: starts_with_iff ends_with_iff)
  show "\<not> starts_with ''{'' h" "\<not> ends_with ''}'' h" "\<not> starts_with ''{'' (hyphenated h)" "\<not> ends_with ''}'' (hyphenated h)"
    using no no' by (auto dest!: first final)
qed

text \<open>C39. The attribute accepts a CLSID exactly when it consists of 32 hexadecimal digits, plain or with hyphens
  after the 8th, 12th, 16th and 20th, with or without a pair of braces, and its value is their number.\<close>

theorem clsid_exact:
  "parse_uuid v = Inr n \<longleftrightarrow>
    (\<exists>h. length h = 32 \<and> list_all is_ascii_hexdigit h \<and> n = hex_value h
      \<and> v \<in> {h, hyphenated h, ''{'' @ h @ ''}'', ''{'' @ hyphenated h @ ''}''})" (is "?l \<longleftrightarrow> ?r")
proof
  assume ?l
  then obtain b where b: "bare_clsid v = Some b" "clsid_shaped b" "n = hex_value (filter (\<lambda>c. c \<noteq> CHR ''-'') b)"
    by (auto simp: parse_uuid_def split: option.splits if_splits)
  have "\<exists>h. length h = 32 \<and> list_all is_ascii_hexdigit h \<and> b \<in> {h, hyphenated h} \<and> filter (\<lambda>c. c \<noteq> CHR ''-'') b = h"
  proof (cases "length b = 36")
    case True
    then show ?thesis using shaped_36[OF True b(2)] hyphenated_shaped(3) by blast
  next
    case False
    then show ?thesis using b(2) hex_filter by (auto simp: clsid_shaped_def)
  qed
  then obtain h where h: "length h = 32" "list_all is_ascii_hexdigit h" "b = h \<or> b = hyphenated h" "n = hex_value h"
    using b(3) by auto
  show ?r using b(1) h(3) unfolding bare_clsid_Some by (intro exI[of _ h]) (auto simp: h(1,2,4))
next
  assume ?r
  then obtain h where h: "length h = 32" "list_all is_ascii_hexdigit h" "n = hex_value h"
    "v \<in> {h, hyphenated h, ''{'' @ h @ ''}'', ''{'' @ hyphenated h @ ''}''}" by blast
  have plain: "clsid_shaped h" "filter (\<lambda>c. c \<noteq> CHR ''-'') h = h" using h hex_filter by (simp_all add: clsid_shaped_def)
  have "bare_clsid v = Some h \<or> bare_clsid v = Some (hyphenated h)"
    using h(4) hex_unbraced[OF h(1,2)] unfolding bare_clsid_Some by blast
  then show ?l using plain hyphenated_shaped(2,3)[OF h(1,2)] h(3) by (auto simp: parse_uuid_def)
qed

section \<open>Registry files\<close>

text \<open>How the registry editor reads a quoted value, from after its opening quote: a backslash protects the next
  character, and an unprotected quote ends the value.\<close>

fun quoted_value :: "string \<Rightarrow> (string \<times> string) option" where
  "quoted_value [] = None"
| "quoted_value (c # s) =
     (if c = CHR 0x22 then Some ([], s)
      else if c = CHR 0x5C then
        (case s of [] \<Rightarrow> None | d # rest \<Rightarrow> map_option (\<lambda>(v, r). (d # v, r)) (quoted_value rest))
      else map_option (\<lambda>(v, r). (c # v, r)) (quoted_value s))"

lemma replace_one: "replace_str [a] sub s = concat (map (\<lambda>c. if c = a then sub else [c]) s)"
proof (induction s)
  case Nil
  then show ?case by (subst replace_str.simps) simp
next
  case (Cons c s)
  then show ?case by (subst replace_str.simps) (auto simp: strip_prefix_def)
qed

lemma reg_escape_Cons:
  "reg_escape (c # s) = (if c = CHR 0x5C then [c, c] else if c = CHR 0x22 then [CHR 0x5C, c] else [c]) @ reg_escape s"
  by (simp add: reg_escape_def replace_one)

lemma quoted_value_escape: "quoted_value (reg_escape path @ CHR 0x22 # rest) = Some (path, rest)"
proof (induction path)
  case Nil
  then show ?case by (simp add: reg_escape_def replace_one)
next
  case (Cons c path)
  then show ?case unfolding reg_escape_Cons by simp
qed

lemma reg_escape_set: "c \<in> set (reg_escape s) \<Longrightarrow> c \<in> set s \<or> c \<in> {CHR 0x5C, CHR 0x22}"
  by (induction s) (auto simp: reg_escape_Cons reg_escape_def[of "[]"] replace_one split: if_splits)

lemma reg_file_decodes:
  assumes "valid_str body"
  shows "take 2 (reg_file_bytes body) = [CHR 0xFF, CHR 0xFE]"
    and "utf16_text (code_units True (drop 2 (reg_file_bytes body))) = Inr body"
  using utf16_text_encode[OF assms] by (simp_all add: reg_file_bytes_def code_units_le)

definition reg_file_lines :: "(uuid \<Rightarrow> string) \<Rightarrow> uuid \<Rightarrow> string \<Rightarrow> registry_scope \<Rightarrow> bool \<Rightarrow> string list" where
  "reg_file_lines ut clsid dll scope unregister =
     ''Windows Registry Editor Version 5.00'' # [] #
     (if unregister then [''[-'' @ reg_file_key ut scope clsid @ '']'']
      else [''['' @ reg_file_key ut scope clsid @ '']'', ''@='' @ [CHR 0x22] @ reg_escape dll @ [CHR 0x22],
            [CHR 0x22] @ ''ThreadingModel'' @ [CHR 0x22] @ ''='' @ [CHR 0x22] @ ''Both'' @ [CHR 0x22]])"

lemma reg_file_key_line: "CHR 0x0A \<notin> set (ut clsid) \<Longrightarrow> CHR 0x0A \<notin> set (reg_file_key ut scope clsid)"
  by (cases scope) (simp_all add: reg_file_key_def)

text \<open>A generated registration file is UTF-16LE with its mark and has exactly the lines of one key: the key to
  remove, or the key with the DLL as its value and the threading model. No path can add a line or end its value
  early: the registry editor reads back exactly the path that was given, which is absolute.\<close>

theorem reg_file_faithful:
  assumes made: "reg_file_text ut is_absolute clsid dll scope unregister = Inr body"
    and uuid: "CHR 0x0A \<notin> set (ut clsid)" and valid: "valid_str body"
  shows "take 2 (reg_file_bytes body) = [CHR 0xFF, CHR 0xFE]
    \<and> utf16_text (code_units True (drop 2 (reg_file_bytes body))) = Inr body
    \<and> split_on (CHR 0x0A) body = map (\<lambda>l. l @ [CHR 0x0D]) (reg_file_lines ut clsid dll scope unregister) @ [[]]
    \<and> (\<not> unregister \<longrightarrow> is_absolute dll \<and> quoted_value (reg_escape dll @ [CHR 0x22, CHR 0x0D]) = Some (dll, [CHR 0x0D]))"
proof -
  let ?ls = "map (\<lambda>l. l @ [CHR 0x0D]) (reg_file_lines ut clsid dll scope unregister) @ [[]]"
  note key = reg_file_key_line[of ut clsid scope, OF uuid]
  have body: "body = join_with [CHR 0x0A] ?ls"
    using made by (auto simp: reg_file_text_def reg_file_lines_def Let_def split: if_splits)
  have "CHR 0x0A \<notin> set dll" if "\<not> unregister" using made that by (auto simp: reg_file_text_def Let_def split: if_splits)
  then have "\<forall>l \<in> set ?ls. CHR 0x0A \<notin> set l"
    using key by (auto simp: reg_file_lines_def dest: reg_escape_set)
  then have "split_on (CHR 0x0A) body = ?ls" unfolding body by (rule split_join) simp
  moreover have "\<not> unregister \<longrightarrow> is_absolute dll" using made by (auto simp: reg_file_text_def split: if_splits)
  ultimately show ?thesis using reg_file_decodes[OF valid] quoted_value_escape[of dll "[CHR 0x0D]"] by simp
qed

lemma reg_file_faithful_witness:
  "\<exists>body. reg_file_text (\<lambda>u. ''7'') (\<lambda>p. True) 7 (''C:'' @ [CHR 0x5C] @ ''a'' @ [CHR 0x22]) UserScope False = Inr body
    \<and> utf16_text (code_units True (drop 2 (reg_file_bytes body))) = Inr body
    \<and> length (split_on (CHR 0x0A) body) = 6"
proof -
  let ?file = "reg_file_text (\<lambda>u. ''7'') (\<lambda>p. True) 7 (''C:'' @ [CHR 0x5C] @ ''a'' @ [CHR 0x22]) UserScope False"
  have ok: "case ?file of Inr body \<Rightarrow> valid_str body | Inl e \<Rightarrow> False" by code_simp
  then obtain body where body: "?file = Inr body" and valid: "valid_str body" by (cases ?file) auto
  from reg_file_faithful[OF body _ valid] body show ?thesis by (simp add: reg_file_lines_def)
qed

end
