(* ===== verification/Verification_Run.thy ===== *)
theory Verification_Run
  imports Release
begin

text \<open>
  The recorded verification runs of the repository (\<open>xtask/src/verification.rs\<close>): which commands a run starts, what
  it records of each, and when it succeeds. Processes and files are parameters; a path is its text. Creating the
  directory of a run, with the description of its environment, is one parameter; so is starting a process with the
  variables of Git removed and backtraces on.
\<close>

section \<open>Proof harnesses\<close>

datatype proof_target = XmlLibrary | Automation

fun proof_arguments :: "proof_target \<Rightarrow> string list" where
  "proof_arguments XmlLibrary = [''kani'', ''-p'', ''windows-task'', ''--lib'', ''--no-default-features'']"
| "proof_arguments Automation = [''kani'', ''-p'', ''xtask'', ''--bin'', ''xtask'']"

definition REQUIRED_PROOFS :: "(proof_target \<times> string) list" where
  "REQUIRED_PROOFS =
     [(XmlLibrary, ''xml::ordering::proofs::absolute_ordinal_is_bounded_without_arithmetic''),
      (XmlLibrary, ''xml::ordering::proofs::extension_merge_without_known_children''),
      (XmlLibrary, ''xml::ordering::proofs::extension_merge_with_first_known_child''),
      (XmlLibrary, ''xml::ordering::proofs::extension_merge_with_second_known_child''),
      (XmlLibrary, ''xml::ordering::proofs::extension_merge_with_both_known_children''),
      (XmlLibrary, ''xml::ordering::proofs::extension_merge_regression_is_reachable''),
      (Automation, ''verification::proofs::proof_batch_stops_on_first_failure''),
      (Automation, ''release::proofs::fingerprint_identity_includes_size_and_digest'')]"

text \<open>The loop of \<open>verify_proof_batch\<close>; \<open>verify\<close> changes the run that it borrows.\<close>

fun verify_each :: "('r \<Rightarrow> proof_target \<Rightarrow> string \<Rightarrow> ('w, 'r) step) \<Rightarrow> (proof_target \<times> string) list \<Rightarrow> 'r \<Rightarrow> ('w, 'r) step" where
  "verify_each verify [] r = settled (Inr r)"
| "verify_each verify ((kind, harness) # proofs) r = chain (verify r kind harness) (verify_each verify proofs)"

definition verify_proof_batch ::
  "('w, 'p) step \<Rightarrow> ('p \<Rightarrow> 'r \<Rightarrow> proof_target \<Rightarrow> string \<Rightarrow> ('w, 'r) step) \<Rightarrow> 'r \<Rightarrow> ('w, 'r) step" where
  "verify_proof_batch preparation verify r = chain preparation (\<lambda>prepared. verify_each (verify prepared) REQUIRED_PROOFS r)"

section \<open>Runs\<close>

datatype suite = Portable | NativeFixture | WindowsSuite | AllSuites

datatype host = Windows | Linux | OtherHost

datatype outcome = Passed | Failed | NotRun

datatype entry =
    Step string "string list" "(string \<times> string) list" outcome "int option" "string option"
  | SuiteNotRun string \<comment> \<open>a suite that this host cannot run\<close>

fun entry_outcome :: "entry \<Rightarrow> outcome" where
  "entry_outcome (Step program args env result code e) = result"
| "entry_outcome (SuiteNotRun reason) = NotRun"

record run =
  ru_directory :: string
  ru_target :: string
  ru_results :: "entry list"

text \<open>A spawned process: the error of starting it, or its exit code, where success is code 0.\<close>

record 'w verification_world =
  vw_start :: "('w, run) step" \<comment> \<open>\<open>Run::new\<close>\<close>
  vw_join :: "string \<Rightarrow> string \<Rightarrow> string"
  vw_file_text :: "nat \<Rightarrow> string \<Rightarrow> string" \<comment> \<open>\<open>format!("{index:02}.stdout.log")\<close>\<close>
  vw_create :: "string \<Rightarrow> ('w, unit) step"
  vw_spawn :: "string \<Rightarrow> string list \<Rightarrow> (string \<times> string) list \<Rightarrow> 'w \<Rightarrow> (string + int option) \<times> 'w"
  vw_record :: "string \<Rightarrow> entry list \<Rightarrow> ('w, unit) step" \<comment> \<open>writes \<open>results.json\<close>\<close>
  vw_explain :: "string \<Rightarrow> ('w, unit) step" \<comment> \<open>writes \<open>REPRODUCE.md\<close>\<close>
  vw_make_directory :: "string \<Rightarrow> ('w, unit) step"
  vw_read :: "string \<Rightarrow> ('w, string list) step" \<comment> \<open>the lines of a file\<close>
  vw_workflows :: "('w, string list) step" \<comment> \<open>the workflow files, in any order\<close>
  vw_audit_file :: "run \<Rightarrow> ('w, string) step" \<comment> \<open>\<open>Run::prepare_audit\<close>\<close>
  vw_variable :: "string \<Rightarrow> string"

fun entry_of :: "string \<Rightarrow> string list \<Rightarrow> (string \<times> string) list \<Rightarrow> string + int option \<Rightarrow> entry" where
  "entry_of program args env (Inr code) = Step program args env (if code = Some 0 then Passed else Failed) code None"
| "entry_of program args env (Inl e) = Step program args env NotRun None (Some e)"

definition record_entry :: "'w verification_world \<Rightarrow> run \<Rightarrow> entry \<Rightarrow> ('w, run) step" where
  "record_entry W r entry =
     (let r = r\<lparr>ru_results := ru_results r @ [entry]\<rparr> in
      chain (vw_record W (ru_directory r) (ru_results r)) (\<lambda>_. settled (Inr r)))"

definition step ::
  "'w verification_world \<Rightarrow> run \<Rightarrow> string \<Rightarrow> string list \<Rightarrow> (string \<times> string) list \<Rightarrow> ('w, run) step" where
  "step W r program args env =
     (let index = length (ru_results r) in
      chain (vw_create W (vw_join W (ru_directory r) (vw_file_text W index ''.stdout.log''))) (\<lambda>_.
      chain (vw_create W (vw_join W (ru_directory r) (vw_file_text W index ''.stderr.log''))) (\<lambda>_ w.
        case vw_spawn W program args env w of (status, w) \<Rightarrow>
          chain (record_entry W r (entry_of program args env status)) (\<lambda>r.
          chain (vw_explain W (ru_directory r)) (\<lambda>_. settled (Inr r))) w)))"

definition cargo_with_environment ::
  "'w verification_world \<Rightarrow> run \<Rightarrow> string list \<Rightarrow> (string \<times> string) list \<Rightarrow> ('w, run) step" where
  "cargo_with_environment W r args env =
     step W r ''cargo'' (''+1.85.0'' # args) (env @ [(''CARGO_TARGET_DIR'', ru_target r)])"

definition cargo :: "'w verification_world \<Rightarrow> run \<Rightarrow> string list \<Rightarrow> ('w, run) step" where
  "cargo W r args = cargo_with_environment W r args []"

fun cargo_each :: "'w verification_world \<Rightarrow> string list list \<Rightarrow> run \<Rightarrow> ('w, run) step" where
  "cargo_each W [] r = settled (Inr r)"
| "cargo_each W (args # rest) r = chain (cargo W r args) (cargo_each W rest)"

definition finish :: "run \<Rightarrow> message + unit" where
  "finish r =
     (if list_ex (\<lambda>e. entry_outcome e \<noteq> Passed) (ru_results r) then
        Inl [Lit ''verification failed or was not run; artifacts: '', Dsp (ru_directory r)]
      else Inr ())"

definition audit :: "'w verification_world \<Rightarrow> host \<Rightarrow> run \<Rightarrow> ('w, run) step" where
  "audit W os r =
     chain (vw_audit_file W r) (\<lambda>path.
       let null = (if os = Windows then ''NUL'' else ''/dev/null'') in
       step W r ''mise'' [''exec'', ''github:EmbarkStudios/cargo-deny'', ''--'', ''cargo-deny'', ''--config'', path, ''check'']
         [(''GIT_CONFIG_GLOBAL'', null), (''GIT_CONFIG_SYSTEM'', null)])"

definition actionlint :: "'w verification_world \<Rightarrow> run \<Rightarrow> ('w, run) step" where
  "actionlint W r =
     chain (vw_workflows W) (\<lambda>paths.
     chain (ensure (paths \<noteq> []) [Lit ''no GitHub workflows were discovered'']) (\<lambda>_.
       step W r ''actionlint'' (sort paths) []))"

section \<open>Suites\<close>

definition portable_commands :: "string \<Rightarrow> string list list" where
  "portable_commands corpus =
     [[''test'', ''--locked'', ''-p'', ''xtask'', ''--test'', ''release_workflow''],
      [''test'', ''--locked'', ''-p'', ''xtask'', ''--test'', ''ci_selection''],
      [''test'', ''--locked'', ''--workspace'', ''--all-features'', ''--lib'', ''--bins''],
      [''test'', ''--locked'', ''--workspace'', ''--all-features'', ''--doc''],
      [''test'', ''--locked'', ''-p'', ''windows-task-cli'', ''--test'', ''contracts''],
      [''test'', ''--locked'', ''-p'', ''windows-task'', ''--all-features'', ''--test'', ''macro_contracts''],
      [''run'', ''--locked'', ''--manifest-path'', ''fuzz/Cargo.toml'', ''--no-default-features'', ''--example'',
       ''seed-replay'', ''--'', ''fuzz/corpus/input_boundaries'', corpus]]"

definition native_arguments :: "string list" where
  "native_arguments =
     [''test'', ''--locked'', ''-p'', ''windows-task'', ''--all-features'', ''--lib'',
      ''release_dll_lifecycle_and_panic_containment'', ''--'', ''--ignored'', ''--test-threads=1'']"

definition native_suite :: "'w verification_world \<Rightarrow> run \<Rightarrow> ('w, run) step" where
  "native_suite W r =
     chain (cargo W r [''build'', ''--release'', ''--manifest-path'', ''fixtures/native/Cargo.toml'']) (\<lambda>r.
       cargo_with_environment W r native_arguments
         [(''WINDOWS_TASK_HANDLER_DLL'', vw_join W (ru_target r) ''release/windows_task_native_fixture.dll'')])"

definition windows_suite :: "'w verification_world \<Rightarrow> run \<Rightarrow> ('w, run) step" where
  "windows_suite W r =
     chain (cargo W r [''test'', ''--locked'', ''-p'', ''windows-task'', ''--all-features'', ''--test'', ''windows_smoke'']) (\<lambda>r.
       cargo_with_environment W r
         [''test'', ''--locked'', ''-p'', ''windows-task'', ''--all-features'', ''--test'', ''windows_smoke'', ''--'',
          ''--ignored'', ''--test-threads=1'', ''--show-output'']
         [(''WINDOWS_TASK_MUTATION_TESTS'', ''1''),
          (''WINDOWS_TASK_ACCOUNT_TESTS'', vw_variable W ''WINDOWS_TASK_ACCOUNT_TESTS''),
          (''WINDOWS_TASK_CLEAR_EVENT_LOG'', vw_variable W ''WINDOWS_TASK_CLEAR_EVENT_LOG''),
          (''WINDOWS_TASK_EXECUTION_FIXTURE'', vw_join W (ru_target r) ''release/windows-task-execution-fixture.exe'')])"

definition run_suite :: "'w verification_world \<Rightarrow> host \<Rightarrow> suite \<Rightarrow> run \<Rightarrow> ('w, run) step" where
  "run_suite W os suite r =
     chain (if suite \<in> {Portable, AllSuites} then cargo_each W (portable_commands (vw_join W (ru_directory r) ''input-corpus'')) r
            else settled (Inr r)) (\<lambda>r.
       if suite \<in> {NativeFixture, WindowsSuite, AllSuites} \<and> os \<noteq> Windows then
         record_entry W r (SuiteNotRun ''requires a Windows host; scheduler suites require a disposable host'')
       else
         chain (if suite \<in> {NativeFixture, WindowsSuite, AllSuites} then native_suite W r else settled (Inr r)) (\<lambda>r.
           if suite \<in> {WindowsSuite, AllSuites} \<and> os = Windows then windows_suite W r else settled (Inr r)))"

definition feature_arguments :: "string \<Rightarrow> string list" where
  "feature_arguments features =
     [''test'', ''--locked'', ''-p'', ''windows-task'', ''--lib'', ''--no-default-features'']
     @ (if features = [] then [] else [''--features'', features])"

definition feature_sets :: "string list" where
  "feature_sets = [[], ''client'', ''async'', ''history'', ''diagnostics'', ''serde'', ''reconcile'', ''recipes'', ''cron'',
     ''handler'', ''tracing'']"

definition run_features :: "'w verification_world \<Rightarrow> run \<Rightarrow> ('w, run) step" where
  "run_features W r = cargo_each W (map feature_arguments feature_sets) r"

definition verify_harness :: "'w verification_world \<Rightarrow> string \<Rightarrow> run \<Rightarrow> proof_target \<Rightarrow> string \<Rightarrow> ('w, run) step" where
  "verify_harness W target r kind harness =
     chain (step W r ''cargo'' (proof_arguments kind
       @ [''--exact'', ''--harness'', harness, ''--jobs'', ''1'', ''--target-dir'', target, ''--output-format'', ''terse'']) [])
       (\<lambda>r. chain (settled (finish r)) (\<lambda>_. settled (Inr r)))"

definition proof_target_directory :: "'w verification_world \<Rightarrow> run \<Rightarrow> ('w, string) step" where
  "proof_target_directory W r =
     (let target = vw_join W (ru_directory r) ''proofs'' in
      chain (in_context ''create fresh private proof outputs'' (vw_make_directory W target))
        (\<lambda>_. settled (Inr (vw_join W target ''target''))))"

definition prove_harnesses :: "'w verification_world \<Rightarrow> string \<Rightarrow> run \<Rightarrow> ('w, run) step" where
  "prove_harnesses W version_log r =
     chain (settled (finish r)) (\<lambda>_.
     chain (vw_read W version_log) (\<lambda>ls.
     chain (ensure (ls \<noteq> [] \<and> hd ls = ''Kani Rust Verifier 0.68.0 (cargo plugin)'')
       [Lit ''implementation proofs require Kani 0.68.0'']) (\<lambda>_.
     chain (verify_proof_batch (proof_target_directory W r) (verify_harness W) r) (\<lambda>r.
     chain (settled (finish r)) (\<lambda>_. settled (Inr r))))))"

definition prove :: "'w verification_world \<Rightarrow> run \<Rightarrow> ('w, run) step" where
  "prove W r =
     chain (settled (finish r)) (\<lambda>_.
     let version_log = vw_join W (ru_directory r) (vw_file_text W (length (ru_results r)) ''.stdout.log'') in
     chain (step W r ''cargo'' [''kani'', ''--version''] []) (prove_harnesses W version_log))"

section \<open>Entry points\<close>

definition finished :: "('w, run) step \<Rightarrow> ('w, unit) step" where
  "finished m = chain m (\<lambda>r. settled (finish r))"

definition test_entry :: "'w verification_world \<Rightarrow> host \<Rightarrow> suite \<Rightarrow> ('w, unit) step" where
  "test_entry W os suite = finished (chain (vw_start W) (run_suite W os suite))"

definition audit_entry :: "'w verification_world \<Rightarrow> host \<Rightarrow> ('w, unit) step" where
  "audit_entry W os = finished (chain (vw_start W) (audit W os))"

definition prove_entry :: "'w verification_world \<Rightarrow> ('w, unit) step" where
  "prove_entry W = chain (vw_start W) (\<lambda>r. chain (prove W r) (\<lambda>_. settled (Inr ())))"

definition features_entry :: "'w verification_world \<Rightarrow> ('w, unit) step" where
  "features_entry W = finished (chain (vw_start W) (run_features W))"

definition lint_arguments :: "string list" where
  "lint_arguments = [''**/*.md'', ''#target'', ''#fixtures/native/target'', ''#fuzz/target'']"

definition ci_steps :: "'w verification_world \<Rightarrow> host \<Rightarrow> suite \<Rightarrow> run \<Rightarrow> ('w, run) step" where
  "ci_steps W os suite r =
     chain (cargo_each W [[''fmt'', ''--all'', ''--'', ''--check''],
       [''clippy'', ''--locked'', ''--workspace'', ''--all-targets'', ''--all-features'', ''--'', ''-D'', ''warnings'']] r) (\<lambda>r.
     chain (run_suite W os suite r) (\<lambda>r.
     chain (run_features W r) (\<lambda>r.
     chain (cargo_with_environment W r [''doc'', ''--locked'', ''--workspace'', ''--all-features'', ''--no-deps'']
       [(''RUSTDOCFLAGS'', ''-D warnings'')]) (\<lambda>r.
     chain (cargo_each W (map (\<lambda>target. [''check'', ''--locked'', ''--workspace'', ''--all-targets'', ''--all-features'',
       ''--target'', target]) [''x86_64-pc-windows-msvc'', ''aarch64-pc-windows-msvc''] @ [[''xtask'', ''strict-code'']]) r) (\<lambda>r.
     chain (in_context ''record typos'' (step W r ''typos'' [] [])) (\<lambda>r.
     chain (in_context ''record yamllint'' (step W r ''yamllint'' [''.''] [])) (\<lambda>r.
     chain (actionlint W r) (\<lambda>r.
     chain (audit W os r) (\<lambda>r.
     chain (if os = Linux then prove W r else settled (Inr r)) (\<lambda>r.
       if os = Windows then step W r ''cmd'' ([''/d'', ''/c'', ''markdownlint-cli2''] @ lint_arguments) []
       else step W r ''markdownlint-cli2'' lint_arguments []))))))))))"

definition ci_entry :: "'w verification_world \<Rightarrow> host \<Rightarrow> suite \<Rightarrow> ('w, unit) step" where
  "ci_entry W os suite = finished (chain (vw_start W) (ci_steps W os suite))"

section \<open>What a run starts\<close>

fun entry_call :: "entry \<Rightarrow> (string \<times> string list) option" where
  "entry_call (Step program args env result code e) = Some (program, args)"
| "entry_call (SuiteNotRun reason) = None"

text \<open>The processes a world is asked to start: program, arguments, variables, and how each ended.\<close>

type_synonym spawned = "string \<times> string list \<times> (string \<times> string) list \<times> (string + int option)"

definition logged_runs :: "'w verification_world \<Rightarrow> ('w \<times> spawned list) verification_world" where
  "logged_runs W =
     \<lparr>vw_start = unlogged (vw_start W), vw_join = vw_join W, vw_file_text = vw_file_text W,
      vw_create = (\<lambda>p. unlogged (vw_create W p)),
      vw_spawn = (\<lambda>program args env (w, log). case vw_spawn W program args env w of
        (status, w) \<Rightarrow> (status, w, log @ [(program, args, env, status)])),
      vw_record = (\<lambda>d es. unlogged (vw_record W d es)), vw_explain = (\<lambda>d. unlogged (vw_explain W d)),
      vw_make_directory = (\<lambda>d. unlogged (vw_make_directory W d)), vw_read = (\<lambda>p. unlogged (vw_read W p)),
      vw_workflows = unlogged (vw_workflows W), vw_audit_file = (\<lambda>r. unlogged (vw_audit_file W r)),
      vw_variable = vw_variable W\<rparr>"

lemma unlogged_eq: "unlogged m s = (x, s') \<longleftrightarrow> m (fst s) = (x, fst s') \<and> snd s' = snd s"
  by (cases s; cases s') (auto simp: unlogged_def split: prod.splits)

lemma logged_reads:
  "vw_start (logged_runs W) = unlogged (vw_start W)" "vw_create (logged_runs W) path = unlogged (vw_create W path)"
  "vw_record (logged_runs W) d es = unlogged (vw_record W d es)" "vw_explain (logged_runs W) d = unlogged (vw_explain W d)"
  "vw_make_directory (logged_runs W) d = unlogged (vw_make_directory W d)"
  "vw_read (logged_runs W) path = unlogged (vw_read W path)" "vw_workflows (logged_runs W) = unlogged (vw_workflows W)"
  "vw_audit_file (logged_runs W) r = unlogged (vw_audit_file W r)"
  by (simp_all add: logged_runs_def)

lemma logged_pure_fields [simp]: "vw_join (logged_runs W) = vw_join W" "vw_variable (logged_runs W) = vw_variable W"
  by (simp_all add: logged_runs_def)

text \<open>An entry that tells of a process: it passed exactly when the process was started and ended with code 0.\<close>

fun entry_tells :: "entry \<Rightarrow> spawned \<Rightarrow> bool" where
  "entry_tells (Step program args env result code e) (p, a, v, status) \<longleftrightarrow>
     program = p \<and> args = a \<and> env = v \<and> (result = Passed \<longleftrightarrow> status = Inr (Some 0))"
| "entry_tells (SuiteNotRun reason) _ \<longleftrightarrow> False"

definition entries_tell :: "entry list \<Rightarrow> spawned list \<Rightarrow> bool" where
  "entries_tell es spawned \<longleftrightarrow> list_all2 entry_tells (filter (\<lambda>e. entry_call e \<noteq> None) es) spawned"

lemma entries_tell_append: "entries_tell es a \<Longrightarrow> entries_tell fs b \<Longrightarrow> entries_tell (es @ fs) (a @ b)"
  by (simp add: entries_tell_def list_all2_appendI)

text \<open>A part of a run that starts processes, and adds entries that tell of them, for exactly the calls that \<open>Q\<close>
  allows in the run's directory\<close>

definition starts :: "(run \<Rightarrow> ('w \<times> spawned list, run) step)
     \<Rightarrow> (string \<Rightarrow> (string \<times> string list) option list \<Rightarrow> bool) \<Rightarrow> bool" where
  "starts f Q \<longleftrightarrow> (\<forall>r s r' s'. f r s = (Inr r', s') \<longrightarrow>
     ru_directory r' = ru_directory r
     \<and> (\<exists>es new. ru_results r' = ru_results r @ es \<and> snd s' = snd s @ new \<and> entries_tell es new
         \<and> Q (ru_directory r) (map entry_call es)))"

lemma startsD:
  assumes "starts f Q" and "f r s = (Inr r', s')"
  obtains es new where "ru_directory r' = ru_directory r" "ru_results r' = ru_results r @ es" "snd s' = snd s @ new"
    "entries_tell es new" "Q (ru_directory r) (map entry_call es)"
  using assms unfolding starts_def by blast

lemma startsI:
  assumes "\<And>r s r' s'. f r s = (Inr r', s') \<Longrightarrow> ru_directory r' = ru_directory r
     \<and> (\<exists>es new. ru_results r' = ru_results r @ es \<and> snd s' = snd s @ new \<and> entries_tell es new
         \<and> Q (ru_directory r) (map entry_call es))"
  shows "starts f Q"
  using assms unfolding starts_def by blast

lemma starts_same:
  assumes "\<And>r s r' s'. f r s = (Inr r', s') \<Longrightarrow> \<exists>u. g r u = (Inr r', s') \<and> snd u = snd s" and "starts g Q"
  shows "starts f Q"
proof (rule startsI, goal_cases)
  case (1 r s r' s')
  from assms(1)[OF 1] obtain u where u: "g r u = (Inr r', s')" "snd u = snd s" by blast
  from startsD[OF assms(2) u(1)] show ?case unfolding u(2) by blast
qed

lemma settled_Inr: "settled r w = (Inr x, w') \<longleftrightarrow> r = Inr x \<and> w' = w"
  by (auto simp: settled_def)

lemmas step_Inr = chain_Inr settled_Inr in_context_Inr ensure_def

named_theorems starting

lemma starts_nothing [starting]: "starts (\<lambda>r. settled (Inr r)) (\<lambda>d cs. cs = [])"
  by (simp add: starts_def settled_Inr entries_tell_def)

lemma starts_after:
  assumes "starts f P" "starts g Q"
  shows "starts (\<lambda>r. chain (f r) g) (\<lambda>d cs. \<exists>a b. cs = a @ b \<and> P d a \<and> Q d b)"
proof (rule startsI, goal_cases)
  case (1 r s r' s')
  then obtain q u where q: "f r s = (Inr q, u)" "g q u = (Inr r', s')" by (auto simp: chain_Inr)
  from startsD[OF assms(1) q(1)] obtain es new where f: "ru_directory q = ru_directory r" "ru_results q = ru_results r @ es"
    "snd u = snd s @ new" "entries_tell es new" "P (ru_directory r) (map entry_call es)" by blast
  from startsD[OF assms(2) q(2)] obtain fs more where g: "ru_directory r' = ru_directory q" "ru_results r' = ru_results q @ fs"
    "snd s' = snd u @ more" "entries_tell fs more" "Q (ru_directory q) (map entry_call fs)" by blast
  show ?case using f g entries_tell_append[OF f(4) g(4)]
    by (intro conjI exI[of _ "es @ fs"] exI[of _ "new @ more"]) auto
qed

lemma starts_mono: "starts f P \<Longrightarrow> (\<And>d cs. P d cs \<Longrightarrow> Q d cs) \<Longrightarrow> starts f Q"
  unfolding starts_def by blast

lemma starts_context [starting]: "starts f Q \<Longrightarrow> starts (\<lambda>r. in_context t (f r)) Q"
  by (simp add: starts_def in_context_Inr)

lemma starts_unrun [starting]: "starts (\<lambda>r. record_entry (logged_runs W) r (SuiteNotRun reason)) (\<lambda>d cs. cs = [None])"
  by (auto simp: starts_def record_entry_def Let_def step_Inr logged_reads unlogged_eq entries_tell_def)

lemma entry_of_call [simp]: "entry_call (entry_of program args env status) = Some (program, args)"
  by (cases status) simp_all

lemma entry_of_passed: "entry_outcome (entry_of program args env status) = Passed \<longleftrightarrow> status = Inr (Some 0)"
  by (cases status) simp_all

lemma entry_of_tells: "entry_tells (entry_of program args env status) (program, args, env, status)"
  by (cases status) simp_all

lemma step_result:
  assumes "step (logged_runs W) r program args env s = (Inr r', s')"
  shows "\<exists>status. r' = r\<lparr>ru_results := ru_results r @ [entry_of program args env status]\<rparr>
    \<and> snd s' = snd s @ [(program, args, env, status)]"
proof -
  from assms obtain v where v: "snd v = snd s" and rest: "(case vw_spawn (logged_runs W) program args env v of (status, w) \<Rightarrow>
      chain (record_entry (logged_runs W) r (entry_of program args env status)) (\<lambda>r.
      chain (vw_explain (logged_runs W) (ru_directory r)) (\<lambda>_. settled (Inr r))) w) = (Inr r', s')"
    by (auto simp: step_def Let_def chain_Inr logged_reads unlogged_eq)
  obtain status x where spawn: "vw_spawn W program args env (fst v) = (status, x)" by (metis prod.collapse)
  then have "vw_spawn (logged_runs W) program args env v = (status, x, snd s @ [(program, args, env, status)])"
    using v by (cases v) (simp add: logged_runs_def)
  with rest show ?thesis by (auto simp: record_entry_def Let_def step_Inr logged_reads unlogged_eq)
qed

lemma starts_step_env: "starts (\<lambda>r. step (logged_runs W) r program args (env r)) (\<lambda>d cs. cs = [Some (program, args)])"
proof (rule startsI, goal_cases)
  case (1 r s r' s')
  from step_result[OF 1] obtain status where
    "r' = r\<lparr>ru_results := ru_results r @ [entry_of program args (env r) status]\<rparr>"
    "snd s' = snd s @ [(program, args, env r, status)]" by blast
  then show ?case
    by (intro conjI exI[of _ "[entry_of program args (env r) status]"] exI[of _ "[(program, args, env r, status)]"])
      (simp_all add: entries_tell_def entry_of_tells)
qed

lemmas starts_step [starting] = starts_step_env[where env = "\<lambda>r. env" for env]

abbreviation cargo_call :: "string list \<Rightarrow> (string \<times> string list) option" where
  "cargo_call args \<equiv> Some (''cargo'', ''+1.85.0'' # args)"

lemma starts_cargo_env [starting]:
  "starts (\<lambda>r. cargo_with_environment (logged_runs W) r args (env r)) (\<lambda>d cs. cs = [cargo_call args])"
  unfolding cargo_with_environment_def by (rule starts_step_env)

lemma starts_cargo [starting]: "starts (\<lambda>r. cargo (logged_runs W) r args) (\<lambda>d cs. cs = [cargo_call args])"
  unfolding cargo_def by (rule starts_cargo_env)

lemma starts_cargo_each [starting]: "starts (cargo_each (logged_runs W) ls) (\<lambda>d cs. cs = map cargo_call ls)"
proof (induction ls)
  case Nil
  then show ?case by (simp add: starts_def settled_Inr entries_tell_def)
next
  case (Cons l ls)
  have "cargo_each (logged_runs W) (l # ls) = (\<lambda>r. chain (cargo (logged_runs W) r l) (cargo_each (logged_runs W) ls))" by (rule ext) simp
  then show ?case using starts_mono[OF starts_after[OF starts_cargo Cons]] by simp
qed

lemma starts_checked: "starts (\<lambda>r. chain (settled (finish r)) (\<lambda>_. settled (Inr r))) (\<lambda>d cs. cs = [])"
  by (simp add: starts_def step_Inr entries_tell_def)

text \<open>The workflow files, all of them, and the audit's configuration\<close>

definition listed_workflows :: "'w verification_world \<Rightarrow> string list \<Rightarrow> bool" where
  "listed_workflows W workflows \<longleftrightarrow> (\<exists>paths u v. vw_workflows W u = (Inr paths, v) \<and> paths \<noteq> [] \<and> workflows = sort paths)"

definition audit_policy :: "'w verification_world \<Rightarrow> string \<Rightarrow> bool" where
  "audit_policy W policy \<longleftrightarrow> (\<exists>r u v. vw_audit_file W r u = (Inr policy, v))"

lemma starts_actionlint [starting]:
  "starts (actionlint (logged_runs W)) (\<lambda>d cs. \<exists>workflows. listed_workflows W workflows \<and> cs = [Some (''actionlint'', workflows)])"
proof (rule startsI, goal_cases)
  case (1 r s r' s')
  then obtain paths u where paths: "vw_workflows W (fst s) = (Inr paths, fst u)" "snd u = snd s" "paths \<noteq> []"
    and run: "step (logged_runs W) r ''actionlint'' (sort paths) [] u = (Inr r', s')"
    by (auto simp: actionlint_def step_Inr logged_reads unlogged_eq split: if_splits)
  from startsD[OF starts_step run] paths show ?case unfolding listed_workflows_def by metis
qed

definition audit_call :: "string \<Rightarrow> string \<times> string list" where
  "audit_call path = (''mise'', [''exec'', ''github:EmbarkStudios/cargo-deny'', ''--'', ''cargo-deny'', ''--config'', path, ''check''])"

lemma starts_audit [starting]:
  "starts (audit (logged_runs W) os) (\<lambda>d cs. \<exists>policy. audit_policy W policy \<and> cs = [Some (audit_call policy)])"
proof (rule startsI, goal_cases)
  case (1 r s r' s')
  then obtain path u env where path: "vw_audit_file W r (fst s) = (Inr path, fst u)" "snd u = snd s"
    and run: "step (logged_runs W) r ''mise''
      [''exec'', ''github:EmbarkStudios/cargo-deny'', ''--'', ''cargo-deny'', ''--config'', path, ''check''] env u = (Inr r', s')"
    unfolding audit_def Let_def by (auto simp: step_Inr logged_reads unlogged_eq)
  from startsD[OF starts_step run] path show ?case unfolding audit_policy_def audit_call_def by metis
qed

section \<open>A green run\<close>

definition native_calls :: "(string \<times> string list) option list" where
  "native_calls = map cargo_call [[''build'', ''--release'', ''--manifest-path'', ''fixtures/native/Cargo.toml''], native_arguments]"

definition smoke_calls :: "(string \<times> string list) option list" where
  "smoke_calls = map cargo_call
     [[''test'', ''--locked'', ''-p'', ''windows-task'', ''--all-features'', ''--test'', ''windows_smoke''],
      [''test'', ''--locked'', ''-p'', ''windows-task'', ''--all-features'', ''--test'', ''windows_smoke'', ''--'',
       ''--ignored'', ''--test-threads=1'', ''--show-output'']]"

definition suite_calls :: "'w verification_world \<Rightarrow> host \<Rightarrow> suite \<Rightarrow> string \<Rightarrow> (string \<times> string list) option list" where
  "suite_calls W os suite d =
     (if suite \<in> {Portable, AllSuites} then map cargo_call (portable_commands (vw_join W d ''input-corpus'')) else [])
     @ (if suite = Portable then [] else if os \<noteq> Windows then [None]
        else native_calls @ (if suite \<in> {WindowsSuite, AllSuites} then smoke_calls else []))"

definition harness_call :: "string \<Rightarrow> proof_target \<times> string \<Rightarrow> string \<times> string list" where
  "harness_call target = (\<lambda>(kind, harness). (''cargo'', proof_arguments kind
     @ [''--exact'', ''--harness'', harness, ''--jobs'', ''1'', ''--target-dir'', target, ''--output-format'', ''terse'']))"

definition prove_calls :: "'w verification_world \<Rightarrow> string \<Rightarrow> (string \<times> string list) option list" where
  "prove_calls W d = Some (''cargo'', [''kani'', ''--version''])
     # map (Some \<circ> harness_call (vw_join W (vw_join W d ''proofs'') ''target'')) REQUIRED_PROOFS"

lemma starts_native: "starts (native_suite (logged_runs W)) (\<lambda>d cs. cs = native_calls)"
  unfolding native_suite_def[abs_def] native_calls_def
  by (rule starts_mono[OF starts_after[OF starts_cargo starts_cargo_env]]) simp

lemma starts_windows: "starts (windows_suite (logged_runs W)) (\<lambda>d cs. cs = smoke_calls)"
  unfolding windows_suite_def[abs_def] smoke_calls_def
  by (rule starts_mono[OF starts_after[OF starts_cargo starts_cargo_env]]) simp

lemma starts_portable:
  "starts (\<lambda>r. cargo_each (logged_runs W) (portable_commands (vw_join W (ru_directory r) ''input-corpus'')) r)
    (\<lambda>d cs. cs = map cargo_call (portable_commands (vw_join W d ''input-corpus'')))"
  using starts_cargo_each[of W] unfolding starts_def logged_pure_fields by blast

lemma starts_suite [starting]: "starts (run_suite (logged_runs W) os suite) (\<lambda>d cs. cs = suite_calls W os suite d)"
proof -
  have unrun: "starts (\<lambda>r. record_entry (logged_runs W) r (SuiteNotRun reason)) (\<lambda>d cs. cs = [None])" for reason
    by (rule starts_unrun)
  have both: "starts (\<lambda>r. chain (native_suite (logged_runs W) r) (windows_suite (logged_runs W))) (\<lambda>d cs. cs = native_calls @ smoke_calls)"
    by (rule starts_mono[OF starts_after[OF starts_native starts_windows]]) simp
  have alone: "starts (\<lambda>r. chain (native_suite (logged_runs W) r) (\<lambda>r. settled (Inr r))) (\<lambda>d cs. cs = native_calls)"
    by (rule starts_mono[OF starts_after[OF starts_native starts_nothing]]) simp
  have none: "starts (\<lambda>r. chain (settled (Inr r)) (\<lambda>r. settled (Inr r))) (\<lambda>d cs. cs = [])"
    by (rule starts_mono[OF starts_after[OF starts_nothing starts_nothing]]) simp
  have rest: "starts (\<lambda>r. if suite \<in> {NativeFixture, WindowsSuite, AllSuites} \<and> os \<noteq> Windows then
         record_entry (logged_runs W) r (SuiteNotRun ''requires a Windows host; scheduler suites require a disposable host'')
       else
         chain (if suite \<in> {NativeFixture, WindowsSuite, AllSuites} then native_suite (logged_runs W) r else settled (Inr r)) (\<lambda>r.
           if suite \<in> {WindowsSuite, AllSuites} \<and> os = Windows then windows_suite (logged_runs W) r else settled (Inr r)))
     (\<lambda>d cs. cs = (if suite = Portable then [] else if os \<noteq> Windows then [None]
        else native_calls @ (if suite \<in> {WindowsSuite, AllSuites} then smoke_calls else [])))"
    using unrun both alone none by (cases suite; cases "os = Windows") simp_all
  have first: "starts (\<lambda>r. if suite \<in> {Portable, AllSuites}
        then cargo_each (logged_runs W) (portable_commands (vw_join W (ru_directory r) ''input-corpus'')) r else settled (Inr r))
      (\<lambda>d cs. cs = (if suite \<in> {Portable, AllSuites} then map cargo_call (portable_commands (vw_join W d ''input-corpus'')) else []))"
    using starts_portable starts_nothing by (cases "suite \<in> {Portable, AllSuites}") simp_all
  show ?thesis unfolding run_suite_def[abs_def] logged_pure_fields
    by (rule starts_mono[OF starts_after[OF first rest]]) (simp add: suite_calls_def)
qed

lemma starts_features [starting]: "starts (run_features (logged_runs W)) (\<lambda>d cs. cs = map (cargo_call \<circ> feature_arguments) feature_sets)"
  unfolding run_features_def[abs_def] using starts_cargo_each[of W "map feature_arguments feature_sets"] by simp

lemma starts_harness:
  "starts (\<lambda>r. verify_harness (logged_runs W) target r kind harness) (\<lambda>d cs. cs = [Some (harness_call target (kind, harness))])"
  unfolding verify_harness_def[abs_def] harness_call_def
  by (rule starts_mono[OF starts_after[OF starts_step starts_checked]]) simp

lemma starts_each: "starts (verify_each (verify_harness (logged_runs W) target) proofs) (\<lambda>d cs. cs = map (Some \<circ> harness_call target) proofs)"
proof (induction proofs)
  case Nil
  then show ?case by (simp add: starts_def settled_Inr entries_tell_def)
next
  case (Cons p proofs)
  obtain kind harness where p: "p = (kind, harness)" by fastforce
  have "verify_each (verify_harness (logged_runs W) target) (p # proofs)
      = (\<lambda>r. chain (verify_harness (logged_runs W) target r kind harness) (verify_each (verify_harness (logged_runs W) target) proofs))"
    by (rule ext) (simp add: p)
  then show ?case using starts_mono[OF starts_after[OF starts_harness Cons]] by (simp add: p)
qed

lemma starts_batch:
  "starts (\<lambda>r. verify_proof_batch (proof_target_directory (logged_runs W) r) (verify_harness (logged_runs W)) r)
    (\<lambda>d cs. cs = map (Some \<circ> harness_call (vw_join W (vw_join W d ''proofs'') ''target'')) REQUIRED_PROOFS)"
proof (rule startsI, goal_cases)
  case (1 r s r' s')
  let ?target = "vw_join W (vw_join W (ru_directory r) ''proofs'') ''target''"
  from 1 obtain u where u: "snd u = snd s" and run: "verify_each (verify_harness (logged_runs W) ?target) REQUIRED_PROOFS r u = (Inr r', s')"
    by (auto simp: verify_proof_batch_def proof_target_directory_def Let_def step_Inr logged_reads unlogged_eq)
  from startsD[OF starts_each run] show ?case unfolding u by blast
qed

lemma starts_harnesses: "starts (prove_harnesses (logged_runs W) version_log)
    (\<lambda>d cs. cs = map (Some \<circ> harness_call (vw_join W (vw_join W d ''proofs'') ''target'')) REQUIRED_PROOFS)"
proof (rule starts_same[OF _ starts_batch], goal_cases)
  case (1 r s r' s')
  then show ?case
    by (auto simp: prove_harnesses_def step_Inr logged_reads unlogged_eq split: if_splits)
qed

lemma starts_prove [starting]: "starts (prove (logged_runs W)) (\<lambda>d cs. cs = prove_calls W d)"
proof -
  have D: "starts (\<lambda>r. chain (step (logged_runs W) r ''cargo'' [''kani'', ''--version''] []) (prove_harnesses (logged_runs W) version_log))
      (\<lambda>d cs. cs = prove_calls W d)" for version_log
    by (rule starts_mono[OF starts_after[OF starts_step starts_harnesses]]) (simp add: prove_calls_def)
  have run: "prove (logged_runs W) r s = (Inr r', s') \<Longrightarrow> \<exists>version_log.
      chain (step (logged_runs W) r ''cargo'' [''kani'', ''--version''] []) (prove_harnesses (logged_runs W) version_log) s = (Inr r', s')"
    for r s r' s'
    unfolding prove_def Let_def by (subst (asm) chain_Inr) (auto simp: settled_Inr)
  show ?thesis
  proof (rule startsI, goal_cases)
    case (1 r s r' s')
    from run[OF 1] obtain version_log where "chain (step (logged_runs W) r ''cargo'' [''kani'', ''--version''] [])
      (prove_harnesses (logged_runs W) version_log) s = (Inr r', s')" by blast
    from startsD[OF D this] show ?case by blast
  qed
qed

definition ci_calls ::
  "'w verification_world \<Rightarrow> host \<Rightarrow> suite \<Rightarrow> string \<Rightarrow> string list \<Rightarrow> string \<Rightarrow> (string \<times> string list) option list" where
  "ci_calls W os suite d workflows policy =
     map cargo_call [[''fmt'', ''--all'', ''--'', ''--check''],
       [''clippy'', ''--locked'', ''--workspace'', ''--all-targets'', ''--all-features'', ''--'', ''-D'', ''warnings'']]
     @ suite_calls W os suite d
     @ map (cargo_call \<circ> feature_arguments) feature_sets
     @ [cargo_call [''doc'', ''--locked'', ''--workspace'', ''--all-features'', ''--no-deps'']]
     @ map (\<lambda>target. cargo_call [''check'', ''--locked'', ''--workspace'', ''--all-targets'', ''--all-features'', ''--target'', target])
         [''x86_64-pc-windows-msvc'', ''aarch64-pc-windows-msvc'']
     @ [cargo_call [''xtask'', ''strict-code''], Some (''typos'', []), Some (''yamllint'', [''.'']),
        Some (''actionlint'', workflows), Some (audit_call policy)]
     @ (if os = Linux then prove_calls W d else [])
     @ [if os = Windows then Some (''cmd'', [''/d'', ''/c'', ''markdownlint-cli2''] @ lint_arguments)
        else Some (''markdownlint-cli2'', lint_arguments)]"

lemma starts_ci:
  "starts (ci_steps (logged_runs W) os suite) (\<lambda>d cs. \<exists>workflows policy. listed_workflows W workflows \<and> audit_policy W policy
    \<and> cs = ci_calls W os suite d workflows policy)"
proof -
  have proofs: "starts (\<lambda>r. if os = Linux then prove (logged_runs W) r else settled (Inr r)) (\<lambda>d cs. cs = (if os = Linux then prove_calls W d else []))"
    using starts_prove starts_nothing by (cases "os = Linux") simp_all
  have lint: "starts (\<lambda>r. if os = Windows then step (logged_runs W) r ''cmd'' ([''/d'', ''/c'', ''markdownlint-cli2''] @ lint_arguments) []
       else step (logged_runs W) r ''markdownlint-cli2'' lint_arguments [])
     (\<lambda>d cs. cs = [if os = Windows then Some (''cmd'', [''/d'', ''/c'', ''markdownlint-cli2''] @ lint_arguments)
        else Some (''markdownlint-cli2'', lint_arguments)])"
    using starts_step by (cases "os = Windows") simp_all
  show ?thesis unfolding ci_steps_def[abs_def]
    by (rule starts_mono[OF starts_after[OF starts_cargo_each starts_after[OF starts_suite starts_after[OF starts_features
        starts_after[OF starts_cargo_env starts_after[OF starts_cargo_each starts_after[OF starts_context[OF starts_step]
        starts_after[OF starts_context[OF starts_step] starts_after[OF starts_actionlint starts_after[OF starts_audit
        starts_after[OF proofs lint]]]]]]]]]]])
      (auto simp: ci_calls_def, blast+)
qed

lemma finish_passed: "finish r = Inr () \<longleftrightarrow> list_all (\<lambda>e. entry_outcome e = Passed) (ru_results r)"
  by (auto simp: finish_def list_ex_iff list_all_iff)

lemma suite_needs_windows: "None \<notin> set (suite_calls W os suite d) \<Longrightarrow> suite \<noteq> Portable \<Longrightarrow> os = Windows"
  by (auto simp: suite_calls_def split: if_splits)

lemma told_calls: "entries_tell es spawned \<Longrightarrow> None \<notin> set (map entry_call es) \<Longrightarrow>
    map (\<lambda>(program, args, env, status). Some (program, args)) spawned = map entry_call es
    \<and> (list_all (\<lambda>e. entry_outcome e = Passed) es \<longrightarrow> list_all (\<lambda>(program, args, env, status). status = Inr (Some 0)) spawned)"
proof -
  assume "entries_tell es spawned" "None \<notin> set (map entry_call es)"
  moreover from this(2) have "\<forall>e \<in> set es. entry_call e \<noteq> None" by (metis image_eqI image_set)
  then have "filter (\<lambda>e. entry_call e \<noteq> None) es = es" by (rule filter_True)
  ultimately have "list_all2 entry_tells es spawned" by (simp add: entries_tell_def)
  then show ?thesis
  proof induction
    case (Cons e es p spawned)
    then show ?case by (cases e; cases p) auto
  qed simp
qed

text \<open>C40. A green run is a real one: when the CI entry point succeeds, the processes that it started, by the log of
  the world that starts them, are exactly the commands of its plan (program and arguments), in order, the proof
  harnesses on Linux, every workflow file and the audit included; each of them was started and ended with exit
  code 0; and a suite that needs Windows was run on Windows.\<close>

theorem ci_green:
  assumes "ci_entry (logged_runs W) os suite (w, []) = (Inr (), (w', spawned))"
  shows "\<exists>r0 w0 workflows policy. vw_start W w = (Inr r0, w0)
    \<and> listed_workflows W workflows \<and> audit_policy W policy
    \<and> map (\<lambda>(program, args, env, status). Some (program, args)) spawned
        = ci_calls W os suite (ru_directory r0) workflows policy
    \<and> list_all (\<lambda>(program, args, env, status). status = Inr (Some 0)) spawned \<and> (suite = Portable \<or> os = Windows)"
proof -
  from assms obtain r0 w0 r where run: "vw_start W w = (Inr r0, w0)" "ci_steps (logged_runs W) os suite r0 (w0, []) = (Inr r, (w', spawned))"
    and green: "finish r = Inr ()"
    by (auto simp: ci_entry_def finished_def step_Inr logged_reads unlogged_eq)
  obtain es new where told: "ru_results r = ru_results r0 @ es"
      "snd (w', spawned) = snd (w0, []) @ new" "entries_tell es new"
      "\<exists>workflows policy. listed_workflows W workflows \<and> audit_policy W policy
        \<and> map entry_call es = ci_calls W os suite (ru_directory r0) workflows policy"
    by (rule startsD[OF starts_ci run(2)]) (rule that; assumption)
  from told(4) obtain workflows policy where plan: "listed_workflows W workflows" "audit_policy W policy"
      "map entry_call es = ci_calls W os suite (ru_directory r0) workflows policy" by blast
  have "entries_tell es spawned" using told(2,3) by simp
  note es = told(1) this plan
  have passed: "list_all (\<lambda>e. entry_outcome e = Passed) es" using green es(1) by (simp add: finish_passed)
  have "entry_call e \<noteq> None" if "e \<in> set es" for e using passed that by (cases e) (auto simp: list_all_iff)
  then have none: "None \<notin> set (map entry_call es)" by force
  then have "None \<notin> set (suite_calls W os suite (ru_directory r0))" unfolding es(5) ci_calls_def by simp
  then have "suite = Portable \<or> os = Windows" using suite_needs_windows by blast
  then show ?thesis using run(1) es(3-5) passed told_calls[OF es(2) none]
    by (intro exI[of _ r0] exI[of _ w0] exI[of _ workflows] exI[of _ policy] conjI) simp_all
qed

definition sample_verification :: "unit verification_world" where
  "sample_verification =
     \<lparr>vw_start = settled (Inr \<lparr>ru_directory = ''d'', ru_target = ''t'', ru_results = []\<rparr>), vw_join = (\<lambda>a b. a @ ''/'' @ b),
      vw_file_text = (\<lambda>i s. s), vw_create = (\<lambda>p. settled (Inr ())), vw_spawn = (\<lambda>p a e w. (Inr (Some 0), w)),
      vw_record = (\<lambda>d es. settled (Inr ())), vw_explain = (\<lambda>d. settled (Inr ())), vw_make_directory = (\<lambda>d. settled (Inr ())),
      vw_read = (\<lambda>p. settled (Inr [''Kani Rust Verifier 0.68.0 (cargo plugin)''])),
      vw_workflows = settled (Inr [''ci.yml'']), vw_audit_file = (\<lambda>r. settled (Inr ''deny.toml'')), vw_variable = (\<lambda>v. [])\<rparr>"

abbreviation sample_runs :: "(unit \<times> spawned list) verification_world" where
  "sample_runs \<equiv> logged_runs sample_verification"

text \<open>On the sample every part of a run goes well.\<close>

definition goes_well :: "(run \<Rightarrow> (unit \<times> spawned list, run) step) \<Rightarrow> bool" where
  "goes_well f \<longleftrightarrow> (\<forall>r log. finish r = Inr () \<longrightarrow> (\<exists>r' log'. f r ((), log) = (Inr r', ((), log')) \<and> finish r' = Inr ()))"

lemma well_after:
  assumes "goes_well f" "goes_well g"
  shows "goes_well (\<lambda>r. chain (f r) g)"
  unfolding goes_well_def
proof (intro allI impI)
  fix r log
  assume "finish r = Inr ()"
  then obtain q l where q: "f r ((), log) = (Inr q, ((), l))" "finish q = Inr ()"
    using assms(1) unfolding goes_well_def by blast
  then show "\<exists>r' log'. chain (f r) g ((), log) = (Inr r', ((), log')) \<and> finish r' = Inr ()"
    using assms(2) unfolding goes_well_def by (simp add: chain_def)
qed

lemma well_done: "goes_well (\<lambda>r. settled (Inr r))"
  by (simp add: goes_well_def settled_def)

lemma sample_step: "step sample_runs r program args env ((), log) =
    (Inr (r\<lparr>ru_results := ru_results r @ [Step program args env Passed (Some 0) None]\<rparr>), ((), log @ [(program, args, env, Inr (Some 0))]))"
  by (simp add: step_def record_entry_def sample_verification_def logged_runs_def unlogged_def chain_def settled_def Let_def)

lemma well_step: "goes_well (\<lambda>r. step sample_runs r program args (env r))"
  by (simp add: goes_well_def sample_step finish_passed)

lemma well_cargo: "goes_well (\<lambda>r. cargo_with_environment sample_runs r args (env r))" "goes_well (\<lambda>r. cargo sample_runs r args)"
  unfolding cargo_def cargo_with_environment_def by (rule well_step)+

lemma well_cargo_each: "goes_well (cargo_each sample_runs ls)"
proof (induction ls)
  case Nil
  then show ?case by (simp add: goes_well_def settled_def)
next
  case (Cons l ls)
  have "cargo_each sample_runs (l # ls) = (\<lambda>r. chain (cargo sample_runs r l) (cargo_each sample_runs ls))"
    by (rule ext) simp
  then show ?case using well_after[OF well_cargo(2) Cons] by simp
qed

lemma well_suite: "goes_well (run_suite sample_runs OtherHost Portable)"
proof -
  have "goes_well (\<lambda>r. cargo_each sample_runs (portable_commands (vw_join sample_runs (ru_directory r) ''input-corpus'')) r)"
    using well_cargo_each unfolding goes_well_def by blast
  from well_after[OF this well_after[OF well_done well_done]] show ?thesis by (simp add: run_suite_def[abs_def])
qed

lemma well_features: "goes_well (run_features sample_runs)"
  unfolding run_features_def[abs_def] by (rule well_cargo_each)

lemma well_context: "goes_well f \<Longrightarrow> goes_well (\<lambda>r. in_context t (f r))"
  by (simp add: goes_well_def in_context_Inr)

lemma well_lint: "goes_well (actionlint sample_runs)" "goes_well (audit sample_runs OtherHost)"
  by (simp_all add: goes_well_def actionlint_def audit_def Let_def chain_def ensure_def settled_def sample_step finish_passed
      logged_reads unlogged_def
      sample_verification_def[THEN arg_cong[of _ _ vw_workflows]] sample_verification_def[THEN arg_cong[of _ _ vw_audit_file]])

lemma sample_ci: "\<exists>spawned. ci_entry sample_runs OtherHost Portable ((), []) = (Inr (), ((), spawned))"
proof -
  have other: "(OtherHost = Linux) = False" "(OtherHost = Windows) = False" by simp_all
  let ?r = "\<lparr>ru_directory = ''d'', ru_target = ''t'', ru_results = []\<rparr>"
  have "goes_well (ci_steps sample_runs OtherHost Portable)"
    unfolding ci_steps_def[abs_def] other if_False
    by (rule well_after[OF well_cargo_each well_after[OF well_suite well_after[OF well_features
        well_after[OF well_cargo(1) well_after[OF well_cargo_each well_after[OF well_context[OF well_step]
        well_after[OF well_context[OF well_step] well_after[OF well_lint(1) well_after[OF well_lint(2)
        well_after[OF well_done well_step]]]]]]]]]])
  moreover have "finish ?r = Inr ()" by (simp add: finish_def)
  ultimately obtain r spawned where "ci_steps sample_runs OtherHost Portable ?r ((), []) = (Inr r, ((), spawned))"
    "finish r = Inr ()"
    unfolding goes_well_def by blast
  moreover have "vw_start sample_runs ((), []) = (Inr ?r, ((), []))"
    by (simp add: sample_verification_def logged_runs_def unlogged_def settled_def)
  ultimately show ?thesis by (simp add: ci_entry_def finished_def chain_def settled_def)
qed

lemma ci_green_witness:
  "\<exists>spawned (r0 :: run) workflows policy. ci_entry sample_runs OtherHost Portable ((), []) = (Inr (), ((), spawned))
    \<and> map (\<lambda>(program, args, env, status). Some (program, args)) spawned
        = ci_calls sample_verification OtherHost Portable (ru_directory r0) workflows policy
    \<and> spawned \<noteq> [] \<and> list_all (\<lambda>(program, args, env, status). status = Inr (Some 0)) spawned"
proof -
  obtain spawned where run: "ci_entry sample_runs OtherHost Portable ((), []) = (Inr (), ((), spawned))" using sample_ci by blast
  from ci_green[OF run] obtain r0 :: run and workflows policy where calls:
    "map (\<lambda>(program, args, env, status). Some (program, args)) spawned
        = ci_calls sample_verification OtherHost Portable (ru_directory r0) workflows policy"
    and passed: "list_all (\<lambda>(program, args, env, status). status = Inr (Some 0)) spawned" by (elim exE conjE) (rule that; assumption)
  have "spawned \<noteq> []" using calls by (auto simp: ci_calls_def)
  with run calls passed show ?thesis
    by (intro exI[of _ spawned] exI[of _ r0] exI[of _ workflows] exI[of _ policy] conjI)
qed

end
