(* ===== verification/Spec2Isabelle.thy ===== *)
theory Spec2Isabelle
  imports Path Time Ordering Actions Settings Triggers Definition Validation Schedule Manifest Plan Safety Xml History Wait Watch Worker Com_Server Session_Calls Exit_Codes Handler_Setup Verification_Run
begin

text \<open>
  A verification library for \<open>windows-task\<close>, a Rust library that manages Windows Task Scheduler:
  typed task definitions and their XML, validation, schedules, a scheduler session on a dedicated COM
  thread, execution history, declarative reconciliation of manifests with compensation of failed runs,
  and the COM handlers a task can start. Its sources are in \<open>src/crates/windows-task/src\<close>, those of
  its command line in \<open>src/crates/windows-task-cli/src\<close>.

  \<^bold>\<open>Conventions.\<close> A Rust \<open>str\<close> is its list of UTF-8 bytes; machine integers are words of their width (or
  natural numbers where the source checks the range); \<open>Result\<close> is a sum with the error on the left; an
  operation on the outside world is a state transformer that returns a result and the world it reached,
  also on an error (\<open>effect\<close>). Error messages keep the arguments of \<open>format!\<close> as fragments.
  Concurrency is a step relation over the shared state in which every thread may move next.

  \<^bold>\<open>Foundations.\<close> \<open>Prelude\<close> (results, machine integers), \<open>Strings\<close> (byte strings, decimal and hexadecimal text,
  the contract of a canonical text form), \<open>Ordered\<close> (B-tree maps and sets as sorted lists), \<open>Errors\<close> (\<open>error.rs\<close> and the
  reports of \<open>validation.rs\<close>), \<open>Unicode\<close> (UTF-8 and UTF-16), \<open>Loops\<close> (loops that may not end: the rule for what
  they return and the rule that they return).

  \<^bold>\<open>Model of tasks.\<close> \<open>Path\<close> (\<open>path.rs\<close>), \<open>Time\<close> (\<open>model/time.rs\<close>), \<open>Actions\<close> (\<open>model/action.rs\<close>), \<open>Settings\<close> (\<open>model/principal.rs\<close>,
  \<open>model/settings.rs\<close>), \<open>Triggers\<close> (\<open>model/trigger.rs\<close>), \<open>Definition\<close> (\<open>model/mod.rs\<close>), \<open>Validation\<close> (\<open>validation.rs\<close>,
  \<open>model/builder.rs\<close>), \<open>Schedule\<close> (\<open>schedule.rs\<close>). Shown: which texts the parsers accept, that printing and parsing
  are inverse, that Windows argument quoting survives the documented splitting rules, that validation
  accepts exactly the well-formed definitions, what a cron field denotes, and that no conversion to native
  triggers can leave its range.

  \<^bold>\<open>Task XML.\<close> \<open>Ordering\<close> (\<open>xml/ordering.rs\<close>), \<open>Xml_Tree\<close>, \<open>Xml_Dom\<close> (decoding and the bounded stack machine of
  \<open>xml.rs\<close>), \<open>Xml_Read\<close> (nodes to definitions), \<open>Xml_Write\<close> (the writer, through a tree of markup that \<open>render\<close> turns
  into text), \<open>Xml_Bounds\<close> (limits on bytes, nodes, depth), \<open>Xml_Round\<close> (reading what was written, on trees), \<open>Xml_Events\<close>
  and \<open>Xml_Tokenizer\<close> (the same through the events of a reader, with an executable reader as the instance of
  what is asked of it), \<open>Xml\<close> (the composition on bytes). The quick-xml reader and its entity decoder are
  parameters; the round trip asks of the reader that it reports the events of written documents, and of the
  definition that it is \<open>writable\<close>, which lemmas on definitions that read back as others show to be needed.

  \<^bold>\<open>Reconciliation.\<close> \<open>Manifest\<close> (\<open>manifest.rs\<close>), \<open>Changes\<close> (the data of \<open>reconcile.rs\<close> and \<open>client/mod.rs\<close>), \<open>Plan\<close> (planning),
  \<open>Backend\<close> (\<open>reconcile/backend.rs\<close>: the interface as a record of effects, the recording wrapper, the locales
  \<open>quiet_reads\<close> and \<open>simulation\<close>), \<open>Observe\<close>, \<open>Execute\<close> and \<open>Apply\<close> (\<open>reconcile/recovery.rs\<close>: inspection, preflight, mutation,
  verification, compensation), \<open>Frame\<close> (which part of the world an execution can touch), \<open>Fake\<close> (the in-memory
  scheduler of \<open>reconcile/fault_tests.rs\<close>, the instance of the backend contracts), \<open>Safety\<close> (the composition). Shown: a
  plan stays in its namespace (but for the folders above a namespace that is itself a task), respects ownership and orders its changes so that they can be executed; it
  is empty exactly when nothing differs; whatever an apply changes was planned, permitted and announced in
  its journal; the report accounts for every change; compensation never overwrites foreign changes and
  confirms what it reports.

  \<^bold>\<open>Sessions and history.\<close> \<open>Worker\<close> (\<open>client/mod.rs\<close>: queue, worker thread, futures, shutdown), \<open>History\<close> (\<open>history.rs\<close>), \<open>Wait\<close>
  (\<open>client/wait.rs\<close>), \<open>Watch\<close> (\<open>client/watch.rs\<close>). Shown: the worker serializes the session and runs no
  cancelled operation, and a confirmed shutdown has drained the queue unless a job panicked before; a run result is exact only on the evidence of correlated events; waiting ends on a
  clock that advances (locale \<open>advancing_clock\<close>); the watcher delivers a prefix of the matching events in order, for
  every log that only grows (locales \<open>event_log\<close>, \<open>watched_log\<close>, interpreted on the source of the tests).

  \<^bold>\<open>Native session.\<close> \<open>Native_Error\<close> (classification of native failures), \<open>Event_Access\<close> (the Event Log), \<open>Session\<close> (connecting,
  diagnostics, conversions), \<open>Session_Ops\<close> (tasks, instances, registration, folders), \<open>Session_Tree\<close> (recursive listings,
  security descriptors, the production backend), all of \<open>client/sys.rs\<close> with its helpers in \<open>client/mod.rs\<close>. The
  COM service is the record \<open>com_service\<close> of native calls on handles, the Event Log the record \<open>evt_api\<close>. A traced
  service keeps its mutating calls; \<open>Session_Calls\<close> shows which ones a registration, a run or a descriptor makes, on which object and with which arguments,
  and that reading through the production backend makes none (the locale \<open>quiet_reads\<close> on \<open>native_backend\<close>);
  \<open>Session_Listing\<close> shows what a recursive listing returns on a service that shows a tree.

  \<^bold>\<open>Client and command line.\<close> \<open>Credentials\<close> (\<open>credentials.rs\<close>: secrets of the Credential Manager), \<open>Facade\<close> (\<open>client/mod.rs\<close>: the
  connection builder, the requests of the blocking view and what the session does with each), \<open>Command_Args\<close> and \<open>Command_Line\<close>
  (\<open>windows-task-cli/src/main.rs\<close>: every parsed command with its calls, documents and exit code). A traced platform
  keeps the mutating calls of the service and of the Event Log; \<open>Command_Safety\<close> shows which ones a command may make and on which
  task, folder, instance or log, whatever the scheduler, the Event Log, the clock and the files do, and \<open>Exit_Codes\<close> what an exit code says.

  \<^bold>\<open>Build automation.\<close> \<open>Handler_Setup\<close> (\<open>windows-task-macros/src/lib.rs\<close>: the CLSID of a handler; \<open>xtask/src/main.rs\<close>: its
  registration), \<open>Release\<close> (\<open>xtask/src/release.rs\<close>: uploads to a draft release), \<open>Verification_Run\<close> (\<open>xtask/src/verification.rs\<close>:
  recorded runs). Shown: the exact CLSIDs; a registration file gives back the path of the DLL and has no line more;
  an upload replaces nothing and its success means a complete draft, by the log of what was sent and what the
  service showed; a green run has started everything planned, by the log of the processes, each with exit code 0.

  \<^bold>\<open>Handlers.\<close> \<open>Handler\<close> and \<open>Com_Server\<close> (\<open>handler.rs\<close>: the control, the progress reporter, one invocation with all its
  threads, the class factory and the counters of the DLL). Shown: Task Scheduler hears of a completion at
  most once and then nothing more, the end of a run is told unless a completion was claimed too late, the DLL
  may be unloaded exactly when nothing of it is in use, Stop is final for its invocation.

  \<^bold>\<open>Parameters.\<close> Code outside the repository is an argument of the definitions that use it: the jiff
  civil-time parser, UUID and timestamp parsers and printers, the quick-xml reader and \<open>unescape\<close>, the serde
  decoders of manifests, the COM service and the Event Log functions, the credential resolver, the clock, the
  Event Log behind a page source, \<open>CredReadW\<close> and the files. Lemmas that need more than their types state it as a hypothesis, and each
  such hypothesis holds for the instance its witness uses.

  \<^bold>\<open>Fuel and bounds.\<close> Loops of the source are structural recursions or have a measure. The loops that may not
  end, waiting for a run above all, are partial functions into \<open>option\<close> (\<open>Loops\<close>), and that they return is a theorem
  of its own. The recursive listings take the depth they may reach, and every depth beyond the height of the
  folder tree gives the same result. No other theorem rests on fuel.

  \<^bold>\<open>Not modelled.\<close> What COM, the Event Log and the Credential Manager do behind their functions, the release of
  handles and the wiping of memory, the asynchronous view (it forwards to the operations of \<open>Facade\<close>), tracing, metrics
  and log output (\<open>observe.rs\<close>), argument parsing (clap), the serialized form of printed documents and manifests (serde),
  the token parsing and generated code of the procedural macro, the
  packaging, coverage and source-scan tasks, the unit tests apart from the fixtures named above.
\<close>

end
